(* ===== verification/Prelude.thy ===== *)
theory Prelude
  imports Main "HOL-Library.Word" "HOL-Library.AList"
begin

text \<open>
  Shared material of the development: the exceptions of the code as a datatype, results that
  are either an exception or a value, state-passing computations whose state survives an
  exception (as C++ side effects do), loops that stop at the first exception, association
  lists, and decimal text.
\<close>

unbundle bit_operations_syntax

named_theorems res_simps \<open>equations and equivalences of the exception results\<close>
named_theorems st_simps \<open>equations of the state-passing computations\<close>

section \<open>Exceptions and results\<close>

datatype error =
    Assert_Exception
  | Overflow_Exception
  | Key_Not_Found
  | Parse_Error
  | Invalid_Argument
  | Out_Of_Range
  | Unlinkable_Block
  | Pop_Empty_Chain
  | Undo_Database_Exception
  | Invalid_Committee_Approval
  | Tx_Missing_Other_Auth
  | Tx_Missing_Active_Auth
  | Tx_Missing_Owner_Auth
  | Tx_Irrelevant_Sig
  | Tx_Duplicate_Sig
  | Insufficient_Fee
  | Max_Auth_Exceeded
  | Auth_Account_Not_Found
  | Unknown_Commitment
  | Net_Unlinkable_Block
  | Peer_Is_On_An_Unreachable_Fork
  | Block_Older_Than_Undo_History
  | Undefined_Behaviour

type_synonym 'a res = "error + 'a"

definition res_bind :: "'a res \<Rightarrow> ('a \<Rightarrow> 'b res) \<Rightarrow> 'b res" where
  "res_bind m f = (case m of Inl e \<Rightarrow> Inl e | Inr x \<Rightarrow> f x)"

definition assert_that :: "bool \<Rightarrow> error \<Rightarrow> unit res" where
  "assert_that b e = (if b then Inr () else Inl e)"

abbreviation fc_assert :: "bool \<Rightarrow> unit res" where
  "fc_assert b \<equiv> assert_that b Assert_Exception"

definition of_option :: "error \<Rightarrow> 'a option \<Rightarrow> 'a res" where
  "of_option e x = (case x of None \<Rightarrow> Inl e | Some y \<Rightarrow> Inr y)"

definition is_ok :: "'a res \<Rightarrow> bool" where
  "is_ok m = (case m of Inl _ \<Rightarrow> False | Inr _ \<Rightarrow> True)"

lemma res_bind_Inl [simp, res_simps]: "res_bind (Inl e) f = Inl e"
  by (simp add: res_bind_def)

lemma res_bind_Inr [simp, res_simps]: "res_bind (Inr x) f = f x"
  by (simp add: res_bind_def)

lemma res_bind_eq_Inr [res_simps]:
  "res_bind m f = Inr y \<longleftrightarrow> (\<exists>x. m = Inr x \<and> f x = Inr y)"
  by (cases m) auto

lemma res_bind_eq_Inl [res_simps]:
  "res_bind m f = Inl e \<longleftrightarrow> m = Inl e \<or> (\<exists>x. m = Inr x \<and> f x = Inl e)"
  by (cases m) auto

lemma res_bind_assoc: "res_bind (res_bind m f) g = res_bind m (\<lambda>x. res_bind (f x) g)"
  by (cases m) auto

lemma res_bind_cong [fundef_cong]:
  "m = m' \<Longrightarrow> (\<And>x. m' = Inr x \<Longrightarrow> f x = f' x) \<Longrightarrow> res_bind m f = res_bind m' f'"
  by (cases m') auto

lemma assert_that_eq_Inr [simp, res_simps]: "assert_that b e = Inr u \<longleftrightarrow> b"
  by (simp add: assert_that_def)

lemma assert_that_eq_Inl [simp, res_simps]: "assert_that b e = Inl e' \<longleftrightarrow> \<not> b \<and> e' = e"
  by (auto simp: assert_that_def)

lemma assert_that_True [simp]: "assert_that True e = Inr ()"
  by (simp add: assert_that_def)

lemma assert_that_False [simp]: "assert_that False e = Inl e"
  by (simp add: assert_that_def)

lemma of_option_eq_Inr [simp, res_simps]: "of_option e x = Inr y \<longleftrightarrow> x = Some y"
  by (cases x) (auto simp: of_option_def)

lemma of_option_eq_Inl [simp, res_simps]: "of_option e x = Inl e' \<longleftrightarrow> x = None \<and> e' = e"
  by (cases x) (auto simp: of_option_def)

lemma of_option_Some [simp]: "of_option e (Some y) = Inr y"
  by (simp add: of_option_def)

lemma of_option_None [simp]: "of_option e None = Inl e"
  by (simp add: of_option_def)

lemma is_ok_Inr [simp]: "is_ok (Inr x)" and is_ok_Inl [simp]: "\<not> is_ok (Inl e)"
  by (simp_all add: is_ok_def)

lemma is_ok_iff: "is_ok m \<longleftrightarrow> (\<exists>x. m = Inr x)"
  by (cases m) auto

subsection \<open>Loops that stop at the first exception\<close>

fun res_fold :: "('a \<Rightarrow> 's \<Rightarrow> 's res) \<Rightarrow> 'a list \<Rightarrow> 's \<Rightarrow> 's res" where
  "res_fold f [] s = Inr s"
| "res_fold f (x # xs) s = res_bind (f x s) (res_fold f xs)"

lemma res_fold_append:
  "res_fold f (xs @ ys) s = res_bind (res_fold f xs s) (res_fold f ys)"
proof (induction xs arbitrary: s)
  case (Cons x xs)
  then show ?case by (cases "f x s") auto
qed simp

lemma res_fold_cong [fundef_cong]:
  assumes "xs = ys" and "s = t" and "\<And>x s. x \<in> set ys \<Longrightarrow> f x s = g x s"
  shows "res_fold f xs s = res_fold g ys t"
proof -
  have "res_fold f ys t = res_fold g ys t" for t
    using assms(3) by (induction ys arbitrary: t) (auto intro!: res_bind_cong)
  with assms(1,2) show ?thesis by simp
qed

lemma res_fold_invariant:
  assumes "res_fold f xs s = Inr t" and "P s"
    and "\<And>x s s'. x \<in> set xs \<Longrightarrow> P s \<Longrightarrow> f x s = Inr s' \<Longrightarrow> P s'"
  shows "P t"
  using assms by (induction xs arbitrary: s) (auto simp: res_bind_eq_Inr)

lemma res_fold_const:
  assumes "res_fold f xs s = Inr t" and "\<And>x s s'. x \<in> set xs \<Longrightarrow> f x s = Inr s' \<Longrightarrow> g s' = g s"
  shows "g t = g s"
  by (rule res_fold_invariant [OF assms(1), where P = "\<lambda>x. g x = g s"]) (simp_all add: assms(2))

section \<open>State-passing computations\<close>

text \<open>
  A member function that changes its object and may throw: the state after a throw is the
  state reached so far, because C++ does not undo side effects.
\<close>

type_synonym ('s, 'r) st = "'s \<Rightarrow> 'r res \<times> 's"

definition st_ret :: "'r \<Rightarrow> ('s, 'r) st" where
  "st_ret r s = (Inr r, s)"

definition st_throw :: "error \<Rightarrow> ('s, 'r) st" where
  "st_throw e s = (Inl e, s)"

definition st_bind :: "('s, 'a) st \<Rightarrow> ('a \<Rightarrow> ('s, 'b) st) \<Rightarrow> ('s, 'b) st" where
  "st_bind m f s = (case m s of (Inl e, s') \<Rightarrow> (Inl e, s') | (Inr x, s') \<Rightarrow> f x s')"

definition st_update :: "('s \<Rightarrow> 's) \<Rightarrow> ('s, unit) st" where
  "st_update f s = (Inr (), f s)"

definition st_gets :: "('s \<Rightarrow> 'a) \<Rightarrow> ('s, 'a) st" where
  "st_gets f s = (Inr (f s), s)"

definition st_lift :: "('s \<Rightarrow> 'a res) \<Rightarrow> ('s, 'a) st" where
  "st_lift f s = (f s, s)"

definition st_assert :: "('s \<Rightarrow> bool) \<Rightarrow> ('s, unit) st" where
  "st_assert P = st_lift (\<lambda>s. fc_assert (P s))"

fun st_for :: "('a \<Rightarrow> ('s, unit) st) \<Rightarrow> 'a list \<Rightarrow> ('s, unit) st" where
  "st_for f [] = st_ret ()"
| "st_for f (x # xs) = st_bind (f x) (\<lambda>_. st_for f xs)"

lemma st_bind_eq_Inr [st_simps]:
  "st_bind m f s = (Inr y, t) \<longleftrightarrow> (\<exists>x s'. m s = (Inr x, s') \<and> f x s' = (Inr y, t))"
  by (auto simp: st_bind_def split: prod.splits sum.splits)

lemma st_ret_eq [simp, st_simps]: "st_ret r s = (x, t) \<longleftrightarrow> x = Inr r \<and> t = s"
  by (auto simp: st_ret_def)

lemma st_throw_eq [simp, st_simps]: "st_throw e s = (x, t) \<longleftrightarrow> x = Inl e \<and> t = s"
  by (auto simp: st_throw_def)

lemma st_update_eq [simp, st_simps]: "st_update f s = (x, t) \<longleftrightarrow> x = Inr () \<and> t = f s"
  by (auto simp: st_update_def)

lemma st_gets_eq [simp, st_simps]: "st_gets f s = (x, t) \<longleftrightarrow> x = Inr (f s) \<and> t = s"
  by (auto simp: st_gets_def)

lemma st_lift_eq [simp, st_simps]: "st_lift f s = (x, t) \<longleftrightarrow> x = f s \<and> t = s"
  by (auto simp: st_lift_def)

lemma st_assert_eq_Inr [simp, st_simps]: "st_assert P s = (Inr u, t) \<longleftrightarrow> P s \<and> t = s"
  by (auto simp: st_assert_def assert_that_def split: if_splits)

lemma st_for_append:
  "st_for f (xs @ ys) = st_bind (st_for f xs) (\<lambda>_. st_for f ys)"
  by (induction xs) (auto simp: fun_eq_iff st_bind_def st_ret_def split: prod.splits sum.splits)

lemma st_for_invariant:
  assumes "st_for f xs s = (Inr u, t)" and "P s"
    and "\<And>x s s'. x \<in> set xs \<Longrightarrow> P s \<Longrightarrow> f x s = (Inr (), s') \<Longrightarrow> P s'"
  shows "P t"
  using assms by (induction xs arbitrary: s) (auto simp: st_bind_eq_Inr)

section \<open>Association lists\<close>

text \<open>
  Hash maps and ordered maps of the code are association lists with distinct keys, so that
  definitions over them compute; \<^const>\<open>map_of\<close> is their abstraction.
\<close>

lemma map_of_AList_update [simp]: "map_of (AList.update k v xs) = (map_of xs)(k \<mapsto> v)"
  by (simp add: update_conv')

lemma map_of_AList_delete [simp]: "map_of (AList.delete k xs) = (map_of xs)(k := None)"
  by (simp add: delete_conv')

lemma map_of_append_single:
  "map_of (xs @ [(k, v)]) = (\<lambda>x. if map_of xs x = None \<and> x = k then Some v else map_of xs x)"
  by (auto simp: fun_eq_iff map_add_def split: option.splits)

lemma map_of_map_entry:
  "map_of (map (\<lambda>(i, v). (i, if i = k then f v else v)) xs) =
     (case map_of xs k of None \<Rightarrow> map_of xs | Some v \<Rightarrow> (map_of xs)(k \<mapsto> f v))"
  by (induction xs) (auto simp: fun_eq_iff split: option.splits)

lemma map_of_filter_key:
  "map_of (filter (\<lambda>(i, v). i \<noteq> k) xs) = (map_of xs)(k := None)"
  by (induction xs) auto

section \<open>Decimal text\<close>

definition is_digit :: "char \<Rightarrow> bool" where
  "is_digit c \<longleftrightarrow> 48 \<le> (of_char c :: nat) \<and> (of_char c :: nat) \<le> 57"

definition digit_char :: "nat \<Rightarrow> char" where
  "digit_char n = char_of (48 + n)"

definition digit_val :: "char \<Rightarrow> nat" where
  "digit_val c = of_char c - 48"

fun dec_of_nat :: "nat \<Rightarrow> string" where
  "dec_of_nat n = (if n < 10 then [digit_char n] else dec_of_nat (n div 10) @ [digit_char (n mod 10)])"

declare dec_of_nat.simps [simp del]

definition nat_of_dec :: "string \<Rightarrow> nat" where
  "nat_of_dec = foldl (\<lambda>a c. 10 * a + digit_val c) 0"

lemma digit_char_val [simp]: "n < 10 \<Longrightarrow> digit_val (digit_char n) = n"
  by (simp add: digit_val_def digit_char_def)

lemma is_digit_digit_char [simp]: "n < 10 \<Longrightarrow> is_digit (digit_char n)"
  by (simp add: is_digit_def digit_char_def)

lemma nat_of_dec_snoc: "nat_of_dec (xs @ [c]) = 10 * nat_of_dec xs + digit_val c"
  by (simp add: nat_of_dec_def)

lemma nat_of_dec_of_nat [simp]: "nat_of_dec (dec_of_nat n) = n"
proof (induction n rule: dec_of_nat.induct)
  case (1 n)
  then show ?case
    by (cases "n < 10") (simp_all add: dec_of_nat.simps [of n] nat_of_dec_snoc nat_of_dec_def)
qed

lemma dec_of_nat_digits: "list_all is_digit (dec_of_nat n)"
proof (induction n rule: dec_of_nat.induct)
  case (1 n)
  then show ?case by (cases "n < 10") (simp_all add: dec_of_nat.simps [of n])
qed

lemma dec_of_nat_nonempty [simp]: "dec_of_nat n \<noteq> []"
  by (subst dec_of_nat.simps) simp

lemma dec_of_nat_no_char: "\<not> is_digit c \<Longrightarrow> c \<notin> set (dec_of_nat n)"
  using dec_of_nat_digits [of n] by (auto simp: list_all_iff)

definition str_find :: "char \<Rightarrow> string \<Rightarrow> nat \<Rightarrow> nat option" where
  \<comment> \<open>\<open>std::string::find(c, from)\<close>; \<^const>\<open>None\<close> is \<open>npos\<close>\<close>
  "str_find c s from =
     (let k = length (takeWhile (\<lambda>x. x \<noteq> c) (drop from s))
      in if from + k < length s then Some (from + k) else None)"

definition str_sub :: "string \<Rightarrow> nat \<Rightarrow> nat \<Rightarrow> string" where
  \<comment> \<open>\<open>std::string::substr(pos, n)\<close> for a position within the string\<close>
  "str_sub s pos n = take n (drop pos s)"

lemma str_find_first:
  "c \<notin> set xs \<Longrightarrow> str_find c (xs @ c # ys) 0 = Some (length xs)"
proof -
  assume "c \<notin> set xs"
  then have "takeWhile (\<lambda>x. x \<noteq> c) (xs @ c # ys) = xs"
    by (induction xs) auto
  then show ?thesis by (simp add: str_find_def)
qed

lemma str_find_none: "c \<notin> set (drop n s) \<Longrightarrow> str_find c s n = None"
proof -
  assume "c \<notin> set (drop n s)"
  then have tw: "takeWhile (\<lambda>x. x \<noteq> c) (drop n s) = drop n s"
    by (auto simp: takeWhile_eq_all_conv)
  have "length (takeWhile (\<lambda>x. x \<noteq> c) (drop n s)) = length s - n"
    by (simp only: tw length_drop)
  then show ?thesis by (simp add: str_find_def Let_def)
qed

lemma str_find_from:
  assumes "drop n s = xs @ c # ys" and "c \<notin> set xs"
  shows "str_find c s n = Some (n + length xs)"
proof -
  have "takeWhile (\<lambda>x. x \<noteq> c) (xs @ c # ys) = xs"
    using assms(2) by (induction xs) auto
  moreover have "n + length xs < length s"
    using arg_cong [OF assms(1), of length] by simp
  ultimately show ?thesis by (simp add: str_find_def assms(1))
qed

end
