(* ===== verification/Object_Id.thy ===== *)
theory Object_Id
  imports Prelude "HOL-Library.Char_ord"
begin

text \<open>
  Object identifiers (\<open>libraries/db/include/graphene/db/object_id.hpp\<close>): the packing of a
  space, a type and an instance into 64 bits, the accessors, the order, the arithmetic and
  the two textual readers, with the standard library's number readers they call.
\<close>

section \<open>The identifier\<close>

datatype object_id = Object_Id (number: "64 word")

definition GRAPHENE_DB_MAX_INSTANCE_ID :: "64 word" where
  "GRAPHENE_DB_MAX_INSTANCE_ID = drop_bit 16 (- 1)"

definition object_id_type :: "8 word \<Rightarrow> 8 word \<Rightarrow> 64 word \<Rightarrow> object_id res" where
  "object_id_type s t i =
     (if drop_bit 48 i = 0
      then Inr (Object_Id (push_bit 56 (ucast s) OR push_bit 48 (ucast t) OR i))
      else Inl Assert_Exception)"

definition space_of :: "object_id \<Rightarrow> 8 word" where
  "space_of x = ucast (drop_bit 56 (number x))"

definition type_of :: "object_id \<Rightarrow> 8 word" where
  "type_of x = ucast (drop_bit 48 (number x) AND 0xFF)"

definition space_type_of :: "object_id \<Rightarrow> 16 word" where
  "space_type_of x = ucast (drop_bit 48 (number x))"

definition instance_of :: "object_id \<Rightarrow> 64 word" where
  "instance_of x = number x AND GRAPHENE_DB_MAX_INSTANCE_ID"

definition is_null :: "object_id \<Rightarrow> bool" where
  "is_null x \<longleftrightarrow> number x = 0"

definition id_plus :: "object_id \<Rightarrow> int \<Rightarrow> object_id res" where
  \<comment> \<open>\<open>operator+(id, delta)\<close>: the delta is added modulo \<open>2^64\<close>\<close>
  "id_plus a delta = object_id_type (space_of a) (type_of a) (instance_of a + word_of_int delta)"

definition id_incr :: "object_id \<Rightarrow> object_id" where
  "id_incr x = Object_Id (number x + 1)"

definition is_type :: "8 word \<Rightarrow> 8 word \<Rightarrow> object_id \<Rightarrow> bool" where
  \<comment> \<open>\<open>id.is<T>()\<close> for a class with the given space and type\<close>
  "is_type sp ty x \<longleftrightarrow> drop_bit 48 (number x) = push_bit 8 (ucast sp) OR ucast ty"

definition id_less :: "object_id \<Rightarrow> object_id \<Rightarrow> bool" where
  \<comment> \<open>\<open>operator<\<close>, and \<open>operator>\<close> with its arguments exchanged\<close>
  "id_less a b \<longleftrightarrow> number a < number b"

instantiation object_id :: linorder
begin

definition less_object_id :: "object_id \<Rightarrow> object_id \<Rightarrow> bool" where
  "less_object_id a b \<longleftrightarrow> id_less a b"

definition less_eq_object_id :: "object_id \<Rightarrow> object_id \<Rightarrow> bool" where
  "less_eq_object_id a b \<longleftrightarrow> \<not> id_less b a"

instance
  by standard (auto simp: less_object_id_def less_eq_object_id_def id_less_def object_id.expand)

end

section \<open>Readers\<close>

text \<open>
  \<open>std::stoi\<close>, \<open>std::stoll\<close> and \<open>std::stoul\<close> in base ten: leading white space, an optional
  sign, the longest run of digits; the result and the number of characters consumed.
\<close>

definition is_space :: "char \<Rightarrow> bool" where
  "is_space c \<longleftrightarrow> (of_char c :: nat) = 32 \<or> (9 \<le> (of_char c :: nat) \<and> (of_char c :: nat) \<le> 13)"

definition sto_int :: "int \<Rightarrow> int \<Rightarrow> string \<Rightarrow> (int \<times> nat) res" where
  "sto_int lo hi s =
     (let ws = takeWhile is_space s;
          r = drop (length ws) s;
          neg = (case r of c # _ \<Rightarrow> c = CHR ''-'' | [] \<Rightarrow> False);
          sgn = (case r of c # _ \<Rightarrow> c = CHR ''-'' \<or> c = CHR ''+'' | [] \<Rightarrow> False);
          ds = takeWhile is_digit (if sgn then tl r else r);
          v = (if neg then - int (nat_of_dec ds) else int (nat_of_dec ds))
      in if ds = [] then Inl Invalid_Argument
         else if v < lo \<or> hi < v then Inl Out_Of_Range
         else Inr (v, length ws + (if sgn then 1 else 0) + length ds))"

definition stoi :: "string \<Rightarrow> (int \<times> nat) res" where
  "stoi = sto_int (- (2 ^ 31)) (2 ^ 31 - 1)"

definition stoll :: "string \<Rightarrow> (int \<times> nat) res" where
  "stoll = sto_int (- (2 ^ 63)) (2 ^ 63 - 1)"

definition object_id_of_string :: "string \<Rightarrow> object_id res" where
  "object_id_of_string s =
     (let index1 = str_find (CHR ''.'') s 0;
          index2 = (case index1 of None \<Rightarrow> None | Some a \<Rightarrow> str_find (CHR ''.'') s (a + 1));
          index3 = (case index2 of None \<Rightarrow> None | Some b \<Rightarrow> str_find (CHR ''.'') s (b + 1))
      in if s = [] then Inr (Object_Id 0)
         else case index1 of None \<Rightarrow> Inl Assert_Exception | Some a \<Rightarrow>
           (case index2 of None \<Rightarrow> Inl Assert_Exception | Some b \<Rightarrow>
             (if index3 \<noteq> None then Inl Assert_Exception
              else res_bind (stoi (str_sub s 0 a)) (\<lambda>(sp, idx).
                res_bind (fc_assert (idx = a)) (\<lambda>_.
                res_bind (stoi (str_sub s (a + 1) (b - a - 1))) (\<lambda>(ty, idx).
                res_bind (fc_assert (idx = b - a - 1)) (\<lambda>_.
                res_bind (stoll (str_sub s (b + 1) (length s - b - 1))) (\<lambda>(i, idx).
                res_bind (fc_assert (idx = length s - b - 1)) (\<lambda>_.
                object_id_type (word_of_int sp) (word_of_int ty) (word_of_int i)))))))))) "

text \<open>
  The JSON reader and writer use \<open>fc::to_uint64\<close> and \<open>fc::to_string\<close>, which are not part of
  the repository: they are parameters.  \<open>decimal_codec\<close> is what is relied on: the text is a
  non-empty run of digits and reading it gives the number back.
\<close>

definition object_id_to_string :: "(64 word \<Rightarrow> string) \<Rightarrow> object_id \<Rightarrow> string" where
  "object_id_to_string to_str x =
     to_str (ucast (space_of x)) @ ''.'' @ to_str (ucast (type_of x)) @ ''.'' @ to_str (instance_of x)"

definition object_id_from_variant :: "(string \<Rightarrow> 64 word res) \<Rightarrow> string \<Rightarrow> object_id res" where
  "object_id_from_variant to_u64 s =
     (let first_dot = str_find (CHR ''.'') s 0;
          second_dot = str_find (CHR ''.'') s (case first_dot of None \<Rightarrow> 0 | Some a \<Rightarrow> a + 1)
      in if first_dot = second_dot \<or> first_dot = Some 0 then Inl Assert_Exception
         else case first_dot of None \<Rightarrow> Inl Assert_Exception | Some a \<Rightarrow>
           res_bind (to_u64 (drop (case second_dot of None \<Rightarrow> 0 | Some b \<Rightarrow> b + 1) s)) (\<lambda>n.
           res_bind (fc_assert (n \<le> GRAPHENE_DB_MAX_INSTANCE_ID)) (\<lambda>_.
           res_bind (to_u64 (take a s)) (\<lambda>space_id.
           res_bind (fc_assert (space_id \<le> 0xFF)) (\<lambda>_.
           res_bind (to_u64 (case second_dot of None \<Rightarrow> drop (a + 1) s
                                              | Some b \<Rightarrow> str_sub s (a + 1) (b - a - 1))) (\<lambda>type_id.
           res_bind (fc_assert (type_id \<le> 0xFF)) (\<lambda>_.
           Inr (Object_Id (n OR (push_bit 56 space_id OR push_bit 48 type_id)))))))))) "

definition decimal_codec :: "(64 word \<Rightarrow> string) \<Rightarrow> (string \<Rightarrow> 64 word res) \<Rightarrow> bool" where
  "decimal_codec to_str to_u64 \<longleftrightarrow>
     (\<forall>x. to_str x \<noteq> [] \<and> list_all is_digit (to_str x) \<and> nat_of_dec (to_str x) = unat x \<and>
          to_u64 (to_str x) = Inr x)"

section \<open>Packing\<close>

lemma max_instance_mask: "GRAPHENE_DB_MAX_INSTANCE_ID = mask 48"
  by (simp add: GRAPHENE_DB_MAX_INSTANCE_ID_def mask_eq_decr_exp)

lemma not_bit_if_drop_zero: "drop_bit n (w :: 'a::len word) = 0 \<Longrightarrow> n \<le> k \<Longrightarrow> \<not> bit w k"
proof -
  assume "drop_bit n w = 0" "n \<le> k"
  then have "\<not> bit (drop_bit n w) (k - n)" by simp
  with \<open>n \<le> k\<close> show ?thesis by (simp add: bit_drop_bit_eq)
qed

lemma bit_ff [simp]: "bit (0xFF :: int) n \<longleftrightarrow> n < 8"
proof -
  have "(0xFF :: int) = mask 8" by (simp add: mask_eq_exp_minus_1)
  then have "bit (0xFF :: int) n \<longleftrightarrow> bit (mask 8 :: int) n" by (rule arg_cong)
  also have "\<dots> \<longleftrightarrow> n < 8" by (simp add: bit_mask_iff)
  finally show ?thesis .
qed

lemma space_of_packed:
  fixes s t :: "8 word" and i :: "64 word"
  assumes "drop_bit 48 i = 0"
  shows "ucast (drop_bit 56 (push_bit 56 (ucast s) OR push_bit 48 (ucast t) OR i) :: 64 word) = s"
proof (rule bit_word_eqI)
  fix n assume "n < LENGTH(8)"
  then have "n < 8" by simp
  moreover have "\<not> bit i (n + 56)" using assms by (rule not_bit_if_drop_zero) simp
  ultimately show "bit (ucast (drop_bit 56 (push_bit 56 (ucast s) OR push_bit 48 (ucast t) OR i) :: 64 word) :: 8 word) n = bit s n"
    by (auto simp: bit_simps ac_simps dest: bit_imp_le_length)
qed

lemma type_of_packed: 
  fixes s t :: "8 word" and i :: "64 word"
  assumes "drop_bit 48 i = 0"
  shows "ucast (drop_bit 48 (push_bit 56 (ucast s) OR push_bit 48 (ucast t) OR i) AND 0xFF :: 64 word) = t"
proof (rule bit_word_eqI)
  fix n assume "n < LENGTH(8)"
  then have "n < 8" by simp
  moreover have "\<not> bit i (n + 48)" using assms by (rule not_bit_if_drop_zero) simp
  ultimately show "bit (ucast (drop_bit 48 (push_bit 56 (ucast s) OR push_bit 48 (ucast t) OR i) AND 0xFF:: 64 word) :: 8 word) n = bit t n"
    by (auto simp: bit_simps ac_simps)
qed

lemma instance_of_packed: 
  fixes s t :: "8 word" and i :: "64 word"
  assumes "drop_bit 48 i = 0"
  shows "(push_bit 56 (ucast s) OR push_bit 48 (ucast t) OR i) AND GRAPHENE_DB_MAX_INSTANCE_ID  = i"
proof (rule bit_word_eqI)
  fix n assume "n < LENGTH(64)"
  then have n: "n < 64" by simp
  show "bit ((push_bit 56 (ucast s) OR push_bit 48 (ucast t) OR i) AND GRAPHENE_DB_MAX_INSTANCE_ID) n = bit i n"
  proof (cases "n < 48")
    case True
    then show ?thesis using n by (auto simp: max_instance_mask bit_simps)
  next
    case False
    then have "\<not> bit i n" using not_bit_if_drop_zero [OF assms, of n] by simp
    then show ?thesis using n False by (auto simp: max_instance_mask bit_simps)
  qed
qed

lemma drop_zero_iff: "drop_bit 48 (i :: 64 word) = 0 \<longleftrightarrow> unat i < 2 ^ 48"
proof -
  have "drop_bit 48 i = 0 \<longleftrightarrow> unat (drop_bit 48 i) = 0" by (simp add: unat_eq_0)
  also have "\<dots> \<longleftrightarrow> unat i div 2 ^ 48 = 0" by (simp only: unat_drop_bit_eq drop_bit_eq_div [where 'a = nat])
  finally show ?thesis by (simp add: div_eq_0_iff)
qed

lemma number_unpack: "number x = push_bit 56 (ucast (space_of x)) OR push_bit 48 (ucast (type_of x)) OR instance_of x" 
proof (rule bit_word_eqI)
  fix n assume "n < LENGTH(64)"
  then have n: "n < 64" by simp
  consider "n < 48" | "48 \<le> n" "n < 56" | "56 \<le> n" by linarith
  then show "bit (number x) n = bit (push_bit 56 (ucast (space_of x)) OR push_bit 48 (ucast (type_of x)) OR instance_of x) n"
    by cases (use n in \<open>auto simp: space_of_def type_of_def instance_of_def max_instance_mask bit_simps\<close>)
qed

lemma is_type_iff: "is_type sp ty x \<longleftrightarrow> space_of x = sp \<and> type_of x = ty"
proof -
  have "drop_bit 48 (number x) = push_bit 8 (ucast (space_of x)) OR ucast (type_of x)"
  proof (rule bit_word_eqI)
    fix n assume "n < LENGTH(64)"
    then have n: "n < 64" by simp
    consider "n < 8" | "8 \<le> n" "n < 16" | "16 \<le> n" by linarith
    then show "bit (drop_bit 48 (number x)) n = bit (push_bit 8 (ucast (space_of x)) OR ucast (type_of x) :: 64 word) n"
    by cases (use n in \<open>auto simp: space_of_def type_of_def bit_simps dest: bit_imp_le_length\<close>)
  qed
  moreover have "(push_bit 8 (ucast a) OR ucast b :: 64 word) = push_bit 8 (ucast c) OR ucast d \<Longrightarrow> a = c \<and> b = d" for a b c d :: "8 word"
  proof -
    assume e: "(push_bit 8 (ucast a) OR ucast b :: 64 word) = push_bit 8 (ucast c) OR ucast d"
    have "bit b n = bit d n" if "n < 8" for n
      using arg_cong [OF e, of "\<lambda>w. bit w n"] that by (simp add: bit_simps)
    moreover have "bit a n = bit c n" if "n < 8" for n
      using arg_cong [OF e, of "\<lambda>w. bit w (n + 8)"] that by (auto simp add: bit_simps dest: bit_imp_le_length)
    ultimately show ?thesis by (auto intro!: bit_word_eqI)
  qed
  ultimately show ?thesis by (auto simp: is_type_def)
qed

lemma unat_number:
  "unat (number x) = unat (space_of x) * 2 ^ 56 + unat (type_of x) * 2 ^ 48 + unat (instance_of x)"
proof -
  let ?n = "unat (number x)"
  have "?n < 2 ^ LENGTH(64)" by (rule unsigned_less)
  then have lt: "?n < 2 ^ 64" by simp
  have sp: "unat (space_of x) = ?n div 2 ^ 56"
    using lt by (simp add: space_of_def unsigned_ucast_eq unat_drop_bit_eq drop_bit_eq_div [where 'a = nat] take_bit_eq_mod)
  have "(0xFF :: 64 word) = mask 8" by (simp add: mask_eq_decr_exp)
  then have "drop_bit 48 (number x) AND 0xFF = take_bit 8 (drop_bit 48 (number x))"
    by (simp only: take_bit_eq_mask)
  then have "unat (type_of x) = take_bit 8 (take_bit LENGTH(8) (drop_bit 48 ?n))"
    by (simp only: type_of_def unsigned_ucast_eq unsigned_take_bit_eq unat_drop_bit_eq)
  then have ty: "unat (type_of x) = ?n div 2 ^ 48 mod 2 ^ 8"
    by (simp add: drop_bit_eq_div [where 'a = nat] take_bit_eq_mod)
  have "instance_of x = take_bit 48 (number x)"
    by (simp only: instance_of_def max_instance_mask take_bit_eq_mask)
  then have "unat (instance_of x) = take_bit 48 ?n"
    by (simp only: unsigned_take_bit_eq)
  then have ins: "unat (instance_of x) = ?n mod 2 ^ 48"
    by (simp add: take_bit_eq_mod)
  have "?n div 2 ^ 56 = ?n div 2 ^ 48 div 2 ^ 8"
    by (simp flip: div_mult2_eq)
  then have "?n div 2 ^ 48 = ?n div 2 ^ 56 * 2 ^ 8 + ?n div 2 ^ 48 mod 2 ^ 8"
    using div_mult_mod_eq [of "?n div 2 ^ 48" "2 ^ 8"] by simp
  moreover have "?n = ?n div 2 ^ 48 * 2 ^ 48 + ?n mod 2 ^ 48"
    by (simp only: div_mult_mod_eq)
  ultimately have "?n = (?n div 2 ^ 56 * 2 ^ 8 + ?n div 2 ^ 48 mod 2 ^ 8) * 2 ^ 48 + ?n mod 2 ^ 48"
    by metis
  then show ?thesis unfolding sp ty ins by simp
qed

lemma instance_of_lt: "unat (instance_of x) < 2 ^ 48"
proof -
  have "instance_of x = take_bit 48 (number x)"
    by (simp only: instance_of_def max_instance_mask take_bit_eq_mask)
  then have "unat (instance_of x) = take_bit 48 (unat (number x))"
    by (simp only: unsigned_take_bit_eq)
  then show ?thesis by (simp add: take_bit_eq_mod)
qed

lemma object_id_type_eq_Inr:
  "object_id_type s t i = Inr x \<longleftrightarrow>
     unat i < 2 ^ 48 \<and> space_of x = s \<and> type_of x = t \<and> instance_of x = i"
proof
  assume "object_id_type s t i = Inr x"
  then have "drop_bit 48 i = 0" and x: "x = Object_Id (push_bit 56 (ucast s) OR push_bit 48 (ucast t) OR i)"
    by (auto simp: object_id_type_def split: if_splits)
  then show "unat i < 2 ^ 48 \<and> space_of x = s \<and> type_of x = t \<and> instance_of x = i"
    using space_of_packed type_of_packed instance_of_packed drop_zero_iff
    by (auto simp: space_of_def type_of_def instance_of_def)
next
  assume h: "unat i < 2 ^ 48 \<and> space_of x = s \<and> type_of x = t \<and> instance_of x = i"
  then have "number x = push_bit 56 (ucast s) OR push_bit 48 (ucast t) OR i"
    using number_unpack [of x] by simp
  with h show "object_id_type s t i = Inr x"
    by (cases x) (simp add: object_id_type_def drop_zero_iff)
qed

lemma object_id_type_eq_Inl: "object_id_type s t i = Inl e \<longleftrightarrow> 2 ^ 48 \<le> unat i \<and> e = Assert_Exception"
  using drop_zero_iff [of i] by (auto simp: object_id_type_def)

lemma object_id_eqI:
  "space_of x = space_of y \<Longrightarrow> type_of x = type_of y \<Longrightarrow> instance_of x = instance_of y \<Longrightarrow> x = y"
  by (rule object_id.expand) (simp add: number_unpack [of x] number_unpack [of y])

section \<open>Reading back what was written\<close>

lemma takeWhile_all_digits: "list_all is_digit xs \<Longrightarrow> takeWhile is_digit xs = xs"
  by (simp add: takeWhile_eq_all_conv list_all_iff)

lemma digit_not_sign: "is_digit c \<Longrightarrow> \<not> is_space c \<and> c \<noteq> CHR ''-'' \<and> c \<noteq> CHR ''+'' \<and> c \<noteq> CHR ''.''"
  by (auto simp: is_digit_def is_space_def)

lemma sto_int_digits:
  assumes "list_all is_digit ds" and "ds \<noteq> []" and "lo \<le> int (nat_of_dec ds)" and "int (nat_of_dec ds) \<le> hi"
  shows "sto_int lo hi ds = Inr (int (nat_of_dec ds), length ds)"
proof -
  obtain c cs where ds: "ds = c # cs" and c: "is_digit c"
    using assms(1,2) by (cases ds) auto
  have "takeWhile is_space ds = []"
    using digit_not_sign [OF c] by (simp add: ds)
  then show ?thesis
    using assms digit_not_sign [OF c] by (simp add: sto_int_def ds takeWhile_all_digits)
qed

lemma two_dots:
  assumes "CHR ''.'' \<notin> set p" and "CHR ''.'' \<notin> set q" and "CHR ''.'' \<notin> set r"
    and s: "s = p @ ''.'' @ q @ ''.'' @ r"
  shows "str_find (CHR ''.'') s 0 = Some (length p)"
    and "str_find (CHR ''.'') s (length p + 1) = Some (length p + 1 + length q)"
    and "str_find (CHR ''.'') s (length p + 1 + length q + 1) = None"
    and "str_sub s 0 (length p) = p"
    and "str_sub s (length p + 1) (length q) = q"
    and "drop (length p + 1 + length q + 1) s = r"
proof -
  have d1: "drop (length p + 1) s = q @ CHR ''.'' # r" by (simp add: s)
  have d2: "drop (length p + 1 + length q + 1) s = r" by (simp add: s)
  show "str_find (CHR ''.'') s 0 = Some (length p)"
    using str_find_first [OF assms(1), of "q @ ''.'' @ r"] by (simp add: s)
  show "str_find (CHR ''.'') s (length p + 1) = Some (length p + 1 + length q)"
    by (rule str_find_from [OF d1 assms(2)])
  show "str_find (CHR ''.'') s (length p + 1 + length q + 1) = None"
    by (rule str_find_none) (simp only: d2 assms(3) not_False_eq_True)
  show "str_sub s 0 (length p) = p" by (simp add: str_sub_def s)
  show "str_sub s (length p + 1) (length q) = q" by (simp only: str_sub_def d1) simp
  show "drop (length p + 1 + length q + 1) s = r" by (rule d2)
qed

lemma codec_text:
  assumes "decimal_codec to_str to_u64"
  shows "to_str x \<noteq> []" and "list_all is_digit (to_str x)" and "nat_of_dec (to_str x) = unat x"
    and "to_u64 (to_str x) = Inr x" and "CHR ''.'' \<notin> set (to_str x)"
  using assms digit_not_sign by (auto simp: decimal_codec_def list_all_iff)

lemma unat_byte_lt: "unat (b :: 8 word) < 256"
proof -
  have "unat b < 2 ^ LENGTH(8)" by (rule unsigned_less)
  then show ?thesis by simp
qed

lemma uint_byte_bounds: "- 2147483648 \<le> uint (b :: 8 word)" "uint b < 256"
proof -
  have "uint b = int (unat b)" by (rule uint_nat)
  then show "- 2147483648 \<le> uint b" "uint b < 256"
    using unat_byte_lt [of b] by linarith+
qed

lemma unat_ucast_byte: "unat (ucast (b :: 8 word) :: 64 word) = unat b"
  using unat_byte_lt [of b] by (simp add: unsigned_ucast_eq take_bit_eq_mod)

lemma ucast_byte_le: "(ucast (b :: 8 word) :: 64 word) \<le> 0xFF"
  using unat_byte_lt [of b] by (simp add: word_le_nat_alt unat_ucast_byte)

lemma json_read_back:
  assumes "decimal_codec to_str to_u64"
  shows "object_id_from_variant to_u64 (object_id_to_string to_str x) = Inr x"
proof -
  let ?p = "to_str (ucast (space_of x))" and ?q = "to_str (ucast (type_of x))" and ?r = "to_str (instance_of x)"
  note c = codec_text [OF assms]
  note dots = two_dots [OF c(5) c(5) c(5) object_id_to_string_def [of to_str x]]
  have "instance_of x \<le> GRAPHENE_DB_MAX_INSTANCE_ID"
    by (simp add: instance_of_def word_and_le1)
  moreover have "instance_of x OR (push_bit 56 (ucast (space_of x)) OR push_bit 48 (ucast (type_of x))) = number x"
    using number_unpack [of x] by (simp add: ac_simps)
  moreover have "take (length ?p) (object_id_to_string to_str x) = ?p"
    using dots(4) by (simp add: str_sub_def)
  moreover have "(length ?p + 1 + length ?q) - length ?p - 1 = length ?q" by simp
  ultimately show ?thesis
    using c(1) dots(1,2,5,6) by (simp add: object_id_from_variant_def c(4) ucast_byte_le)
qed

lemma string_read_back:
  assumes "decimal_codec to_str to_u64"
  shows "object_id_of_string (object_id_to_string to_str x) = Inr x"
proof -
  let ?s = "object_id_to_string to_str x"
  let ?p = "to_str (ucast (space_of x))" and ?q = "to_str (ucast (type_of x))" and ?r = "to_str (instance_of x)"
  note c = codec_text [OF assms]
  note dots = two_dots [OF c(5) c(5) c(5) object_id_to_string_def [of to_str x]]
  have byte: "stoi (to_str (ucast b)) = Inr (int (unat b), length (to_str (ucast b)))" for b :: "8 word"
    unfolding stoi_def using uint_byte_bounds [of b] by (subst sto_int_digits) (simp_all add: c(1-3) unat_ucast_byte)
  have "unat (instance_of x) < 281474976710656" using instance_of_lt [of x] by simp
  moreover have "uint (instance_of x) = int (unat (instance_of x))" by (rule uint_nat)
  ultimately have "- 9223372036854775808 \<le> uint (instance_of x)" "uint (instance_of x) \<le> 9223372036854775807"
    by linarith+
  then have inst: "stoll ?r = Inr (int (unat (instance_of x)), length ?r)"
    unfolding stoll_def by (subst sto_int_digits) (simp_all add: c(1-3))
  have "length ?s = length ?p + 1 + length ?q + 1 + length ?r"
    by (simp add: object_id_to_string_def)
  then have len: "length ?s - (length ?p + 1 + length ?q) - 1 = length ?r" by simp
  have last: "str_sub ?s (length ?p + 1 + length ?q + 1) (length ?r) = ?r"
    by (simp only: str_sub_def dots(6)) simp
  have sub: "(length ?p + 1 + length ?q) - length ?p - 1 = length ?q" by simp
  have mk: "object_id_type (space_of x) (type_of x) (instance_of x) = Inr x"
    using instance_of_lt [of x] by (simp add: object_id_type_eq_Inr)
  have wi: "word_of_int (int (unat (b :: 8 word))) = b" "word_of_int (int (unat (w :: 64 word))) = w" for b w
    by simp_all
  have "?s \<noteq> []" by (simp add: object_id_to_string_def)
  then show ?thesis
    by (simp only: object_id_of_string_def Let_def dots(1,2,3,4,5) option.case if_False sub last len byte inst
        res_bind_Inr prod.case assert_that_True simp_thms mk wi)
qed

section \<open>Properties\<close>

text \<open>Building an identifier succeeds exactly when the instance fits in 48 bits, and then the
  accessors give back the space, the type and the instance; otherwise the constructor throws.\<close>

theorem object_id_fields:
  "case object_id_type s t i of
     Inl e \<Rightarrow> 2 ^ 48 \<le> unat i \<and> e = Assert_Exception
   | Inr x \<Rightarrow> unat i < 2 ^ 48 \<and> space_of x = s \<and> type_of x = t \<and> instance_of x = i"
  using object_id_type_eq_Inr [of s t i] object_id_type_eq_Inl [of s t i]
  by (auto split: sum.split)

lemma lex_less_nat:
  assumes "y < (k :: nat)" and "v < k"
  shows "x * k + y < u * k + v \<longleftrightarrow> x < u \<or> (x = u \<and> y < v)"
proof (cases x u rule: linorder_cases)
  case less
  then have "Suc x * k \<le> u * k" by (intro mult_le_mono1) simp
  with less assms show ?thesis by simp
next
  case greater
  then have "Suc u * k \<le> x * k" by (intro mult_le_mono1) simp
  with greater assms show ?thesis by simp
qed simp

lemma lex_eq_nat:
  assumes "y < (k :: nat)" and "v < k"
  shows "x * k + y = u * k + v \<longleftrightarrow> x = u \<and> y = v"
  using lex_less_nat [OF assms, of x u] lex_less_nat [OF assms(2,1), of u x] by (cases x u rule: linorder_cases) auto

text \<open>The order of identifiers compares the space first, then the type, then the instance.\<close>

theorem object_id_order:
  "a < b \<longleftrightarrow> space_of a < space_of b \<or>
     (space_of a = space_of b \<and> (type_of a < type_of b \<or>
       (type_of a = type_of b \<and> instance_of a < instance_of b)))"
proof -
  let ?h = "\<lambda>x. unat (space_of x) * 2 ^ 8 + unat (type_of x)"
  have eq: "u = v \<longleftrightarrow> unat u = unat v" for u v :: "8 word"
    by (auto intro: unsigned_word_eqI)
  have n: "unat (number x) = ?h x * 2 ^ 48 + unat (instance_of x)" for x
    by (simp add: unat_number)
  have "a < b \<longleftrightarrow> unat (number a) < unat (number b)"
    by (simp add: less_object_id_def id_less_def word_less_nat_alt)
  also have "\<dots> \<longleftrightarrow> ?h a < ?h b \<or> (?h a = ?h b \<and> unat (instance_of a) < unat (instance_of b))"
    unfolding n by (rule lex_less_nat [OF instance_of_lt instance_of_lt])
  also have "?h a = ?h b \<longleftrightarrow> unat (space_of a) = unat (space_of b) \<and> unat (type_of a) = unat (type_of b)"
    by (rule lex_eq_nat) (use unat_byte_lt in simp_all)
  also have "?h a < ?h b \<longleftrightarrow> unat (space_of a) < unat (space_of b) \<or>
      (unat (space_of a) = unat (space_of b) \<and> unat (type_of a) < unat (type_of b))"
    by (rule lex_less_nat) (use unat_byte_lt in simp_all)
  finally show ?thesis unfolding word_less_nat_alt eq by blast
qed

text \<open>Both readers of an identifier (the string constructor and the JSON reader) give back
  the identifier that the writer printed, for every decimal codec.\<close>

theorem object_id_read_back:
  assumes "decimal_codec to_str to_u64"
  shows "object_id_of_string (object_id_to_string to_str x) = Inr x \<and>
         object_id_from_variant to_u64 (object_id_to_string to_str x) = Inr x"
  using string_read_back [OF assms] json_read_back [OF assms] by simp

theorem object_id_read_back_witness:
  "object_id_of_string (object_id_to_string (\<lambda>w. dec_of_nat (unat w)) (Object_Id 0x0102000000000007)) =
     Inr (Object_Id 0x0102000000000007)"
proof -
  have "decimal_codec (\<lambda>w. dec_of_nat (unat w)) (\<lambda>s. Inr (word_of_nat (nat_of_dec s)))"
    by (simp add: decimal_codec_def dec_of_nat_digits)
  from object_id_read_back [OF this] show ?thesis by simp
qed

lemma sto_int_dec:
  "lo \<le> int n \<Longrightarrow> int n \<le> hi \<Longrightarrow> sto_int lo hi (dec_of_nat n) = Inr (int n, length (dec_of_nat n))"
  using sto_int_digits [OF dec_of_nat_digits dec_of_nat_nonempty, of lo n hi] by simp

lemma string_ctor_value:
  assumes "a < 2 ^ 31" and "b < 2 ^ 31" and "i < 2 ^ 63"
  shows "object_id_of_string (dec_of_nat a @ ''.'' @ dec_of_nat b @ ''.'' @ dec_of_nat i) =
         object_id_type (word_of_nat a) (word_of_nat b) (word_of_nat i)" (is "object_id_of_string ?s = _")
proof -
  let ?p = "dec_of_nat a" and ?q = "dec_of_nat b" and ?r = "dec_of_nat i"
  have nd: "CHR ''.'' \<notin> set (dec_of_nat n)" for n
    by (rule dec_of_nat_no_char) (simp add: is_digit_def)
  note dots = two_dots [OF nd nd nd refl, of a b i]
  have rd: "stoi ?p = Inr (int a, length ?p)" "stoi ?q = Inr (int b, length ?q)" "stoll ?r = Inr (int i, length ?r)"
    using assms by (simp_all add: stoi_def stoll_def sto_int_dec)
  have len: "length ?s - (length ?p + 1 + length ?q) - 1 = length ?r"
    and sub: "(length ?p + 1 + length ?q) - length ?p - 1 = length ?q" by simp_all
  have last: "str_sub ?s (length ?p + 1 + length ?q + 1) (length ?r) = ?r"
    by (simp only: str_sub_def dots(6)) simp
  have "?s \<noteq> []" by simp
  then show ?thesis
    by (simp only: object_id_of_string_def Let_def dots(1,2,3,4,5) option.case if_False sub len last rd
        res_bind_Inr prod.case assert_that_True simp_thms of_int_of_nat_eq)
qed

text \<open>The string constructor reduces the space and the type modulo 256 without an error (the
  JSON reader refuses such a text), so two different texts can name the same object.\<close>

theorem string_ctor_truncates:
  assumes "a < 2 ^ 31" and "b < 2 ^ 31" and "i < 2 ^ 48"
  shows "case object_id_of_string (dec_of_nat a @ ''.'' @ dec_of_nat b @ ''.'' @ dec_of_nat i) of
           Inl e \<Rightarrow> False
         | Inr x \<Rightarrow> unat (space_of x) = a mod 256 \<and> unat (type_of x) = b mod 256 \<and> unat (instance_of x) = i"
proof -
  have i: "unat (word_of_nat i :: 64 word) = i"
    using assms(3) by (simp add: unat_of_nat)
  have ok: "object_id_of_string (dec_of_nat a @ ''.'' @ dec_of_nat b @ ''.'' @ dec_of_nat i) =
        object_id_type (word_of_nat a) (word_of_nat b) (word_of_nat i)"
    by (rule string_ctor_value) (use assms in simp_all)
  obtain x where x: "object_id_type (word_of_nat a) (word_of_nat b) (word_of_nat i) = Inr x"
    using object_id_type_eq_Inl assms(3) i by (cases "object_id_type (word_of_nat a) (word_of_nat b) (word_of_nat i)") auto
  then have "space_of x = word_of_nat a \<and> type_of x = word_of_nat b \<and> instance_of x = word_of_nat i"
    by (simp add: object_id_type_eq_Inr)
  with i show ?thesis unfolding ok x by (simp add: unat_of_nat)
qed

theorem string_ctor_truncates_witness:
  "case object_id_of_string (dec_of_nat 257 @ ''.'' @ dec_of_nat 2 @ ''.'' @ dec_of_nat 55) of
     Inl e \<Rightarrow> False
   | Inr x \<Rightarrow> unat (space_of x) = 1 \<and> unat (type_of x) = 2 \<and> unat (instance_of x) = 55"
  using string_ctor_truncates [of 257 2 55] by (simp split: sum.splits)

end
