(* ===== verification/Object_Index.thy ===== *)
theory Object_Index
  imports Object_Id
begin

text \<open>
  The object containers of \<open>libraries/db/include/graphene/db\<close>: \<open>generic_index\<close> (a
  \<open>boost::multi_index\<close> container keyed by the identifier, with further unique keys),
  \<open>simple_index\<close> (a vector of owning pointers) and \<open>flat_index\<close> (a vector of values), behind
  the abstract class \<open>index\<close>, and the laws the rest of the database relies on, as locales.

  The payload of an object is the type variable \<open>'a\<close>; its identifier is kept beside it.  A
  member function that receives a reference to a stored object receives its identifier here,
  and a reference that does not denote a stored object is \<^const>\<open>Undefined_Behaviour\<close>.
  Debug-only \<open>assert\<close>s are not part of the behaviour.
\<close>

named_theorems index_laws \<open>what the operations of an index do to lookups\<close>

section \<open>The interface\<close>

locale object_index =
  fixes find :: "'s \<Rightarrow> object_id \<Rightarrow> 'a option"
    and insert :: "object_id \<Rightarrow> 'a \<Rightarrow> ('s, unit) st"
    and modify :: "object_id \<Rightarrow> ('a \<Rightarrow> 'a) \<Rightarrow> ('s, unit) st"
    and own :: "object_id \<Rightarrow> bool"
  assumes insert_same: "own k \<Longrightarrow> insert k v s = (Inr (), t) \<Longrightarrow> find t k = Some v"
    and insert_keeps: "own k \<Longrightarrow> own j \<Longrightarrow> j \<noteq> k \<Longrightarrow> insert k v s = (Inr (), t) \<Longrightarrow>
           find s j = Some w \<Longrightarrow> find t j = Some w"
    and modify_same: "own k \<Longrightarrow> modify k f s = (Inr (), t) \<Longrightarrow>
           \<exists>v. find s k = Some v \<and> find t k = Some (f v)"
    and modify_other: "own k \<Longrightarrow> own j \<Longrightarrow> j \<noteq> k \<Longrightarrow> modify k f s = (Inr (), t) \<Longrightarrow>
           find t j = find s j"
begin

lemma modify_find:
  assumes "own k" and "own j" and "modify k f s = (Inr (), t)"
  shows "find t j = (if j = k then map_option f (find s k) else find s j)"
  using modify_same [OF assms(1,3)] modify_other [OF assms(1,2) _ assms(3)] by auto

lemma modify_keeps_domain:
  assumes "own k" and "own j" and "modify k f s = (Inr (), t)"
  shows "find t j = None \<longleftrightarrow> find s j = None"
  using modify_find [OF assms] by auto

end

locale removable_index = object_index +
  fixes remove :: "object_id \<Rightarrow> ('s, unit) st"
  assumes insert_other: "own k \<Longrightarrow> own j \<Longrightarrow> j \<noteq> k \<Longrightarrow> insert k v s = (Inr (), t) \<Longrightarrow>
           find t j = find s j"
    and remove_same: "own k \<Longrightarrow> remove k s = (Inr (), t) \<Longrightarrow> find t k = None"
    and remove_other: "own k \<Longrightarrow> own j \<Longrightarrow> j \<noteq> k \<Longrightarrow> remove k s = (Inr (), t) \<Longrightarrow>
           find t j = find s j"
begin

lemma insert_find:
  assumes "own k" and "own j" and "insert k v s = (Inr (), t)"
  shows "find t j = (if j = k then Some v else find s j)"
  using insert_same [OF assms(1,3)] insert_other [OF assms(1,2) _ assms(3)] by auto

lemma remove_find:
  assumes "own k" and "own j" and "remove k s = (Inr (), t)"
  shows "find t j = (if j = k then None else find s j)"
  using remove_same [OF assms(1,3)] remove_other [OF assms(1,2) _ assms(3)] by auto

lemma insert_remove_find:
  assumes "own k" and "own j" and "insert k v s = (Inr (), t)" and "remove k t = (Inr (), u)"
    and "find s k = None"
  shows "find u j = find s j"
  using insert_find [OF assms(1-3)] remove_find [OF assms(1,2,4)] assms(5) by auto

end

section \<open>generic_index\<close>

text \<open>
  The container holds the objects in the order of their insertion.  \<open>gi_clash\<close> says whether
  two objects agree on one of the further unique keys of the container's type: the container
  then refuses an insertion, and on a modification it erases the modified object and reports
  failure (the documented behaviour of \<open>multi_index_container::modify\<close>).
\<close>

record 'a generic_index =
  gi_rows :: "(object_id \<times> 'a) list"
  gi_clash :: "'a \<Rightarrow> 'a \<Rightarrow> bool"

definition gi_find :: "'a generic_index \<Rightarrow> object_id \<Rightarrow> 'a option" where
  "gi_find g = map_of (gi_rows g)"

definition gi_insert :: "object_id \<Rightarrow> 'a \<Rightarrow> ('a generic_index, unit) st" where
  "gi_insert k v g =
     (if gi_find g k \<noteq> None \<or> (\<exists>(j, w) \<in> set (gi_rows g). gi_clash g v w)
      then (Inl Assert_Exception, g)
      else (Inr (), g\<lparr>gi_rows := gi_rows g @ [(k, v)]\<rparr>))"

definition gi_create :: "object_id \<Rightarrow> (object_id \<Rightarrow> 'a) \<Rightarrow> ('a generic_index, unit) st" where
  "gi_create next_id constructor = gi_insert next_id (constructor next_id)"

definition gi_remove :: "object_id \<Rightarrow> ('a generic_index, unit) st" where
  "gi_remove k g =
     (case gi_find g k of
        None \<Rightarrow> (Inl Undefined_Behaviour, g)
      | Some _ \<Rightarrow> (Inr (), g\<lparr>gi_rows := filter (\<lambda>(i, v). i \<noteq> k) (gi_rows g)\<rparr>))"

definition gi_modify :: "object_id \<Rightarrow> ('a \<Rightarrow> 'a) \<Rightarrow> ('a generic_index, unit) st" where
  "gi_modify k m g =
     (case gi_find g k of
        None \<Rightarrow> (Inl Undefined_Behaviour, g)
      | Some v \<Rightarrow>
          if \<exists>(j, w) \<in> set (gi_rows g). j \<noteq> k \<and> gi_clash g (m v) w
          then (Inl Assert_Exception, g\<lparr>gi_rows := filter (\<lambda>(i, v). i \<noteq> k) (gi_rows g)\<rparr>)
          else (Inr (), g\<lparr>gi_rows := map (\<lambda>(i, v). (i, if i = k then m v else v)) (gi_rows g)\<rparr>))"

definition gi_inspect_all_objects :: "'a generic_index \<Rightarrow> (object_id \<times> 'a) list" where
  "gi_inspect_all_objects g = gi_rows g"

definition gi_hash :: "(object_id \<times> 'a \<Rightarrow> 128 word) \<Rightarrow> 'a generic_index \<Rightarrow> 128 word" where
  "gi_hash h g = fold (\<lambda>obj result. result + h obj) (gi_rows g) 0"

section \<open>simple_index\<close>

text \<open>A vector of pointers, indexed by the instance; a null pointer is \<^const>\<open>None\<close>.\<close>

record 'a simple_index =
  si_objects :: "'a option list"

definition slot :: "object_id \<Rightarrow> nat" where
  "slot k = unat (instance_of k)"

definition resize :: "'a \<Rightarrow> nat \<Rightarrow> 'a list \<Rightarrow> 'a list" where
  \<comment> \<open>\<open>std::vector::resize(n)\<close>, new elements being \<open>d\<close>\<close>
  "resize d n xs = take n xs @ replicate (n - length xs) d"

definition grow :: "'a \<Rightarrow> nat \<Rightarrow> 'a list \<Rightarrow> 'a list" where
  \<comment> \<open>\<open>if( instance >= size() ) resize( instance + 1 )\<close>\<close>
  "grow d i xs = (if length xs \<le> i then resize d (i + 1) xs else xs)"

definition cell :: "'a option list \<Rightarrow> nat \<Rightarrow> 'a option" where
  "cell os i = (if length os \<le> i then None else os ! i)"

definition si_find :: "'a simple_index \<Rightarrow> object_id \<Rightarrow> 'a option" where
  "si_find x k = cell (si_objects x) (slot k)"

definition si_create :: "object_id \<Rightarrow> (object_id \<Rightarrow> 'a) \<Rightarrow> ('a simple_index, unit) st" where
  "si_create next_id constructor x =
     (Inr (), x\<lparr>si_objects := (grow None (slot next_id) (si_objects x))[slot next_id := Some (constructor next_id)]\<rparr>)"

definition si_insert :: "object_id \<Rightarrow> 'a \<Rightarrow> ('a simple_index, unit) st" where
  "si_insert k v x =
     (Inr (), x\<lparr>si_objects := (grow None (slot k) (si_objects x))[slot k := Some v]\<rparr>)"

definition si_modify :: "object_id \<Rightarrow> ('a \<Rightarrow> 'a) \<Rightarrow> ('a simple_index, unit) st" where
  "si_modify k m x =
     (case si_find x k of
        None \<Rightarrow> (Inl Undefined_Behaviour, x)
      | Some v \<Rightarrow> (Inr (), x\<lparr>si_objects := (si_objects x)[slot k := Some (m v)]\<rparr>))"

definition drop_trailing_null :: "'a option list \<Rightarrow> 'a option list" where
  \<comment> \<open>\<open>while( size() > 0 && back() == nullptr ) pop_back()\<close>\<close>
  "drop_trailing_null xs = rev (dropWhile (\<lambda>p. p = None) (rev xs))"

definition si_remove :: "object_id \<Rightarrow> ('a simple_index, unit) st" where
  "si_remove k x =
     (if slot k < length (si_objects x)
      then (Inr (), x\<lparr>si_objects := drop_trailing_null ((si_objects x)[slot k := None])\<rparr>)
      else (Inl Undefined_Behaviour, x))"

definition si_inspect_all_objects :: "'a simple_index \<Rightarrow> 'a list" where
  "si_inspect_all_objects x = map the (filter (\<lambda>p. p \<noteq> None) (si_objects x))"

fun si_hash :: "('a \<Rightarrow> 128 word) \<Rightarrow> 'a option list \<Rightarrow> 128 word res" where
  \<comment> \<open>the loop dereferences every slot, the null ones too\<close>
  "si_hash h [] = Inr 0"
| "si_hash h (None # ps) = Inl Undefined_Behaviour"
| "si_hash h (Some v # ps) = res_bind (si_hash h ps) (\<lambda>r. Inr (h v + r))"

section \<open>flat_index\<close>

text \<open>A vector of values; \<open>fi_default\<close> is the value \<open>T()\<close>, put where an object is removed.\<close>

record 'a flat_index =
  fi_objects :: "'a list"
  fi_default :: 'a

definition fi_find :: "'a flat_index \<Rightarrow> object_id \<Rightarrow> 'a option" where
  "fi_find x k = (if length (fi_objects x) \<le> slot k then None else Some (fi_objects x ! slot k))"

definition fi_create :: "object_id \<Rightarrow> (object_id \<Rightarrow> 'a \<Rightarrow> 'a) \<Rightarrow> ('a flat_index, unit) st" where
  "fi_create next_id constructor x =
     (let os = grow (fi_default x) (slot next_id) (fi_objects x)
      in (Inr (), x\<lparr>fi_objects := os[slot next_id := constructor next_id (os ! slot next_id)]\<rparr>))"

definition fi_insert :: "object_id \<Rightarrow> 'a \<Rightarrow> ('a flat_index, unit) st" where
  "fi_insert k v x =
     (Inr (), x\<lparr>fi_objects := (grow (fi_default x) (slot k) (fi_objects x))[slot k := v]\<rparr>)"

definition fi_modify :: "object_id \<Rightarrow> ('a \<Rightarrow> 'a) \<Rightarrow> ('a flat_index, unit) st" where
  "fi_modify k m x =
     (case fi_find x k of
        None \<Rightarrow> (Inl Undefined_Behaviour, x)
      | Some v \<Rightarrow> (Inr (), x\<lparr>fi_objects := (fi_objects x)[slot k := m v]\<rparr>))"

definition fi_remove :: "object_id \<Rightarrow> ('a flat_index, unit) st" where
  "fi_remove k x =
     (if slot k < length (fi_objects x)
      then (Inr (), x\<lparr>fi_objects := (fi_objects x)[slot k := fi_default x]\<rparr>)
      else (Inl Undefined_Behaviour, x))"

definition fi_hash :: "('a \<Rightarrow> 128 word) \<Rightarrow> 'a flat_index \<Rightarrow> 128 word" where
  "fi_hash h x = fold (\<lambda>obj result. result + h obj) (fi_objects x) 0"

section \<open>The laws hold\<close>

lemma length_grow: "i < length (grow d i xs)"
  by (auto simp: grow_def resize_def)

lemma nth_grow: "i < length xs \<Longrightarrow> grow d j xs ! i = xs ! i"
  by (auto simp: grow_def resize_def nth_append)

lemma nth_grow_new: "length xs \<le> i \<Longrightarrow> i < length (grow d j xs) \<Longrightarrow> grow d j xs ! i = d"
  by (auto simp: grow_def resize_def nth_append split: if_splits)

lemma length_grow_mono: "length xs \<le> length (grow d i xs)"
  by (auto simp: grow_def resize_def)

lemma slot_inject: "is_type sp ty j \<Longrightarrow> is_type sp ty k \<Longrightarrow> slot j = slot k \<Longrightarrow> j = k"
  by (rule object_id_eqI) (auto simp: is_type_iff slot_def intro: unsigned_word_eqI)

lemma cell_update: "i < length os \<Longrightarrow> cell (os[i := p]) j = (if j = i then p else cell os j)"
  by (auto simp: cell_def)

lemma cell_grow: "cell (grow None i os) j = cell os j"
  using length_grow_mono [of os None i] by (auto simp: cell_def nth_grow nth_grow_new not_le)

lemma cell_snoc: "cell (os @ [p]) i = (if i = length os then p else cell os i)"
  by (auto simp: cell_def nth_append)

lemma cell_beyond: "length os \<le> i \<Longrightarrow> cell os i = None"
  by (simp add: cell_def)

lemma cell_drop_trailing_null: "cell (drop_trailing_null os) i = cell os i"
proof (induction os rule: rev_induct)
  case (snoc p os)
  show ?case
  proof (cases p)
    case None
    then have "drop_trailing_null (os @ [p]) = drop_trailing_null os"
      by (simp add: drop_trailing_null_def)
    then show ?thesis using snoc.IH None by (simp add: cell_snoc cell_beyond)
  qed (simp add: drop_trailing_null_def)
qed (simp add: drop_trailing_null_def)

lemmas cell_simps = cell_update cell_grow cell_drop_trailing_null length_grow

interpretation gi: removable_index gi_find gi_insert gi_modify "\<lambda>_. True" gi_remove
proof
  fix k j :: object_id and v :: 'a and s t :: "'a generic_index" and f :: "'a \<Rightarrow> 'a"
  show "gi_insert k v s = (Inr (), t) \<Longrightarrow> gi_find t k = Some v"
    by (auto simp: gi_insert_def gi_find_def map_add_def split: if_splits option.splits)
  show "j \<noteq> k \<Longrightarrow> gi_insert k v s = (Inr (), t) \<Longrightarrow> gi_find t j = gi_find s j"
    by (auto simp: gi_insert_def gi_find_def map_add_def split: if_splits option.splits)
  then show "j \<noteq> k \<Longrightarrow> gi_insert k v s = (Inr (), t) \<Longrightarrow> gi_find s j = Some w \<Longrightarrow> gi_find t j = Some w" for w
    by simp
  show "gi_modify k f s = (Inr (), t) \<Longrightarrow> \<exists>v. gi_find s k = Some v \<and> gi_find t k = Some (f v)"
    by (auto simp: gi_modify_def gi_find_def map_of_map_entry split: option.splits if_splits)
  show "j \<noteq> k \<Longrightarrow> gi_modify k f s = (Inr (), t) \<Longrightarrow> gi_find t j = gi_find s j"
    by (auto simp: gi_modify_def gi_find_def map_of_map_entry split: option.splits if_splits)
  show "gi_remove k s = (Inr (), t) \<Longrightarrow> gi_find t k = None"
    by (auto simp: gi_remove_def gi_find_def map_of_filter_key split: option.splits)
  show "j \<noteq> k \<Longrightarrow> gi_remove k s = (Inr (), t) \<Longrightarrow> gi_find t j = gi_find s j"
    by (auto simp: gi_remove_def gi_find_def map_of_filter_key split: option.splits)
qed

interpretation si: removable_index si_find si_insert si_modify "is_type sp ty" si_remove for sp ty
proof
  fix k j :: object_id and v w :: 'a and s t :: "'a simple_index" and f :: "'a \<Rightarrow> 'a"
  assume k: "is_type sp ty k"
  show "si_insert k v s = (Inr (), t) \<Longrightarrow> si_find t k = Some v"
    by (auto simp: si_insert_def si_find_def cell_simps)
  have in_range: "si_find s i = Some x \<Longrightarrow> slot i < length (si_objects s)" for i x
    by (auto simp: si_find_def cell_def split: if_splits)
  show "si_modify k f s = (Inr (), t) \<Longrightarrow> \<exists>v. si_find s k = Some v \<and> si_find t k = Some (f v)"
    using in_range [of k] by (auto simp: si_modify_def si_find_def cell_simps split: option.splits)
  show "si_remove k s = (Inr (), t) \<Longrightarrow> si_find t k = None"
    by (auto simp: si_remove_def si_find_def cell_simps split: if_splits)
  assume j: "is_type sp ty j" "j \<noteq> k"
  then have ne: "slot j \<noteq> slot k" using slot_inject [OF j(1) k] by auto
  show ins: "si_insert k v s = (Inr (), t) \<Longrightarrow> si_find t j = si_find s j"
    using ne by (auto simp: si_insert_def si_find_def cell_simps)
  then show "si_insert k v s = (Inr (), t) \<Longrightarrow> si_find s j = Some w \<Longrightarrow> si_find t j = Some w"
    by simp
  show "si_modify k f s = (Inr (), t) \<Longrightarrow> si_find t j = si_find s j"
    using ne in_range [of k] by (auto simp: si_modify_def si_find_def cell_simps split: option.splits)
  show "si_remove k s = (Inr (), t) \<Longrightarrow> si_find t j = si_find s j"
    using ne by (auto simp: si_remove_def si_find_def cell_simps split: if_splits)
qed

interpretation fi: object_index fi_find fi_insert fi_modify "is_type sp ty" for sp ty
proof
  fix k j :: object_id and v w :: 'a and s t :: "'a flat_index" and f :: "'a \<Rightarrow> 'a"
  assume k: "is_type sp ty k"
  show "fi_insert k v s = (Inr (), t) \<Longrightarrow> fi_find t k = Some v"
    using length_grow [of "slot k" "fi_default s" "fi_objects s"] by (auto simp: fi_insert_def fi_find_def)
  show "fi_modify k f s = (Inr (), t) \<Longrightarrow> \<exists>v. fi_find s k = Some v \<and> fi_find t k = Some (f v)"
    by (auto simp: fi_modify_def fi_find_def split: option.splits if_splits)
  assume j: "is_type sp ty j" "j \<noteq> k"
  then have ne: "slot j \<noteq> slot k" using slot_inject [OF j(1) k] by auto
  show "fi_insert k v s = (Inr (), t) \<Longrightarrow> fi_find s j = Some w \<Longrightarrow> fi_find t j = Some w"
    using ne length_grow_mono [of "fi_objects s" "fi_default s" "slot k"]
    by (auto simp: fi_insert_def fi_find_def nth_grow split: if_splits)
  show "fi_modify k f s = (Inr (), t) \<Longrightarrow> fi_find t j = fi_find s j"
    using ne by (auto simp: fi_modify_def fi_find_def split: option.splits)
qed

end
