(* ===== verification/Object_Database.thy ===== *)
theory Object_Database
  imports Object_Index
begin

text \<open>
  The primary indexes and the object database (\<open>index.hpp\<close>, \<open>index.cpp\<close>,
  \<open>object_database.hpp\<close>, \<open>object_database.cpp\<close>) together with the state of the undo database
  and its three recorders (\<open>undo_database.hpp\<close>, \<open>undo_database.cpp\<close>), and the effect of every
  operation on what a lookup returns.
\<close>

section \<open>Virtual dispatch over the kinds of index\<close>

datatype 'a derived_index =
    Generic "'a generic_index"
  | Simple "'a simple_index"
  | Flat "'a flat_index"

fun ix_find :: "'a derived_index \<Rightarrow> object_id \<Rightarrow> 'a option" where
  "ix_find (Generic g) k = gi_find g k"
| "ix_find (Simple x) k = si_find x k"
| "ix_find (Flat x) k = fi_find x k"

fun ix_insert :: "object_id \<Rightarrow> 'a \<Rightarrow> ('a derived_index, unit) st" where
  "ix_insert k v (Generic g) = apsnd Generic (gi_insert k v g)"
| "ix_insert k v (Simple x) = apsnd Simple (si_insert k v x)"
| "ix_insert k v (Flat x) = apsnd Flat (fi_insert k v x)"

fun ix_create :: "object_id \<Rightarrow> 'a \<Rightarrow> (object_id \<Rightarrow> 'a \<Rightarrow> 'a) \<Rightarrow> ('a derived_index, unit) st" where
  \<comment> \<open>a new object starts as the default value \<open>d\<close>, a \<open>flat_index\<close> reuses its slot\<close>
  "ix_create k d c (Generic g) = apsnd Generic (gi_create k (\<lambda>i. c i d) g)"
| "ix_create k d c (Simple x) = apsnd Simple (si_create k (\<lambda>i. c i d) x)"
| "ix_create k d c (Flat x) = apsnd Flat (fi_create k c x)"

fun ix_modify :: "object_id \<Rightarrow> ('a \<Rightarrow> 'a) \<Rightarrow> ('a derived_index, unit) st" where
  "ix_modify k m (Generic g) = apsnd Generic (gi_modify k m g)"
| "ix_modify k m (Simple x) = apsnd Simple (si_modify k m x)"
| "ix_modify k m (Flat x) = apsnd Flat (fi_modify k m x)"

fun ix_remove :: "object_id \<Rightarrow> ('a derived_index, unit) st" where
  "ix_remove k (Generic g) = apsnd Generic (gi_remove k g)"
| "ix_remove k (Simple x) = apsnd Simple (si_remove k x)"
| "ix_remove k (Flat x) = apsnd Flat (fi_remove k x)"

fun is_flat :: "'a derived_index \<Rightarrow> bool" where
  "is_flat (Flat _) = True"
| "is_flat _ = False"

fun ix_clash :: "'a derived_index \<Rightarrow> 'a \<Rightarrow> 'a \<Rightarrow> bool" where
  "ix_clash (Generic g) = gi_clash g"
| "ix_clash (Simple _) = (\<lambda>_ _. False)"
| "ix_clash (Flat _) = (\<lambda>_ _. False)"

section \<open>State\<close>

text \<open>
  What the secondary indexes and the observers of a primary index are told, in order: each of
  them is a function of this sequence.
\<close>

datatype 'a index_event =
    Object_Inserted object_id 'a
  | Object_Removed object_id 'a
  | About_To_Modify object_id 'a
  | Object_Modified object_id 'a
  | Observer_Add object_id 'a
  | Observer_Remove object_id 'a
  | Observer_Modify object_id 'a

record 'a primary_index =
  derived :: "'a derived_index"
  next_id :: object_id
  default_object :: 'a
  events :: "'a index_event list"

record 'a undo_state =
  old_values :: "(object_id \<times> 'a) list"
  old_index_next_ids :: "(object_id \<times> object_id) list"
  new_ids :: "object_id list"
  removed :: "(object_id \<times> 'a) list"

definition empty_undo_state :: "'a undo_state" where
  "empty_undo_state = \<lparr>old_values = [], old_index_next_ids = [], new_ids = [], removed = []\<rparr>"

text \<open>The deque of undo states is a list with the most recent state first.\<close>

record 'a object_database =
  indexes :: "'a primary_index option list list"
  disabled :: bool
  active_sessions :: "32 word"
  undo_stack :: "'a undo_state list"
  max_size :: nat

definition empty_database :: "'a object_database" where
  \<comment> \<open>the constructor: 255 spaces without an index, undo recording enabled\<close>
  "empty_database = \<lparr>indexes = replicate 255 [], disabled = False, active_sessions = 0,
     undo_stack = [], max_size = 256\<rparr>"

definition reset_indexes :: "'a object_database \<Rightarrow> 'a object_database" where
  "reset_indexes db = db\<lparr>indexes := replicate 255 []\<rparr>"

section \<open>Recording changes\<close>

definition undo_enabled :: "'a object_database \<Rightarrow> bool" where
  "undo_enabled db = (\<not> disabled db)"

definition undo_enable :: "'a object_database \<Rightarrow> 'a object_database" where
  "undo_enable db = db\<lparr>disabled := False\<rparr>"

definition undo_disable :: "'a object_database \<Rightarrow> 'a object_database" where
  "undo_disable db = db\<lparr>disabled := True\<rparr>"

definition upd_top :: "('a undo_state \<Rightarrow> 'a undo_state) \<Rightarrow> 'a object_database \<Rightarrow> 'a object_database" where
  \<comment> \<open>\<open>if( _stack.empty() ) _stack.emplace_back(); auto& state = _stack.back(); ...\<close>\<close>
  "upd_top f db = (case undo_stack db of
       [] \<Rightarrow> db\<lparr>undo_stack := [f empty_undo_state]\<rparr>
     | u # us \<Rightarrow> db\<lparr>undo_stack := f u # us\<rparr>)"

definition index_key :: "8 word \<Rightarrow> 8 word \<Rightarrow> object_id" where
  \<comment> \<open>\<open>object_id_type( space, type, 0 )\<close>, which never throws\<close>
  "index_key s t = Object_Id (push_bit 56 (ucast s) OR push_bit 48 (ucast t) OR 0)"

definition record_create :: "object_id \<Rightarrow> 'a undo_state \<Rightarrow> 'a undo_state" where
  "record_create oid u =
     (let k = index_key (space_of oid) (type_of oid);
          u1 = (if map_of (old_index_next_ids u) k = None
                then u\<lparr>old_index_next_ids := AList.update k oid (old_index_next_ids u)\<rparr> else u)
      in u1\<lparr>new_ids := List.insert oid (new_ids u1)\<rparr>)"

definition record_modify :: "object_id \<Rightarrow> 'a \<Rightarrow> 'a undo_state \<Rightarrow> 'a undo_state" where
  "record_modify oid v u =
     (if oid \<in> set (new_ids u) then u
      else if map_of (old_values u) oid \<noteq> None then u
      else u\<lparr>old_values := AList.update oid v (old_values u)\<rparr>)"

definition record_remove :: "object_id \<Rightarrow> 'a \<Rightarrow> 'a undo_state \<Rightarrow> 'a undo_state" where
  "record_remove oid v u =
     (if oid \<in> set (new_ids u) then u\<lparr>new_ids := removeAll oid (new_ids u)\<rparr>
      else case map_of (old_values u) oid of
        Some x \<Rightarrow> u\<lparr>removed := AList.update oid x (removed u), old_values := AList.delete oid (old_values u)\<rparr>
      | None \<Rightarrow> if map_of (removed u) oid \<noteq> None then u
                else u\<lparr>removed := AList.update oid v (removed u)\<rparr>)"

definition on_create :: "object_id \<Rightarrow> 'a object_database \<Rightarrow> 'a object_database" where
  "on_create oid db = (if disabled db then db else upd_top (record_create oid) db)"

definition on_modify :: "object_id \<Rightarrow> 'a \<Rightarrow> 'a object_database \<Rightarrow> 'a object_database" where
  "on_modify oid v db = (if disabled db then db else upd_top (record_modify oid v) db)"

definition on_remove :: "object_id \<Rightarrow> 'a \<Rightarrow> 'a object_database \<Rightarrow> 'a object_database" where
  "on_remove oid v db = (if disabled db then db else upd_top (record_remove oid v) db)"

section \<open>Operations of the object database\<close>

definition get_index :: "8 word \<Rightarrow> 8 word \<Rightarrow> 'a object_database \<Rightarrow> 'a primary_index res" where
  "get_index s t db =
     (if length (indexes db) \<le> unat s then Inl Assert_Exception
      else if length (indexes db ! unat s) \<le> unat t then Inl Assert_Exception
      else case indexes db ! unat s ! unat t of
        None \<Rightarrow> Inl Assert_Exception
      | Some pi \<Rightarrow> Inr pi)"

definition put_index :: "8 word \<Rightarrow> 8 word \<Rightarrow> 'a primary_index \<Rightarrow> 'a object_database \<Rightarrow> 'a object_database" where
  "put_index s t pi db =
     db\<lparr>indexes := (indexes db)[unat s := (indexes db ! unat s)[unat t := Some pi]]\<rparr>"

definition add_index :: "8 word \<Rightarrow> 8 word \<Rightarrow> 'a derived_index \<Rightarrow> 'a \<Rightarrow> ('a object_database, unit) st" where
  "add_index s t d dflt db =
     (if length (indexes db) \<le> unat s then (Inl Undefined_Behaviour, db)
      else let row = indexes db ! unat s;
               row1 = (if length row \<le> unat t then resize None 255 row else row);
               pi = \<lparr>derived = d, next_id = index_key s t, default_object = dflt, events = []\<rparr>
           in if length row1 \<le> unat t then (Inl Undefined_Behaviour, db)
              else (Inr (), db\<lparr>indexes := (indexes db)[unat s := row1[unat t := Some pi]]\<rparr>))"

definition find_object :: "object_id \<Rightarrow> 'a object_database \<Rightarrow> 'a option res" where
  "find_object oid db =
     res_bind (get_index (space_of oid) (type_of oid) db) (\<lambda>pi. Inr (ix_find (derived pi) oid))"

definition get_object :: "object_id \<Rightarrow> 'a object_database \<Rightarrow> 'a res" where
  "get_object oid db = res_bind (find_object oid db) (of_option Assert_Exception)"

definition set_next_id :: "8 word \<Rightarrow> 8 word \<Rightarrow> object_id \<Rightarrow> ('a object_database, unit) st" where
  "set_next_id s t n db =
     (case get_index s t db of
        Inl e \<Rightarrow> (Inl e, db)
      | Inr pi \<Rightarrow> (Inr (), put_index s t (pi\<lparr>next_id := n\<rparr>) db))"

definition db_create :: "8 word \<Rightarrow> 8 word \<Rightarrow> (object_id \<Rightarrow> 'a \<Rightarrow> 'a) \<Rightarrow> ('a object_database, object_id) st" where
  "db_create s t constructor db =
     (case get_index s t db of
        Inl e \<Rightarrow> (Inl e, db)
      | Inr pi \<Rightarrow>
          let oid = next_id pi in
          case ix_create oid (default_object pi) constructor (derived pi) of
            (Inl e, d) \<Rightarrow> (Inl e, put_index s t (pi\<lparr>derived := d\<rparr>) db)
          | (Inr _, d) \<Rightarrow>
              (case ix_find d oid of
                 None \<Rightarrow> (Inl Undefined_Behaviour, db)
               | Some v \<Rightarrow>
                  (Inr oid, on_create oid (put_index s t
                     (pi\<lparr>derived := d, next_id := id_incr oid,
                         events := events pi @ [Object_Inserted oid v, Observer_Add oid v]\<rparr>) db))))"

definition db_modify :: "object_id \<Rightarrow> ('a \<Rightarrow> 'a) \<Rightarrow> ('a object_database, unit) st" where
  "db_modify oid m db =
     (case get_index (space_of oid) (type_of oid) db of
        Inl e \<Rightarrow> (Inl e, db)
      | Inr pi \<Rightarrow>
         (case ix_find (derived pi) oid of
            None \<Rightarrow> (Inl Undefined_Behaviour, db)
          | Some v \<Rightarrow>
              let db1 = on_modify oid v db in
              case ix_modify oid m (derived pi) of
                (Inl e, d) \<Rightarrow>
                  (Inl e, put_index (space_of oid) (type_of oid)
                     (pi\<lparr>derived := d, events := events pi @ [About_To_Modify oid v]\<rparr>) db1)
              | (Inr _, d) \<Rightarrow>
                  (Inr (), put_index (space_of oid) (type_of oid)
                     (pi\<lparr>derived := d, events := events pi @
                        [About_To_Modify oid v, Object_Modified oid (m v), Observer_Modify oid (m v)]\<rparr>) db1)))"

definition db_remove :: "object_id \<Rightarrow> ('a object_database, unit) st" where
  "db_remove oid db =
     (case get_index (space_of oid) (type_of oid) db of
        Inl e \<Rightarrow> (Inl e, db)
      | Inr pi \<Rightarrow>
         (case ix_find (derived pi) oid of
            None \<Rightarrow> (Inl Undefined_Behaviour, db)
          | Some v \<Rightarrow>
              let (r, d) = ix_remove oid (derived pi) in
              (r, put_index (space_of oid) (type_of oid)
                (pi\<lparr>derived := d, events := events pi @ [Object_Removed oid v, Observer_Remove oid v]\<rparr>)
                (on_remove oid v db))))"

definition db_insert :: "object_id \<Rightarrow> 'a \<Rightarrow> ('a object_database, unit) st" where
  \<comment> \<open>\<open>primary_index\<close> does not override \<open>insert\<close>: nothing is recorded and nobody is told\<close>
  "db_insert oid v db =
     (case get_index (space_of oid) (type_of oid) db of
        Inl e \<Rightarrow> (Inl e, db)
      | Inr pi \<Rightarrow>
          let (r, d) = ix_insert oid v (derived pi) in
          (r, put_index (space_of oid) (type_of oid) (pi\<lparr>derived := d\<rparr>) db))"

definition db_load :: "8 word \<Rightarrow> 8 word \<Rightarrow> object_id \<Rightarrow> 'a \<Rightarrow> ('a object_database, unit) st" where
  \<comment> \<open>\<open>primary_index::load\<close>: an insertion that the secondary indexes are told about\<close>
  "db_load s t oid v db =
     (case get_index s t db of
        Inl e \<Rightarrow> (Inl e, db)
      | Inr pi \<Rightarrow>
          (case ix_insert oid v (derived pi) of
             (Inl e, d) \<Rightarrow> (Inl e, put_index s t (pi\<lparr>derived := d\<rparr>) db)
           | (Inr _, d) \<Rightarrow>
               (Inr (), put_index s t (pi\<lparr>derived := d, events := events pi @ [Object_Inserted oid v]\<rparr>) db)))"

section \<open>What a lookup returns\<close>

definition obj_view :: "'a object_database \<Rightarrow> object_id \<Rightarrow> 'a option" where
  "obj_view db oid = (case find_object oid db of Inl _ \<Rightarrow> None | Inr x \<Rightarrow> x)"

definition next_view :: "'a object_database \<Rightarrow> 8 word \<Rightarrow> 8 word \<Rightarrow> object_id option" where
  "next_view db s t = (case get_index s t db of Inl _ \<Rightarrow> None | Inr pi \<Rightarrow> Some (next_id pi))"

definition shape :: "'a object_database \<Rightarrow> 8 word \<Rightarrow> 8 word \<Rightarrow> (bool \<times> ('a \<Rightarrow> 'a \<Rightarrow> bool)) option" where
  \<comment> \<open>which indexes exist, whether they are flat, and their unique keys: no operation changes it\<close>
  "shape db s t = (case get_index s t db of Inl _ \<Rightarrow> None
     | Inr pi \<Rightarrow> Some (is_flat (derived pi), ix_clash (derived pi)))"

fun ix_wf :: "8 word \<Rightarrow> 8 word \<Rightarrow> 'a derived_index \<Rightarrow> bool" where
  "ix_wf s t (Generic g) \<longleftrightarrow> distinct (map fst (gi_rows g)) \<and> (\<forall>j \<in> set (map fst (gi_rows g)). is_type s t j)"
| "ix_wf s t (Simple _) \<longleftrightarrow> True"
| "ix_wf s t (Flat _) \<longleftrightarrow> True"

definition db_ok :: "'a object_database \<Rightarrow> bool" where
  "db_ok db \<longleftrightarrow> (\<forall>s t pi. get_index s t db = Inr pi \<longrightarrow>
     ix_wf s t (derived pi) \<and> is_type s t (next_id pi))"

subsection \<open>Laws of the dispatched operations\<close>

lemma ix_modify_find:
  assumes "is_type s t k" and "is_type s t j" and "ix_modify k m d = (Inr (), d')"
  shows "ix_find d' j = (if j = k then map_option m (ix_find d k) else ix_find d j)"
proof (cases d)
  case (Generic g)
  with assms(3) obtain g' where "gi_modify k m g = (Inr (), g')" "d' = Generic g'"
    by (cases "gi_modify k m g") auto
  with gi.modify_find [OF TrueI TrueI this(1)] Generic show ?thesis by simp
next
  case (Simple x)
  with assms(3) obtain x' where "si_modify k m x = (Inr (), x')" "d' = Simple x'"
    by (cases "si_modify k m x") auto
  with si.modify_find [OF assms(1,2) this(1)] Simple show ?thesis by simp
next
  case (Flat x)
  with assms(3) obtain x' where "fi_modify k m x = (Inr (), x')" "d' = Flat x'"
    by (cases "fi_modify k m x") auto
  with fi.modify_find [OF assms(1,2) this(1)] Flat show ?thesis by simp
qed

lemma ix_insert_find:
  assumes "is_type s t k" and "is_type s t j" and "ix_insert k v d = (Inr (), d')" and "\<not> is_flat d"
  shows "ix_find d' j = (if j = k then Some v else ix_find d j)"
proof (cases d)
  case (Generic g)
  with assms(3) obtain g' where "gi_insert k v g = (Inr (), g')" "d' = Generic g'"
    by (cases "gi_insert k v g") auto
  with gi.insert_find [OF TrueI TrueI this(1)] Generic show ?thesis by simp
next
  case (Simple x)
  with assms(3) obtain x' where "si_insert k v x = (Inr (), x')" "d' = Simple x'"
    by (cases "si_insert k v x") auto
  with si.insert_find [OF assms(1,2) this(1)] Simple show ?thesis by simp
qed (use assms(4) in simp)

lemma ix_create_insert: "\<not> is_flat d \<Longrightarrow> ix_create k dflt c d = ix_insert k (c k dflt) d"
  by (cases d) (simp_all add: gi_create_def si_create_def si_insert_def)

lemma ix_remove_find:
  assumes "is_type s t k" and "is_type s t j" and "ix_remove k d = (Inr (), d')" and "\<not> is_flat d"
  shows "ix_find d' j = (if j = k then None else ix_find d j)"
proof (cases d)
  case (Generic g)
  with assms(3) obtain g' where "gi_remove k g = (Inr (), g')" "d' = Generic g'"
    by (cases "gi_remove k g") auto
  with gi.remove_find [OF TrueI TrueI this(1)] Generic show ?thesis by simp
next
  case (Simple x)
  with assms(3) obtain x' where "si_remove k x = (Inr (), x')" "d' = Simple x'"
    by (cases "si_remove k x") auto
  with si.remove_find [OF assms(1,2) this(1)] Simple show ?thesis by simp
qed (use assms(4) in simp)

lemma fst_map_entry [simp]: "map (fst \<circ> (\<lambda>(i, v). (i, if i = k then m v else v))) xs = map fst xs"
  by (induction xs) auto

lemma gi_ops_wf:
  "distinct (map fst (gi_rows g)) \<Longrightarrow> gi_insert k v g = (r, g') \<Longrightarrow> distinct (map fst (gi_rows g'))"
  "distinct (map fst (gi_rows g)) \<Longrightarrow> gi_remove k g = (r, g') \<Longrightarrow> distinct (map fst (gi_rows g'))"
  "distinct (map fst (gi_rows g)) \<Longrightarrow> gi_modify k m g = (r, g') \<Longrightarrow> distinct (map fst (gi_rows g'))"
proof -
  have flt: "distinct (map fst xs) \<Longrightarrow> distinct (map fst (filter P xs))" for xs :: "(object_id \<times> 'a) list" and P
    by (simp add: distinct_map_filter)
  assume d: "distinct (map fst (gi_rows g))"
  show "gi_insert k v g = (r, g') \<Longrightarrow> distinct (map fst (gi_rows g'))"
    using d by (auto simp: gi_insert_def gi_find_def map_of_eq_None_iff split: if_splits)
  show "gi_remove k g = (r, g') \<Longrightarrow> distinct (map fst (gi_rows g'))"
    using d by (auto simp: gi_remove_def flt split: option.splits)
  show "gi_modify k m g = (r, g') \<Longrightarrow> distinct (map fst (gi_rows g'))"
    using d by (auto simp: gi_modify_def flt split: option.splits if_splits)
qed

lemma gi_insert_own: "gi_insert k v g = (r, g') \<Longrightarrow> set (map fst (gi_rows g')) \<subseteq> Set.insert k (set (map fst (gi_rows g)))"
  by (auto simp: gi_insert_def split: if_splits)

lemma gi_remove_own: "gi_remove k g = (r, g') \<Longrightarrow> set (map fst (gi_rows g')) \<subseteq> set (map fst (gi_rows g))"
  by (auto simp: gi_remove_def split: option.splits)

lemma gi_modify_rows:
  "gi_modify k m g = (r, g') \<Longrightarrow> map fst (gi_rows g') = map fst (gi_rows g) \<or>
     gi_rows g' = filter (\<lambda>(i, v). i \<noteq> k) (gi_rows g)"
  by (auto simp: gi_modify_def split: option.splits if_splits)

lemma gi_modify_own: "gi_modify k m g = (r, g') \<Longrightarrow> set (map fst (gi_rows g')) \<subseteq> set (map fst (gi_rows g))"
proof (drule gi_modify_rows, elim disjE)
  show "map fst (gi_rows g') = map fst (gi_rows g) \<Longrightarrow> ?thesis" by (simp only: subset_refl)
qed auto

lemmas gi_ops_own = gi_insert_own gi_remove_own gi_modify_own

lemma gi_ops_clash:
  "gi_insert k v g = (r, g') \<Longrightarrow> gi_clash g' = gi_clash g"
  "gi_remove k g = (r, g') \<Longrightarrow> gi_clash g' = gi_clash g"
  "gi_modify k m g = (r, g') \<Longrightarrow> gi_clash g' = gi_clash g"
  by (auto simp: gi_insert_def gi_remove_def gi_modify_def split: option.splits if_splits)

lemma ix_ops_kind:
  "ix_insert k v d = (r, d') \<Longrightarrow> is_flat d' = is_flat d \<and> ix_clash d' = ix_clash d"
  "ix_remove k d = (r, d') \<Longrightarrow> is_flat d' = is_flat d \<and> ix_clash d' = ix_clash d"
  "ix_modify k m d = (r, d') \<Longrightarrow> is_flat d' = is_flat d \<and> ix_clash d' = ix_clash d"
  by (cases d; auto simp: apsnd_def map_prod_def gi_ops_clash split: prod.splits)+

lemma ix_ops_Generic:
  "ix_insert k v (Generic g) = (r, d') \<longleftrightarrow> (\<exists>g'. gi_insert k v g = (r, g') \<and> d' = Generic g')"
  "ix_remove k (Generic g) = (r, d') \<longleftrightarrow> (\<exists>g'. gi_remove k g = (r, g') \<and> d' = Generic g')"
  "ix_modify k m (Generic g) = (r, d') \<longleftrightarrow> (\<exists>g'. gi_modify k m g = (r, g') \<and> d' = Generic g')"
  by (auto simp: apsnd_def map_prod_def split: prod.splits)

lemma ix_insert_wf: "ix_wf s t d \<Longrightarrow> ix_insert k v d = (r, d') \<Longrightarrow> is_type s t k \<Longrightarrow> ix_wf s t d'"
proof (cases d)
  case (Generic g)
  moreover assume "ix_wf s t d" "ix_insert k v d = (r, d')" "is_type s t k"
  ultimately show ?thesis
    using gi_ops_wf(1) [of g k v r] gi_ops_own(1) [of k v g r] by (fastforce simp: ix_ops_Generic simp del: ix_insert.simps)
qed (auto simp: apsnd_def map_prod_def split: prod.splits)

lemma ix_remove_wf: "ix_wf s t d \<Longrightarrow> ix_remove k d = (r, d') \<Longrightarrow> ix_wf s t d'"
proof (cases d)
  case (Generic g)
  moreover assume "ix_wf s t d" "ix_remove k d = (r, d')"
  ultimately show ?thesis
    using gi_ops_wf(2) [of g k r] gi_ops_own(2) [of k g r] by (fastforce simp: ix_ops_Generic simp del: ix_remove.simps)
qed (auto simp: apsnd_def map_prod_def split: prod.splits)

lemma ix_modify_wf: "ix_wf s t d \<Longrightarrow> ix_modify k m d = (r, d') \<Longrightarrow> ix_wf s t d'"
proof (cases d)
  case (Generic g)
  moreover assume "ix_wf s t d" "ix_modify k m d = (r, d')"
  ultimately show ?thesis
    using gi_ops_wf(3) [of g k m r] gi_ops_own(3) [of k m g r] by (fastforce simp: ix_ops_Generic simp del: ix_modify.simps)
qed (auto simp: apsnd_def map_prod_def split: prod.splits)

lemmas ix_ops_wf = ix_insert_wf ix_remove_wf ix_modify_wf

lemma ix_modify_ok:
  assumes "ix_wf s t d" and "is_type s t k" and "ix_find d k = Some v"
    and nc: "\<And>j w. is_type s t j \<Longrightarrow> j \<noteq> k \<Longrightarrow> ix_find d j = Some w \<Longrightarrow> \<not> ix_clash d (m v) w"
  shows "\<exists>d'. ix_modify k m d = (Inr (), d')"
proof (cases d)
  case (Generic g)
  have "\<not> gi_clash g (m v) w" if "(j, w) \<in> set (gi_rows g)" "j \<noteq> k" for j w
    using nc [of j w] that assms(1) Generic by (auto simp: gi_find_def)
  with assms(3) Generic show ?thesis by (auto simp: gi_modify_def)
qed (use assms(3) in \<open>simp_all add: si_modify_def fi_modify_def\<close>)

lemma ix_insert_ok:
  assumes "ix_wf s t d" and "is_type s t k" and "ix_find d k = None"
    and nc: "\<And>j w. is_type s t j \<Longrightarrow> j \<noteq> k \<Longrightarrow> ix_find d j = Some w \<Longrightarrow> \<not> ix_clash d v w"
  shows "\<exists>d'. ix_insert k v d = (Inr (), d')"
proof (cases d)
  case (Generic g)
  have "\<not> gi_clash g v w" if "(j, w) \<in> set (gi_rows g)" for j w
  proof -
    have "j \<noteq> k" using that assms(3) Generic by (auto simp: gi_find_def map_of_eq_None_iff image_iff)
    with nc [of j w] that assms(1) Generic show ?thesis by (auto simp: gi_find_def)
  qed
  with assms(3) Generic show ?thesis by (auto simp: gi_insert_def)
qed (simp_all add: si_insert_def fi_insert_def)

lemma ix_remove_ok:
  assumes "ix_find d k = Some v"
  shows "\<exists>d'. ix_remove k d = (Inr (), d')"
  using assms by (cases d) (auto simp: gi_remove_def si_remove_def fi_remove_def si_find_def fi_find_def cell_def split: if_splits)

subsection \<open>Effect of the operations on the views\<close>

lemma get_index_indexes: "indexes db' = indexes db \<Longrightarrow> get_index s t db' = get_index s t db"
  by (simp add: get_index_def)

lemma get_put_index:
  assumes "get_index s t db = Inr pi0"
  shows "get_index s' t' (put_index s t pi db) = (if s' = s \<and> t' = t then Inr pi else get_index s' t' db)"
proof -
  have s: "unat s < length (indexes db)" and t: "unat t < length (indexes db ! unat s)"
    using assms by (auto simp: get_index_def split: if_splits)
  have "s' = s \<longleftrightarrow> unat s' = unat s" and "t' = t \<longleftrightarrow> unat t' = unat t"
    by (auto intro: unsigned_word_eqI)
  with s t show ?thesis
    by (cases "unat s' = unat s"; cases "unat t' = unat t") (auto simp: get_index_def put_index_def)
qed

lemma put_index_undo [simp]:
  "disabled (put_index s t pi db) = disabled db" "active_sessions (put_index s t pi db) = active_sessions db"
  "undo_stack (put_index s t pi db) = undo_stack db" "max_size (put_index s t pi db) = max_size db"
  by (simp_all add: put_index_def)

lemma upd_top_simps [simp]:
  "indexes (upd_top f db) = indexes db" "disabled (upd_top f db) = disabled db"
  "active_sessions (upd_top f db) = active_sessions db" "max_size (upd_top f db) = max_size db"
  by (simp_all add: upd_top_def split: list.splits)

lemma on_record_simps [simp]:
  "indexes (on_create k db) = indexes db" "disabled (on_create k db) = disabled db"
  "active_sessions (on_create k db) = active_sessions db" "max_size (on_create k db) = max_size db"
  "indexes (on_modify k v db) = indexes db" "disabled (on_modify k v db) = disabled db"
  "active_sessions (on_modify k v db) = active_sessions db" "max_size (on_modify k v db) = max_size db"
  "indexes (on_remove k v db) = indexes db" "disabled (on_remove k v db) = disabled db"
  "active_sessions (on_remove k v db) = active_sessions db" "max_size (on_remove k v db) = max_size db"
  by (simp_all add: on_create_def on_modify_def on_remove_def)

lemma on_record_views [simp]:
  "get_index s t (on_create k db) = get_index s t db"
  "get_index s t (on_modify k v db) = get_index s t db"
  "get_index s t (on_remove k v db) = get_index s t db"
  by (simp_all add: get_index_def)

lemma put_index_on_record [simp]:
  "undo_stack (on_create k (put_index s t pi db)) = undo_stack (on_create k db)"
  by (simp add: on_create_def upd_top_def split: list.splits)

lemma is_type_self [simp]: "is_type (space_of k) (type_of k) k"
  by (simp add: is_type_iff)

lemma obj_view_index:
  "get_index (space_of k) (type_of k) db = Inr pi \<Longrightarrow> obj_view db k = ix_find (derived pi) k"
  by (simp add: obj_view_def find_object_def)

lemma obj_view_no_index:
  "get_index (space_of k) (type_of k) db = Inl e \<Longrightarrow> obj_view db k = None"
  by (simp add: obj_view_def find_object_def)

lemma obj_view_index_at:
  "is_type s t k \<Longrightarrow> get_index s t db = Inr pi \<Longrightarrow> obj_view db k = ix_find (derived pi) k"
  by (auto simp: is_type_iff obj_view_index)

lemma get_object_eq: "get_object k db = Inr v \<longleftrightarrow> obj_view db k = Some v"
  by (auto simp: get_object_def obj_view_def find_object_def res_bind_eq_Inr split: sum.splits)

lemma obj_view_SomeE:
  assumes "obj_view db k = Some v"
  obtains pi where "get_index (space_of k) (type_of k) db = Inr pi" and "ix_find (derived pi) k = Some v"
  using assms by (cases "get_index (space_of k) (type_of k) db") (auto simp: obj_view_index obj_view_no_index)

lemma put_index_views:
  assumes g: "get_index s t db = Inr pi0" and d: "\<And>j. is_type s t j \<Longrightarrow> ix_find (derived pi) j = f j"
    and k: "is_flat (derived pi) = is_flat (derived pi0)" "ix_clash (derived pi) = ix_clash (derived pi0)"
  shows "obj_view (put_index s t pi db) j = (if is_type s t j then f j else obj_view db j)"
    and "next_view (put_index s t pi db) s' t' = (if s' = s \<and> t' = t then Some (next_id pi) else next_view db s' t')"
    and "shape (put_index s t pi db) = shape db"
proof -
  show "obj_view (put_index s t pi db) j = (if is_type s t j then f j else obj_view db j)"
  proof (cases "is_type s t j")
    case True
    with d show ?thesis by (simp add: obj_view_index_at [OF True] get_put_index [OF g])
  next
    case False
    then have "get_index (space_of j) (type_of j) (put_index s t pi db) = get_index (space_of j) (type_of j) db"
      by (auto simp: get_put_index [OF g] is_type_iff)
    with False show ?thesis by (simp add: obj_view_def find_object_def)
  qed
qed (use k g in \<open>auto simp: next_view_def shape_def get_put_index [OF g] fun_eq_iff\<close>)

lemma put_index_ok:
  assumes "get_index s t db = Inr pi0" and "db_ok db" and "ix_wf s t (derived pi)" and "is_type s t (next_id pi)"
  shows "db_ok (put_index s t pi db)"
  using assms by (auto simp: db_ok_def get_put_index [OF assms(1)] split: if_splits)

lemma db_okD:
  "db_ok db \<Longrightarrow> get_index s t db = Inr pi \<Longrightarrow> ix_wf s t (derived pi) \<and> is_type s t (next_id pi)"
  by (auto simp: db_ok_def)

definition same_undo :: "'a object_database \<Rightarrow> 'a object_database \<Rightarrow> bool" where
  "same_undo db db' \<longleftrightarrow> disabled db' = disabled db \<and> active_sessions db' = active_sessions db \<and>
     undo_stack db' = undo_stack db \<and> max_size db' = max_size db"

lemma same_undo_refl [simp]: "same_undo db db"
  by (simp add: same_undo_def)

lemma same_undo_trans: "same_undo a b \<Longrightarrow> same_undo b c \<Longrightarrow> same_undo a c"
  by (simp add: same_undo_def)

end
