(* ===== verification/Undo_Database.thy ===== *)
theory Undo_Database
  imports Object_Database
begin

text \<open>
  The undo database (\<open>undo_database.hpp\<close>, \<open>undo_database.cpp\<close>): sessions, undo, merge, commit
  and \<open>pop_commit\<close> over the object database.  Its specification is a stack of snapshots of
  what lookups return: \<open>rollback\<close> reads off one undo state the snapshot it stands for and
  \<open>history\<close> the whole stack, and every operation of the code is the expected operation on
  that stack.

  The \<open>unordered_map\<close> and \<open>unordered_set\<close> members of an undo state are lists without
  repetition; the code iterates over them in an unspecified order and nothing below depends on
  the order of the lists.
\<close>

section \<open>The code\<close>

record session =
  apply_undo :: bool
  disable_on_exit :: bool

definition start_undo_session :: "bool \<Rightarrow> ('a object_database, session) st" where
  "start_undo_session force_enable db =
     (if disabled db \<and> \<not> force_enable
      then (Inr \<lparr>apply_undo = True, disable_on_exit = False\<rparr>, db)
      else (Inr \<lparr>apply_undo = True, disable_on_exit = disabled db \<and> force_enable\<rparr>,
            db\<lparr>disabled := (if force_enable then False else disabled db),
               undo_stack := empty_undo_state # take (max_size db) (undo_stack db),
               active_sessions := active_sessions db + 1\<rparr>))"

definition restore_old_value :: "object_id \<times> 'a \<Rightarrow> ('a object_database, unit) st" where
  "restore_old_value item =
     st_bind (st_lift (get_object (fst item))) (\<lambda>_. db_modify (fst item) (\<lambda>_. snd item))"

definition remove_new_id :: "object_id \<Rightarrow> ('a object_database, unit) st" where
  "remove_new_id x = st_bind (st_lift (get_object x)) (\<lambda>_. db_remove x)"

definition restore_next_id :: "object_id \<times> object_id \<Rightarrow> ('a object_database, unit) st" where
  "restore_next_id item = set_next_id (space_of (fst item)) (type_of (fst item)) (snd item)"

definition restore_removed :: "object_id \<times> 'a \<Rightarrow> ('a object_database, unit) st" where
  "restore_removed item = db_insert (fst item) (snd item)"

definition restore_state :: "'a undo_state \<Rightarrow> ('a object_database, unit) st" where
  \<comment> \<open>the four loops that \<open>undo\<close> and \<open>pop_commit\<close> share\<close>
  "restore_state u =
     st_bind (st_for restore_old_value (old_values u)) (\<lambda>_.
     st_bind (st_for remove_new_id (new_ids u)) (\<lambda>_.
     st_bind (st_for restore_next_id (old_index_next_ids u)) (\<lambda>_.
     st_for restore_removed (removed u))))"

definition stack_back :: "'a object_database \<Rightarrow> 'a undo_state res" where
  "stack_back db = (case undo_stack db of [] \<Rightarrow> Inl Undefined_Behaviour | u # _ \<Rightarrow> Inr u)"

definition undo :: "('a object_database, unit) st" where
  "undo =
     st_bind (st_assert (\<lambda>db. \<not> disabled db)) (\<lambda>_.
     st_bind (st_assert (\<lambda>db. active_sessions db > 0)) (\<lambda>_.
     st_bind (st_update undo_disable) (\<lambda>_.
     st_bind (st_lift stack_back) (\<lambda>u.
     st_bind (restore_state u) (\<lambda>_.
     st_bind (st_update (\<lambda>db. db\<lparr>undo_stack := tl (undo_stack db)\<rparr>)) (\<lambda>_.
     st_bind (st_update (\<lambda>db. if undo_stack db = [] then db\<lparr>undo_stack := [empty_undo_state]\<rparr> else db)) (\<lambda>_.
     st_bind (st_update undo_enable) (\<lambda>_.
     st_update (\<lambda>db. db\<lparr>active_sessions := active_sessions db - 1\<rparr>)))))))))"

definition merge_old_value :: "object_id \<times> 'a \<Rightarrow> 'a undo_state \<Rightarrow> 'a undo_state" where
  "merge_old_value item prev =
     (if fst item \<in> set (new_ids prev) then prev
      else if map_of (old_values prev) (fst item) \<noteq> None then prev
      else prev\<lparr>old_values := AList.update (fst item) (snd item) (old_values prev)\<rparr>)"

definition merge_new_id :: "object_id \<Rightarrow> 'a undo_state \<Rightarrow> 'a undo_state" where
  "merge_new_id x prev = prev\<lparr>new_ids := List.insert x (new_ids prev)\<rparr>"

definition merge_next_id :: "object_id \<times> object_id \<Rightarrow> 'a undo_state \<Rightarrow> 'a undo_state" where
  "merge_next_id item prev =
     (if map_of (old_index_next_ids prev) (fst item) = None
      then prev\<lparr>old_index_next_ids := AList.update (fst item) (snd item) (old_index_next_ids prev)\<rparr>
      else prev)"

definition merge_removed :: "object_id \<times> 'a \<Rightarrow> 'a undo_state \<Rightarrow> 'a undo_state" where
  "merge_removed item prev =
     (if fst item \<in> set (new_ids prev) then prev\<lparr>new_ids := removeAll (fst item) (new_ids prev)\<rparr>
      else case map_of (old_values prev) (fst item) of
        Some v \<Rightarrow> prev\<lparr>removed := AList.update (fst item) v (removed prev),
                      old_values := AList.delete (fst item) (old_values prev)\<rparr>
      | None \<Rightarrow> prev\<lparr>removed := AList.update (fst item) (snd item) (removed prev)\<rparr>)"

definition merge_states :: "'a undo_state \<Rightarrow> 'a undo_state \<Rightarrow> 'a undo_state" where
  "merge_states state prev =
     fold merge_removed (removed state)
       (fold merge_next_id (old_index_next_ids state)
         (fold merge_new_id (new_ids state)
           (fold merge_old_value (old_values state) prev)))"

definition undo_merge :: "('a object_database, unit) st" where
  "undo_merge =
     st_bind (st_assert (\<lambda>db. active_sessions db > 0)) (\<lambda>_.
     st_bind (st_assert (\<lambda>db. 2 \<le> length (undo_stack db))) (\<lambda>_.
     st_update (\<lambda>db. db\<lparr>undo_stack :=
         merge_states (undo_stack db ! 0) (undo_stack db ! 1) # drop 2 (undo_stack db),
       active_sessions := active_sessions db - 1\<rparr>)))"

definition undo_commit :: "('a object_database, unit) st" where
  "undo_commit =
     st_bind (st_assert (\<lambda>db. active_sessions db > 0)) (\<lambda>_.
     st_update (\<lambda>db. db\<lparr>active_sessions := active_sessions db - 1\<rparr>))"

definition pop_commit :: "('a object_database, unit) st" where
  \<comment> \<open>an exception of the loops is rethrown after recording has been enabled again\<close>
  "pop_commit db =
     (if active_sessions db \<noteq> 0 then (Inl Assert_Exception, db)
      else case undo_stack db of
        [] \<Rightarrow> (Inl Assert_Exception, db)
      | u # _ \<Rightarrow>
         (case restore_state u (undo_disable db) of
            (Inl e, db') \<Rightarrow> (Inl e, undo_enable db')
          | (Inr _, db') \<Rightarrow> (Inr (), undo_enable (db'\<lparr>undo_stack := tl (undo_stack db')\<rparr>))))"

definition undo_head :: "'a object_database \<Rightarrow> 'a undo_state res" where
  "undo_head db = (case undo_stack db of [] \<Rightarrow> Inl Assert_Exception | u # _ \<Rightarrow> Inr u)"

definition set_max_size :: "nat \<Rightarrow> 'a object_database \<Rightarrow> 'a object_database" where
  "set_max_size n db = db\<lparr>max_size := n\<rparr>"

subsection \<open>Sessions\<close>

definition session_commit :: "(session \<times> 'a object_database, unit) st" where
  "session_commit = (\<lambda>(ss, db).
     let (r, db') = undo_commit db in (r, (ss\<lparr>apply_undo := False\<rparr>, db')))"

definition session_undo :: "(session \<times> 'a object_database, unit) st" where
  "session_undo = (\<lambda>(ss, db).
     if apply_undo ss
     then case undo db of
            (Inl e, db') \<Rightarrow> (Inl e, (ss, db'))
          | (Inr _, db') \<Rightarrow> (Inr (), (ss\<lparr>apply_undo := False\<rparr>, db'))
     else (Inr (), (ss, db)))"

definition session_merge :: "(session \<times> 'a object_database, unit) st" where
  "session_merge = (\<lambda>(ss, db).
     if apply_undo ss
     then case (if disable_on_exit ss then undo_commit db else undo_merge db) of
            (Inl e, db') \<Rightarrow> (Inl e, (ss, db'))
          | (Inr _, db') \<Rightarrow> (Inr (), (ss\<lparr>apply_undo := False\<rparr>, db'))
     else (Inr (), (ss, db)))"

definition session_end :: "session \<Rightarrow> ('a object_database, unit) st" where
  \<comment> \<open>the destructor\<close>
  "session_end ss db =
     (case (if apply_undo ss then undo db else (Inr (), db)) of
        (Inl e, db') \<Rightarrow> (Inl e, db')
      | (Inr _, db') \<Rightarrow> (Inr (), if disable_on_exit ss then undo_disable db' else db'))"

definition session_move :: "session \<Rightarrow> session \<times> session" where
  \<comment> \<open>the move constructor: the new session and what is left of the old one\<close>
  "session_move mv = (\<lparr>apply_undo = apply_undo mv, disable_on_exit = False\<rparr>, mv\<lparr>apply_undo := False\<rparr>)"

definition session_assign :: "session \<Rightarrow> session \<Rightarrow> ('a object_database, session \<times> session) st" where
  \<comment> \<open>move assignment from another session\<close>
  "session_assign ss mv db =
     (case (if apply_undo ss then undo db else (Inr (), db)) of
        (Inl e, db') \<Rightarrow> (Inl e, db')
      | (Inr _, db') \<Rightarrow> (Inr (ss\<lparr>apply_undo := apply_undo mv\<rparr>, mv\<lparr>apply_undo := False\<rparr>), db'))"

section \<open>The specification: snapshots\<close>

type_synonym 'a snapshot = "(object_id \<Rightarrow> 'a option) \<times> (8 word \<Rightarrow> 8 word \<Rightarrow> object_id option)"

type_synonym 'a db_shape = "8 word \<Rightarrow> 8 word \<Rightarrow> (bool \<times> ('a \<Rightarrow> 'a \<Rightarrow> bool)) option"

definition snapshot :: "'a object_database \<Rightarrow> 'a snapshot" where
  "snapshot db = (obj_view db, next_view db)"

definition rollback :: "'a undo_state \<Rightarrow> 'a snapshot \<Rightarrow> 'a snapshot" where
  "rollback u c =
     ((\<lambda>x. if x \<in> set (new_ids u) then None
           else case map_of (old_values u) x of
             Some v \<Rightarrow> Some v
           | None \<Rightarrow> (case map_of (removed u) x of Some v \<Rightarrow> Some v | None \<Rightarrow> fst c x)),
      (\<lambda>s t. case map_of (old_index_next_ids u) (index_key s t) of
             Some n \<Rightarrow> Some n
           | None \<Rightarrow> snd c s t))"

fun history :: "'a undo_state list \<Rightarrow> 'a snapshot \<Rightarrow> 'a snapshot list" where
  "history [] c = []"
| "history (u # us) c = rollback u c # history us (rollback u c)"

definition saved :: "'a object_database \<Rightarrow> 'a snapshot list" where
  "saved db = history (undo_stack db) (snapshot db)"

section \<open>The invariant\<close>

definition removable :: "'a db_shape \<Rightarrow> object_id \<Rightarrow> bool" where
  "removable sh x \<longleftrightarrow> (\<exists>cl. sh (space_of x) (type_of x) = Some (False, cl))"

definition clashes :: "'a db_shape \<Rightarrow> object_id \<Rightarrow> 'a \<Rightarrow> 'a \<Rightarrow> bool" where
  "clashes sh x v w = (case sh (space_of x) (type_of x) of None \<Rightarrow> False | Some (_, cl) \<Rightarrow> cl v w)"

definition fresh_ids :: "'a db_shape \<Rightarrow> 'a snapshot \<Rightarrow> bool" where
  "fresh_ids sh c \<longleftrightarrow> (\<forall>x v n. removable sh x \<longrightarrow> fst c x = Some v \<longrightarrow>
     snd c (space_of x) (type_of x) = Some n \<longrightarrow> instance_of x < instance_of n)"

definition undo_state_ok :: "'a db_shape \<Rightarrow> 'a undo_state \<Rightarrow> 'a snapshot \<Rightarrow> bool" where
  "undo_state_ok sh u c \<longleftrightarrow>
     distinct (new_ids u) \<and> distinct (map fst (old_values u)) \<and>
     distinct (map fst (removed u)) \<and> distinct (map fst (old_index_next_ids u)) \<and>
     (\<forall>x \<in> set (new_ids u). removable sh x \<and> fst c x \<noteq> None \<and> map_of (old_values u) x = None \<and>
        (\<exists>n. snd (rollback u c) (space_of x) (type_of x) = Some n \<and> instance_of n \<le> instance_of x)) \<and>
     (\<forall>x. map_of (old_values u) x \<noteq> None \<longrightarrow> fst c x \<noteq> None) \<and>
     (\<forall>x. map_of (removed u) x \<noteq> None \<longrightarrow> removable sh x \<and> fst c x = None) \<and>
     (\<forall>k n. map_of (old_index_next_ids u) k = Some n \<longrightarrow>
        k = index_key (space_of k) (type_of k) \<and> is_type (space_of k) (type_of k) n \<and>
        (\<exists>m. snd c (space_of k) (type_of k) = Some m \<and> instance_of n \<le> instance_of m)) \<and>
     fresh_ids sh (rollback u c)"

fun stack_ok :: "'a db_shape \<Rightarrow> 'a undo_state list \<Rightarrow> 'a snapshot \<Rightarrow> bool" where
  "stack_ok sh [] c \<longleftrightarrow> True"
| "stack_ok sh (u # us) c \<longleftrightarrow> undo_state_ok sh u c \<and> stack_ok sh us (rollback u c)"

definition undo_inv :: "'a object_database \<Rightarrow> bool" where
  "undo_inv db \<longleftrightarrow> db_ok db \<and> fresh_ids (shape db) (snapshot db) \<and>
     stack_ok (shape db) (undo_stack db) (snapshot db)"

end
