(* ===== verification/Undo_Effects.thy ===== *)
theory Undo_Effects
  imports Undo_Database
begin

text \<open>
  What each operation of the object database does to the snapshot, the shape and the undo
  state, when it returns and when it is sure to return: the facts the correctness proofs of the
  undo database rest on.
\<close>

section \<open>Keys of the next identifiers\<close>

lemma index_key_fields [simp]: "space_of (index_key s t) = s" "type_of (index_key s t) = t"
  "instance_of (index_key s t) = 0"
proof -
  have "drop_bit 48 (0 :: 64 word) = 0" by simp
  note space_of_packed [OF this, of s t] type_of_packed [OF this, of s t] instance_of_packed [OF this, of s t]
  then show "space_of (index_key s t) = s" "type_of (index_key s t) = t" "instance_of (index_key s t) = 0"
    unfolding index_key_def space_of_def type_of_def instance_of_def by simp_all
qed

lemma index_key_inject [simp]: "index_key s t = index_key s' t' \<longleftrightarrow> s = s' \<and> t = t'"
  by (metis index_key_fields)

lemma id_incr_fields:
  assumes "unat (instance_of x) + 1 < 2 ^ 48"
  shows "space_of (id_incr x) = space_of x" "type_of (id_incr x) = type_of x"
    "unat (instance_of (id_incr x)) = unat (instance_of x) + 1"
proof -
  have u: "unat (instance_of x + 1) = unat (instance_of x) + 1"
    using assms by (simp add: unat_word_ariths)
  then have "unat (instance_of x + 1) < 2 ^ 48" using assms by simp
  then obtain y where "object_id_type (space_of x) (type_of x) (instance_of x + 1) = Inr y"
    by (cases "object_id_type (space_of x) (type_of x) (instance_of x + 1)") (auto simp: object_id_type_eq_Inl)
  then have y: "space_of y = space_of x" "type_of y = type_of x" "instance_of y = instance_of x + 1"
    by (auto simp: object_id_type_eq_Inr)
  have "unat (number y) = unat (number x) + 1"
    by (simp only: unat_number y u)
  moreover have "unat (number y) < 2 ^ LENGTH(64)" by (rule unsigned_less)
  ultimately have "unat (number x + 1) = unat (number y)"
    by (simp add: unat_word_ariths)
  then have "id_incr x = y"
    by (cases y) (simp add: id_incr_def unsigned_word_eqI)
  with y u show "space_of (id_incr x) = space_of x" "type_of (id_incr x) = type_of x"
    "unat (instance_of (id_incr x)) = unat (instance_of x) + 1"
    by simp_all
qed

section \<open>Effects\<close>

lemma snapshot_cong: "indexes db' = indexes db \<Longrightarrow> snapshot db' = snapshot db"
  by (auto simp: snapshot_def obj_view_def find_object_def next_view_def get_index_def fun_eq_iff)

lemma shape_cong: "indexes db' = indexes db \<Longrightarrow> shape db' = shape db"
  by (auto simp: shape_def get_index_def fun_eq_iff)

lemma db_ok_cong: "indexes db' = indexes db \<Longrightarrow> db_ok db' = db_ok db"
  unfolding db_ok_def using get_index_indexes [of db' db] by simp

lemmas indexes_cong = snapshot_cong shape_cong db_ok_cong

lemma on_record_snapshot [simp]:
  "obj_view (on_modify k v db) = obj_view db" "next_view (on_modify k v db) = next_view db"
  "obj_view (on_remove k v db) = obj_view db" "next_view (on_remove k v db) = next_view db"
  "obj_view (on_create k db) = obj_view db" "next_view (on_create k db) = next_view db"
  by (simp_all add: fun_eq_iff obj_view_def find_object_def next_view_def)

lemma next_view_index: "get_index s t db = Inr pi \<Longrightarrow> next_view db s t = Some (next_id pi)"
  by (simp add: next_view_def)

lemma modify_effect:
  assumes "db_ok db" and "db_modify x m db = (Inr u, db')"
  shows "\<exists>v. obj_view db x = Some v \<and>
     snapshot db' = ((fst (snapshot db))(x \<mapsto> m v), snd (snapshot db)) \<and>
     shape db' = shape db \<and> db_ok db' \<and> same_undo (on_modify x v db) db'"
proof -
  let ?s = "space_of x" and ?t = "type_of x"
  obtain pi v d where g: "get_index ?s ?t db = Inr pi" and f: "ix_find (derived pi) x = Some v"
    and m: "ix_modify x m (derived pi) = (Inr (), d)"
    and db': "\<exists>ev. db' = put_index ?s ?t (pi\<lparr>derived := d, events := ev\<rparr>) (on_modify x v db)"
    using assms(2) by (auto simp: db_modify_def Let_def split: sum.splits option.splits prod.splits)
  then obtain ev where db': "db' = put_index ?s ?t (pi\<lparr>derived := d, events := ev\<rparr>) (on_modify x v db)" by blast
  have g': "get_index ?s ?t (on_modify x v db) = Inr pi" using g by simp
  let ?pi = "pi\<lparr>derived := d, events := ev\<rparr>"
  have fd: "is_type ?s ?t j \<Longrightarrow> ix_find (derived ?pi) j = (if j = x then Some (m v) else ix_find (derived pi) j)" for j
    using ix_modify_find [OF is_type_self _ m] f by simp
  have kind: "is_flat (derived ?pi) = is_flat (derived pi)" "ix_clash (derived ?pi) = ix_clash (derived pi)"
    using ix_ops_kind(3) [OF m] by simp_all
  note P = put_index_views [OF g' fd kind, folded db']
  have "obj_view db' = (obj_view db)(x \<mapsto> m v)"
    by (auto simp: fun_eq_iff P(1) obj_view_index_at [OF _ g])
  moreover have "next_view db' = next_view db"
    by (auto simp: fun_eq_iff P(2) next_view_index [OF g])
  moreover have "shape db' = shape db"
    using P(3) shape_cong [of "on_modify x v db" db] shape_cong [of "on_remove x v db" db] by simp
  moreover have "db_ok db'"
    unfolding db' using assms(1) g by (intro put_index_ok [OF g']) (auto simp: db_ok_cong [of "on_modify x v db" db] ix_ops_wf(3) [OF _ m] dest: db_okD)
  moreover have "same_undo (on_modify x v db) db'"
    by (simp add: db' same_undo_def)
  ultimately show ?thesis
    using f g by (auto simp: snapshot_def obj_view_index)
qed

lemma modify_ok:
  assumes "db_ok db" and "obj_view db x = Some v"
    and nc: "\<And>j w. is_type (space_of x) (type_of x) j \<Longrightarrow> j \<noteq> x \<Longrightarrow> obj_view db j = Some w \<Longrightarrow>
      \<not> clashes (shape db) x (m v) w"
  shows "\<exists>db'. db_modify x m db = (Inr (), db')"
proof -
  obtain pi where g: "get_index (space_of x) (type_of x) db = Inr pi" and f: "ix_find (derived pi) x = Some v"
    using assms(2) by (rule obj_view_SomeE)
  have "\<exists>d. ix_modify x m (derived pi) = (Inr (), d)"
  proof (rule ix_modify_ok [OF _ is_type_self f])
    show "ix_wf (space_of x) (type_of x) (derived pi)" using assms(1) g db_okD by blast
    fix j w assume "is_type (space_of x) (type_of x) j" "j \<noteq> x" "ix_find (derived pi) j = Some w"
    with nc [of j w] g show "\<not> ix_clash (derived pi) (m v) w"
      by (simp add: obj_view_index_at clashes_def shape_def)
  qed
  with g f show ?thesis by (auto simp: db_modify_def Let_def)
qed

lemma remove_effect:
  assumes "db_ok db" and "db_remove x db = (Inr u, db')" and "removable (shape db) x"
  shows "\<exists>v. obj_view db x = Some v \<and>
     snapshot db' = ((fst (snapshot db))(x := None), snd (snapshot db)) \<and>
     shape db' = shape db \<and> db_ok db' \<and> same_undo (on_remove x v db) db'"
proof -
  let ?s = "space_of x" and ?t = "type_of x"
  obtain pi v d where g: "get_index ?s ?t db = Inr pi" and f: "ix_find (derived pi) x = Some v"
    and m: "ix_remove x (derived pi) = (Inr (), d)"
    and db': "\<exists>ev. db' = put_index ?s ?t (pi\<lparr>derived := d, events := ev\<rparr>) (on_remove x v db)"
    using assms(2) by (auto simp: db_remove_def Let_def split: sum.splits option.splits prod.splits)
  then obtain ev where db': "db' = put_index ?s ?t (pi\<lparr>derived := d, events := ev\<rparr>) (on_remove x v db)" by blast
  have g': "get_index ?s ?t (on_remove x v db) = Inr pi" using g by simp
  let ?pi = "pi\<lparr>derived := d, events := ev\<rparr>"
  have nf: "\<not> is_flat (derived pi)" using assms(3) g by (simp add: removable_def shape_def)
  have fd: "is_type ?s ?t j \<Longrightarrow> ix_find (derived ?pi) j = (if j = x then None else ix_find (derived pi) j)" for j
    using ix_remove_find [OF is_type_self _ m nf] f by simp
  have kind: "is_flat (derived ?pi) = is_flat (derived pi)" "ix_clash (derived ?pi) = ix_clash (derived pi)"
    using ix_ops_kind(2) [OF m] by simp_all
  note P = put_index_views [OF g' fd kind, folded db']
  have "obj_view db' = (obj_view db)(x := None)"
    by (auto simp: fun_eq_iff P(1) obj_view_index_at [OF _ g])
  moreover have "next_view db' = next_view db"
    by (auto simp: fun_eq_iff P(2) next_view_index [OF g])
  moreover have "shape db' = shape db"
    using P(3) shape_cong [of "on_modify x v db" db] shape_cong [of "on_remove x v db" db] by simp
  moreover have "db_ok db'"
    unfolding db' using assms(1) g by (intro put_index_ok [OF g']) (auto simp: db_ok_cong [of "on_remove x v db" db] ix_ops_wf(2) [OF _ m] dest: db_okD)
  moreover have "same_undo (on_remove x v db) db'"
    by (simp add: db' same_undo_def)
  ultimately show ?thesis
    using f g by (auto simp: snapshot_def obj_view_index)
qed

lemma remove_ok:
  assumes "obj_view db x = Some v"
  shows "\<exists>db'. db_remove x db = (Inr (), db')"
proof -
  obtain pi where g: "get_index (space_of x) (type_of x) db = Inr pi" and f: "ix_find (derived pi) x = Some v"
    using assms by (rule obj_view_SomeE)
  with ix_remove_ok [OF f] show ?thesis by (auto simp: db_remove_def Let_def)
qed

lemma insert_effect:
  assumes "db_ok db" and "db_insert x v db = (Inr u, db')" and "removable (shape db) x"
  shows "snapshot db' = ((fst (snapshot db))(x \<mapsto> v), snd (snapshot db)) \<and>
     shape db' = shape db \<and> db_ok db' \<and> same_undo db db'"
proof -
  let ?s = "space_of x" and ?t = "type_of x"
  obtain pi d where g: "get_index ?s ?t db = Inr pi" and m: "ix_insert x v (derived pi) = (Inr (), d)"
    and db': "db' = put_index ?s ?t (pi\<lparr>derived := d\<rparr>) db"
    using assms(2) by (auto simp: db_insert_def Let_def split: sum.splits prod.splits)
  let ?pi = "pi\<lparr>derived := d\<rparr>"
  have nf: "\<not> is_flat (derived pi)" using assms(3) g by (simp add: removable_def shape_def)
  have fd: "is_type ?s ?t j \<Longrightarrow> ix_find (derived ?pi) j = (if j = x then Some v else ix_find (derived pi) j)" for j
    using ix_insert_find [OF is_type_self _ m nf] by simp
  have kind: "is_flat (derived ?pi) = is_flat (derived pi)" "ix_clash (derived ?pi) = ix_clash (derived pi)"
    using ix_ops_kind(1) [OF m] by simp_all
  note P = put_index_views [OF g fd kind, folded db']
  have "obj_view db' = (obj_view db)(x \<mapsto> v)"
    by (auto simp: fun_eq_iff P(1) obj_view_index_at [OF _ g])
  moreover have "next_view db' = next_view db"
    by (auto simp: fun_eq_iff P(2) next_view_index [OF g])
  moreover have "db_ok db'"
    unfolding db' using assms(1) g by (intro put_index_ok [OF g]) (auto simp: ix_ops_wf(1) [OF _ m] dest: db_okD)
  ultimately show ?thesis
    using P(3) by (simp add: snapshot_def db' same_undo_def)
qed

lemma insert_ok:
  assumes "db_ok db" and "obj_view db x = None" and "removable (shape db) x"
    and nc: "\<And>j w. is_type (space_of x) (type_of x) j \<Longrightarrow> j \<noteq> x \<Longrightarrow> obj_view db j = Some w \<Longrightarrow>
      \<not> clashes (shape db) x v w"
  shows "\<exists>db'. db_insert x v db = (Inr (), db')"
proof -
  obtain pi where g: "get_index (space_of x) (type_of x) db = Inr pi"
    using assms(3) by (auto simp: removable_def shape_def split: sum.splits)
  have "\<exists>d. ix_insert x v (derived pi) = (Inr (), d)"
  proof (rule ix_insert_ok [OF _ is_type_self])
    show "ix_wf (space_of x) (type_of x) (derived pi)" using assms(1) g db_okD by blast
    show "ix_find (derived pi) x = None" using assms(2) g by (simp add: obj_view_index)
    fix j w assume "is_type (space_of x) (type_of x) j" "j \<noteq> x" "ix_find (derived pi) j = Some w"
    with nc [of j w] g show "\<not> ix_clash (derived pi) v w"
      by (simp add: obj_view_index_at clashes_def shape_def)
  qed
  with g show ?thesis by (auto simp: db_insert_def Let_def)
qed

lemma set_next_id_effect:
  assumes "db_ok db" and "next_view db s t = Some m" and "is_type s t n"
  shows "\<exists>db'. set_next_id s t n db = (Inr (), db') \<and>
     snapshot db' = (fst (snapshot db), (snd (snapshot db))(s := (snd (snapshot db) s)(t \<mapsto> n))) \<and>
     shape db' = shape db \<and> db_ok db' \<and> same_undo db db'"
proof -
  obtain pi where g: "get_index s t db = Inr pi"
    using assms(2) by (auto simp: next_view_def split: sum.splits)
  let ?pi = "pi\<lparr>next_id := n\<rparr>"
  note P = put_index_views [OF g, of ?pi "ix_find (derived pi)", simplified]
  have "obj_view (put_index s t ?pi db) = obj_view db"
    by (auto simp: fun_eq_iff P(1) obj_view_index_at [OF _ g])
  moreover have "db_ok (put_index s t ?pi db)"
    using assms(1,3) g by (intro put_index_ok [OF g]) (auto dest: db_okD)
  ultimately show ?thesis
    using g P(2,3) by (auto simp: set_next_id_def snapshot_def same_undo_def fun_eq_iff)
qed

lemma create_effect:
  assumes "db_ok db" and "db_create s t c db = (Inr x, db')" and "shape db s t = Some (False, cl)"
    and "unat (instance_of x) + 1 < 2 ^ 48"
  shows "next_view db s t = Some x \<and> is_type s t x \<and>
     (\<exists>v. snapshot db' = ((fst (snapshot db))(x \<mapsto> v),
            (snd (snapshot db))(s := (snd (snapshot db) s)(t \<mapsto> id_incr x)))) \<and>
     shape db' = shape db \<and> db_ok db' \<and> same_undo (on_create x db) db'"
proof -
  obtain pi d v where g: "get_index s t db = Inr pi" and x: "x = next_id pi"
    and m: "ix_create x (default_object pi) c (derived pi) = (Inr (), d)" and f: "ix_find d x = Some v"
    and db': "\<exists>ev. db' = on_create x (put_index s t (pi\<lparr>derived := d, next_id := id_incr x, events := ev\<rparr>) db)"
    using assms(2) by (auto simp: db_create_def Let_def split: sum.splits prod.splits option.splits)
  then obtain ev where db': "db' = on_create x (put_index s t (pi\<lparr>derived := d, next_id := id_incr x, events := ev\<rparr>) db)"
    by blast
  let ?pi = "pi\<lparr>derived := d, next_id := id_incr x, events := ev\<rparr>"
  have nf: "\<not> is_flat (derived pi)" using assms(3) g by (simp add: shape_def)
  have ty: "is_type s t x" using db_okD [OF assms(1) g] x by simp
  have mi: "ix_insert x (c x (default_object pi)) (derived pi) = (Inr (), d)"
    using m ix_create_insert [OF nf] by metis
  have fd: "is_type s t j \<Longrightarrow> ix_find (derived ?pi) j = (if j = x then Some v else ix_find (derived pi) j)" for j
    using ix_insert_find [OF ty _ mi nf] f by auto
  have kind: "is_flat (derived ?pi) = is_flat (derived pi)" "ix_clash (derived ?pi) = ix_clash (derived pi)"
    using ix_ops_kind(1) [OF mi] by simp_all
  note P = put_index_views [OF g fd kind]
  let ?db = "put_index s t ?pi db"
  have "obj_view ?db = (obj_view db)(x \<mapsto> v)"
    using ty by (auto simp: fun_eq_iff P(1) obj_view_index_at [OF _ g])
  moreover have "db_ok ?db"
    using assms(1) g ty id_incr_fields [OF assms(4)] db_okD [OF assms(1) g]
    by (intro put_index_ok [OF g]) (auto simp: ix_ops_wf(1) [OF _ mi] is_type_iff)
  moreover have "same_undo (on_create x db) db'"
    by (simp add: db' same_undo_def)
  ultimately show ?thesis
    using g ty x P(2,3) snapshot_cong [of db' ?db] shape_cong [of db' ?db] db_ok_cong [of db' ?db]
    by (auto simp: db' snapshot_def next_view_def fun_eq_iff)
qed

end
