(* ===== verification/Undo_Correct.thy ===== *)
theory Undo_Correct
  imports Undo_Effects
begin

text \<open>
  Every operation of the undo database does on the object database what it should do on the
  stack of snapshots: recording keeps the stack, a session pushes a snapshot, \<open>undo\<close> and
  \<open>pop_commit\<close> return to the last one, \<open>merge\<close> forgets it.
\<close>

declare map_of_eq_Some_iff [simp del] Some_eq_map_of_iff [simp del]

section \<open>The recorders\<close>

lemma undo_state_ok_parts:
  assumes "undo_state_ok sh u c"
  shows "distinct (new_ids u)" "distinct (map fst (old_values u))" "distinct (map fst (removed u))"
    "distinct (map fst (old_index_next_ids u))"
    "x \<in> set (new_ids u) \<Longrightarrow> removable sh x" "x \<in> set (new_ids u) \<Longrightarrow> fst c x \<noteq> None"
    "x \<in> set (new_ids u) \<Longrightarrow> map_of (old_values u) x = None"
    "x \<in> set (new_ids u) \<Longrightarrow> \<exists>n. snd (rollback u c) (space_of x) (type_of x) = Some n \<and> instance_of n \<le> instance_of x"
    "map_of (old_values u) x = Some v \<Longrightarrow> fst c x \<noteq> None"
    "map_of (removed u) x = Some v \<Longrightarrow> removable sh x"
    "map_of (removed u) x = Some v \<Longrightarrow> fst c x = None"
    "map_of (old_index_next_ids u) k = Some n \<Longrightarrow> k = index_key (space_of k) (type_of k)"
    "map_of (old_index_next_ids u) k = Some n \<Longrightarrow> is_type (space_of k) (type_of k) n"
    "map_of (old_index_next_ids u) k = Some n \<Longrightarrow>
       \<exists>m. snd c (space_of k) (type_of k) = Some m \<and> instance_of n \<le> instance_of m"
    "fresh_ids sh (rollback u c)"
  using assms unfolding undo_state_ok_def by blast+

lemma rollback_obj:
  "fst (rollback u c) x = (if x \<in> set (new_ids u) then None
     else case map_of (old_values u) x of Some v \<Rightarrow> Some v
     | None \<Rightarrow> (case map_of (removed u) x of Some v \<Rightarrow> Some v | None \<Rightarrow> fst c x))"
  by (simp add: rollback_def)

lemma rollback_next:
  "snd (rollback u c) s t = (case map_of (old_index_next_ids u) (index_key s t) of
     Some n \<Rightarrow> Some n | None \<Rightarrow> snd c s t)"
  by (simp add: rollback_def)

lemma snapshot_eqI:
  "(\<And>x. fst c x = fst c' x) \<Longrightarrow> (\<And>s t. snd c s t = snd c' s t) \<Longrightarrow> c = (c' :: 'a snapshot)"
  by (simp add: prod_eq_iff fun_eq_iff)

lemma empty_undo_state_ok: "fresh_ids sh c \<Longrightarrow> undo_state_ok sh empty_undo_state c"
  and rollback_empty [simp]: "rollback empty_undo_state c = c"
proof -
  show "rollback empty_undo_state c = c"
    by (rule snapshot_eqI) (simp_all add: rollback_obj rollback_next empty_undo_state_def)
  then show "fresh_ids sh c \<Longrightarrow> undo_state_ok sh empty_undo_state c"
    by (simp add: undo_state_ok_def) (simp add: empty_undo_state_def)
qed

lemma record_modify_step:
  assumes ok: "undo_state_ok sh u c" and v: "fst c x = Some v"
    and c': "c' = ((fst c)(x \<mapsto> w), snd c)"
  shows "rollback (record_modify x v u) c' = rollback u c" (is ?R)
    and "undo_state_ok sh (record_modify x v u) c'"
proof -
  note p = undo_state_ok_parts [OF ok]
  have nr: "map_of (removed u) x = None"
    using p(11) [of x] v by (cases "map_of (removed u) x") auto
  show r: ?R
    by (rule snapshot_eqI)
      (auto simp: rollback_obj rollback_next record_modify_def c' nr v split: option.splits)
  show "undo_state_ok sh (record_modify x v u) c'"
    unfolding undo_state_ok_def r using ok
    by (auto simp: undo_state_ok_def record_modify_def c' v nr distinct_update)
qed

lemma record_remove_step:
  assumes ok: "undo_state_ok sh u c" and v: "fst c x = Some v" and rm: "removable sh x"
    and c': "c' = ((fst c)(x := None), snd c)"
  shows "rollback (record_remove x v u) c' = rollback u c" (is ?R)
    and "undo_state_ok sh (record_remove x v u) c'"
proof -
  note p = undo_state_ok_parts [OF ok]
  have nr: "map_of (removed u) x = None"
    using p(11) [of x] v by (cases "map_of (removed u) x") auto
  show r: ?R
    using p(7) [of x]
    by (intro snapshot_eqI)
      (auto simp: rollback_obj rollback_next record_remove_def c' nr v split: option.splits)
  show "undo_state_ok sh (record_remove x v u) c'"
    unfolding undo_state_ok_def r using ok rm
    by (auto simp: undo_state_ok_def record_remove_def c' v nr distinct_update distinct_delete distinct_removeAll split: option.splits)
qed

lemma record_create_step:
  assumes ok: "undo_state_ok sh u c" and fresh: "fresh_ids sh c"
    and x: "snd c s t = Some x" and ty: "is_type s t x" and rm: "removable sh x"
    and lt: "unat (instance_of x) + 1 < 2 ^ 48"
    and c': "c' = ((fst c)(x \<mapsto> w), (snd c)(s := (snd c s)(t \<mapsto> id_incr x)))"
  shows "rollback (record_create x u) c' = rollback u c" (is ?R)
    and "undo_state_ok sh (record_create x u) c'"
proof -
  note p = undo_state_ok_parts [OF ok]
  have st [simp]: "space_of x = s" "type_of x = t" using ty by (auto simp: is_type_iff)
  have nx: "fst c x = None"
    using fresh rm x by (auto simp: fresh_ids_def)
  obtain n0 where n0: "snd (rollback u c) s t = Some n0" and le: "instance_of n0 \<le> instance_of x"
    using p(14) [of "index_key s t"] x by (cases "map_of (old_index_next_ids u) (index_key s t)") (auto simp: rollback_next)
  have nn: "x \<notin> set (new_ids u)" using p(6) [of x] nx by auto
  have no: "map_of (old_values u) x = None"
    using p(9) [of x] nx by (cases "map_of (old_values u) x") auto
  have nb: "fst (rollback u c) x = None"
    using p(15) rm n0 le by (fastforce simp: fresh_ids_def)
  then have nr: "map_of (removed u) x = None"
    using nn no by (auto simp: rollback_obj split: option.splits)
  have up: "instance_of x \<le> instance_of (id_incr x)"
    using id_incr_fields(3) [OF lt] by (simp add: word_le_nat_alt)
  show r: ?R
    using x nx no nr
    by (intro snapshot_eqI)
      (auto simp: rollback_obj rollback_next record_create_def Let_def c' List.insert_def split: option.splits)
  have new: "set (new_ids (record_create x u)) = insert x (set (new_ids u))"
    "distinct (new_ids (record_create x u))" "old_values (record_create x u) = old_values u"
    "removed (record_create x u) = removed u"
    using p(1) by (auto simp: record_create_def Let_def)
  have next_upd: "map_of (old_index_next_ids (record_create x u)) k =
      (if k = index_key s t \<and> map_of (old_index_next_ids u) k = None then Some x else map_of (old_index_next_ids u) k)" for k
    by (auto simp: record_create_def Let_def)
  have nd: "distinct (map fst (old_index_next_ids (record_create x u)))"
    using p(4) by (auto simp: record_create_def Let_def distinct_update)
  have keys: "k = index_key (space_of k) (type_of k) \<and> is_type (space_of k) (type_of k) n \<and>
      (\<exists>m. snd c' (space_of k) (type_of k) = Some m \<and> instance_of n \<le> instance_of m)"
    if "map_of (old_index_next_ids (record_create x u)) k = Some n" for k n
  proof (cases "k = index_key s t \<and> map_of (old_index_next_ids u) k = None")
    case True
    then show ?thesis using that ty up by (auto simp: next_upd c')
  next
    case False
    with that have k: "map_of (old_index_next_ids u) k = Some n" by (auto simp: next_upd split: if_splits)
    with p(14) [OF k] x up p(12,13) [OF k] show ?thesis by (auto simp: c' intro: order_trans)
  qed
  have new_ok: "removable sh y \<and> fst c' y \<noteq> None \<and> map_of (old_values u) y = None \<and>
      (\<exists>n. snd (rollback u c) (space_of y) (type_of y) = Some n \<and> instance_of n \<le> instance_of y)"
    if "y \<in> insert x (set (new_ids u))" for y
    using that p(5-8) [of y] rm no n0 le by (cases "y = x") (auto simp: c')
  have old_ok: "map_of (old_values u) y \<noteq> None \<longrightarrow> fst c' y \<noteq> None" for y
    using p(9) [of y] by (auto simp: c')
  have rem_ok: "map_of (removed u) y \<noteq> None \<longrightarrow> removable sh y \<and> fst c' y = None" for y
    using p(10,11) [of y] nr by (auto simp: c')
  show "undo_state_ok sh (record_create x u) c'"
    unfolding undo_state_ok_def r new(1,3,4)
    by (intro conjI; (fact new(2) p(2) p(3) p(15) nd | rule allI, fact old_ok | rule allI, fact rem_ok |
      intro ballI, erule new_ok | intro allI impI, erule keys))
qed

section \<open>Sequences of operations\<close>

datatype 'a db_op =
    Create "8 word" "8 word" "object_id \<Rightarrow> 'a \<Rightarrow> 'a"
  | Modify object_id "'a \<Rightarrow> 'a"
  | Remove object_id

fun run_op :: "'a db_op \<Rightarrow> ('a object_database, unit) st" where
  "run_op (Create s t c) = st_bind (db_create s t c) (\<lambda>_. st_ret ())"
| "run_op (Modify x m) = db_modify x m"
| "run_op (Remove x) = db_remove x"

definition run_ops :: "'a db_op list \<Rightarrow> ('a object_database, unit) st" where
  "run_ops = st_for run_op"

fun op_allowed :: "'a db_shape \<Rightarrow> 'a db_op \<Rightarrow> bool" where
  \<comment> \<open>objects of a \<open>flat_index\<close> are not created or removed: its \<open>remove\<close> leaves a default object\<close>
  "op_allowed sh (Create s t c) \<longleftrightarrow> (\<exists>cl. sh s t = Some (False, cl))"
| "op_allowed sh (Modify x m) \<longleftrightarrow> True"
| "op_allowed sh (Remove x) \<longleftrightarrow> removable sh x"

definition ids_left :: "nat \<Rightarrow> 'a object_database \<Rightarrow> bool" where
  \<comment> \<open>every index still has \<open>n\<close> instance numbers\<close>
  "ids_left n db \<longleftrightarrow> (\<forall>s t x. next_view db s t = Some x \<longrightarrow> unat (instance_of x) + n < 2 ^ 48)"

definition recording :: "'a object_database \<Rightarrow> bool" where
  "recording db \<longleftrightarrow> \<not> disabled db \<and> undo_stack db \<noteq> []"

lemma undo_stack_on [simp]:
  "recording db \<Longrightarrow> undo_stack (on_modify x v db) = record_modify x v (hd (undo_stack db)) # tl (undo_stack db)"
  "recording db \<Longrightarrow> undo_stack (on_remove x v db) = record_remove x v (hd (undo_stack db)) # tl (undo_stack db)"
  "recording db \<Longrightarrow> undo_stack (on_create x db) = record_create x (hd (undo_stack db)) # tl (undo_stack db)"
  by (auto simp: recording_def on_modify_def on_remove_def on_create_def upd_top_def split: list.splits)

lemma saved_Cons:
  "undo_stack db = u # us \<Longrightarrow> saved db = rollback u (snapshot db) # history us (rollback u (snapshot db))"
  by (simp add: saved_def)

lemma undo_inv_Cons:
  "undo_stack db = u # us \<Longrightarrow> undo_inv db \<longleftrightarrow> db_ok db \<and> fresh_ids (shape db) (snapshot db) \<and>
     undo_state_ok (shape db) u (snapshot db) \<and> stack_ok (shape db) us (rollback u (snapshot db))"
  by (auto simp: undo_inv_def)

lemma recordingE:
  assumes "recording db"
  obtains u us where "undo_stack db = u # us" and "\<not> disabled db"
  using assms by (cases "undo_stack db") (auto simp: recording_def)

definition keeps :: "'a object_database \<Rightarrow> 'a object_database \<Rightarrow> bool" where
  \<comment> \<open>what every recorded operation leaves alone\<close>
  "keeps db db' \<longleftrightarrow> saved db' = saved db \<and> shape db' = shape db \<and> recording db' \<and>
     active_sessions db' = active_sessions db \<and> max_size db' = max_size db"

lemma keeps_trans: "keeps a b \<Longrightarrow> keeps b c \<Longrightarrow> keeps a c"
  by (simp add: keeps_def)

lemma recorded_step:
  assumes inv: "undo_inv db" and rec: "recording db"
    and ok': "db_ok db'" and sh: "shape db' = shape db"
    and stk: "undo_stack db' = f (hd (undo_stack db)) # tl (undo_stack db)" and dis: "disabled db' = disabled db"
    and act: "active_sessions db' = active_sessions db" "max_size db' = max_size db"
    and fr: "fresh_ids (shape db) (snapshot db')"
    and step: "\<And>u. undo_state_ok (shape db) u (snapshot db) \<Longrightarrow>
      rollback (f u) (snapshot db') = rollback u (snapshot db) \<and> undo_state_ok (shape db) (f u) (snapshot db')"
  shows "undo_inv db' \<and> keeps db db'"
proof -
  obtain u us where u: "undo_stack db = u # us" and en: "\<not> disabled db" using rec by (rule recordingE)
  from inv have oku: "undo_state_ok (shape db) u (snapshot db)"
    and oks: "stack_ok (shape db) us (rollback u (snapshot db))"
    by (simp_all add: undo_inv_Cons [OF u])
  have u': "undo_stack db' = f u # us" using stk u by simp
  have "undo_inv db'"
    using step [OF oku] oks ok' fr by (simp add: undo_inv_Cons [OF u'] sh)
  moreover have "saved db' = saved db"
    using step [OF oku] by (simp add: saved_Cons [OF u] saved_Cons [OF u'])
  ultimately show ?thesis
    using u' dis en act sh by (simp add: keeps_def recording_def)
qed

lemma modify_recorded:
  assumes inv: "undo_inv db" and rec: "recording db" and m: "db_modify x m db = (Inr r, db')"
  shows "undo_inv db' \<and> keeps db db' \<and> next_view db' = next_view db"
proof -
  have ok: "db_ok db" using inv by (simp add: undo_inv_def)
  obtain v where v: "obj_view db x = Some v" and sn: "snapshot db' = ((fst (snapshot db))(x \<mapsto> m v), snd (snapshot db))"
    and sh: "shape db' = shape db" and ok': "db_ok db'" and un: "same_undo (on_modify x v db) db'"
    using modify_effect [OF ok m] by blast
  have fv: "fst (snapshot db) x = Some v" using v by (simp add: snapshot_def)
  have "fresh_ids (shape db) (snapshot db')"
    using inv fv unfolding undo_inv_def fresh_ids_def sn by (auto split: if_splits)
  with ok' sh un rec record_modify_step [OF _ fv sn] have "undo_inv db' \<and> keeps db db'"
    by (intro recorded_step [OF inv rec, where f = "record_modify x v"]) (auto simp: same_undo_def)
  with sn show ?thesis by (simp add: snapshot_def)
qed

lemma remove_recorded:
  assumes inv: "undo_inv db" and rec: "recording db" and m: "db_remove x db = (Inr r, db')"
    and rm: "removable (shape db) x"
  shows "undo_inv db' \<and> keeps db db' \<and> next_view db' = next_view db"
proof -
  have ok: "db_ok db" using inv by (simp add: undo_inv_def)
  obtain v where v: "obj_view db x = Some v" and sn: "snapshot db' = ((fst (snapshot db))(x := None), snd (snapshot db))"
    and sh: "shape db' = shape db" and ok': "db_ok db'" and un: "same_undo (on_remove x v db) db'"
    using remove_effect [OF ok m rm] by blast
  have fv: "fst (snapshot db) x = Some v" using v by (simp add: snapshot_def)
  have "fresh_ids (shape db) (snapshot db')"
    using inv unfolding undo_inv_def fresh_ids_def sn by (auto split: if_splits)
  with ok' sh un rec record_remove_step [OF _ fv rm sn] have "undo_inv db' \<and> keeps db db'"
    by (intro recorded_step [OF inv rec, where f = "record_remove x v"]) (auto simp: same_undo_def)
  with sn show ?thesis by (simp add: snapshot_def)
qed

lemma create_recorded:
  assumes inv: "undo_inv db" and rec: "recording db" and m: "db_create s t c db = (Inr x, db')"
    and sh: "shape db s t = Some (False, cl)" and left: "ids_left (Suc n) db"
  shows "undo_inv db' \<and> keeps db db' \<and> ids_left n db'"
proof -
  have ok: "db_ok db" using inv by (simp add: undo_inv_def)
  have "unat (instance_of x) + 1 < 2 ^ 48"
  proof -
    have "next_view db s t = Some x"
      using m by (auto simp: db_create_def next_view_def Let_def split: sum.splits prod.splits option.splits)
    with left have "unat (instance_of x) + Suc n < 2 ^ 48" unfolding ids_left_def by blast
    then show ?thesis by simp
  qed
  note lt = this
  obtain v where nx: "next_view db s t = Some x" and ty: "is_type s t x"
    and sn: "snapshot db' = ((fst (snapshot db))(x \<mapsto> v), (snd (snapshot db))(s := (snd (snapshot db) s)(t \<mapsto> id_incr x)))"
    and sh': "shape db' = shape db" and ok': "db_ok db'" and un: "same_undo (on_create x db) db'"
    using create_effect [OF ok m sh lt] by blast
  have rm: "removable (shape db) x" using sh ty by (simp add: removable_def is_type_iff)
  have fr: "fresh_ids (shape db) (snapshot db)" using inv by (simp add: undo_inv_def)
  have nx': "snd (snapshot db) s t = Some x" using nx by (simp add: snapshot_def)
  have up: "instance_of x < instance_of (id_incr x)"
    using id_incr_fields(3) [OF lt] by (simp add: word_less_nat_alt)
  have "fresh_ids (shape db) (snapshot db')"
    using fr nx' up ty unfolding fresh_ids_def sn
    by (auto simp: is_type_iff split: if_splits intro: less_trans)
  with ok' sh' un rec record_create_step [OF _ fr nx' ty rm lt sn] have "undo_inv db' \<and> keeps db db'"
    by (intro recorded_step [OF inv rec, where f = "record_create x"]) (auto simp: same_undo_def)
  moreover have "ids_left n db'"
  proof -
    have nv: "next_view db' = (next_view db)(s := (next_view db s)(t \<mapsto> id_incr x))" using sn by (simp add: snapshot_def)
    show ?thesis
      using left nx unfolding ids_left_def nv by (fastforce simp: id_incr_fields(3) [OF lt] split: if_splits)
  qed
  ultimately show ?thesis by blast
qed

lemma ids_left_Suc: "ids_left (Suc n) db \<Longrightarrow> ids_left n db"
  by (force simp: ids_left_def)

lemma op_recorded:
  assumes "undo_inv db" and "recording db" and "run_op a db = (Inr (), db')"
    and "op_allowed (shape db) a" and "ids_left (Suc n) db"
  shows "undo_inv db' \<and> keeps db db' \<and> ids_left n db'"
proof (cases a)
  case (Create s t c)
  with assms create_recorded [OF assms(1,2)] show ?thesis by (auto simp: st_bind_eq_Inr)
next
  case (Modify x m)
  with assms modify_recorded [OF assms(1,2)] ids_left_Suc [OF assms(5)] show ?thesis
    by (auto simp: ids_left_def)
next
  case (Remove x)
  with assms remove_recorded [OF assms(1,2)] ids_left_Suc [OF assms(5)] show ?thesis
    by (auto simp: ids_left_def)
qed

lemma ops_recorded:
  assumes "undo_inv db" and "recording db" and "run_ops as db = (Inr (), db')"
    and "list_all (op_allowed (shape db)) as" and "ids_left (length as) db"
  shows "undo_inv db' \<and> keeps db db'"
  using assms
proof (induction as arbitrary: db)
  case Nil
  then show ?case by (simp add: run_ops_def keeps_def)
next
  case (Cons a as)
  then obtain db1 where a: "run_op a db = (Inr (), db1)" and as: "run_ops as db1 = (Inr (), db')"
    by (auto simp: run_ops_def st_bind_eq_Inr)
  have one: "undo_inv db1 \<and> keeps db db1 \<and> ids_left (length as) db1"
    using Cons.prems by (intro op_recorded [OF _ _ a]) simp_all
  with Cons.IH [OF _ _ as] Cons.prems(4) have "undo_inv db' \<and> keeps db1 db'"
    by (simp add: keeps_def)
  with one show ?case by (blast intro: keeps_trans)
qed

end
