(* ===== verification/Undo_Restore.thy ===== *)
theory Undo_Restore
  imports Undo_Correct
begin

text \<open>
  The four loops shared by \<open>undo\<close> and \<open>pop_commit\<close> return, and bring the object database back
  to the snapshot that the undo state stands for, when no two objects of that snapshot and of
  the current one collide on a unique key.
\<close>

section \<open>Restoring a state\<close>

definition no_clash :: "'a db_shape \<Rightarrow> 'a snapshot \<Rightarrow> 'a snapshot \<Rightarrow> bool" where
  \<comment> \<open>no two objects of the two snapshots together collide on a unique key\<close>
  "no_clash sh a b \<longleftrightarrow> (\<forall>x y v w. x \<noteq> y \<longrightarrow> is_type (space_of x) (type_of x) y \<longrightarrow>
     fst a x = Some v \<or> fst b x = Some v \<longrightarrow> fst a y = Some w \<or> fst b y = Some w \<longrightarrow>
     \<not> clashes sh x v w)"

definition between :: "'a snapshot \<Rightarrow> 'a snapshot \<Rightarrow> 'a snapshot \<Rightarrow> bool" where
  "between a b c \<longleftrightarrow> (\<forall>x v. fst c x = Some v \<longrightarrow> fst a x = Some v \<or> fst b x = Some v)"

definition restored :: "'a object_database \<Rightarrow> 'a snapshot \<Rightarrow> 'a object_database \<Rightarrow> bool" where
  "restored db c db' \<longleftrightarrow> snapshot db' = c \<and> shape db' = shape db \<and> db_ok db' \<and> same_undo db db'"

lemma st_for_ConsI:
  "f x s = (Inr (), s1) \<Longrightarrow> st_for f xs s1 = (Inr (), t) \<Longrightarrow> st_for f (x # xs) s = (Inr (), t)"
  by (simp add: st_bind_eq_Inr)

lemma restored_trans: "restored a c b \<Longrightarrow> restored b c' d \<Longrightarrow> restored a c' d"
  by (auto simp: restored_def dest: same_undo_trans)

lemma no_clashD:
  "no_clash sh a b \<Longrightarrow> between a b c \<Longrightarrow> x \<noteq> y \<Longrightarrow> is_type (space_of x) (type_of x) y \<Longrightarrow>
     fst a x = Some v \<Longrightarrow> fst c y = Some w \<Longrightarrow> \<not> clashes sh x v w"
  unfolding no_clash_def between_def by blast

lemma between_update: "between a b c \<Longrightarrow> fst a x = Some v \<Longrightarrow> between a b ((fst c)(x \<mapsto> v), n)"
  by (auto simp: between_def)

lemma between_delete: "between a b c \<Longrightarrow> between a b (\<lambda>x. if x \<in> X then None else fst c x, n)"
  by (auto simp: between_def split: if_splits)

lemma restore_old_value_ok:
  assumes "db_ok db" "disabled db" "no_clash (shape db) a b" "between a b (snapshot db)"
    and "fst a x = Some v" and "fst (snapshot db) x \<noteq> None"
  shows "\<exists>db'. restore_old_value (x, v) db = (Inr (), db') \<and>
     restored db ((fst (snapshot db))(x \<mapsto> v), snd (snapshot db)) db'"
proof -
  obtain w where w: "obj_view db x = Some w" using assms(6) by (auto simp: snapshot_def)
  obtain db' where m: "db_modify x (\<lambda>_. v) db = (Inr (), db')"
    using modify_ok [OF assms(1) w, of "\<lambda>_. v"] no_clashD [OF assms(3,4), of x _ v] assms(5)
    by (fastforce simp: snapshot_def)
  moreover have "get_object x db = Inr w" using w by (simp add: get_object_eq)
  ultimately have "restore_old_value (x, v) db = (Inr (), db')"
    by (simp add: restore_old_value_def st_bind_eq_Inr)
  moreover have "restored db ((fst (snapshot db))(x \<mapsto> v), snd (snapshot db)) db'"
    using modify_effect [OF assms(1) m] assms(2) by (auto simp: restored_def on_modify_def)
  ultimately show ?thesis by blast
qed

lemma restore_old_values:
  assumes "db_ok db" "disabled db" "no_clash (shape db) a b" "between a b (snapshot db)"
    and "distinct (map fst l)" and "\<And>x v. (x, v) \<in> set l \<Longrightarrow> fst a x = Some v \<and> fst (snapshot db) x \<noteq> None"
  shows "\<exists>db'. st_for restore_old_value l db = (Inr (), db') \<and>
     restored db (fst (snapshot db) ++ map_of l, snd (snapshot db)) db' \<and> between a b (snapshot db')"
  using assms
proof (induction l arbitrary: db)
  case Nil
  then show ?case by (simp add: restored_def)
next
  case (Cons p l)
  obtain x v where p: "p = (x, v)" by (cases p)
  have xv: "fst a x = Some v" and "fst (snapshot db) x \<noteq> None" using Cons.prems(6) [of x v] p by auto
  then obtain db1 where r: "restore_old_value (x, v) db = (Inr (), db1)"
    and d1: "restored db ((fst (snapshot db))(x \<mapsto> v), snd (snapshot db)) db1"
    using restore_old_value_ok [OF Cons.prems(1-4)] by blast
  note d1' = d1 [unfolded restored_def same_undo_def]
  have "\<exists>db'. st_for restore_old_value l db1 = (Inr (), db') \<and>
     restored db1 (fst (snapshot db1) ++ map_of l, snd (snapshot db1)) db' \<and> between a b (snapshot db')"
  proof (rule Cons.IH)
    show "between a b (snapshot db1)" using between_update [OF Cons.prems(4) xv] d1' by simp
    show "\<And>x v. (x, v) \<in> set l \<Longrightarrow> fst a x = Some v \<and> fst (snapshot db1) x \<noteq> None"
      using Cons.prems(6) d1' by auto
  qed (use d1' Cons.prems in simp_all)
  then obtain db' where s: "st_for restore_old_value l db1 = (Inr (), db')"
    and d2: "restored db1 (fst (snapshot db1) ++ map_of l, snd (snapshot db1)) db'"
    and b: "between a b (snapshot db')" by blast
  have "x \<notin> dom (map_of l)" using Cons.prems(5) p by (auto simp: dom_map_of_conv_image_fst)
  then have "(fst (snapshot db1) ++ map_of l, snd (snapshot db1)) = (fst (snapshot db) ++ map_of (p # l), snd (snapshot db))"
    using d1' p by (auto simp: fun_eq_iff map_add_def split: option.splits)
  with st_for_ConsI [OF r s] restored_trans [OF d1 d2] b show ?case by (auto simp only: p)
qed

lemma remove_new_ids:
  assumes "db_ok db" "disabled db" "distinct l"
    and "\<And>x. x \<in> set l \<Longrightarrow> removable (shape db) x \<and> fst (snapshot db) x \<noteq> None"
  shows "\<exists>db'. st_for remove_new_id l db = (Inr (), db') \<and>
     restored db (\<lambda>x. if x \<in> set l then None else fst (snapshot db) x, snd (snapshot db)) db'"
  using assms
proof (induction l arbitrary: db)
  case Nil
  then show ?case by (simp add: restored_def)
next
  case (Cons x l)
  have rm: "removable (shape db) x" and "fst (snapshot db) x \<noteq> None" using Cons.prems(4) by auto
  then obtain v where v: "obj_view db x = Some v" by (auto simp: snapshot_def)
  obtain db1 where r: "db_remove x db = (Inr (), db1)" using remove_ok [OF v] by blast
  have d1: "restored db ((fst (snapshot db))(x := None), snd (snapshot db)) db1"
    using remove_effect [OF Cons.prems(1) r rm] Cons.prems(2) by (auto simp: restored_def on_remove_def)
  note d1' = d1 [unfolded restored_def same_undo_def]
  have "\<exists>db'. st_for remove_new_id l db1 = (Inr (), db') \<and>
     restored db1 (\<lambda>x. if x \<in> set l then None else fst (snapshot db1) x, snd (snapshot db1)) db'"
    using d1' Cons.prems by (intro Cons.IH) auto
  then obtain db' where s: "st_for remove_new_id l db1 = (Inr (), db')"
    and d2: "restored db1 (\<lambda>x. if x \<in> set l then None else fst (snapshot db1) x, snd (snapshot db1)) db'" by blast
  have r': "remove_new_id x db = (Inr (), db1)"
    using r v get_object_eq [of x db v] by (simp add: remove_new_id_def st_bind_eq_Inr)
  have "(\<lambda>y. if y \<in> set l then None else fst (snapshot db1) y, snd (snapshot db1)) =
      (\<lambda>y. if y \<in> set (x # l) then None else fst (snapshot db) y, snd (snapshot db))"
    using d1' by (auto simp: fun_eq_iff)
  with st_for_ConsI [where f = remove_new_id, OF r' s] restored_trans [OF d1 d2] show ?case by auto
qed

lemma restore_next_ids:
  assumes "db_ok db" "distinct (map fst l)"
    and "\<And>k n. (k, n) \<in> set l \<Longrightarrow> k = index_key (space_of k) (type_of k) \<and>
      is_type (space_of k) (type_of k) n \<and> snd (snapshot db) (space_of k) (type_of k) \<noteq> None"
  shows "\<exists>db'. st_for restore_next_id l db = (Inr (), db') \<and>
     restored db (fst (snapshot db), \<lambda>s t. case map_of l (index_key s t) of
       Some n \<Rightarrow> Some n | None \<Rightarrow> snd (snapshot db) s t) db'"
  using assms
proof (induction l arbitrary: db)
  case Nil
  then show ?case by (simp add: restored_def)
next
  case (Cons p l)
  obtain k n where p: "p = (k, n)" by (cases p)
  let ?s = "space_of k" and ?t = "type_of k"
  have k: "k = index_key ?s ?t" "is_type ?s ?t n" and "snd (snapshot db) ?s ?t \<noteq> None"
    using Cons.prems(3) [of k n] p by auto
  then obtain m where "next_view db ?s ?t = Some m" by (auto simp: snapshot_def)
  from set_next_id_effect [OF Cons.prems(1) this k(2)] obtain db1
    where r: "set_next_id ?s ?t n db = (Inr (), db1)"
      and d1: "restored db (fst (snapshot db), (snd (snapshot db))(?s := (snd (snapshot db) ?s)(?t \<mapsto> n))) db1"
    by (auto simp: restored_def)
  note d1' = d1 [unfolded restored_def same_undo_def]
  have "\<exists>db'. st_for restore_next_id l db1 = (Inr (), db') \<and>
     restored db1 (fst (snapshot db1), \<lambda>s t. case map_of l (index_key s t) of
       Some n \<Rightarrow> Some n | None \<Rightarrow> snd (snapshot db1) s t) db'"
  proof (rule Cons.IH)
    fix k' n' assume "(k', n') \<in> set l"
    with Cons.prems(3) [of k' n'] show "k' = index_key (space_of k') (type_of k') \<and>
      is_type (space_of k') (type_of k') n' \<and> snd (snapshot db1) (space_of k') (type_of k') \<noteq> None"
      using d1' by auto
  qed (use d1' Cons.prems in simp_all)
  then obtain db' where s: "st_for restore_next_id l db1 = (Inr (), db')"
    and d2: "restored db1 (fst (snapshot db1), \<lambda>s t. case map_of l (index_key s t) of
       Some n \<Rightarrow> Some n | None \<Rightarrow> snd (snapshot db1) s t) db'" by blast
  have r': "restore_next_id p db = (Inr (), db1)"
    using r p by (simp add: restore_next_id_def)
  have "(fst (snapshot db1), \<lambda>s t. case map_of l (index_key s t) of Some n \<Rightarrow> Some n | None \<Rightarrow> snd (snapshot db1) s t) =
     (fst (snapshot db), \<lambda>s t. case map_of (p # l) (index_key s t) of Some n \<Rightarrow> Some n | None \<Rightarrow> snd (snapshot db) s t)"
  proof -
    have "k \<notin> dom (map_of l)" using Cons.prems(2) p by (auto simp: dom_map_of_conv_image_fst)
    then have "map_of l (index_key ?s ?t) = None" using k(1) by (auto simp: dom_def)
    moreover have "index_key s t = k \<longleftrightarrow> s = ?s \<and> t = ?t" for s t using k(1) index_key_inject by metis
    ultimately show ?thesis using d1' p by (auto simp: fun_eq_iff split: option.splits)
  qed
  with st_for_ConsI [where f = restore_next_id, OF r' s] restored_trans [OF d1 d2] show ?case by auto
qed

lemma restore_removed_objects:
  assumes "db_ok db" "no_clash (shape db) a b" "between a b (snapshot db)" "distinct (map fst l)"
    and "\<And>x v. (x, v) \<in> set l \<Longrightarrow> fst a x = Some v \<and> removable (shape db) x \<and> fst (snapshot db) x = None"
  shows "\<exists>db'. st_for restore_removed l db = (Inr (), db') \<and>
     restored db (fst (snapshot db) ++ map_of l, snd (snapshot db)) db'"
  using assms
proof (induction l arbitrary: db)
  case Nil
  then show ?case by (simp add: restored_def)
next
  case (Cons p l)
  obtain x v where p: "p = (x, v)" by (cases p)
  have xv: "fst a x = Some v" and rm: "removable (shape db) x" and nx: "obj_view db x = None"
    using Cons.prems(5) [of x v] p by (auto simp: snapshot_def)
  obtain db1 where r: "db_insert x v db = (Inr (), db1)"
    using insert_ok [OF Cons.prems(1) nx rm, of v] no_clashD [OF Cons.prems(2,3), of x _ v] xv
    by (fastforce simp: snapshot_def)
  have d1: "restored db ((fst (snapshot db))(x \<mapsto> v), snd (snapshot db)) db1"
    using insert_effect [OF Cons.prems(1) r rm] by (auto simp: restored_def)
  note d1' = d1 [unfolded restored_def same_undo_def]
  have xl: "x \<notin> dom (map_of l)" "x \<notin> fst ` set l" using Cons.prems(4) p by (auto simp: dom_map_of_conv_image_fst)
  have "\<exists>db'. st_for restore_removed l db1 = (Inr (), db') \<and>
     restored db1 (fst (snapshot db1) ++ map_of l, snd (snapshot db1)) db'"
  proof (rule Cons.IH)
    show "between a b (snapshot db1)" using between_update [OF Cons.prems(3) xv] d1' by simp
    show "\<And>x v. (x, v) \<in> set l \<Longrightarrow> fst a x = Some v \<and> removable (shape db1) x \<and> fst (snapshot db1) x = None"
      using Cons.prems(5) d1' xl by force
  qed (use d1' Cons.prems in simp_all)
  then obtain db' where s: "st_for restore_removed l db1 = (Inr (), db')"
    and d2: "restored db1 (fst (snapshot db1) ++ map_of l, snd (snapshot db1)) db'" by blast
  have r': "restore_removed p db = (Inr (), db1)"
    using r p by (simp add: restore_removed_def)
  have "(fst (snapshot db1) ++ map_of l, snd (snapshot db1)) = (fst (snapshot db) ++ map_of (p # l), snd (snapshot db))"
    using d1' p xl by (auto simp: fun_eq_iff map_add_def split: option.splits)
  with st_for_ConsI [where f = restore_removed, OF r' s] restored_trans [OF d1 d2] show ?case by (auto simp only:)
qed

lemma restore_state_correct:
  assumes ok: "db_ok db" and dis: "disabled db" and u: "undo_state_ok (shape db) u (snapshot db)"
    and nc: "no_clash (shape db) (rollback u (snapshot db)) (snapshot db)"
  shows "\<exists>db'. restore_state u db = (Inr (), db') \<and> restored db (rollback u (snapshot db)) db'"
proof -
  let ?c = "snapshot db" and ?a = "rollback u (snapshot db)"
  note p = undo_state_ok_parts [OF u]
  have mo: "(x, v) \<in> set (old_values u) \<longleftrightarrow> map_of (old_values u) x = Some v" for x v
    using map_of_eq_Some_iff [OF p(2)] by metis
  have mr: "(x, v) \<in> set (removed u) \<longleftrightarrow> map_of (removed u) x = Some v" for x v
    using map_of_eq_Some_iff [OF p(3)] by metis
  have mn: "(k, n) \<in> set (old_index_next_ids u) \<longleftrightarrow> map_of (old_index_next_ids u) k = Some n" for k n
    using map_of_eq_Some_iff [OF p(4)] by metis
  have on: "x \<in> set (new_ids u) \<Longrightarrow> map_of (old_values u) x = None" for x using p(7) .
  have or: "map_of (removed u) x = Some v \<Longrightarrow> map_of (old_values u) x = None \<and> x \<notin> set (new_ids u)" for x v
    using p(6) [of x] p(9) [of x] p(11) [of x v] by (cases "map_of (old_values u) x") auto
  have "between ?a ?c ?c" by (simp add: between_def)
  moreover have "fst ?a x = Some v \<and> fst ?c x \<noteq> None" if "(x, v) \<in> set (old_values u)" for x v
    using that p(9) [of x v] on [of x] by (auto simp: mo rollback_obj)
  ultimately obtain db1 where s1: "st_for restore_old_value (old_values u) db = (Inr (), db1)"
    and d1: "restored db (fst ?c ++ map_of (old_values u), snd ?c) db1" and b1: "between ?a ?c (snapshot db1)"
    using restore_old_values [OF ok dis nc _ p(2)] by blast
  note d1' = d1 [unfolded restored_def same_undo_def]
  have "removable (shape db1) x \<and> fst (snapshot db1) x \<noteq> None" if "x \<in> set (new_ids u)" for x
    using p(5,6) [OF that] d1' by (auto simp: map_add_def split: option.splits)
  from remove_new_ids [OF _ _ p(1) this] d1' dis
  obtain db2 where s2: "st_for remove_new_id (new_ids u) db1 = (Inr (), db2)"
    and d2: "restored db1 (\<lambda>x. if x \<in> set (new_ids u) then None else fst (snapshot db1) x, snd (snapshot db1)) db2"
    by auto
  note d2' = d2 [unfolded restored_def same_undo_def]
  have b2: "between ?a ?c (snapshot db2)" using between_delete [OF b1] d2' by simp
  have "k = index_key (space_of k) (type_of k) \<and> is_type (space_of k) (type_of k) n \<and>
      snd (snapshot db2) (space_of k) (type_of k) \<noteq> None" if "(k, n) \<in> set (old_index_next_ids u)" for k n
    using p(12-14) [of k n] that d1' d2' by (auto simp: mn)
  from restore_next_ids [OF _ p(4) this] d2'
  obtain db3 where s3: "st_for restore_next_id (old_index_next_ids u) db2 = (Inr (), db3)"
    and d3: "restored db2 (fst (snapshot db2), \<lambda>s t. case map_of (old_index_next_ids u) (index_key s t) of
       Some n \<Rightarrow> Some n | None \<Rightarrow> snd (snapshot db2) s t) db3" by auto
  note d3' = d3 [unfolded restored_def same_undo_def]
  have b3: "between ?a ?c (snapshot db3)" using b2 d3' by (simp add: between_def)
  have "fst ?a x = Some v \<and> removable (shape db3) x \<and> fst (snapshot db3) x = None"
    if "(x, v) \<in> set (removed u)" for x v
    using that p(10,11) [of x v] or [of x v] d1' d2' d3'
    by (auto simp: mr rollback_obj map_add_def split: option.splits)
  from restore_removed_objects [OF _ _ b3 p(3) this] d1' d2' d3' nc
  obtain db4 where s4: "st_for restore_removed (removed u) db3 = (Inr (), db4)"
    and d4: "restored db3 (fst (snapshot db3) ++ map_of (removed u), snd (snapshot db3)) db4" by auto
  have "restore_state u db = (Inr (), db4)"
    by (simp add: restore_state_def st_bind_eq_Inr s1 s2 s3 s4)
  moreover have "(fst (snapshot db3) ++ map_of (removed u), snd (snapshot db3)) = ?a"
    using d1' d2' d3' on or
    by (intro snapshot_eqI) (auto simp: rollback_obj rollback_next map_add_def split: option.splits)
  ultimately show ?thesis
    using d4 restored_trans [OF restored_trans [OF restored_trans [OF d1 d2] d3]] by metis
qed

end
