(* ===== verification/Undo_Merge.thy ===== *)
theory Undo_Merge
  imports Undo_Correct
begin

text \<open>
  \<open>undo_database::merge\<close> composes the two most recent undo states: what it leaves on the stack
  stands for the older of the two snapshots.
\<close>

section \<open>The four loops, pointwise\<close>

lemma map_of_hd_None: "distinct (map fst (a # l)) \<Longrightarrow> map_of l (fst a) = None"
  by (simp add: map_of_eq_None_iff)

lemma fold_merge_old_value:
  assumes "distinct (map fst l)"
  shows "new_ids (fold merge_old_value l p) = new_ids p"
    and "removed (fold merge_old_value l p) = removed p"
    and "old_index_next_ids (fold merge_old_value l p) = old_index_next_ids p"
    and "map_of (old_values (fold merge_old_value l p)) x =
      (if x \<in> set (new_ids p) then map_of (old_values p) x
       else case map_of (old_values p) x of Some v \<Rightarrow> Some v | None \<Rightarrow> map_of l x)"
    and "distinct (map fst (old_values p)) \<Longrightarrow> distinct (map fst (old_values (fold merge_old_value l p)))"
  using assms
proof (induction l arbitrary: p)
  case (Cons a l)
  { case 1 then show ?case using Cons.IH(1) by (simp add: merge_old_value_def)
  next case 2 then show ?case using Cons.IH(2) by (simp add: merge_old_value_def)
  next case 3 then show ?case using Cons.IH(3) by (simp add: merge_old_value_def)
  next case 4 then show ?case using Cons.IH(4) map_of_hd_None [of a l] by (auto simp: merge_old_value_def split: option.splits)
  next case 5 then show ?case using Cons.IH(5) by (simp add: merge_old_value_def distinct_update) }
qed (auto split: option.splits)

lemma fold_merge_new_id:
  "set (new_ids (fold merge_new_id l p)) = set l \<union> set (new_ids p)"
  "old_values (fold merge_new_id l p) = old_values p" "removed (fold merge_new_id l p) = removed p"
  "old_index_next_ids (fold merge_new_id l p) = old_index_next_ids p"
  "distinct (new_ids p) \<Longrightarrow> distinct (new_ids (fold merge_new_id l p))"
  by (induction l arbitrary: p) (auto simp: merge_new_id_def)

lemma fold_merge_next_id:
  "new_ids (fold merge_next_id l p) = new_ids p" "old_values (fold merge_next_id l p) = old_values p"
  "removed (fold merge_next_id l p) = removed p"
  "distinct (map fst l) \<Longrightarrow> map_of (old_index_next_ids (fold merge_next_id l p)) k =
     (case map_of (old_index_next_ids p) k of Some n \<Rightarrow> Some n | None \<Rightarrow> map_of l k)"
  "distinct (map fst (old_index_next_ids p)) \<Longrightarrow> distinct (map fst (old_index_next_ids (fold merge_next_id l p)))"
proof -
  show "new_ids (fold merge_next_id l p) = new_ids p" "old_values (fold merge_next_id l p) = old_values p"
    "removed (fold merge_next_id l p) = removed p"
    by (induction l arbitrary: p) (auto simp: merge_next_id_def)
  show "distinct (map fst (old_index_next_ids p)) \<Longrightarrow> distinct (map fst (old_index_next_ids (fold merge_next_id l p)))"
    by (induction l arbitrary: p) (auto simp: merge_next_id_def distinct_update)
  show "distinct (map fst l) \<Longrightarrow> map_of (old_index_next_ids (fold merge_next_id l p)) k =
     (case map_of (old_index_next_ids p) k of Some n \<Rightarrow> Some n | None \<Rightarrow> map_of l k)"
  proof (induction l arbitrary: p)
    case (Cons a l)
    then have "map_of l (fst a) = None" by (auto simp: map_of_eq_None_iff) 
    with Cons show ?case by (auto simp: merge_next_id_def split: option.splits)
  qed (auto split: option.splits)
qed

lemma fold_merge_removed:
  assumes "distinct (map fst l)"
  shows "x \<in> set (new_ids (fold merge_removed l p)) \<longleftrightarrow> x \<in> set (new_ids p) \<and> map_of l x = None"
    and "map_of (old_values (fold merge_removed l p)) x =
      (if map_of l x \<noteq> None \<and> x \<notin> set (new_ids p) then None else map_of (old_values p) x)"
    and "map_of (removed (fold merge_removed l p)) x =
      (if map_of l x \<noteq> None \<and> x \<notin> set (new_ids p)
       then (case map_of (old_values p) x of Some v \<Rightarrow> Some v | None \<Rightarrow> map_of l x)
       else map_of (removed p) x)"
    and "old_index_next_ids (fold merge_removed l p) = old_index_next_ids p"
    and "distinct (new_ids p) \<Longrightarrow> distinct (new_ids (fold merge_removed l p))"
    and "distinct (map fst (old_values p)) \<Longrightarrow> distinct (map fst (old_values (fold merge_removed l p)))"
    and "distinct (map fst (removed p)) \<Longrightarrow> distinct (map fst (removed (fold merge_removed l p)))"
  using assms
proof (induction l arbitrary: p)
  case (Cons a l)
  { case 1 then show ?case using Cons.IH(1) map_of_hd_None [of a l] by (auto simp: merge_removed_def split: option.splits)
  next case 2 then show ?case using Cons.IH(2) map_of_hd_None [of a l] by (auto simp: merge_removed_def split: option.splits)
  next case 3 then show ?case using Cons.IH(3) map_of_hd_None [of a l] by (auto simp: merge_removed_def split: option.splits)
  next case 4 then show ?case using Cons.IH(4) by (auto simp: merge_removed_def split: option.splits)
  next case 5 then show ?case using Cons.IH(5) by (auto simp: merge_removed_def distinct_removeAll split: option.splits)
  next case 6 then show ?case using Cons.IH(6) by (auto simp: merge_removed_def distinct_delete split: option.splits)
  next case 7 then show ?case using Cons.IH(7) by (auto simp: merge_removed_def distinct_update split: option.splits) }
qed (auto split: option.splits)

section \<open>The composition\<close>

lemma merge_states_maps:
  assumes s: "undo_state_ok sh s c" and p: "undo_state_ok sh p c1"
  shows "x \<in> set (new_ids (merge_states s p)) \<longleftrightarrow> x \<in> set (new_ids p) \<union> set (new_ids s) \<and> map_of (removed s) x = None"
    and "map_of (old_values (merge_states s p)) x =
      (if map_of (removed s) x \<noteq> None \<and> x \<notin> set (new_ids p) \<union> set (new_ids s) then None
       else if x \<in> set (new_ids p) then map_of (old_values p) x
       else case map_of (old_values p) x of Some v \<Rightarrow> Some v | None \<Rightarrow> map_of (old_values s) x)"
    and "map_of (removed (merge_states s p)) x =
      (if map_of (removed s) x \<noteq> None \<and> x \<notin> set (new_ids p) \<union> set (new_ids s)
       then (case map_of (old_values p) x of Some v \<Rightarrow> Some v
             | None \<Rightarrow> (case map_of (old_values s) x of Some v \<Rightarrow> Some v | None \<Rightarrow> map_of (removed s) x))
       else map_of (removed p) x)"
    and "map_of (old_index_next_ids (merge_states s p)) k =
      (case map_of (old_index_next_ids p) k of Some n \<Rightarrow> Some n | None \<Rightarrow> map_of (old_index_next_ids s) k)"
    and "distinct (new_ids (merge_states s p))" "distinct (map fst (old_values (merge_states s p)))"
      "distinct (map fst (removed (merge_states s p)))" "distinct (map fst (old_index_next_ids (merge_states s p)))"
  using undo_state_ok_parts(1-4) [OF s] undo_state_ok_parts(1-4) [OF p]
  by (simp_all add: merge_states_def fold_merge_removed fold_merge_next_id fold_merge_new_id
        fold_merge_old_value Un_commute split: option.splits)

lemma merge_cases:
  assumes s: "undo_state_ok sh s c" and p: "undo_state_ok sh p (rollback s c)"
  shows "x \<in> set (new_ids s) \<Longrightarrow> x \<notin> set (new_ids p) \<and> map_of (old_values p) x = None \<and> map_of (removed p) x = None"
    and "map_of (old_values s) x = Some v \<Longrightarrow> map_of (removed p) x = None"
    and "map_of (removed s) x = Some v \<Longrightarrow> map_of (removed p) x = None \<and> x \<notin> set (new_ids s) \<and> map_of (old_values s) x = None"
    and "x \<in> set (new_ids p) \<Longrightarrow> map_of (removed p) x = None \<and> x \<notin> set (new_ids s)"
proof -
  note ps = undo_state_ok_parts [OF s] and pp = undo_state_ok_parts [OF p]
  show new: "x \<in> set (new_ids s) \<Longrightarrow> x \<notin> set (new_ids p) \<and> map_of (old_values p) x = None \<and> map_of (removed p) x = None"
  proof -
    assume n: "x \<in> set (new_ids s)"
    then have none: "fst (rollback s c) x = None" by (simp add: rollback_obj)
    from ps(8) [OF n] obtain n1 where n1: "snd (rollback s c) (space_of x) (type_of x) = Some n1" "instance_of n1 \<le> instance_of x"
      by blast
    obtain n0 where n0: "snd (rollback p (rollback s c)) (space_of x) (type_of x) = Some n0" "instance_of n0 \<le> instance_of n1"
      using pp(14) [of "index_key (space_of x) (type_of x)"] n1(1)
      by (cases "map_of (old_index_next_ids p) (index_key (space_of x) (type_of x))") (auto simp: rollback_next [of p])
    have np: "x \<notin> set (new_ids p)" using pp(6) [of x] none by auto
    have op: "map_of (old_values p) x = None" using pp(9) [of x] none by (cases "map_of (old_values p) x") auto
    have "map_of (removed p) x = None"
    proof (rule ccontr)
      assume "map_of (removed p) x \<noteq> None"
      then obtain v where r: "map_of (removed p) x = Some v" by blast
      have "fst (rollback p (rollback s c)) x = Some v" using np op r by (simp add: rollback_obj [of p])
      with pp(15) pp(10) [OF r] n0 n1(2) show False by (fastforce simp: fresh_ids_def)
    qed
    with np op show ?thesis by blast
  qed
  show "map_of (old_values s) x = Some v \<Longrightarrow> map_of (removed p) x = None"
    using pp(11) [of x] ps(7) [of x]
    by (cases "map_of (removed p) x"; cases "x \<in> set (new_ids s)") (auto simp: rollback_obj [of s])
  show "map_of (removed s) x = Some v \<Longrightarrow> map_of (removed p) x = None \<and> x \<notin> set (new_ids s) \<and> map_of (old_values s) x = None"
  proof -
    assume r: "map_of (removed s) x = Some v"
    then have c: "fst c x = None" using ps(11) by blast
    have ns: "x \<notin> set (new_ids s)" using ps(6) [of x] c by auto
    have os: "map_of (old_values s) x = None" using ps(9) [of x] c by (cases "map_of (old_values s) x") auto
    have "fst (rollback s c) x = Some v" using r ns os by (simp add: rollback_obj [of s])
    with pp(11) [of x] have "map_of (removed p) x = None" by (cases "map_of (removed p) x") auto
    with ns os show ?thesis by blast
  qed
  show "x \<in> set (new_ids p) \<Longrightarrow> map_of (removed p) x = None \<and> x \<notin> set (new_ids s)"
    using pp(6) [of x] pp(11) [of x] new by (cases "map_of (removed p) x") auto
qed

lemma merge_states_step:
  assumes s: "undo_state_ok sh s c" and p: "undo_state_ok sh p (rollback s c)"
  shows "rollback (merge_states s p) c = rollback p (rollback s c)" (is ?R)
    and "undo_state_ok sh (merge_states s p) c"
proof -
  note ps = undo_state_ok_parts [OF s] and pp = undo_state_ok_parts [OF p]
  note m = merge_states_maps [OF s p] and k = merge_cases [OF s p]
  show r: ?R
  proof (rule snapshot_eqI)
    fix x show "fst (rollback (merge_states s p) c) x = fst (rollback p (rollback s c)) x"
      using k [of x] ps(7) [of x] pp(7) [of x] ps(11) [of x]
      unfolding rollback_obj m by (auto split: option.splits)
  qed (auto simp: rollback_next m(4) split: option.splits)
  have c1: "fst (rollback s c) x = (if x \<in> set (new_ids s) then None
     else case map_of (old_values s) x of Some v \<Rightarrow> Some v
     | None \<Rightarrow> (case map_of (removed s) x of Some v \<Rightarrow> Some v | None \<Rightarrow> fst c x))" for x
    by (rule rollback_obj)
  have alive: "fst (rollback s c) x \<noteq> None \<Longrightarrow> map_of (removed s) x = None \<Longrightarrow> fst c x \<noteq> None" for x
    using ps(9) [of x] by (auto simp: c1 split: if_splits option.splits)
  have new_ok: "removable sh x \<and> fst c x \<noteq> None \<and> map_of (old_values (merge_states s p)) x = None \<and>
      (\<exists>n. snd (rollback p (rollback s c)) (space_of x) (type_of x) = Some n \<and> instance_of n \<le> instance_of x)"
    if x: "x \<in> set (new_ids (merge_states s p))" for x
  proof (cases "x \<in> set (new_ids p)")
    case True
    with x alive [of x] pp(5-8) [OF True] show ?thesis by (simp add: m)
  next
    case False
    with x have n: "x \<in> set (new_ids s)" and r: "map_of (removed s) x = None" by (auto simp: m)
    from ps(8) [OF n] obtain n1 where n1: "snd (rollback s c) (space_of x) (type_of x) = Some n1" "instance_of n1 \<le> instance_of x"
      by blast
    have "\<exists>n. snd (rollback p (rollback s c)) (space_of x) (type_of x) = Some n \<and> instance_of n \<le> instance_of x"
      using pp(14) [of "index_key (space_of x) (type_of x)"] n1
      by (cases "map_of (old_index_next_ids p) (index_key (space_of x) (type_of x))")
        (auto simp: rollback_next [of p] intro: order_trans)
    with ps(5-7) [OF n] k(1) [OF n] r False show ?thesis by (simp add: m)
  qed
  have old_ok: "map_of (old_values (merge_states s p)) x \<noteq> None \<longrightarrow> fst c x \<noteq> None" for x
  proof
    assume "map_of (old_values (merge_states s p)) x \<noteq> None"
    then consider v where "map_of (old_values p) x = Some v" "map_of (removed s) x = None"
      | v where "map_of (old_values s) x = Some v"
      using k(1,3) [of x] pp(7) [of x] by (auto simp: m split: if_splits option.splits)
    then show "fst c x \<noteq> None"
      by cases (use alive [of x] pp(9) [of x] ps(9) [of x] in auto)
  qed
  have rem_ok: "map_of (removed (merge_states s p)) x \<noteq> None \<longrightarrow> removable sh x \<and> fst c x = None" for x
  proof
    assume "map_of (removed (merge_states s p)) x \<noteq> None"
    then consider v where "map_of (removed s) x = Some v" | v where "map_of (removed p) x = Some v" "map_of (removed s) x = None"
      by (auto simp: m split: if_splits)
    then show "removable sh x \<and> fst c x = None"
    proof cases
      case 1 then show ?thesis using ps(10,11) by blast
    next
      case 2
      with pp(10,11) [OF 2(1)] k(1,2) [of x] show ?thesis
        by (auto simp: c1 split: if_splits option.splits)
    qed
  qed
  have keys: "key = index_key (space_of key) (type_of key) \<and> is_type (space_of key) (type_of key) n \<and>
      (\<exists>l. snd c (space_of key) (type_of key) = Some l \<and> instance_of n \<le> instance_of l)"
    if n: "map_of (old_index_next_ids (merge_states s p)) key = Some n" for key n
  proof (cases "map_of (old_index_next_ids p) key")
    case None
    with n ps(12-14) [of key n] show ?thesis by (simp add: m(4))
  next
    case (Some n')
    with n have n': "map_of (old_index_next_ids p) key = Some n" by (simp add: m(4))
    from pp(14) [OF n'] obtain l where l: "snd (rollback s c) (space_of key) (type_of key) = Some l" "instance_of n \<le> instance_of l"
      by blast
    have "key = index_key (space_of key) (type_of key)" by (rule pp(12) [OF n'])
    then have "\<exists>j. snd c (space_of key) (type_of key) = Some j \<and> instance_of l \<le> instance_of j"
      using ps(14) [of key] l(1) by (cases "map_of (old_index_next_ids s) key") (auto simp: rollback_next [of s])
    with l(2) pp(12,13) [OF n'] show ?thesis by (blast intro: order_trans)
  qed
  show "undo_state_ok sh (merge_states s p) c"
    unfolding undo_state_ok_def r
    by (intro conjI; (fact m(5-8) pp(15) | rule allI, fact old_ok | rule allI, fact rem_ok |
      intro ballI, erule new_ok | intro allI impI, erule keys))
qed

end
