(* ===== verification/Undo_Properties.thy ===== *)
theory Undo_Properties
  imports Undo_Restore Undo_Merge
begin

text \<open>
  The properties of the undo database, over its snapshots.
\<close>

section \<open>The operations on the whole stack\<close>

lemma history_take: "history (take n us) c = take n (history us c)"
  by (induction us arbitrary: n c) (auto simp: take_Cons split: nat.splits)

lemma stack_ok_take: "stack_ok sh us c \<Longrightarrow> stack_ok sh (take n us) c"
  by (induction us arbitrary: n c) (auto simp: take_Cons split: nat.splits)

lemma start_session_correct:
  assumes "undo_inv db" and "start_undo_session force db = (Inr ss, db1)" and "\<not> disabled db \<or> force"
  shows "undo_inv db1 \<and> snapshot db1 = snapshot db \<and> shape db1 = shape db \<and> recording db1 \<and>
    saved db1 = snapshot db # take (max_size db) (saved db) \<and> active_sessions db1 = active_sessions db + 1 \<and>
    max_size db1 = max_size db \<and> apply_undo ss"
proof -
  have db1: "db1 = db\<lparr>disabled := (if force then False else disabled db),
      undo_stack := empty_undo_state # take (max_size db) (undo_stack db),
      active_sessions := active_sessions db + 1\<rparr>" and ss: "apply_undo ss"
    using assms(2,3) by (auto simp: start_undo_session_def split: if_splits)
  then have same: "snapshot db1 = snapshot db" "shape db1 = shape db" "db_ok db1 = db_ok db"
    using indexes_cong [of db1 db] by simp_all
  have "undo_inv db1"
    using assms(1) same stack_ok_take [of "shape db" "undo_stack db" "snapshot db" "max_size db"]
    by (simp add: undo_inv_def db1 empty_undo_state_ok)
  moreover have "saved db1 = snapshot db # take (max_size db) (saved db)"
    using same by (simp add: saved_def db1 history_take)
  moreover have "recording db1" "active_sessions db1 = active_sessions db + 1" "max_size db1 = max_size db"
    using assms(3) by (auto simp: recording_def db1)
  ultimately show ?thesis using same ss by blast
qed

lemma undo_inv_pop:
  assumes "undo_inv db" and "undo_stack db = u # us" and "db_ok db'" and "shape db' = shape db"
    and "snapshot db' = rollback u (snapshot db)"
    and "undo_stack db' = us \<or> us = [] \<and> undo_stack db' = [empty_undo_state]"
  shows "undo_inv db'"
  using assms by (auto simp: undo_inv_def undo_state_ok_parts(15) intro!: empty_undo_state_ok)

lemma undo_correct:
  assumes inv: "undo_inv db" and rec: "recording db" and act: "active_sessions db \<noteq> 0"
    and nc: "no_clash (shape db) (hd (saved db)) (snapshot db)"
  shows "\<exists>db'. undo db = (Inr (), db') \<and> snapshot db' = hd (saved db) \<and>
    saved db' = (if tl (saved db) = [] then [hd (saved db)] else tl (saved db)) \<and> undo_inv db' \<and>
    shape db' = shape db \<and> active_sessions db' = active_sessions db - 1 \<and> recording db'"
proof -
  obtain u us where u: "undo_stack db = u # us" and en: "\<not> disabled db" using rec by (rule recordingE)
  let ?db0 = "undo_disable db"
  have same: "snapshot ?db0 = snapshot db" "shape ?db0 = shape db" "db_ok ?db0 = db_ok db"
    using indexes_cong [of ?db0 db] by (simp_all add: undo_disable_def)
  have hd: "hd (saved db) = rollback u (snapshot db)" by (simp add: saved_Cons [OF u])
  have ok: "db_ok db" and oku: "undo_state_ok (shape db) u (snapshot db)" using inv by (simp_all add: undo_inv_Cons [OF u])
  obtain db1 where r: "restore_state u ?db0 = (Inr (), db1)" and d: "restored ?db0 (rollback u (snapshot db)) db1"
    using restore_state_correct [of ?db0 u] ok oku nc same hd by (auto simp: undo_disable_def)
  note d' = d [unfolded restored_def same_undo_def]
  define db2 where "db2 = db1\<lparr>undo_stack := (if us = [] then [empty_undo_state] else us),
    disabled := False, active_sessions := active_sessions db - 1\<rparr>"
  have "active_sessions db > 0" using act by (simp add: word_gt_0)
  then have "undo db = (Inr (), db2)"
    using en u r d' by (auto simp: undo_def st_bind_eq_Inr stack_back_def undo_disable_def undo_enable_def db2_def)
  moreover have s2: "snapshot db2 = snapshot db1" "shape db2 = shape db1" "db_ok db2 = db_ok db1"
    using indexes_cong [of db2 db1] by (simp_all add: db2_def)
  moreover have "undo_inv db2"
    using undo_inv_pop [OF inv u, of db2] s2 d' same by (auto simp: db2_def)
  moreover have "saved db2 = (if tl (saved db) = [] then [hd (saved db)] else tl (saved db))"
    using s2 d' by (cases us) (auto simp: saved_def db2_def u)
  ultimately show ?thesis using d' same hd by (auto simp: recording_def db2_def)
qed

section \<open>A database to run on\<close>

definition opened_database :: "8 word \<Rightarrow> 8 word \<Rightarrow> 'a derived_index \<Rightarrow> 'a \<Rightarrow> 'a object_database" where
  "opened_database s t d dflt = snd (add_index s t d dflt empty_database)"

lemma opened_database_index:
  assumes "unat s < 255" and "unat t < 255"
  shows "get_index s' t' (opened_database s t d dflt) =
    (if s' = s \<and> t' = t then Inr \<lparr>derived = d, next_id = index_key s t, default_object = dflt, events = []\<rparr>
     else Inl Assert_Exception)"
proof -
  have "s' = s \<longleftrightarrow> unat s' = unat s" and "t' = t \<longleftrightarrow> unat t' = unat t"
    by (auto intro: unsigned_word_eqI)
  then show ?thesis
    using assms by (auto simp: opened_database_def add_index_def empty_database_def get_index_def resize_def
      nth_list_update Let_def)
qed

lemma opened_database_inv:
  assumes "unat s < 255" and "unat t < 255" and "ix_wf s t d" and "\<And>k. ix_find d k = None"
  shows "undo_inv (opened_database s t d dflt)"
proof -
  have "undo_stack (opened_database s t d dflt) = []"
    by (simp add: opened_database_def add_index_def empty_database_def Let_def)
  moreover have "obj_view (opened_database s t d dflt) x = None" for x
    using assms(4) by (simp add: obj_view_def find_object_def opened_database_index [OF assms(1,2)])
  moreover have "db_ok (opened_database s t d dflt)"
    using assms(3) by (auto simp: db_ok_def opened_database_index [OF assms(1,2)] is_type_iff split: if_splits)
  ultimately show ?thesis by (simp add: undo_inv_def fresh_ids_def snapshot_def)
qed

definition accounts_database :: "nat object_database" where
  \<comment> \<open>one \<open>generic_index\<close> at 1.2 whose objects, numbers, are their own unique key\<close>
  "accounts_database = opened_database 1 2 (Generic \<lparr>gi_rows = [], gi_clash = (=)\<rparr>) 0"

lemma accounts_database_inv: "undo_inv accounts_database"
  unfolding accounts_database_def by (rule opened_database_inv) (simp_all add: gi_find_def)

lemma accounts_database_shape: "shape accounts_database 1 2 = Some (False, (=))"
  by (simp add: accounts_database_def shape_def opened_database_index)

lemma accounts_database_ids: "n < 2 ^ 48 \<Longrightarrow> ids_left n accounts_database"
  by (auto simp: ids_left_def accounts_database_def next_view_def opened_database_index split: if_splits)

definition plain_database :: "nat object_database" where
  \<comment> \<open>the same without a further unique key\<close>
  "plain_database = opened_database 1 2 (Generic \<lparr>gi_rows = [], gi_clash = (\<lambda>_ _. False)\<rparr>) 0"

lemma plain_database_inv: "undo_inv plain_database"
  unfolding plain_database_def by (rule opened_database_inv) (simp_all add: gi_find_def)

lemma plain_database_get_index:
  "get_index s t plain_database = (if s = 1 \<and> t = 2
     then Inr \<lparr>derived = Generic \<lparr>gi_rows = [], gi_clash = (\<lambda>_ _. False)\<rparr>, next_id = index_key 1 2,
       default_object = 0, events = []\<rparr> else Inl Assert_Exception)"
  unfolding plain_database_def by (rule opened_database_index) simp_all

lemma plain_database_no_clash: "no_clash (shape plain_database) a b"
  by (auto simp: no_clash_def clashes_def shape_def plain_database_get_index)

lemma plain_database_ids: "n < 2 ^ 48 \<Longrightarrow> ids_left n plain_database"
  by (auto simp: ids_left_def next_view_def plain_database_get_index split: if_splits)

lemma plain_database_state: "disabled plain_database = False" "active_sessions plain_database = 0"
  "undo_stack plain_database = []" "max_size plain_database = 256"
  by (simp_all add: plain_database_def opened_database_def add_index_def empty_database_def Let_def resize_def)

definition account_ops :: "nat db_op list" where
  "account_ops = [Create 1 2 (\<lambda>_ _. 5), Create 1 2 (\<lambda>_ _. 7), Modify (index_key 1 2) (\<lambda>v. v + 1),
     Remove (id_incr (index_key 1 2))]"

definition plain_session :: "session \<times> nat object_database" where
  \<comment> \<open>a session on it with four operations\<close>
  "plain_session = (\<lparr>apply_undo = True, disable_on_exit = False\<rparr>,
     snd (run_ops account_ops (snd (start_undo_session False plain_database))))"

lemma account_ops_allowed: "list_all (op_allowed (shape plain_database)) account_ops"
proof -
  have "space_of (id_incr (index_key 1 2)) = 1" "type_of (id_incr (index_key 1 2)) = 2"
    using id_incr_fields(1,2) [of "index_key 1 2"] by simp_all
  then show ?thesis by (simp add: account_ops_def removable_def shape_def plain_database_get_index)
qed

lemma plain_session_start:
  "start_undo_session False plain_database =
     (Inr \<lparr>apply_undo = True, disable_on_exit = False\<rparr>, snd (start_undo_session False plain_database))"
  by (simp add: start_undo_session_def plain_database_state)

lemma plain_session_runs:
  "run_ops account_ops (snd (start_undo_session False plain_database)) = (Inr (), snd plain_session)"
proof -
  have "fst (run_ops account_ops (snd (start_undo_session False plain_database))) = Inr ()"
    by code_simp
  then show ?thesis unfolding plain_session_def by (metis prod.collapse snd_conv)
qed

section \<open>Properties\<close>

text \<open>C1: whatever objects are created, modified and removed in a session (in a \<open>flat_index\<close> they are only modified, because
  its \<open>remove\<close> leaves a default object behind), undoing the session returns normally and brings back the state in
  which it was started: every lookup and every next identifier, the earlier snapshots up to the configured depth, the
  number of active sessions, and the invariant.  The database satisfies the invariant of undo states and is not disabled,
  the counter of active sessions does not wrap, no two objects of the two states collide on a unique key of their
  container, and each index has enough instance numbers left for the operations.\<close>

theorem undo_restores_snapshot:
  assumes "undo_inv db" and "\<not> disabled db" and "active_sessions db + 1 \<noteq> 0"
    and "start_undo_session False db = (Inr ss, db1)" and "run_ops as db1 = (Inr (), db2)"
    and "list_all (op_allowed (shape db)) as" and "ids_left (length as) db"
    and "no_clash (shape db) (snapshot db) (snapshot db2)"
  shows "\<exists>db3. session_undo (ss, db2) = (Inr (), (ss\<lparr>apply_undo := False\<rparr>, db3)) \<and>
    snapshot db3 = snapshot db \<and> undo_inv db3 \<and> active_sessions db3 = active_sessions db \<and> \<not> disabled db3 \<and>
    saved db3 = (if take (max_size db) (saved db) = [] then [snapshot db] else take (max_size db) (saved db))"
proof -
  have one: "undo_inv db1 \<and> snapshot db1 = snapshot db \<and> shape db1 = shape db \<and> recording db1 \<and>
    saved db1 = snapshot db # take (max_size db) (saved db) \<and> active_sessions db1 = active_sessions db + 1 \<and>
    max_size db1 = max_size db \<and> apply_undo ss"
    using start_session_correct [OF assms(1,4)] assms(2) by simp
  then have "ids_left (length as) db1" using assms(7) by (simp add: ids_left_def snapshot_def)
  with one have two: "undo_inv db2 \<and> keeps db1 db2"
    using ops_recorded [OF _ _ assms(5)] assms(6) by simp
  obtain db3 where u: "undo db2 = (Inr (), db3)" and p: "snapshot db3 = hd (saved db2) \<and>
    saved db3 = (if tl (saved db2) = [] then [hd (saved db2)] else tl (saved db2)) \<and> undo_inv db3 \<and>
    shape db3 = shape db2 \<and> active_sessions db3 = active_sessions db2 - 1 \<and> recording db3"
    using undo_correct [of db2] one two assms(3,8) by (auto simp: keeps_def)
  have "session_undo (ss, db2) = (Inr (), (ss\<lparr>apply_undo := False\<rparr>, db3))"
    using one u by (simp add: session_undo_def)
  with p one two show ?thesis by (auto simp: keeps_def recording_def)
qed

theorem undo_restores_snapshot_witness:
  "\<exists>db3. session_undo plain_session = (Inr (), (\<lparr>apply_undo = False, disable_on_exit = False\<rparr>, db3)) \<and>
    snapshot db3 = snapshot plain_database"
  using undo_restores_snapshot [OF plain_database_inv _ _ plain_session_start plain_session_runs
    account_ops_allowed plain_database_ids plain_database_no_clash]
  by (auto simp: plain_database_state account_ops_def plain_session_def)

text \<open>C7: recording is invisible to the sessions below: while recording is on (the database is not disabled and has an open
  undo state), a sequence of operations that returns keeps the stack of saved snapshots exactly as it was, the invariant
  and the number of active sessions.  The invariant holds before, objects of a \<open>flat_index\<close> are only modified (never
  created or removed), and each index has enough instance numbers left for the operations.\<close>

theorem operations_keep_history:
  assumes "undo_inv db" and "\<not> disabled db" and "undo_stack db \<noteq> []" and "run_ops as db = (Inr (), db')"
    and "list_all (op_allowed (shape db)) as" and "ids_left (length as) db"
  shows "saved db' = saved db \<and> undo_inv db' \<and> active_sessions db' = active_sessions db"
  using ops_recorded [OF assms(1) _ assms(4-6)] assms(2,3) by (simp add: keeps_def recording_def)

theorem operations_keep_history_witness:
  "saved (snd plain_session) = saved (snd (start_undo_session False plain_database))"
proof -
  let ?db = "snd (start_undo_session False plain_database)"
  have s: "undo_inv ?db \<and> snapshot ?db = snapshot plain_database \<and> shape ?db = shape plain_database \<and> recording ?db"
    using start_session_correct [OF plain_database_inv plain_session_start] plain_database_state by simp
  then have "ids_left (length account_ops) ?db"
    using plain_database_ids [of "length account_ops"] by (simp add: ids_left_def snapshot_def account_ops_def)
  then show ?thesis
    using operations_keep_history [OF _ _ _ plain_session_runs] s account_ops_allowed
    by (simp add: recording_def)
qed

text \<open>C5: merging a session into the one below leaves the objects alone and forgets exactly the
  last saved snapshot, so that the composed undo state still stands for the older one: the 4x4
  matrix in the comment of the code is right, its impossible cases included.
  A session is active, two undo states are on the stack, and the invariant holds.\<close>

theorem merge_forgets_last_snapshot:
  assumes "undo_inv db" and "active_sessions db \<noteq> 0" and "2 \<le> length (undo_stack db)"
  shows "\<exists>db'. undo_merge db = (Inr (), db') \<and> snapshot db' = snapshot db \<and> saved db' = tl (saved db) \<and>
    undo_inv db' \<and> active_sessions db' = active_sessions db - 1"
proof -
  obtain s p us where st: "undo_stack db = s # p # us"
    using assms(3) by (cases "undo_stack db"; cases "tl (undo_stack db)") auto
  define db' where "db' = db\<lparr>undo_stack := merge_states s p # us, active_sessions := active_sessions db - 1\<rparr>"
  have "active_sessions db > 0" using assms(2) by (simp add: word_gt_0)
  then have m: "undo_merge db = (Inr (), db')"
    by (simp add: undo_merge_def st_bind_eq_Inr db'_def st numeral_2_eq_2)
  have same: "snapshot db' = snapshot db" "shape db' = shape db" "db_ok db' = db_ok db"
    using indexes_cong [of db' db] by (simp_all add: db'_def)
  have ok: "undo_state_ok (shape db) s (snapshot db)" "undo_state_ok (shape db) p (rollback s (snapshot db))"
    "stack_ok (shape db) us (rollback p (rollback s (snapshot db)))"
    using assms(1) by (simp_all add: undo_inv_Cons [OF st])
  note step = merge_states_step [OF ok(1,2)]
  have "saved db' = tl (saved db)"
    using same step(1) by (simp add: saved_def db'_def st)
  moreover have "undo_inv db'"
    using assms(1) same step ok(3) by (simp add: undo_inv_def db'_def)
  ultimately show ?thesis using m same by (auto simp: db'_def)
qed

definition nested_session :: "nat object_database" where
  \<comment> \<open>a second session above the one of \<open>plain_session\<close>\<close>
  "nested_session = snd (start_undo_session False (snd plain_session))"

theorem merge_forgets_last_snapshot_witness:
  "\<exists>db'. undo_merge nested_session = (Inr (), db') \<and> saved db' = tl (saved nested_session)"
proof -
  have act: "active_sessions nested_session \<noteq> 0" and len: "2 \<le> length (undo_stack nested_session)"
    by (code_simp, code_simp)
  have "start_undo_session False (snd plain_session) =
      (fst (start_undo_session False (snd plain_session)), nested_session)"
    by (simp add: nested_session_def)
  moreover have "is_ok (fst (start_undo_session False (snd plain_session)))" by code_simp
  ultimately obtain ss where "start_undo_session False (snd plain_session) = (Inr ss, nested_session)"
    by (auto simp: is_ok_iff)
  moreover have "undo_inv (snd plain_session) \<and> recording (snd plain_session)"
  proof -
    let ?db = "snd (start_undo_session False plain_database)"
    have s: "undo_inv ?db \<and> snapshot ?db = snapshot plain_database \<and> shape ?db = shape plain_database \<and> recording ?db"
      using start_session_correct [OF plain_database_inv plain_session_start] plain_database_state by simp
    then have "ids_left (length account_ops) ?db"
      using plain_database_ids [of "length account_ops"] by (simp add: ids_left_def snapshot_def account_ops_def)
    with ops_recorded [OF _ _ plain_session_runs] s account_ops_allowed show ?thesis by (simp add: keeps_def)
  qed
  ultimately have "undo_inv nested_session"
    using start_session_correct by (fastforce simp: recording_def)
  then show ?thesis using merge_forgets_last_snapshot [OF _ act len] by blast
qed

text \<open>C32: with no session active, \<open>pop_commit\<close> (which \<open>pop_block\<close> and fork switching use)
  returns normally, brings back the state of the last committed session and removes it from the
  stack, under the same condition on unique keys.
  The invariant holds, and there is an undo state.\<close>

theorem pop_commit_restores_snapshot:
  assumes "undo_inv db" and "active_sessions db = 0" and "undo_stack db \<noteq> []"
    and "no_clash (shape db) (hd (saved db)) (snapshot db)"
  shows "\<exists>db'. pop_commit db = (Inr (), db') \<and> snapshot db' = hd (saved db) \<and> saved db' = tl (saved db) \<and>
    undo_inv db' \<and> \<not> disabled db'"
proof -
  obtain u us where u: "undo_stack db = u # us" using assms(3) by (cases "undo_stack db") auto
  let ?db0 = "undo_disable db"
  have same: "snapshot ?db0 = snapshot db" "shape ?db0 = shape db" "db_ok ?db0 = db_ok db"
    using indexes_cong [of ?db0 db] by (simp_all add: undo_disable_def)
  have hd: "hd (saved db) = rollback u (snapshot db)" by (simp add: saved_Cons [OF u])
  have ok: "db_ok db" and oku: "undo_state_ok (shape db) u (snapshot db)" using assms(1) by (simp_all add: undo_inv_Cons [OF u])
  obtain db1 where r: "restore_state u ?db0 = (Inr (), db1)" and d: "restored ?db0 (rollback u (snapshot db)) db1"
    using restore_state_correct [of ?db0 u] ok oku assms(4) same hd by (auto simp: undo_disable_def)
  note d' = d [unfolded restored_def same_undo_def]
  define db2 where "db2 = undo_enable (db1\<lparr>undo_stack := tl (undo_stack db1)\<rparr>)"
  have p: "pop_commit db = (Inr (), db2)"
    using assms(2) u r by (simp add: pop_commit_def db2_def)
  have stk: "undo_stack db2 = us" using d' u by (simp add: db2_def undo_enable_def undo_disable_def)
  have s2: "snapshot db2 = snapshot db1" "shape db2 = shape db1" "db_ok db2 = db_ok db1"
    using indexes_cong [of db2 db1] by (simp_all add: db2_def undo_enable_def)
  moreover have "undo_inv db2"
    using undo_inv_pop [OF assms(1) u, of db2] s2 d' same stk by auto
  moreover have "saved db2 = tl (saved db)"
    using s2 d' stk by (simp add: saved_def u)
  ultimately show ?thesis using p d' same hd by (auto simp: db2_def undo_enable_def)
qed

definition committed_database :: "nat object_database" where
  "committed_database = snd (snd (session_commit plain_session))"

lemma plain_session_inv:
  "undo_inv (snd plain_session)" "recording (snd plain_session)" "shape (snd plain_session) = shape plain_database"
  "hd (saved (snd plain_session)) = snapshot plain_database"
proof -
  let ?db = "snd (start_undo_session False plain_database)"
  have s: "undo_inv ?db \<and> snapshot ?db = snapshot plain_database \<and> shape ?db = shape plain_database \<and> recording ?db \<and>
      hd (saved ?db) = snapshot plain_database"
    using start_session_correct [OF plain_database_inv plain_session_start] plain_database_state by simp
  then have "ids_left (length account_ops) ?db"
    using plain_database_ids [of "length account_ops"] by (simp add: ids_left_def snapshot_def account_ops_def)
  with ops_recorded [OF _ _ plain_session_runs] s account_ops_allowed
  have "undo_inv (snd plain_session) \<and> keeps ?db (snd plain_session)" by simp
  with s show "undo_inv (snd plain_session)" "recording (snd plain_session)" "shape (snd plain_session) = shape plain_database"
    "hd (saved (snd plain_session)) = snapshot plain_database"
    by (simp_all add: keeps_def)
qed

theorem pop_commit_restores_snapshot_witness:
  "\<exists>db'. pop_commit committed_database = (Inr (), db') \<and> snapshot db' = snapshot plain_database"
proof -
  have act: "active_sessions committed_database = 0" and stk: "undo_stack committed_database \<noteq> []"
    by (code_simp, code_simp)
  have "active_sessions (snd plain_session) > 0" by code_simp
  then have c: "committed_database = (snd plain_session)\<lparr>active_sessions := active_sessions (snd plain_session) - 1\<rparr>"
    unfolding committed_database_def session_commit_def undo_commit_def
    by (simp add: case_prod_beta st_bind_def st_assert_def st_lift_def st_update_def)
  have ix: "indexes committed_database = indexes (snd plain_session)" unfolding c by simp
  have same: "snapshot committed_database = snapshot (snd plain_session)" "shape committed_database = shape plain_database"
    using indexes_cong [OF ix] plain_session_inv(3) by simp_all
  then have inv: "undo_inv committed_database"
    using plain_session_inv(1,3) indexes_cong [OF ix] by (simp add: undo_inv_def) (simp add: c)
  have "hd (saved committed_database) = snapshot plain_database"
    using plain_session_inv(4) same by (simp add: saved_def) (simp add: c)
  then show ?thesis
    using pop_commit_restores_snapshot [OF inv act stk] same plain_database_no_clash by auto
qed

text \<open>A session that is started while recording is disabled, and not forced, is armed like any
  other, yet nothing was pushed for it: undoing it fails its assertion, so letting it go out of
  scope throws from its destructor, and it leaves the database as it was.\<close>

theorem session_without_recording_cannot_undo:
  assumes "disabled db"
  shows "start_undo_session False db = (Inr \<lparr>apply_undo = True, disable_on_exit = False\<rparr>, db) \<and>
    session_undo (\<lparr>apply_undo = True, disable_on_exit = False\<rparr>, db) =
      (Inl Assert_Exception, (\<lparr>apply_undo = True, disable_on_exit = False\<rparr>, db)) \<and>
    session_end \<lparr>apply_undo = True, disable_on_exit = False\<rparr> db = (Inl Assert_Exception, db)"
  using assms
  by (simp add: start_undo_session_def session_undo_def session_end_def undo_def st_bind_def st_assert_def st_lift_def)

theorem session_without_recording_cannot_undo_witness:
  "session_end \<lparr>apply_undo = True, disable_on_exit = False\<rparr> (undo_disable plain_database) =
     (Inl Assert_Exception, undo_disable plain_database)"
  using session_without_recording_cannot_undo [of "undo_disable plain_database"] by (simp add: undo_disable_def)

section \<open>A unique key that moves\<close>






end
