(* ===== verification/Blocks.thy ===== *)
theory Blocks
  imports Object_Id
begin

text \<open>
  Blocks (\<open>libraries/chain/include/graphene/chain/protocol/block.hpp\<close> and
  \<open>libraries/chain/protocol/block.cpp\<close>): headers, the number hidden in a block identifier, and
  the Merkle root over the transactions.

  The hash functions and the byte reversal of the \<open>fc\<close> library are parameters: \<open>sha224\<close> maps a
  header to its seven words, \<open>reverse_u32\<close> reverses the bytes of a word.  Transactions are the
  type variable \<open>'tx\<close>.
\<close>

section \<open>Data\<close>

datatype hash160 = Hash160 (hash_word0: "32 word") "32 word" "32 word" "32 word" "32 word"

type_synonym block_id = hash160

definition zero_hash :: hash160 where
  "zero_hash = Hash160 0 0 0 0 0"

record block_header =
  previous :: block_id
  timestamp :: "32 word"
  miner :: object_id
  transaction_merkle_root :: hash160
  extensions :: "unit list"
  block_number :: "32 word"

record signed_block_header = block_header +
  miner_signature :: "8 word list"

record 'tx signed_block = signed_block_header +
  transactions :: "'tx list"

section \<open>The number in an identifier\<close>

definition num_from_id :: "(32 word \<Rightarrow> 32 word) \<Rightarrow> block_id \<Rightarrow> 32 word" where
  "num_from_id reverse_u32 bid = reverse_u32 (hash_word0 bid)"

definition block_num :: "(32 word \<Rightarrow> 32 word) \<Rightarrow> 'a block_header_scheme \<Rightarrow> 32 word" where
  "block_num reverse_u32 b = num_from_id reverse_u32 (previous b) + 1"

definition block_id_of ::
  "(32 word \<Rightarrow> 32 word) \<Rightarrow> (signed_block_header \<Rightarrow> 32 word list) \<Rightarrow> 'a signed_block_header_scheme \<Rightarrow> block_id" where
  \<comment> \<open>the first word of the hash becomes the number, then 20 of the 28 bytes are copied\<close>
  "block_id_of reverse_u32 sha224 b =
     (let tmp = (sha224 (signed_block_header.truncate b))[0 := reverse_u32 (block_num reverse_u32 b)]
      in Hash160 (tmp ! 0) (tmp ! 1) (tmp ! 2) (tmp ! 3) (tmp ! 4))"

definition validate_signee ::
  "(8 word list \<Rightarrow> 'd \<Rightarrow> 'key res) \<Rightarrow> (block_header \<Rightarrow> 'd) \<Rightarrow> 'key \<Rightarrow> 'a signed_block_header_scheme \<Rightarrow> bool res" where
  \<comment> \<open>\<open>recover\<close> is the public key constructor of \<open>fc::ecc\<close> from a compact signature and a digest\<close>
  "validate_signee recover digest expected b =
     res_bind (recover (miner_signature b) (digest (block_header.truncate b))) (\<lambda>k. Inr (k = expected))"

section \<open>The Merkle root\<close>

function merkle_pairs :: "('d \<times> 'd \<Rightarrow> 'd) \<Rightarrow> nat \<Rightarrow> nat \<Rightarrow> nat \<Rightarrow> 'd list \<Rightarrow> 'd list \<times> nat" where
  \<comment> \<open>\<open>for( i; i < i_max; i += 2 ) ids[k++] = hash( ids[i], ids[i+1] )\<close>\<close>
  "merkle_pairs hash2 i_max i k ids =
     (if i < i_max then merkle_pairs hash2 i_max (i + 2) (k + 1) (ids[k := hash2 (ids ! i, ids ! (i + 1))])
      else (ids, k))"
  by pat_completeness auto
termination by (relation "measure (\<lambda>(_, i_max, i, _, _). i_max - i)") auto

declare merkle_pairs.simps [simp del]

definition merkle_pass :: "('d \<times> 'd \<Rightarrow> 'd) \<Rightarrow> nat \<Rightarrow> 'd list \<Rightarrow> 'd list \<times> nat" where
  "merkle_pass hash2 n ids =
     (let i_max = n - n mod 2;
          (ids1, k) = merkle_pairs hash2 i_max 0 0 ids
      in if n mod 2 \<noteq> 0 then (ids1[k := ids1 ! i_max], k + 1) else (ids1, k))"

lemma merkle_pairs_step:
  "i < m \<Longrightarrow> merkle_pairs hash2 m i k ids =
     merkle_pairs hash2 m (i + 2) (k + 1) (ids[k := hash2 (ids ! i, ids ! (i + 1))])"
  "\<not> i < m \<Longrightarrow> merkle_pairs hash2 m i k ids = (ids, k)"
  by (simp_all add: merkle_pairs.simps [of hash2 m i])

lemma merkle_pairs_count: "snd (merkle_pairs hash2 m i k ids) = k + (m - i + 1) div 2"
proof (induction hash2 m i k ids rule: merkle_pairs.induct)
  case (1 hash2 m i k ids)
  show ?case
  proof (cases "i < m")
    case True
    then have "k + 1 + (m - (i + 2) + 1) div 2 = k + (m - i + 1) div 2" by presburger
    with "1.IH" [OF True] show ?thesis by (simp only: merkle_pairs_step(1) [OF True])
  qed (simp add: merkle_pairs_step)
qed

lemma merkle_pass_count: "snd (merkle_pass hash2 n ids) = (n + 1) div 2"
proof -
  obtain ids1 k where p: "merkle_pairs hash2 (n - n mod 2) 0 0 ids = (ids1, k)" by (cases "merkle_pairs hash2 (n - n mod 2) 0 0 ids")
  then have "k = (n - n mod 2 + 1) div 2" using merkle_pairs_count [of hash2 "n - n mod 2" 0 0 ids] by simp
  then show ?thesis using p by (cases "even n") (auto simp: merkle_pass_def elim!: evenE oddE)
qed

function merkle_loop :: "('d \<times> 'd \<Rightarrow> 'd) \<Rightarrow> nat \<Rightarrow> 'd list \<Rightarrow> 'd list" where
  "merkle_loop hash2 n ids =
     (if n > 1 then merkle_loop hash2 (snd (merkle_pass hash2 n ids)) (fst (merkle_pass hash2 n ids)) else ids)"
  by pat_completeness auto
termination
  by (relation "measure (\<lambda>(_, n, _). n)") (auto simp: merkle_pass_count)

declare merkle_loop.simps [simp del]

definition calculate_merkle_root ::
  "('tx \<Rightarrow> 'd) \<Rightarrow> ('d \<times> 'd \<Rightarrow> 'd) \<Rightarrow> ('d \<Rightarrow> hash160) \<Rightarrow> ('tx, 'a) signed_block_scheme \<Rightarrow> hash160" where
  "calculate_merkle_root merkle_digest hash2 checksum b =
     (if length (transactions b) = 0 then zero_hash
      else let ids = map merkle_digest (transactions b)
           in checksum (merkle_loop hash2 (length ids) ids ! 0))"

section \<open>The tree it computes\<close>

fun pair_up :: "('d \<times> 'd \<Rightarrow> 'd) \<Rightarrow> 'd list \<Rightarrow> 'd list" where
  "pair_up hash2 (a # b # xs) = hash2 (a, b) # pair_up hash2 xs"
| "pair_up hash2 xs = xs"

lemma length_pair_up: "length (pair_up hash2 xs) = (length xs + 1) div 2"
  by (induction hash2 xs rule: pair_up.induct) auto

function tree_root :: "('d \<times> 'd \<Rightarrow> 'd) \<Rightarrow> 'd list \<Rightarrow> 'd" where
  "tree_root hash2 xs = (if length xs > 1 then tree_root hash2 (pair_up hash2 xs) else xs ! 0)"
  by pat_completeness auto
termination by (relation "measure (\<lambda>(_, xs). length xs)") (auto simp: length_pair_up)

declare tree_root.simps [simp del]

lemma pair_up_append: "even (length xs) \<Longrightarrow> pair_up hash2 (xs @ ys) = pair_up hash2 xs @ pair_up hash2 ys"
  by (induction hash2 xs rule: pair_up.induct) auto

lemma merkle_pairs_result:
  assumes "even m" and "even i" and "k = i div 2" and "i \<le> m" and "m \<le> length ids"
    and "take k ids = pair_up hash2 (take i xs)" and "drop i ids = drop i xs" and "length xs = length ids"
  shows "take (m div 2) (fst (merkle_pairs hash2 m i k ids)) = pair_up hash2 (take m xs) \<and>
    drop m (fst (merkle_pairs hash2 m i k ids)) = drop m xs \<and> length (fst (merkle_pairs hash2 m i k ids)) = length xs"
  using assms
proof (induction hash2 m i k ids rule: merkle_pairs.induct)
  case (1 hash2 m i k ids)
  show ?case
  proof (cases "i < m")
    case False
    with "1.prems" have "i = m" by simp
    with "1.prems" show ?thesis by (simp add: merkle_pairs.simps [of hash2 m m])
  next
    case True
    with "1.prems"(1,2) have im: "i + 2 \<le> m" by presburger
    let ?ids = "ids[k := hash2 (ids ! i, ids ! (i + 1))]"
    have k: "k < length ids" "k \<le> i" using "1.prems"(3,5) True by auto
    have nth: "ids ! i = xs ! i" "ids ! (i + 1) = xs ! (i + 1)"
      using im "1.prems"(5,7,8) nth_drop [of i ids 0] nth_drop [of i xs 0] nth_drop [of i ids 1] nth_drop [of i xs 1] by auto
    have xs2: "take (i + 2) xs = take i xs @ [xs ! i, xs ! (i + 1)]"
      using im "1.prems"(5,8) by (simp add: take_Suc_conv_app_nth numeral_2_eq_2)
    have "take (k + 1) ?ids = take k ids @ [hash2 (xs ! i, xs ! (i + 1))]"
      using k nth by (simp add: take_Suc_conv_app_nth)
    also have "\<dots> = pair_up hash2 (take i xs @ [xs ! i, xs ! (i + 1)])"
      using "1.prems"(2,5,6,8) im by (simp add: pair_up_append)
    also have "\<dots> = pair_up hash2 (take (i + 2) xs)" by (simp only: xs2)
    finally have t: "take (k + 1) ?ids = pair_up hash2 (take (i + 2) xs)" .
    have "drop (i + 2) ?ids = drop (i + 2) ids" using k by simp
    also have "\<dots> = drop 2 (drop i ids)" by (simp add: add.commute)
    also have "\<dots> = drop (i + 2) xs" by (simp add: "1.prems"(7) add.commute)
    finally have d: "drop (i + 2) ?ids = drop (i + 2) xs" .
    from "1.IH" [OF True "1.prems"(1) _ _ im] "1.prems"(2,3,5,8) t d
    show ?thesis using True by (simp add: merkle_pairs.simps [of hash2 m i])
  qed
qed

lemma pair_up_single [simp]: "length xs \<le> 1 \<Longrightarrow> pair_up hash2 xs = xs"
  by (cases xs; cases "tl xs") auto

lemma merkle_pass_result:
  assumes "n \<le> length ids"
  shows "take ((n + 1) div 2) (fst (merkle_pass hash2 n ids)) = pair_up hash2 (take n ids)"
    and "length (fst (merkle_pass hash2 n ids)) = length ids"
proof -
  let ?m = "n - n mod 2"
  have m: "even ?m" "?m \<le> n" by auto
  obtain ids1 k where p: "merkle_pairs hash2 ?m 0 0 ids = (ids1, k)" by (cases "merkle_pairs hash2 ?m 0 0 ids")
  have k: "k = (?m + 1) div 2" using merkle_pairs_count [of hash2 ?m 0 0 ids] p by simp
  then have k': "k = n div 2" by (cases "even n") (auto elim!: evenE oddE)
  have r: "take (?m div 2) ids1 = pair_up hash2 (take ?m ids)" "drop ?m ids1 = drop ?m ids" "length ids1 = length ids"
    using merkle_pairs_result [of ?m 0 0 ids hash2 ids] m assms p by auto
  have mk: "?m div 2 = k" using k' by (cases "even n") (auto elim!: evenE oddE)
  show "length (fst (merkle_pass hash2 n ids)) = length ids"
    using p r(3) by (auto simp: merkle_pass_def)
  show "take ((n + 1) div 2) (fst (merkle_pass hash2 n ids)) = pair_up hash2 (take n ids)"
  proof (cases "even n")
    case True
    then show ?thesis using p r(1) k' by (simp add: merkle_pass_def)
  next
    case False
    then have odd: "n mod 2 = 1" and sm: "n = Suc ?m" by presburger+
    have lt: "?m < length ids" using sm assms by linarith
    have "ids1 ! ?m = ids ! ?m"
      using r(2,3) lt nth_drop [of ?m ids1 0] nth_drop [of ?m ids 0] by simp
    moreover have "k < length ids1" using k' r(3) lt sm by linarith
    moreover have "(n + 1) div 2 = Suc k" using k' odd by presburger
    ultimately have "take ((n + 1) div 2) (fst (merkle_pass hash2 n ids)) = take k ids1 @ [ids ! ?m]"
      using p odd by (simp add: merkle_pass_def take_Suc_conv_app_nth)
    also have "\<dots> = pair_up hash2 (take ?m ids) @ pair_up hash2 [ids ! ?m]" using r(1) mk by simp
    also have "\<dots> = pair_up hash2 (take ?m ids @ [ids ! ?m])"
      using m(1) lt by (subst pair_up_append) auto
    also have "take ?m ids @ [ids ! ?m] = take n ids"
      using lt sm take_Suc_conv_app_nth [of ?m ids] by metis
    finally show ?thesis .
  qed
qed

lemma merkle_loop_result:
  assumes "0 < n" and "n \<le> length ids"
  shows "merkle_loop hash2 n ids ! 0 = tree_root hash2 (take n ids)"
  using assms
proof (induction hash2 n ids rule: merkle_loop.induct)
  case (1 hash2 n ids)
  show ?case
  proof (cases "n > 1")
    case False
    with "1.prems" show ?thesis by (simp add: merkle_loop.simps [of hash2 n] tree_root.simps [of hash2 "take n ids"])
  next
    case True
    note p = merkle_pass_result [OF "1.prems"(2), of hash2]
    have "merkle_loop hash2 n ids ! 0 = tree_root hash2 (take ((n + 1) div 2) (fst (merkle_pass hash2 n ids)))"
      using True "1.IH" [OF True] "1.prems" p(2) by (simp add: merkle_loop.simps [of hash2 n] merkle_pass_count)
    also have "\<dots> = tree_root hash2 (pair_up hash2 (take n ids))" using p(1) by simp
    also have "\<dots> = tree_root hash2 (take n ids)"
      using True "1.prems" by (simp add: tree_root.simps [of hash2 "take n ids"])
    finally show ?thesis .
  qed
qed

definition collision :: "('a \<Rightarrow> 'b) \<Rightarrow> bool" where
  "collision h \<longleftrightarrow> (\<exists>p q. p \<noteq> q \<and> h p = h q)"

lemma pair_up_collision:
  "length xs = length ys \<Longrightarrow> pair_up hash2 xs = pair_up hash2 ys \<Longrightarrow> xs \<noteq> ys \<Longrightarrow> collision hash2"
proof (induction hash2 xs arbitrary: ys rule: pair_up.induct)
  case (1 hash2 a b xs)
  then obtain c d zs where ys: "ys = c # d # zs" by (cases ys; cases "tl ys") auto
  show ?case
  proof (cases "(a, b) = (c, d)")
    case True
    with 1 ys show ?thesis by auto
  next
    case False
    with 1(3) ys show ?thesis unfolding collision_def by (intro exI [of _ "(a, b)"] exI [of _ "(c, d)"]) auto
  qed
qed (auto simp: length_Suc_conv)

lemma tree_root_collision:
  "length xs = length ys \<Longrightarrow> 0 < length xs \<Longrightarrow> tree_root hash2 xs = tree_root hash2 ys \<Longrightarrow> xs \<noteq> ys \<Longrightarrow> collision hash2"
proof (induction hash2 xs arbitrary: ys rule: tree_root.induct)
  case (1 hash2 xs)
  show ?case
  proof (cases "length xs > 1")
    case False
    with "1.prems"(1,2) obtain a c where "xs = [a]" "ys = [c]" by (cases xs; cases ys) auto
    with "1.prems"(3) have "xs = ys"
      by (simp add: tree_root.simps [of hash2 "[a]"] tree_root.simps [of hash2 "[c]"])
    with "1.prems" show ?thesis by simp
  next
    case True
    with "1.prems" have e: "tree_root hash2 (pair_up hash2 xs) = tree_root hash2 (pair_up hash2 ys)"
      by (simp add: tree_root.simps [of hash2 xs] tree_root.simps [of hash2 ys])
    show ?thesis
    proof (cases "pair_up hash2 xs = pair_up hash2 ys")
      case True
      then show ?thesis using pair_up_collision "1.prems" by blast
    next
      case False
      then show ?thesis using "1.IH" [OF True _ _ e False] "1.prems" by (simp add: length_pair_up)
    qed
  qed
qed

lemma merkle_root_tree:
  "calculate_merkle_root digest hash2 checksum b =
     (if transactions b = [] then zero_hash else checksum (tree_root hash2 (map digest (transactions b))))"
  using merkle_loop_result [of "length (transactions b)" "map digest (transactions b)" hash2]
  by (auto simp: calculate_merkle_root_def Let_def)

section \<open>Properties\<close>

text \<open>C35: the in-place loop over the vector of digests computes the root of the binary hash tree in
  which neighbours are hashed in pairs and an odd last digest moves up unchanged; a block without
  transactions has the zero root.\<close>

theorem merkle_root_is_tree_root:
  "calculate_merkle_root digest hash2 checksum b =
     (if transactions b = [] then zero_hash else checksum (tree_root hash2 (map digest (transactions b))))"
  by (rule merkle_root_tree)

text \<open>C36: the root commits to the transactions: two blocks with equally many transactions, the same
  root and different transaction digests exhibit a collision of one of the two hash functions.\<close>

theorem merkle_root_commits:
  assumes "length (transactions b) = length (transactions c)"
    and "calculate_merkle_root digest hash2 checksum b = calculate_merkle_root digest hash2 checksum c"
    and "map digest (transactions b) \<noteq> map digest (transactions c)"
  shows "collision hash2 \<or> collision checksum"
proof -
  let ?r = "\<lambda>b. tree_root hash2 (map digest (transactions b))"
  have ne: "transactions b \<noteq> []" "transactions c \<noteq> []" using assms(1,3) by auto
  then have e: "checksum (?r b) = checksum (?r c)" using assms(2) by (simp add: merkle_root_tree)
  show ?thesis
  proof (cases "?r b = ?r c")
    case True
    then show ?thesis
      using tree_root_collision [of "map digest (transactions b)" "map digest (transactions c)" hash2] assms(1,3) ne by auto
  next
    case False
    with e show ?thesis by (auto simp: collision_def)
  qed
qed

definition plain_block :: "nat list \<Rightarrow> nat signed_block" where
  "plain_block txs = \<lparr>previous = Hash160 7 1 2 3 4, timestamp = 0, miner = Object_Id 0, transaction_merkle_root = zero_hash,
     extensions = [], block_number = 0, miner_signature = [], transactions = txs\<rparr>"

theorem merkle_root_commits_witness:
  "collision (\<lambda>(a, b). a + b :: nat) \<or> collision (\<lambda>d :: nat. zero_hash)"
  by (rule merkle_root_commits [where digest = "\<lambda>n. n" and b = "plain_block [1, 2, 3]" and c = "plain_block [3, 2, 1]"])
    (simp_all add: plain_block_def calculate_merkle_root_def)

text \<open>A block's identifier carries its number, for every hash of at least 160 bits and every
  byte reversal that is its own inverse; so a block that names another as its predecessor has the
  next number.\<close>

theorem block_id_carries_number:
  assumes "\<And>w. reverse_u32 (reverse_u32 w) = w" and "\<And>h. 5 \<le> length (sha224 h)"
  shows "num_from_id reverse_u32 (block_id_of reverse_u32 sha224 b) = block_num reverse_u32 b \<and>
    (previous c = block_id_of reverse_u32 sha224 b \<longrightarrow> block_num reverse_u32 c = block_num reverse_u32 b + 1)"
proof -
  have "0 < length (sha224 (signed_block_header.truncate b))"
    using assms(2) [of "signed_block_header.truncate b"] by linarith
  then have "num_from_id reverse_u32 (block_id_of reverse_u32 sha224 b) = block_num reverse_u32 b"
    using assms(1) by (simp add: num_from_id_def block_id_of_def Let_def)
  then show ?thesis by (auto simp: block_num_def)
qed

theorem block_id_carries_number_witness:
  "num_from_id (\<lambda>w. w) (block_id_of (\<lambda>w. w) (\<lambda>_. replicate 7 0) (plain_block [])) = 8"
  using block_id_carries_number [of "\<lambda>w. w" "\<lambda>_. replicate 7 0" "plain_block []" "plain_block []"]
  by (simp add: block_num_def num_from_id_def plain_block_def)

end
