(* ===== verification/Block_Database.thy ===== *)
theory Block_Database
  imports Blocks Object_Index
begin

text \<open>
  The block database (\<open>libraries/chain/block_database.cpp\<close>): an index file of fixed-size entries,
  one per block number, that point into a file of packed blocks.  A file of entries is a list of
  entries (an entry takes 32 bytes, so entry \<open>n\<close> starts at byte \<open>32 * n\<close>); writing behind the end
  of a file fills the gap with zero bytes, which read back as \<open>zero_entry\<close>.

  Packing, unpacking and the identifier of a block are parameters, collected in a
  \<open>block_codec\<close>.  Failures of the disk are not modelled; reading behind the end of a file is.
\<close>

record 'b block_codec =
  id_of :: "'b \<Rightarrow> block_id"
  num_of :: "block_id \<Rightarrow> 32 word"
  pack :: "'b \<Rightarrow> 8 word list"
  unpack :: "8 word list \<Rightarrow> 'b res"

record index_entry =
  block_pos :: "64 word"
  block_size :: "32 word"
  entry_id :: block_id

definition zero_entry :: index_entry where
  "zero_entry = \<lparr>block_pos = 0, block_size = 0, entry_id = zero_hash\<rparr>"

record block_database =
  block_num_to_pos :: "index_entry list"
  blocks :: "8 word list"

section \<open>Operations\<close>

definition bdb_store :: "'b block_codec \<Rightarrow> block_id \<Rightarrow> 'b \<Rightarrow> block_database \<Rightarrow> block_database" where
  "bdb_store cdc ident b db =
     (let i = (if ident = zero_hash then id_of cdc b else ident);
          num = unat (num_of cdc i);
          vec = pack cdc b;
          e = \<lparr>block_pos = of_nat (length (blocks db)), block_size = of_nat (length vec), entry_id = i\<rparr>
      in db\<lparr>blocks := blocks db @ vec,
            block_num_to_pos := (grow zero_entry num (block_num_to_pos db))[num := e]\<rparr>)"

definition bdb_remove :: "'b block_codec \<Rightarrow> block_id \<Rightarrow> (block_database, unit) st" where
  "bdb_remove cdc ident db =
     (let index_pos = unat (num_of cdc ident)
      in if length (block_num_to_pos db) \<le> index_pos then (Inl Key_Not_Found, db)
         else let e = block_num_to_pos db ! index_pos
              in if entry_id e = ident
                 then (Inr (), db\<lparr>block_num_to_pos := (block_num_to_pos db)[index_pos := e\<lparr>block_size := 0\<rparr>]\<rparr>)
                 else (Inr (), db))"

definition bdb_contains :: "'b block_codec \<Rightarrow> block_id \<Rightarrow> block_database \<Rightarrow> bool" where
  "bdb_contains cdc ident db =
     (if ident = zero_hash then False
      else let index_pos = unat (num_of cdc ident)
           in if length (block_num_to_pos db) \<le> index_pos then False
              else let e = block_num_to_pos db ! index_pos in entry_id e = ident \<and> block_size e > 0)"

definition bdb_fetch_block_id :: "32 word \<Rightarrow> block_database \<Rightarrow> block_id res" where
  "bdb_fetch_block_id n db =
     (if length (block_num_to_pos db) \<le> unat n then Inl Key_Not_Found
      else let e = block_num_to_pos db ! unat n
           in res_bind (fc_assert (entry_id e \<noteq> zero_hash)) (\<lambda>_. Inr (entry_id e)))"

definition read_block :: "index_entry \<Rightarrow> block_database \<Rightarrow> 8 word list res" where
  \<comment> \<open>\<open>seekg\<close> and \<open>read\<close>, which throws when the file is too short\<close>
  "read_block e db =
     (if block_size e = 0 then Inr []
      else if unat (block_pos e) + unat (block_size e) \<le> length (blocks db)
      then Inr (take (unat (block_size e)) (drop (unat (block_pos e)) (blocks db)))
      else Inl Out_Of_Range)"

definition caught :: "'a res \<Rightarrow> 'a option" where
  \<comment> \<open>the two handlers that turn every exception into an empty optional\<close>
  "caught r = (case r of Inl _ \<Rightarrow> None | Inr x \<Rightarrow> Some x)"

definition bdb_fetch_optional :: "'b block_codec \<Rightarrow> block_id \<Rightarrow> block_database \<Rightarrow> 'b option" where
  "bdb_fetch_optional cdc ident db =
     (let index_pos = unat (num_of cdc ident)
      in if length (block_num_to_pos db) \<le> index_pos then None
         else let e = block_num_to_pos db ! index_pos
              in if entry_id e \<noteq> ident then None
                 else caught (res_bind (read_block e db) (\<lambda>data.
                        res_bind (unpack cdc data) (\<lambda>result.
                        res_bind (fc_assert (id_of cdc result = entry_id e)) (\<lambda>_. Inr result)))))"

definition bdb_fetch_by_number :: "'b block_codec \<Rightarrow> 32 word \<Rightarrow> block_database \<Rightarrow> 'b option" where
  "bdb_fetch_by_number cdc n db =
     (if length (block_num_to_pos db) \<le> unat n then None
      else let e = block_num_to_pos db ! unat n
           in caught (res_bind (read_block e db) (\<lambda>data.
                res_bind (unpack cdc data) (\<lambda>result.
                res_bind (fc_assert (id_of cdc result = entry_id e)) (\<lambda>_. Inr result)))))"

fun last_entry :: "index_entry list \<Rightarrow> index_entry \<Rightarrow> nat \<Rightarrow> index_entry" where
  \<comment> \<open>\<open>while( e.block_size == 0 && pos > 0 )\<close>, positions counted in entries\<close>
  "last_entry es e pos =
     (if block_size e = 0 \<and> pos > 0 then last_entry es (es ! (pos - 1)) (pos - 1) else e)"

declare last_entry.simps [simp del]

definition bdb_last :: "'b block_codec \<Rightarrow> block_database \<Rightarrow> 'b option" where
  "bdb_last cdc db =
     (let es = block_num_to_pos db
      in if length es < 1 then None
         else let e = last_entry es (es ! (length es - 1)) (length es)
              in if block_size e = 0 then None
                 else caught (res_bind (read_block e db) (unpack cdc)))"

definition bdb_last_id :: "block_database \<Rightarrow> block_id option" where
  "bdb_last_id db =
     (let es = block_num_to_pos db
      in if length es < 1 then None
         else let e = last_entry es (es ! (length es - 1)) (length es)
              in if block_size e = 0 then None else Some (entry_id e))"

section \<open>The specification: a partial map from numbers to blocks\<close>

definition codec_ok :: "'b block_codec \<Rightarrow> bool" where
  \<comment> \<open>packing can be undone, and no block packs to nothing\<close>
  "codec_ok cdc \<longleftrightarrow> (\<forall>b. unpack cdc (pack cdc b) = Inr b \<and> pack cdc b \<noteq> []) \<and> (\<exists>e. unpack cdc [] = Inl e)"

definition entry_ok :: "'b block_codec \<Rightarrow> 8 word list \<Rightarrow> nat \<Rightarrow> index_entry \<Rightarrow> bool" where
  "entry_ok cdc bs n e \<longleftrightarrow> block_size e = 0 \<or>
     (\<exists>b. unat (block_pos e) + unat (block_size e) \<le> length bs \<and>
        take (unat (block_size e)) (drop (unat (block_pos e)) bs) = pack cdc b \<and>
        id_of cdc b = entry_id e \<and> unat (num_of cdc (entry_id e)) = n)"

definition bdb_ok :: "'b block_codec \<Rightarrow> block_database \<Rightarrow> bool" where
  "bdb_ok cdc db \<longleftrightarrow> (\<forall>n < length (block_num_to_pos db). entry_ok cdc (blocks db) n (block_num_to_pos db ! n))"

definition fits :: "'b block_codec \<Rightarrow> 'b \<Rightarrow> block_database \<Rightarrow> bool" where
  \<comment> \<open>the sizes fit in the fields of an entry\<close>
  "fits cdc b db \<longleftrightarrow> length (blocks db) < 2 ^ 64 \<and> length (pack cdc b) < 2 ^ 32"

lemma entry_ok_append: "entry_ok cdc bs n e \<Longrightarrow> entry_ok cdc (bs @ bs') n e"
  unfolding entry_ok_def by (elim disjE) auto

lemma entry_ok_zero [simp]: "entry_ok cdc bs n zero_entry"
  by (simp add: entry_ok_def zero_entry_def)

lemma nth_grow_default: "n < length (grow d m xs) \<Longrightarrow> grow d m xs ! n = (if n < length xs then xs ! n else d)"
  by (simp add: nth_grow nth_grow_new)

lemma length_grow_eq: "length (grow d m xs) = max (length xs) (m + 1)"
  by (auto simp: grow_def resize_def)

lemma read_block_append:
  "entry_ok cdc (blocks db) n e \<Longrightarrow> blocks db' = blocks db @ v \<Longrightarrow> read_block e db' = read_block e db"
  unfolding entry_ok_def read_block_def by (elim disjE) auto

lemma read_block_ok:
  assumes "codec_ok cdc" and "entry_ok cdc (blocks db) n e" and "block_size e \<noteq> 0"
  obtains b where "read_block e db = Inr (pack cdc b)" and "unpack cdc (pack cdc b) = Inr b"
    and "id_of cdc b = entry_id e" and "unat (num_of cdc (entry_id e)) = n"
  using assms unfolding entry_ok_def codec_ok_def read_block_def by auto

lemma fetch_hole:
  "codec_ok cdc \<Longrightarrow> block_size e = 0 \<Longrightarrow> caught (res_bind (read_block e db) (\<lambda>data. res_bind (unpack cdc data) f)) = None"
  by (auto simp: codec_ok_def read_block_def caught_def)

lemma unat_of_nat_lt: "n < 2 ^ LENGTH('a::len) \<Longrightarrow> unat (of_nat n :: 'a word) = n"
  by (simp add: unat_of_nat)

lemma new_entry_read:
  assumes "codec_ok cdc" and "fits cdc b db" and "blocks db' = blocks db @ pack cdc b"
    and e: "e = \<lparr>block_pos = of_nat (length (blocks db)), block_size = of_nat (length (pack cdc b)), entry_id = i\<rparr>"
  shows "block_size e \<noteq> 0" and "read_block e db' = Inr (pack cdc b)"
    and "i = id_of cdc b \<Longrightarrow> entry_ok cdc (blocks db') (unat (num_of cdc i)) e"
proof -
  have l: "unat (of_nat (length (blocks db)) :: 64 word) = length (blocks db)"
    "unat (of_nat (length (pack cdc b)) :: 32 word) = length (pack cdc b)"
    using assms(2) by (auto simp: fits_def intro!: unat_of_nat_lt)
  have "pack cdc b \<noteq> []" using assms(1) by (auto simp: codec_ok_def)
  then have nz: "(of_nat (length (pack cdc b)) :: 32 word) \<noteq> 0"
    using l(2) by (metis length_greater_0_conv less_not_refl unat_0)
  then show "block_size e \<noteq> 0" by (simp add: e)
  show "read_block e db' = Inr (pack cdc b)"
    using nz l by (simp add: read_block_def e assms(3))
  show "i = id_of cdc b \<Longrightarrow> entry_ok cdc (blocks db') (unat (num_of cdc i)) e"
    using l by (auto simp: entry_ok_def e assms(3))
qed

lemma bdb_store_ok:
  assumes "codec_ok cdc" and "bdb_ok cdc db" and "fits cdc b db" and "i = id_of cdc b \<or> i = zero_hash"
  shows "bdb_ok cdc (bdb_store cdc i b db)"
proof -
  have i: "(if i = zero_hash then id_of cdc b else i) = id_of cdc b" using assms(4) by auto
  show ?thesis
    unfolding bdb_ok_def
  proof (intro allI impI)
    fix n assume n: "n < length (block_num_to_pos (bdb_store cdc i b db))"
    let ?k = "unat (num_of cdc (id_of cdc b))"
    show "entry_ok cdc (blocks (bdb_store cdc i b db)) n (block_num_to_pos (bdb_store cdc i b db) ! n)"
    proof (cases "n = ?k")
      case True
      let ?db = "bdb_store cdc i b db"
      have "blocks ?db = blocks db @ pack cdc b" by (simp add: bdb_store_def Let_def i)
      from new_entry_read(3) [OF assms(1,3) this refl refl] True n show ?thesis
        by (simp add: bdb_store_def Let_def i length_grow_eq)
    next
      case False
      with n assms(2) show ?thesis
        by (simp add: bdb_store_def Let_def i nth_grow_default bdb_ok_def entry_ok_append)
    qed
  qed
qed

definition new_entry :: "'b block_codec \<Rightarrow> 'b \<Rightarrow> block_database \<Rightarrow> index_entry" where
  "new_entry cdc b db =
     \<lparr>block_pos = of_nat (length (blocks db)), block_size = of_nat (length (pack cdc b)), entry_id = id_of cdc b\<rparr>"

lemma store_entries:
  assumes "i = id_of cdc b \<or> i = zero_hash" and "k = unat (num_of cdc (id_of cdc b))"
  shows "bdb_store cdc i b db = db\<lparr>blocks := blocks db @ pack cdc b,
    block_num_to_pos := (grow zero_entry k (block_num_to_pos db))[k := new_entry cdc b db]\<rparr>"
proof -
  have i: "(if i = zero_hash then id_of cdc b else i) = id_of cdc b" using assms(1) by auto
  show ?thesis by (simp add: bdb_store_def Let_def i new_entry_def assms(2))
qed

definition decode_entry :: "'b block_codec \<Rightarrow> index_entry \<Rightarrow> block_database \<Rightarrow> 'b option" where
  "decode_entry cdc e db = caught (res_bind (read_block e db) (\<lambda>data.
     res_bind (unpack cdc data) (\<lambda>result.
     res_bind (fc_assert (id_of cdc result = entry_id e)) (\<lambda>_. Inr result))))"

lemma fetch_by_number_decode:
  "bdb_fetch_by_number cdc n db =
     (if unat n < length (block_num_to_pos db) then decode_entry cdc (block_num_to_pos db ! unat n) db else None)"
  by (simp add: bdb_fetch_by_number_def decode_entry_def Let_def not_less)

lemma fetch_optional_decode:
  "bdb_fetch_optional cdc i db =
     (if unat (num_of cdc i) < length (block_num_to_pos db) \<and> entry_id (block_num_to_pos db ! unat (num_of cdc i)) = i
      then decode_entry cdc (block_num_to_pos db ! unat (num_of cdc i)) db else None)"
  by (auto simp: bdb_fetch_optional_def decode_entry_def Let_def not_less)

lemma decode_Some:
  assumes "codec_ok cdc" and "entry_ok cdc (blocks db) n e" and "block_size e \<noteq> 0"
  obtains b where "decode_entry cdc e db = Some b" and "id_of cdc b = entry_id e" and "read_block e db = Inr (pack cdc b)"
    and "unat (num_of cdc (entry_id e)) = n"
proof -
  obtain b where "read_block e db = Inr (pack cdc b)" and "unpack cdc (pack cdc b) = Inr b"
    and "id_of cdc b = entry_id e" and "unat (num_of cdc (entry_id e)) = n"
    using read_block_ok [OF assms] by blast
  then show thesis using that [of b] by (simp add: decode_entry_def caught_def)
qed

lemma decode_hole: "codec_ok cdc \<Longrightarrow> block_size e = 0 \<Longrightarrow> decode_entry cdc e db = None"
  unfolding decode_entry_def by (rule fetch_hole)

lemma decode_zero: "codec_ok cdc \<Longrightarrow> decode_entry cdc zero_entry db = None"
  by (rule decode_hole) (simp_all add: zero_entry_def)

lemma fetch_optional_by_number:
  assumes "codec_ok cdc" and "bdb_ok cdc db"
  shows "bdb_fetch_optional cdc i db = Some b \<longleftrightarrow> bdb_fetch_by_number cdc (num_of cdc i) db = Some b \<and> id_of cdc b = i"
proof (cases "unat (num_of cdc i) < length (block_num_to_pos db)")
  case True
  let ?e = "block_num_to_pos db ! unat (num_of cdc i)"
  have ok: "entry_ok cdc (blocks db) (unat (num_of cdc i)) ?e" using assms(2) True by (simp add: bdb_ok_def)
  show ?thesis
  proof (cases "block_size ?e = 0")
    case True
    then show ?thesis using decode_hole [OF assms(1)] by (simp add: fetch_optional_decode fetch_by_number_decode)
  next
    case False
    from decode_Some [OF assms(1) ok False] obtain b' where "decode_entry cdc ?e db = Some b'" "id_of cdc b' = entry_id ?e"
      by metis
    with True show ?thesis by (auto simp: fetch_optional_decode fetch_by_number_decode)
  qed
qed (simp add: fetch_optional_decode fetch_by_number_decode)

lemma fetch_by_number_after_store:
  assumes cdc: "codec_ok cdc" and ok: "bdb_ok cdc db" and fit: "fits cdc b db" and i: "i = id_of cdc b \<or> i = zero_hash"
  shows "bdb_fetch_by_number cdc n (bdb_store cdc i b db) =
    (if n = num_of cdc (id_of cdc b) then Some b else bdb_fetch_by_number cdc n db)"
proof -
  define k where "k = unat (num_of cdc (id_of cdc b))"
  note st = store_entries [OF i k_def, of db]
  let ?es = "block_num_to_pos db" and ?e = "new_entry cdc b db" and ?db = "bdb_store cdc i b db"
  have nk: "n = num_of cdc (id_of cdc b) \<longleftrightarrow> unat n = k" by (auto simp: k_def intro: unsigned_word_eqI)
  have len: "length (block_num_to_pos ?db) = max (length ?es) (k + 1)" by (simp add: st length_grow_eq)
  have new: "decode_entry cdc ?e ?db = Some b"
  proof -
    have "blocks ?db = blocks db @ pack cdc b" by (simp add: st)
    from new_entry_read(2) [OF cdc fit this refl, of "id_of cdc b"] cdc show ?thesis
      by (simp add: decode_entry_def new_entry_def codec_ok_def caught_def)
  qed
  have old: "decode_entry cdc (?es ! m) ?db = decode_entry cdc (?es ! m) db" if "m < length ?es" for m
  proof -
    have "entry_ok cdc (blocks db) m (?es ! m)" using that ok by (simp add: bdb_ok_def)
    from read_block_append [OF this, of ?db "pack cdc b"] have "read_block (?es ! m) ?db = read_block (?es ! m) db"
      by (simp add: st)
    then show ?thesis by (simp add: decode_entry_def)
  qed
  show ?thesis
  proof (cases "unat n = k")
    case True
    then show ?thesis using new nk by (simp add: fetch_by_number_decode len) (simp add: st length_grow_eq)
  next
    case False
    have "decode_entry cdc (block_num_to_pos ?db ! unat n) ?db =
        (if unat n < length ?es then decode_entry cdc (?es ! unat n) db else None)"
      if "unat n < length (block_num_to_pos ?db)"
    proof -
      have "block_num_to_pos ?db ! unat n = (if unat n < length ?es then ?es ! unat n else zero_entry)"
        using that False by (simp add: st nth_grow_default length_grow_eq)
      with old decode_zero [OF cdc] show ?thesis by simp
    qed
    with False nk show ?thesis by (auto simp: fetch_by_number_decode len)
  qed
qed

lemma contains_iff_fetch:
  assumes "codec_ok cdc" and "bdb_ok cdc db"
  shows "bdb_contains cdc i db \<longleftrightarrow> i \<noteq> zero_hash \<and> (\<exists>b. bdb_fetch_optional cdc i db = Some b)"
proof (cases "unat (num_of cdc i) < length (block_num_to_pos db)")
  case True
  let ?e = "block_num_to_pos db ! unat (num_of cdc i)"
  have ok: "entry_ok cdc (blocks db) (unat (num_of cdc i)) ?e" using assms(2) True by (simp add: bdb_ok_def)
  show ?thesis
  proof (cases "block_size ?e = 0")
    case True
    then show ?thesis using decode_hole [OF assms(1)] by (simp add: fetch_optional_decode bdb_contains_def Let_def)
  next
    case False
    from decode_Some [OF assms(1) ok False] obtain b' where "decode_entry cdc ?e db = Some b'" by metis
    with True False show ?thesis by (auto simp: fetch_optional_decode bdb_contains_def Let_def word_gt_0)
  qed
qed (simp add: fetch_optional_decode bdb_contains_def Let_def)

lemma last_entry_stop: "block_size e \<noteq> 0 \<Longrightarrow> last_entry es e pos = e"
  by (simp add: last_entry.simps [of es e])

lemma last_entry_spec:
  assumes "0 < pos" and "pos \<le> length es" and "e = es ! (pos - 1) \<or> (pos < length es \<and> e = es ! pos \<and> block_size e = 0)"
  shows "(block_size (last_entry es e pos) = 0 \<and> (\<forall>n < pos. block_size (es ! n) = 0)) \<or>
    (\<exists>n < pos. last_entry es e pos = es ! n \<and> block_size (es ! n) \<noteq> 0 \<and> (\<forall>m. n < m \<longrightarrow> m < pos \<longrightarrow> block_size (es ! m) = 0))"
  using assms
proof (induction pos arbitrary: e)
  case (Suc p)
  show ?case
  proof (cases "block_size e = 0")
    case False
    with Suc.prems have "e = es ! p" by auto
    with False have "last_entry es e (Suc p) = es ! p \<and> block_size (es ! p) \<noteq> 0" by (simp add: last_entry_stop)
    then show ?thesis by (intro disjI2 exI [of _ p]) auto
  next
    case z: True
    then have step: "last_entry es e (Suc p) = last_entry es (es ! p) p"
      by (simp add: last_entry.simps [of es e])
    show ?thesis
    proof (cases "block_size (es ! p) = 0")
      case False
      then have "last_entry es (es ! p) p = es ! p" by (simp add: last_entry.simps [of es "es ! p"])
      with False step show ?thesis by auto
    next
      case True
      show ?thesis
      proof (cases p)
        case 0
        with True step show ?thesis by (simp add: last_entry.simps [of es _ 0])
      next
        case (Suc q)
        have "0 < p" "p \<le> length es" "es ! p = es ! (p - 1) \<or> (p < length es \<and> es ! p = es ! p \<and> block_size (es ! p) = 0)"
          using Suc Suc.prems True by auto
        from Suc.IH [OF this] True step show ?thesis by (auto simp: less_Suc_eq)
      qed
    qed
  qed
qed simp

section \<open>Properties\<close>

text \<open>C26: storing a block (under its own identifier, or under none) keeps the files consistent, and
  afterwards exactly that block is found under its number and its identifier, and every block
  with another number is found as before.\<close>

theorem block_database_store:
  assumes "codec_ok cdc" and "bdb_ok cdc db" and "fits cdc b db" and "i = id_of cdc b \<or> i = zero_hash"
  shows "bdb_ok cdc (bdb_store cdc i b db) \<and>
    (\<forall>n. bdb_fetch_by_number cdc n (bdb_store cdc i b db) =
       (if n = num_of cdc (id_of cdc b) then Some b else bdb_fetch_by_number cdc n db)) \<and>
    (\<forall>j. bdb_fetch_optional cdc j (bdb_store cdc i b db) =
       (if num_of cdc j = num_of cdc (id_of cdc b) then (if j = id_of cdc b then Some b else None)
        else bdb_fetch_optional cdc j db)) \<and>
    (\<forall>j. bdb_contains cdc j (bdb_store cdc i b db) \<longleftrightarrow>
       j \<noteq> zero_hash \<and> (if num_of cdc j = num_of cdc (id_of cdc b) then j = id_of cdc b else bdb_contains cdc j db))"
proof (intro conjI allI)
  let ?db = "bdb_store cdc i b db"
  show ok: "bdb_ok cdc ?db" by (rule bdb_store_ok [OF assms])
  show num: "bdb_fetch_by_number cdc n ?db =
       (if n = num_of cdc (id_of cdc b) then Some b else bdb_fetch_by_number cdc n db)" for n
    by (rule fetch_by_number_after_store [OF assms])
  show ids: "bdb_fetch_optional cdc j ?db =
       (if num_of cdc j = num_of cdc (id_of cdc b) then (if j = id_of cdc b then Some b else None)
        else bdb_fetch_optional cdc j db)" for j
  proof -
    have "bdb_fetch_optional cdc j ?db = Some c \<longleftrightarrow>
       (if num_of cdc j = num_of cdc (id_of cdc b) then (if j = id_of cdc b then Some b else None)
        else bdb_fetch_optional cdc j db) = Some c" for c
      using fetch_optional_by_number [OF assms(1) ok, of j c] fetch_optional_by_number [OF assms(1,2), of j c] num
      by auto
    then show ?thesis by (metis not_None_eq)
  qed
  show "bdb_contains cdc j ?db \<longleftrightarrow>
       j \<noteq> zero_hash \<and> (if num_of cdc j = num_of cdc (id_of cdc b) then j = id_of cdc b else bdb_contains cdc j db)" for j
    using ids [of j] by (auto simp: contains_iff_fetch [OF assms(1) ok] contains_iff_fetch [OF assms(1,2)])
qed

definition byte_codec :: "nat block_codec" where
  \<comment> \<open>blocks that are numbers: block \<open>n\<close> packs to one byte and has number and identifier \<open>n mod 256\<close>\<close>
  "byte_codec = \<lparr>id_of = (\<lambda>n. Hash160 (of_nat n) 0 0 0 1), num_of = hash_word0, pack = (\<lambda>n. 1 # replicate n 0),
     unpack = (\<lambda>bs. case bs of [] \<Rightarrow> Inl Out_Of_Range | _ # ys \<Rightarrow> Inr (length ys))\<rparr>"

lemma byte_codec_ok: "codec_ok byte_codec"
  by (simp add: codec_ok_def byte_codec_def)

definition no_blocks :: block_database where
  "no_blocks = \<lparr>block_num_to_pos = [], blocks = []\<rparr>"

theorem block_database_store_witness:
  "bdb_fetch_by_number byte_codec 2 (bdb_store byte_codec zero_hash 2 no_blocks) = Some 2"
proof -
  have "bdb_ok byte_codec no_blocks" "fits byte_codec 2 no_blocks"
    by (simp_all add: bdb_ok_def no_blocks_def fits_def byte_codec_def)
  from block_database_store [OF byte_codec_ok this, of zero_hash]
  show ?thesis by (simp add: byte_codec_def)
qed

text \<open>Removing a block that is in the index makes it unknown under its identifier and, if it was the
  block of its number, under its number; every other block stays.  Removing one whose number is
  behind the end of the index throws and changes nothing.\<close>

theorem block_database_remove:
  assumes "codec_ok cdc" and "bdb_ok cdc db" and "bdb_remove cdc i db = (r, db')"
  shows "bdb_ok cdc db' \<and> \<not> bdb_contains cdc i db' \<and> bdb_fetch_optional cdc i db' = None \<and>
    (\<forall>j. j \<noteq> i \<longrightarrow> bdb_fetch_optional cdc j db' = bdb_fetch_optional cdc j db) \<and>
    (\<forall>n. bdb_fetch_by_number cdc n db' =
       (if n = num_of cdc i \<and> (\<exists>b. bdb_fetch_optional cdc i db = Some b) then None else bdb_fetch_by_number cdc n db)) \<and>
    (r = Inl Key_Not_Found \<longleftrightarrow> length (block_num_to_pos db) \<le> unat (num_of cdc i)) \<and> (is_ok r \<or> db' = db)"
proof -
  let ?k = "unat (num_of cdc i)" and ?es = "block_num_to_pos db"
  have nk: "n = num_of cdc i \<longleftrightarrow> unat n = ?k" for n by (auto intro: unsigned_word_eqI)
  consider (behind) "length ?es \<le> ?k" "r = Inl Key_Not_Found" "db' = db"
    | (other) "?k < length ?es" "entry_id (?es ! ?k) \<noteq> i" "r = Inr ()" "db' = db"
    | (found) "?k < length ?es" "entry_id (?es ! ?k) = i" "r = Inr ()"
        "db' = db\<lparr>block_num_to_pos := ?es[?k := (?es ! ?k)\<lparr>block_size := 0\<rparr>]\<rparr>"
    using assms(3) by (auto simp: bdb_remove_def Let_def split: if_splits)
  then show ?thesis
  proof cases
    case behind
    then show ?thesis using assms(1,2) by (auto simp: fetch_optional_decode contains_iff_fetch)
  next
    case other
    then show ?thesis using assms(1,2) by (auto simp: fetch_optional_decode contains_iff_fetch)
  next
    case found
    have read: "read_block e db' = read_block e db" for e using found(4) by (simp add: read_block_def)
    have dec: "decode_entry cdc e db' = decode_entry cdc e db" for e by (simp add: decode_entry_def read)
    have hole: "decode_entry cdc ((?es ! ?k)\<lparr>block_size := 0\<rparr>) db = None" using decode_hole [OF assms(1)] by simp
    have ok: "bdb_ok cdc db'"
      using assms(2) found(1,4) by (auto simp: bdb_ok_def nth_list_update entry_ok_def)
    have num: "bdb_fetch_by_number cdc n db' = (if n = num_of cdc i then None else bdb_fetch_by_number cdc n db)" for n
      using found(1) nk [of n] hole by (auto simp: fetch_by_number_decode dec) (auto simp: found(4) hole)
    have opt: "bdb_fetch_optional cdc j db' = (if j = i then None else bdb_fetch_optional cdc j db)" for j
      using found(1,2) nk [of "num_of cdc j"] hole
      by (auto simp: fetch_optional_decode dec) (auto simp: found(4) hole nth_list_update)
    have "bdb_fetch_by_number cdc (num_of cdc i) db = None" if "\<nexists>b. bdb_fetch_optional cdc i db = Some b"
      using that found(1,2) by (simp add: fetch_optional_decode fetch_by_number_decode)
    with ok num opt found(1,3) show ?thesis
      by (auto simp: contains_iff_fetch [OF assms(1) ok])
  qed
qed

theorem block_database_remove_witness:
  "let db = bdb_store byte_codec zero_hash 2 no_blocks in
   bdb_fetch_optional byte_codec (Hash160 2 0 0 0 1) (snd (bdb_remove byte_codec (Hash160 2 0 0 0 1) db)) = None"
proof -
  have "bdb_ok byte_codec no_blocks" "fits byte_codec 2 no_blocks"
    by (simp_all add: bdb_ok_def no_blocks_def fits_def byte_codec_def)
  then have "bdb_ok byte_codec (bdb_store byte_codec zero_hash 2 no_blocks)"
    by (simp add: bdb_store_ok byte_codec_ok)
  from block_database_remove [OF byte_codec_ok this, of "Hash160 2 0 0 0 1"] show ?thesis
    by (simp add: Let_def prod_eq_iff)
qed

text \<open>The last block is the one with the greatest number that is stored and not removed, its
  identifier is what \<open>last_id\<close> returns, and both are empty exactly when nothing is stored.\<close>

theorem block_database_last:
  assumes "codec_ok cdc" and "bdb_ok cdc db"
  shows "case bdb_last cdc db of
      None \<Rightarrow> bdb_last_id db = None \<and> (\<forall>n. bdb_fetch_by_number cdc n db = None)
    | Some b \<Rightarrow> bdb_last_id db = Some (id_of cdc b) \<and> bdb_fetch_by_number cdc (num_of cdc (id_of cdc b)) db = Some b \<and>
        (\<forall>n. num_of cdc (id_of cdc b) < n \<longrightarrow> bdb_fetch_by_number cdc n db = None)"
proof -
  let ?es = "block_num_to_pos db"
  show ?thesis
  proof (cases "length ?es = 0")
    case True
    then show ?thesis by (simp add: bdb_last_def bdb_last_id_def fetch_by_number_decode)
  next
    case False
    let ?e = "last_entry ?es (?es ! (length ?es - 1)) (length ?es)"
    have hole: "bdb_fetch_by_number cdc n db = None" if "unat n < length ?es \<longrightarrow> block_size (?es ! unat n) = 0" for n
      using that decode_hole [OF assms(1)] by (simp add: fetch_by_number_decode)
    have l: "(block_size ?e = 0 \<and> (\<forall>n < length ?es. block_size (?es ! n) = 0)) \<or>
      (\<exists>n < length ?es. ?e = ?es ! n \<and> block_size (?es ! n) \<noteq> 0 \<and> (\<forall>m. n < m \<longrightarrow> m < length ?es \<longrightarrow> block_size (?es ! m) = 0))"
      using False by (intro last_entry_spec) auto
    show ?thesis
    proof (cases "block_size ?e = 0")
      case True
      with l have "\<forall>n < length ?es. block_size (?es ! n) = 0" by auto
      with True hole False show ?thesis by (simp add: bdb_last_def bdb_last_id_def Let_def)
    next
      case nz: False
      with l obtain n where n: "n < length ?es" "?e = ?es ! n" "block_size (?es ! n) \<noteq> 0"
        "\<And>m. n < m \<Longrightarrow> m < length ?es \<Longrightarrow> block_size (?es ! m) = 0" by auto
      have "entry_ok cdc (blocks db) n (?es ! n)" using assms(2) n(1) by (simp add: bdb_ok_def)
      from decode_Some [OF assms(1) this n(3)] obtain b where b: "decode_entry cdc (?es ! n) db = Some b"
        "id_of cdc b = entry_id (?es ! n)" "read_block (?es ! n) db = Inr (pack cdc b)" "unat (num_of cdc (entry_id (?es ! n))) = n"
        by metis
      have "bdb_last cdc db = Some b"
        using nz b(3) n(2) False assms(1) by (simp add: bdb_last_def Let_def codec_ok_def caught_def)
      moreover have "bdb_last_id db = Some (id_of cdc b)"
        using nz b(2) n(2) False by (simp add: bdb_last_id_def Let_def)
      moreover have "bdb_fetch_by_number cdc (num_of cdc (id_of cdc b)) db = Some b"
        using b n(1) by (simp add: fetch_by_number_decode)
      moreover have "bdb_fetch_by_number cdc m db = None" if "num_of cdc (id_of cdc b) < m" for m
        using that b(2,4) n(4) by (intro hole) (simp add: word_less_nat_alt)
      ultimately show ?thesis by simp
    qed
  qed
qed

theorem block_database_last_witness:
  "bdb_last_id (bdb_store byte_codec zero_hash 2 no_blocks) = Some (Hash160 2 0 0 0 1)"
proof -
  have "bdb_ok byte_codec no_blocks" "fits byte_codec 2 no_blocks"
    by (simp_all add: bdb_ok_def no_blocks_def fits_def byte_codec_def)
  then have "bdb_ok byte_codec (bdb_store byte_codec zero_hash 2 no_blocks)"
    by (simp add: bdb_store_ok byte_codec_ok)
  note last = block_database_last [OF byte_codec_ok this]
  have "bdb_last byte_codec (bdb_store byte_codec zero_hash 2 no_blocks) = Some 2" by code_simp
  with last show ?thesis by (simp add: byte_codec_def)
qed

text \<open>A block stored under the identifier of another block of the same number cannot be read
  back under that identifier, nor its own, nor its number: every reader compares the identifier
  of what it unpacked with the one in the index.\<close>

theorem block_stored_under_other_id_is_lost:
  assumes "codec_ok cdc" and "fits cdc b db" and "i \<noteq> id_of cdc b" and "i \<noteq> zero_hash"
    and "num_of cdc i = num_of cdc (id_of cdc b)"
  shows "bdb_fetch_optional cdc i (bdb_store cdc i b db) = None \<and>
    bdb_fetch_optional cdc (id_of cdc b) (bdb_store cdc i b db) = None \<and>
    bdb_fetch_by_number cdc (num_of cdc i) (bdb_store cdc i b db) = None"
proof -
  let ?k = "unat (num_of cdc i)"
  let ?e = "\<lparr>block_pos = of_nat (length (blocks db)), block_size = of_nat (length (pack cdc b)), entry_id = i\<rparr>"
  have st: "bdb_store cdc i b db = db\<lparr>blocks := blocks db @ pack cdc b,
      block_num_to_pos := (grow zero_entry ?k (block_num_to_pos db))[?k := ?e]\<rparr>"
    using assms(4) by (simp add: bdb_store_def Let_def)
  have "read_block ?e (bdb_store cdc i b db) = Inr (pack cdc b)"
    by (rule new_entry_read(2) [OF assms(1,2) _ refl]) (simp add: st)
  then have "decode_entry cdc ?e (bdb_store cdc i b db) = None"
    using assms(1,3) by (simp add: decode_entry_def codec_ok_def caught_def)
  then show ?thesis
    using assms(3,5) by (simp add: fetch_optional_decode fetch_by_number_decode) (simp add: st length_grow)
qed

theorem block_stored_under_other_id_is_lost_witness:
  "bdb_fetch_by_number byte_codec 2 (bdb_store byte_codec (Hash160 2 0 0 0 9) 2 no_blocks) = None"
  using block_stored_under_other_id_is_lost [OF byte_codec_ok, of 2 no_blocks "Hash160 2 0 0 0 9"]
  by (simp add: byte_codec_def fits_def no_blocks_def zero_hash_def)

end
