(* ===== verification/Fork_Database.thy ===== *)
theory Fork_Database
  imports Blocks
begin

text \<open>
  The fork database (\<open>libraries/chain/fork_database.cpp\<close>, \<open>fork_database.hpp\<close>): a tree of
  recent blocks, with a head and a bounded window of block numbers.

  The items live in a store; an address is a position in it.  The two multi-index containers hold
  shared pointers, that is addresses, in the order of insertion, unique by block identifier; a
  weak pointer locks when some container or the head still owns its item.  The local vectors of
  \<open>database::_push_block\<close>, which own the items of two branches during a fork switch, are not
  counted: a weak pointer to an item that leaves both containers in a failing switch fails to lock
  here until the vectors of the code are gone as well.  What the code reads off a block is a
  parameter, the record \<open>block_view\<close>.
\<close>

record 'b block_view =
  bv_num :: "'b \<Rightarrow> 32 word"
  bv_id :: "'b \<Rightarrow> block_id"
  bv_previous :: "'b \<Rightarrow> block_id"

record 'b fork_item =
  fi_prev :: "nat option"
  fi_num :: "32 word"
  fi_invalid :: bool
  fi_id :: block_id
  fi_data :: 'b

record 'b fork_database =
  items :: "'b fork_item list"
  fork_index :: "nat list"
  unlinked_index :: "nat list"
  fork_head :: "nat option"
  fork_max_size :: "32 word"

definition make_fork_item :: "'b block_view \<Rightarrow> 'b \<Rightarrow> 'b fork_item" where
  "make_fork_item bv d = \<lparr>fi_prev = None, fi_num = bv_num bv d, fi_invalid = False, fi_id = bv_id bv d, fi_data = d\<rparr>"

abbreviation item :: "'b fork_database \<Rightarrow> nat \<Rightarrow> 'b fork_item" where
  "item fd a \<equiv> items fd ! a"

definition previous_id :: "'b block_view \<Rightarrow> 'b fork_item \<Rightarrow> block_id" where
  "previous_id bv i = bv_previous bv (fi_data i)"

section \<open>Pointers and containers\<close>

definition live :: "'b fork_database \<Rightarrow> nat \<Rightarrow> bool" where
  "live fd a \<longleftrightarrow> a \<in> set (fork_index fd) \<or> a \<in> set (unlinked_index fd) \<or> fork_head fd = Some a"

definition lock :: "'b fork_database \<Rightarrow> nat option \<Rightarrow> nat option" where
  "lock fd p = (case p of None \<Rightarrow> None | Some a \<Rightarrow> if live fd a then Some a else None)"

definition find_by_id :: "'b fork_database \<Rightarrow> nat list \<Rightarrow> block_id \<Rightarrow> nat option" where
  "find_by_id fd ix i = List.find (\<lambda>a. fi_id (item fd a) = i) ix"

definition index_insert :: "'b fork_database \<Rightarrow> nat \<Rightarrow> nat list \<Rightarrow> nat list" where
  "index_insert fd a ix = (if find_by_id fd ix (fi_id (item fd a)) = None then ix @ [a] else ix)"

definition erase_below :: "'b fork_database \<Rightarrow> int \<Rightarrow> nat list \<Rightarrow> nat list" where
  \<comment> \<open>erase the first item by number while its number is below the bound\<close>
  "erase_below fd bound ix = filter (\<lambda>a. bound \<le> uint (fi_num (item fd a))) ix"

section \<open>Operations\<close>

definition new_fork_database :: "'b fork_database" where
  "new_fork_database = \<lparr>items = [], fork_index = [], unlinked_index = [], fork_head = None, fork_max_size = 1024\<rparr>"

definition fork_reset :: "'b fork_database \<Rightarrow> 'b fork_database" where
  "fork_reset fd = fd\<lparr>fork_head := None, fork_index := []\<rparr>"

definition alloc_item :: "'b fork_item \<Rightarrow> ('b fork_database, nat) st" where
  "alloc_item i fd = (Inr (length (items fd)), fd\<lparr>items := items fd @ [i]\<rparr>)"

definition fork_pop_block :: "('b fork_database, unit) st" where
  "fork_pop_block fd =
     (case fork_head fd of
        None \<Rightarrow> (Inl Assert_Exception, fd)
      | Some h \<Rightarrow>
         (case lock fd (fi_prev (item fd h)) of
            None \<Rightarrow> (Inl Assert_Exception, fd)
          | Some p \<Rightarrow> (Inr (), fd\<lparr>fork_head := Some p\<rparr>)))"

definition start_block :: "'b block_view \<Rightarrow> 'b \<Rightarrow> ('b fork_database, unit) st" where
  "start_block bv b = st_bind (alloc_item (make_fork_item bv b)) (\<lambda>a.
     st_update (\<lambda>fd. fd\<lparr>fork_index := index_insert fd a (fork_index fd), fork_head := Some a\<rparr>))"

definition too_old :: "'b fork_database \<Rightarrow> nat \<Rightarrow> bool" where
  "too_old fd a = (case fork_head fd of
     None \<Rightarrow> False
   | Some h \<Rightarrow> \<not> (uint (fi_num (item fd a)) > max 0 (uint (fi_num (item fd h)) - uint (fork_max_size fd))))"

definition link_item :: "'b block_view \<Rightarrow> nat \<Rightarrow> ('b fork_database, unit) st" where
  "link_item bv a fd =
     (if fork_head fd \<noteq> None \<and> previous_id bv (item fd a) \<noteq> zero_hash
      then case find_by_id fd (fork_index fd) (previous_id bv (item fd a)) of
             None \<Rightarrow> (Inl Unlinkable_Block, fd)
           | Some p \<Rightarrow>
               if fi_invalid (item fd p) then (Inl Assert_Exception, fd)
               else (Inr (), fd\<lparr>items := (items fd)[a := (item fd a)\<lparr>fi_prev := Some p\<rparr>]\<rparr>)
      else (Inr (), fd))"

definition advance_head :: "nat \<Rightarrow> 'b fork_database \<Rightarrow> 'b fork_database" where
  "advance_head a fd =
     (case fork_head fd of
        None \<Rightarrow> fd\<lparr>fork_head := Some a\<rparr>
      | Some h \<Rightarrow>
          if fi_num (item fd a) > fi_num (item fd h)
          then let n = fi_num (item fd a);
                   min_num = n - min (fork_max_size fd) n
               in fd\<lparr>fork_head := Some a,
                     fork_index := erase_below fd (uint min_num) (fork_index fd),
                     unlinked_index := filter (\<lambda>x. fi_num (item fd x) \<noteq> n - fork_max_size fd) (unlinked_index fd)\<rparr>
          else fd)"

definition push_item :: "'b block_view \<Rightarrow> nat \<Rightarrow> ('b fork_database, unit) st" where
  \<comment> \<open>\<open>_push_block\<close>\<close>
  "push_item bv a =
     st_bind (st_assert (\<lambda>fd. \<not> too_old fd a)) (\<lambda>_.
     st_bind (link_item bv a) (\<lambda>_.
     st_bind (st_update (\<lambda>fd. fd\<lparr>fork_index := index_insert fd a (fork_index fd)\<rparr>)) (\<lambda>_.
     st_update (advance_head a))))"

definition fork_push_block :: "'b block_view \<Rightarrow> 'b \<Rightarrow> ('b fork_database, nat option) st" where
  \<comment> \<open>an item that does not link is dropped: its insertion follows a \<open>throw\<close>\<close>
  "fork_push_block bv b =
     st_bind (alloc_item (make_fork_item bv b)) (\<lambda>a.
     st_bind (push_item bv a) (\<lambda>_. st_gets fork_head))"

fun push_next :: "nat \<Rightarrow> 'b block_view \<Rightarrow> block_id \<Rightarrow> ('b fork_database, unit) st" where
  \<comment> \<open>the disabled loop over the unlinked cache; \<open>fuel\<close> bounds it by the size of the cache\<close>
  "push_next 0 bv i fd = (Inr (), fd)"
| "push_next (Suc fuel) bv i fd =
     (case List.find (\<lambda>a. previous_id bv (item fd a) = i) (unlinked_index fd) of
        None \<Rightarrow> (Inr (), fd)
      | Some a \<Rightarrow> st_bind (st_update (\<lambda>fd. fd\<lparr>unlinked_index := removeAll a (unlinked_index fd)\<rparr>)) (\<lambda>_.
                  st_bind (push_item bv a) (\<lambda>_. push_next fuel bv i)) fd)"

definition fork_set_max_size :: "32 word \<Rightarrow> 'b fork_database \<Rightarrow> 'b fork_database" where
  "fork_set_max_size s fd =
     (let fd1 = fd\<lparr>fork_max_size := s\<rparr>
      in case fork_head fd1 of
           None \<Rightarrow> fd1
         | Some h \<Rightarrow>
             let bound = max 0 (uint (fi_num (item fd1 h)) - uint s)
             in fd1\<lparr>fork_index := erase_below fd1 bound (fork_index fd1),
                    unlinked_index := erase_below fd1 bound (unlinked_index fd1)\<rparr>)"

definition is_known_block :: "block_id \<Rightarrow> 'b fork_database \<Rightarrow> bool" where
  "is_known_block i fd =
     (if find_by_id fd (fork_index fd) i \<noteq> None then True else find_by_id fd (unlinked_index fd) i \<noteq> None)"

definition fork_fetch_block :: "block_id \<Rightarrow> 'b fork_database \<Rightarrow> nat option" where
  "fork_fetch_block i fd =
     (case find_by_id fd (fork_index fd) i of
        Some a \<Rightarrow> Some a
      | None \<Rightarrow> find_by_id fd (unlinked_index fd) i)"

definition fetch_block_by_number :: "32 word \<Rightarrow> 'b fork_database \<Rightarrow> nat list" where
  "fetch_block_by_number n fd = filter (\<lambda>a. fi_num (item fd a) = n) (fork_index fd)"

fun climb_above :: "nat \<Rightarrow> 'b block_view \<Rightarrow> 'b fork_database \<Rightarrow> nat \<Rightarrow> nat \<Rightarrow> nat list \<Rightarrow> (nat list \<times> nat) res option" where
  \<comment> \<open>\<open>while( a->data.block_num() > b->data.block_num() )\<close>\<close>
  "climb_above 0 bv fd a b acc = None"
| "climb_above (Suc fuel) bv fd a b acc =
     (if bv_num bv (fi_data (item fd a)) > bv_num bv (fi_data (item fd b))
      then case lock fd (fi_prev (item fd a)) of
             None \<Rightarrow> Some (Inl Assert_Exception)
           | Some p \<Rightarrow> climb_above fuel bv fd p b (acc @ [a])
      else Some (Inr (acc, a)))"

fun climb_both :: "nat \<Rightarrow> 'b block_view \<Rightarrow> 'b fork_database \<Rightarrow> nat \<Rightarrow> nat \<Rightarrow> nat list \<Rightarrow> nat list \<Rightarrow>
    ((nat list \<times> nat) \<times> (nat list \<times> nat)) res option" where
  \<comment> \<open>\<open>while( a->data.previous != b->data.previous )\<close>\<close>
  "climb_both 0 bv fd a b xs ys = None"
| "climb_both (Suc fuel) bv fd a b xs ys =
     (if previous_id bv (item fd a) \<noteq> previous_id bv (item fd b)
      then case lock fd (fi_prev (item fd a)) of
             None \<Rightarrow> Some (Inl Assert_Exception)
           | Some p \<Rightarrow>
              (case lock fd (fi_prev (item fd b)) of
                 None \<Rightarrow> Some (Inl Assert_Exception)
               | Some q \<Rightarrow> climb_both fuel bv fd p q (xs @ [a]) (ys @ [b]))
      else Some (Inr ((xs, a), (ys, b))))"

definition fetch_branch_from :: "'b block_view \<Rightarrow> block_id \<Rightarrow> block_id \<Rightarrow> 'b fork_database \<Rightarrow> (nat list \<times> nat list) res option" where
  \<comment> \<open>\<^const>\<open>None\<close> is a loop that has not ended after as many steps as there are items\<close>
  "fetch_branch_from bv i j fd =
     (case find_by_id fd (fork_index fd) i of
        None \<Rightarrow> Some (Inl Assert_Exception)
      | Some first \<Rightarrow>
     (case find_by_id fd (fork_index fd) j of
        None \<Rightarrow> Some (Inl Assert_Exception)
      | Some second \<Rightarrow>
     (let fuel = length (items fd) + 1
      in case climb_above fuel bv fd first second [] of
           None \<Rightarrow> None
         | Some (Inl e) \<Rightarrow> Some (Inl e)
         | Some (Inr (xs, a)) \<Rightarrow>
        (case climb_above fuel bv fd second a [] of
           None \<Rightarrow> None
         | Some (Inl e) \<Rightarrow> Some (Inl e)
         | Some (Inr (ys, b)) \<Rightarrow>
        (case climb_both fuel bv fd a b xs ys of
           None \<Rightarrow> None
         | Some (Inl e) \<Rightarrow> Some (Inl e)
         | Some (Inr ((xs', a'), (ys', b'))) \<Rightarrow> Some (Inr (xs' @ [a'], ys' @ [b'])))))))"

definition set_head :: "nat \<Rightarrow> 'b fork_database \<Rightarrow> 'b fork_database" where
  "set_head h fd = fd\<lparr>fork_head := Some h\<rparr>"

definition fork_remove :: "block_id \<Rightarrow> 'b fork_database \<Rightarrow> 'b fork_database" where
  "fork_remove i fd = fd\<lparr>fork_index := filter (\<lambda>a. fi_id (item fd a) \<noteq> i) (fork_index fd)\<rparr>"

end
