(* ===== verification/Fork_Correct.thy ===== *)
theory Fork_Correct
  imports Fork_Database
begin

text \<open>
  The invariant of the fork database and its consequences: what pushing a block does to the head
  and to the window of kept blocks, and that \<open>fetch_branch_from\<close> ends and returns the two
  branches down to the most recent common ancestor.
\<close>

section \<open>The invariant\<close>

definition view_ok :: "'b block_view \<Rightarrow> bool" where
  \<comment> \<open>an identifier determines the number of its block, and of the blocks built on it\<close>
  "view_ok bv \<longleftrightarrow> (\<exists>num. \<forall>b. num (bv_id bv b) = bv_num bv b \<and> bv_num bv b = num (bv_previous bv b) + 1)"

definition item_ok :: "'b block_view \<Rightarrow> 'b fork_item list \<Rightarrow> nat \<Rightarrow> bool" where
  "item_ok bv its a \<longleftrightarrow> fi_num (its ! a) = bv_num bv (fi_data (its ! a)) \<and>
     fi_id (its ! a) = bv_id bv (fi_data (its ! a)) \<and>
     (\<forall>p. fi_prev (its ! a) = Some p \<longrightarrow> p < a \<and> fi_id (its ! p) = previous_id bv (its ! a) \<and>
        uint (fi_num (its ! a)) = uint (fi_num (its ! p)) + 1)"

definition items_ok :: "'b block_view \<Rightarrow> 'b fork_item list \<Rightarrow> bool" where
  "items_ok bv its \<longleftrightarrow> (\<forall>a < length its. item_ok bv its a)"

definition fork_ok :: "'b block_view \<Rightarrow> 'b fork_database \<Rightarrow> bool" where
  "fork_ok bv fd \<longleftrightarrow> items_ok bv (items fd) \<and> set (fork_index fd) \<subseteq> {..<length (items fd)} \<and>
     distinct (fork_index fd) \<and> inj_on (\<lambda>a. fi_id (item fd a)) (set (fork_index fd)) \<and>
     unlinked_index fd = [] \<and> (\<forall>h. fork_head fd = Some h \<longrightarrow> h < length (items fd))"

lemma find_by_id_Some: "find_by_id fd ix i = Some a \<Longrightarrow> a \<in> set ix \<and> fi_id (item fd a) = i"
  by (auto simp: find_by_id_def find_Some_iff)

lemma find_by_id_None: "find_by_id fd ix i = None \<longleftrightarrow> (\<forall>a \<in> set ix. fi_id (item fd a) \<noteq> i)"
  by (auto simp: find_by_id_def find_None_iff)

lemma lock_Some: "lock fd p = Some a \<Longrightarrow> p = Some a \<and> live fd a"
  by (auto simp: lock_def split: option.splits if_splits)

lemma uint_suc:
  fixes w :: "'a::len word"
  assumes "w + 1 \<noteq> 0"
  shows "uint (w + 1) = uint w + 1"
proof -
  have "1 + w \<noteq> 0" using assms by (simp add: add.commute)
  then have "unat (1 + w) = Suc (unat w)" by (rule unatSuc)
  then have "int (unat (w + 1)) = int (unat w) + 1" by (simp add: add.commute)
  moreover have "uint (w + 1) = int (unat (w + 1))" by (rule uint_nat)
  moreover have "uint w = int (unat w)" by (rule uint_nat)
  ultimately show ?thesis by (simp only:)
qed

lemma item_ok_append: "a < length its \<Longrightarrow> item_ok bv (its @ js) a = item_ok bv its a"
  by (auto simp: item_ok_def nth_append)

lemma items_ok_snoc: "items_ok bv (its @ [i]) \<longleftrightarrow> items_ok bv its \<and> item_ok bv (its @ [i]) (length its)"
  by (auto simp: items_ok_def item_ok_append less_Suc_eq)

lemma items_ok_new: "items_ok bv its \<Longrightarrow> items_ok bv (its @ [make_fork_item bv b])"
  by (simp add: items_ok_snoc) (simp add: item_ok_def make_fork_item_def)

lemma items_ok_link:
  assumes ok: "items_ok bv its" and v: "view_ok bv" and p: "p < length its" "fi_id (its ! p) = bv_previous bv b"
    and pos: "bv_num bv b \<noteq> 0"
  shows "items_ok bv (its @ [make_fork_item bv b\<lparr>fi_prev := Some p\<rparr>])"
proof -
  obtain num where num: "\<And>b. num (bv_id bv b) = bv_num bv b" "\<And>b. bv_num bv b = num (bv_previous bv b) + 1"
    using v unfolding view_ok_def by blast
  have "item_ok bv its p" using ok p(1) by (simp add: items_ok_def)
  then have "fi_num (its ! p) = num (bv_previous bv b)"
    using p(2) num(1) unfolding item_ok_def by metis
  then have "bv_num bv b = fi_num (its ! p) + 1" using num(2) by simp
  then have "uint (bv_num bv b) = uint (fi_num (its ! p)) + 1"
    using pos uint_suc [of "fi_num (its ! p)"] by simp
  with ok p show ?thesis
    by (simp add: items_ok_snoc) (simp add: item_ok_def nth_append make_fork_item_def previous_id_def)
qed

section \<open>Pushing a block\<close>

text \<open>The four ways in which \<open>push_block\<close> ends, without the intermediate states.\<close>

definition pushed :: "'b block_view \<Rightarrow> 'b \<Rightarrow> nat option \<Rightarrow> 'b fork_database \<Rightarrow> 'b fork_database" where
  \<comment> \<open>the new item, linked to its predecessor, is inserted\<close>
  "pushed bv b p fd =
     (let a = length (items fd);
          fd1 = fd\<lparr>items := items fd @ [make_fork_item bv b\<lparr>fi_prev := p\<rparr>]\<rparr>
      in advance_head a (fd1\<lparr>fork_index := index_insert fd1 a (fork_index fd1)\<rparr>))"

definition allocated :: "'b block_view \<Rightarrow> 'b \<Rightarrow> 'b fork_database \<Rightarrow> 'b fork_database" where
  "allocated bv b fd = fd\<lparr>items := items fd @ [make_fork_item bv b]\<rparr>"

lemma find_by_id_allocated:
  "set ix \<subseteq> {..<length (items fd)} \<Longrightarrow> find_by_id (allocated bv b fd) ix i = find_by_id fd ix i"
proof -
  assume "set ix \<subseteq> {..<length (items fd)}"
  then have "List.find (\<lambda>a. fi_id (item (allocated bv b fd) a) = i) ix = List.find (\<lambda>a. fi_id (item fd a) = i) ix"
    by (intro find_cong) (auto simp: allocated_def nth_append)
  then show ?thesis by (simp add: find_by_id_def)
qed

lemma make_fork_item_prev_None: "make_fork_item bv b\<lparr>fi_prev := None\<rparr> = make_fork_item bv b"
  by (simp add: make_fork_item_def)

lemma fork_push_block_cases:
  assumes ok: "fork_ok bv fd"
  obtains (old) h where "fork_head fd = Some h"
      "uint (bv_num bv b) \<le> max 0 (uint (fi_num (item fd h)) - uint (fork_max_size fd))"
      "fork_push_block bv b fd = (Inl Assert_Exception, allocated bv b fd)"
  | (unlinked) "fork_head fd \<noteq> None" "bv_previous bv b \<noteq> zero_hash" "find_by_id fd (fork_index fd) (bv_previous bv b) = None"
      "fork_push_block bv b fd = (Inl Unlinkable_Block, allocated bv b fd)"
  | (invalid) p where "find_by_id fd (fork_index fd) (bv_previous bv b) = Some p" "fi_invalid (item fd p)"
      "fork_push_block bv b fd = (Inl Assert_Exception, allocated bv b fd)"
  | (linked) p where "find_by_id fd (fork_index fd) (bv_previous bv b) = Some p" "fork_head fd \<noteq> None" "bv_num bv b \<noteq> 0"
      "fork_push_block bv b fd = (Inr (fork_head (pushed bv b (Some p) fd)), pushed bv b (Some p) fd)"
  | (root) "fork_head fd = None \<or> bv_previous bv b = zero_hash"
      "fork_push_block bv b fd = (Inr (fork_head (pushed bv b None fd)), pushed bv b None fd)"
proof -
  let ?a = "length (items fd)" and ?fd = "allocated bv b fd"
  have a: "item ?fd ?a = make_fork_item bv b" "fork_head ?fd = fork_head fd" "fork_index ?fd = fork_index fd"
    "fork_max_size ?fd = fork_max_size fd"
    by (simp_all add: allocated_def)
  have hd: "fork_head fd = Some h \<Longrightarrow> item ?fd h = item fd h" for h
    using ok by (auto simp: fork_ok_def allocated_def nth_append)
  have ixl: "set (fork_index fd) \<subseteq> {..<length (items fd)}" using ok by (simp add: fork_ok_def)
  have fnd: "find_by_id ?fd (fork_index fd) i = find_by_id fd (fork_index fd) i" for i
    by (rule find_by_id_allocated [OF ixl])
  have unf: "fork_push_block bv b fd = st_bind (push_item bv ?a) (\<lambda>_. st_gets fork_head) ?fd"
    by (simp add: fork_push_block_def st_bind_def alloc_item_def allocated_def)
  have old_iff: "too_old ?fd ?a \<longleftrightarrow> (\<exists>h. fork_head fd = Some h \<and>
      uint (bv_num bv b) \<le> max 0 (uint (fi_num (item fd h)) - uint (fork_max_size fd)))"
  proof (cases "fork_head fd")
    case (Some h)
    then show ?thesis using hd [OF Some] by (simp add: too_old_def a not_less)
        (auto simp: make_fork_item_def max_def dest: order_trans [OF uint_ge_0])
  qed (simp add: too_old_def a)
  show thesis
  proof (cases "too_old ?fd ?a")
    case True
    with old_iff obtain h where h: "fork_head fd = Some h"
      "uint (bv_num bv b) \<le> max 0 (uint (fi_num (item fd h)) - uint (fork_max_size fd))" by blast
    have "fork_push_block bv b fd = (Inl Assert_Exception, ?fd)"
      using True by (simp add: unf push_item_def st_bind_def st_assert_def st_lift_def)
    with h old show ?thesis by blast
  next
    case fresh: False
    then have push: "push_item bv ?a ?fd = st_bind (link_item bv ?a) (\<lambda>_.
       st_bind (st_update (\<lambda>fd. fd\<lparr>fork_index := index_insert fd ?a (fork_index fd)\<rparr>)) (\<lambda>_.
       st_update (advance_head ?a))) ?fd"
      by (simp add: push_item_def st_bind_def st_assert_def st_lift_def)
    show ?thesis
    proof (cases "fork_head fd \<noteq> None \<and> bv_previous bv b \<noteq> zero_hash")
      case False
      then have "link_item bv ?a ?fd = (Inr (), ?fd)"
        by (auto simp: link_item_def a previous_id_def make_fork_item_def)
      then have "fork_push_block bv b fd = (Inr (fork_head (pushed bv b None fd)), pushed bv b None fd)"
        by (simp add: unf push st_bind_def st_update_def st_gets_def pushed_def Let_def make_fork_item_prev_None)
          (simp add: allocated_def)
      moreover have "fork_head fd = None \<or> bv_previous bv b = zero_hash" using False by blast
      ultimately show ?thesis by (intro root)
    next
      case True
      then obtain h where h: "fork_head fd = Some h" by blast
      show ?thesis
      proof (cases "find_by_id fd (fork_index fd) (bv_previous bv b)")
        case None
        then have "link_item bv ?a ?fd = (Inl Unlinkable_Block, ?fd)"
          using True by (simp add: link_item_def a previous_id_def make_fork_item_def fnd)
        then have "fork_push_block bv b fd = (Inl Unlinkable_Block, ?fd)"
          by (simp add: unf push st_bind_def)
        with True None unlinked show ?thesis by blast
      next
        case (Some p)
        have pl: "p < ?a" using find_by_id_Some [OF Some] ixl by auto
        then have ip: "item ?fd p = item fd p" by (simp add: allocated_def nth_append)
        have l: "link_item bv ?a ?fd = (if fi_invalid (item fd p) then (Inl Assert_Exception, ?fd)
            else (Inr (), fd\<lparr>items := items fd @ [make_fork_item bv b\<lparr>fi_prev := Some p\<rparr>]\<rparr>))"
          using True Some by (simp add: link_item_def a previous_id_def make_fork_item_def fnd ip)
            (simp add: allocated_def make_fork_item_def)
        show ?thesis
        proof (cases "fi_invalid (item fd p)")
          case True
          then have "fork_push_block bv b fd = (Inl Assert_Exception, ?fd)"
            using l by (simp add: unf push st_bind_def)
          with Some True invalid show ?thesis by blast
        next
          case False
          have "bv_num bv b \<noteq> 0" using fresh old_iff h by (auto simp: not_le)
          moreover have "fork_push_block bv b fd = (Inr (fork_head (pushed bv b (Some p) fd)), pushed bv b (Some p) fd)"
            using l False by (simp add: unf push st_bind_def st_update_def st_gets_def pushed_def Let_def)
          ultimately show ?thesis using Some h linked by blast
        qed
      qed
    qed
  qed
qed

lemma pushed_ok:
  assumes ok: "fork_ok bv fd" and its: "items_ok bv (items fd @ [make_fork_item bv b\<lparr>fi_prev := p\<rparr>])"
  shows "fork_ok bv (pushed bv b p fd)"
proof -
  let ?its = "items fd @ [make_fork_item bv b\<lparr>fi_prev := p\<rparr>]" and ?a = "length (items fd)"
  let ?fd1 = "fd\<lparr>items := ?its\<rparr>"
  let ?ix = "index_insert ?fd1 ?a (fork_index fd)"
  have ixl: "set (fork_index fd) \<subseteq> {..<?a}" using ok by (simp add: fork_ok_def)
  then have old: "x \<in> set (fork_index fd) \<Longrightarrow> ?its ! x = item fd x" for x by (auto simp: nth_append)
  have ix: "set ?ix \<subseteq> {..<Suc ?a} \<and> distinct ?ix \<and> inj_on (\<lambda>x. fi_id (?its ! x)) (set ?ix)"
  proof (cases "find_by_id ?fd1 (fork_index fd) (fi_id (?its ! ?a)) = None")
    case True
    then have nid: "\<forall>x \<in> set (fork_index fd). fi_id (item fd x) \<noteq> fi_id (?its ! ?a)"
      by (auto simp: find_by_id_None old)
    have na: "?a \<notin> set (fork_index fd)" using ixl by auto
    have e: "?ix = fork_index fd @ [?a]" using True by (simp add: index_insert_def)
    have "inj_on (\<lambda>x. fi_id (?its ! x)) (set (fork_index fd))"
      using ok old by (auto simp: fork_ok_def inj_on_def)
    with nid na old have "inj_on (\<lambda>x. fi_id (?its ! x)) (insert ?a (set (fork_index fd)))"
      by (auto simp: inj_on_insert image_iff)
    with e na ok ixl show ?thesis by (auto simp: fork_ok_def)
  next
    case False
    then have e: "?ix = fork_index fd" by (simp add: index_insert_def)
    have "inj_on (\<lambda>x. fi_id (?its ! x)) (set (fork_index fd))"
      using ok old by (auto simp: fork_ok_def inj_on_def)
    with e ok ixl show ?thesis by (auto simp: fork_ok_def)
  qed
  have "fork_ok bv (?fd1\<lparr>fork_index := ?ix\<rparr>)"
    using ix its ok by (auto simp: fork_ok_def less_Suc_eq)
  then have "fork_ok bv (advance_head ?a (?fd1\<lparr>fork_index := ?ix\<rparr>))"
    by (auto simp: fork_ok_def advance_head_def Let_def erase_below_def inj_on_def split: option.splits)
  then show ?thesis by (simp add: pushed_def Let_def)
qed

lemma allocated_ok: "fork_ok bv fd \<Longrightarrow> fork_ok bv (allocated bv b fd)"
  by (auto simp: fork_ok_def allocated_def items_ok_new nth_append inj_on_def less_Suc_eq subset_iff)

lemma push_block_ok:
  assumes "fork_ok bv fd" and "view_ok bv"
  shows "fork_ok bv (snd (fork_push_block bv b fd))"
  using assms(1)
proof (cases rule: fork_push_block_cases [of _ _ b])
  case (linked p)
  have "p < length (items fd)" "fi_id (item fd p) = bv_previous bv b"
    using find_by_id_Some [OF linked(1)] assms(1) by (auto simp: fork_ok_def)
  then have "items_ok bv (items fd @ [make_fork_item bv b\<lparr>fi_prev := Some p\<rparr>])"
    using assms linked(3) by (intro items_ok_link) (auto simp: fork_ok_def)
  then show ?thesis using pushed_ok [OF assms(1)] linked by simp
next
  case root
  have "items_ok bv (items fd @ [make_fork_item bv b\<lparr>fi_prev := None\<rparr>])"
    using assms(1) by (simp add: make_fork_item_prev_None fork_ok_def items_ok_new)
  then show ?thesis using pushed_ok [OF assms(1)] root by simp
qed (simp_all add: allocated_ok [OF assms(1)])

section \<open>Branches\<close>

definition parent :: "'b fork_database \<Rightarrow> nat \<Rightarrow> nat \<Rightarrow> bool" where
  "parent fd a p \<longleftrightarrow> fi_prev (item fd a) = Some p"

definition branch :: "'b fork_database \<Rightarrow> nat \<Rightarrow> nat list \<Rightarrow> bool" where
  "branch fd a xs \<longleftrightarrow> xs \<noteq> [] \<and> hd xs = a \<and> successively (parent fd) xs"

abbreviation height :: "'b fork_database \<Rightarrow> nat \<Rightarrow> int" where
  "height fd a \<equiv> uint (fi_num (item fd a))"

lemma parentD:
  assumes "fork_ok bv fd" and "a < length (items fd)" and "parent fd a p"
  shows "p < a" and "height fd a = height fd p + 1" and "fi_id (item fd p) = previous_id bv (item fd a)"
  using assms by (auto simp: fork_ok_def items_ok_def item_ok_def parent_def)

lemma item_num:
  "fork_ok bv fd \<Longrightarrow> a < length (items fd) \<Longrightarrow> bv_num bv (fi_data (item fd a)) = fi_num (item fd a)"
  by (auto simp: fork_ok_def items_ok_def item_ok_def)

lemma branch_single [simp]: "branch fd a [b] \<longleftrightarrow> b = a"
  by (auto simp: branch_def)

lemma branch_Cons: "branch fd a (b # xs) \<longleftrightarrow> b = a \<and> (xs = [] \<or> (parent fd a (hd xs) \<and> branch fd (hd xs) xs))"
  by (cases xs) (auto simp: branch_def)

lemma branch_height:
  assumes "fork_ok bv fd"
  shows "a < length (items fd) \<Longrightarrow> branch fd a xs \<Longrightarrow> i < length xs \<Longrightarrow>
    xs ! i < length (items fd) \<and> height fd (xs ! i) = height fd a - int i"
proof (induction xs arbitrary: a i)
  case (Cons b xs)
  show ?case
  proof (cases i)
    case 0
    with Cons.prems show ?thesis by (simp add: branch_Cons)
  next
    case (Suc j)
    with Cons.prems have "parent fd a (hd xs)" "branch fd (hd xs) xs" "j < length xs" by (auto simp: branch_Cons)
    moreover from parentD [OF assms Cons.prems(1) this(1)] Cons.prems(1)
    have "hd xs < length (items fd)" "height fd a = height fd (hd xs) + 1" by auto
    ultimately show ?thesis using Cons.IH [of "hd xs" j] Suc Cons.prems(2) by (simp add: branch_Cons)
  qed
qed simp

lemma climb_above_ends:
  assumes ok: "fork_ok bv fd" and b: "b < length (items fd)"
  shows "a < length (items fd) \<Longrightarrow> a < fuel \<Longrightarrow>
    (\<exists>e. climb_above fuel bv fd a b acc = Some (Inl e)) \<or>
    (\<exists>ts c. climb_above fuel bv fd a b acc = Some (Inr (acc @ ts, c)) \<and> branch fd a (ts @ [c]) \<and> c \<le> a \<and>
       height fd c \<le> height fd b \<and> (\<forall>x \<in> set ts. height fd b < height fd x) \<and>
       (ts \<noteq> [] \<longrightarrow> height fd c = height fd b))"
proof (induction fuel arbitrary: a acc)
  case (Suc fuel)
  have na: "bv_num bv (fi_data (item fd a)) = fi_num (item fd a)" "bv_num bv (fi_data (item fd b)) = fi_num (item fd b)"
    using item_num [OF ok] Suc.prems(1) b by auto
  show ?case
  proof (cases "fi_num (item fd a) > fi_num (item fd b)")
    case False
    then show ?thesis
      by (intro disjI2 exI [of _ "[]"] exI [of _ a]) (simp add: na word_less_def not_less)
  next
    case gt: True
    show ?thesis
    proof (cases "lock fd (fi_prev (item fd a))")
      case None
      then show ?thesis using gt by (simp add: na)
    next
      case (Some p)
      then have par: "parent fd a p" using lock_Some by (fastforce simp: parent_def)
      note P = parentD [OF ok Suc.prems(1) par]
      have step: "climb_above (Suc fuel) bv fd a b acc = climb_above fuel bv fd p b (acc @ [a])"
        using gt Some by (simp add: na)
      from P(1) Suc.prems have "p < length (items fd)" "p < fuel" by auto
      from Suc.IH [OF this, of "acc @ [a]"] show ?thesis
      proof (elim disjE exE conjE)
        fix ts c
        assume r: "climb_above fuel bv fd p b (acc @ [a]) = Some (Inr ((acc @ [a]) @ ts, c))"
          and br: "branch fd p (ts @ [c])" and c: "c \<le> p" "height fd c \<le> height fd b"
          and above: "\<forall>x \<in> set ts. height fd b < height fd x" and last: "ts \<noteq> [] \<longrightarrow> height fd c = height fd b"
        have hp: "height fd b \<le> height fd p" using gt P(2) by (simp add: word_less_def)
        have "hd (ts @ [c]) = p" using br by (simp add: branch_def)
        then have "branch fd a ((a # ts) @ [c])" using br par by (simp add: branch_Cons)
        moreover have "height fd c = height fd b"
        proof (cases ts)
          case Nil
          then have "c = p" using br by simp
          then show ?thesis using hp c(2) by simp
        qed (use last in simp)
        moreover have "height fd b < height fd a" using gt by (simp add: word_less_def)
        ultimately show ?thesis unfolding step
          using r above c P(1) by (intro disjI2 exI [of _ "a # ts"] exI [of _ c]) auto
      qed (simp only: step, blast)
    qed
  qed
qed simp

lemma climb_both_ends:
  assumes ok: "fork_ok bv fd"
  shows "a < length (items fd) \<Longrightarrow> b < length (items fd) \<Longrightarrow> a < fuel \<Longrightarrow>
    (\<exists>e. climb_both fuel bv fd a b xs ys = Some (Inl e)) \<or>
    (\<exists>us c vs d. climb_both fuel bv fd a b xs ys = Some (Inr ((xs @ us, c), (ys @ vs, d))) \<and>
       branch fd a (us @ [c]) \<and> branch fd b (vs @ [d]) \<and> length us = length vs \<and>
       previous_id bv (item fd c) = previous_id bv (item fd d) \<and>
       (\<forall>i < length us. previous_id bv (item fd (us ! i)) \<noteq> previous_id bv (item fd (vs ! i))))"
proof (induction fuel arbitrary: a b xs ys)
  case (Suc fuel)
  show ?case
  proof (cases "previous_id bv (item fd a) = previous_id bv (item fd b)")
    case True
    then show ?thesis
      by (intro disjI2 exI [of _ "[]"] exI [of _ a] exI [of _ b] conjI) auto
  next
    case ne: False
    show ?thesis
    proof (cases "lock fd (fi_prev (item fd a))")
      case None
      then show ?thesis using ne by simp
    next
      case p: (Some p)
      show ?thesis
      proof (cases "lock fd (fi_prev (item fd b))")
        case None
        then show ?thesis using ne p by simp
      next
        case q: (Some q)
        have par: "parent fd a p" "parent fd b q" using lock_Some [OF p] lock_Some [OF q] by (auto simp: parent_def)
        note P = parentD [OF ok Suc.prems(1) par(1)] and Q = parentD [OF ok Suc.prems(2) par(2)]
        have step: "climb_both (Suc fuel) bv fd a b xs ys = climb_both fuel bv fd p q (xs @ [a]) (ys @ [b])"
          using ne p q by simp
        from P(1) Q(1) Suc.prems have "p < length (items fd)" "q < length (items fd)" "p < fuel" by auto
        from Suc.IH [OF this, of "xs @ [a]" "ys @ [b]"] show ?thesis
        proof (elim disjE exE conjE)
          fix us c vs d
          assume r: "climb_both fuel bv fd p q (xs @ [a]) (ys @ [b]) = Some (Inr (((xs @ [a]) @ us, c), ((ys @ [b]) @ vs, d)))"
            and br: "branch fd p (us @ [c])" "branch fd q (vs @ [d])" and len: "length us = length vs"
            and eq: "previous_id bv (item fd c) = previous_id bv (item fd d)"
            and neq: "\<forall>i < length us. previous_id bv (item fd (us ! i)) \<noteq> previous_id bv (item fd (vs ! i))"
          have "hd (us @ [c]) = p" "hd (vs @ [d]) = q" using br by (simp_all add: branch_def)
          then have "branch fd a ((a # us) @ [c])" "branch fd b ((b # vs) @ [d])" using br par by (simp_all add: branch_Cons)
          moreover have "\<forall>i < length (a # us). previous_id bv (item fd ((a # us) ! i)) \<noteq> previous_id bv (item fd ((b # vs) ! i))"
            using ne neq by (auto simp: less_Suc_eq_0_disj)
          ultimately show ?thesis unfolding step
            using r len eq by (intro disjI2 exI [of _ "a # us"] exI [of _ c] exI [of _ "b # vs"] exI [of _ d]) auto
        qed (simp only: step, blast)
      qed
    qed
  qed
qed simp

end
