(* ===== verification/Fork_Properties.thy ===== *)
theory Fork_Properties
  imports Fork_Correct
begin

text \<open>
  The properties of the fork database.
\<close>

section \<open>Lemmas\<close>

lemma branch_append_heads:
  assumes "branch fd a (xs @ [c])" and "branch fd c (ys @ [d])"
  shows "branch fd a ((xs @ ys) @ [d])"
  using assms
proof (induction xs arbitrary: a)
  case Nil
  then show ?case by simp
next
  case (Cons x xs)
  have "branch fd (hd (xs @ [c])) (xs @ [c])" and "x = a" and p: "parent fd a (hd (xs @ [c]))"
    using Cons.prems(1) by (auto simp: branch_Cons)
  with Cons.IH [OF _ Cons.prems(2)] have b: "branch fd (hd (xs @ [c])) ((xs @ ys) @ [d])" by blast
  then have "hd ((xs @ ys) @ [d]) = hd (xs @ [c])" by (simp add: branch_def)
  with b p \<open>x = a\<close> show ?case by (simp add: branch_Cons)
qed

lemma branch_range:
  assumes "fork_ok bv fd" and "a < length (items fd)" and "branch fd a xs" and "x \<in> set xs"
  shows "x < length (items fd)" and "height fd x \<le> height fd a"
  using branch_height [OF assms(1-3)] assms(4) by (auto simp: in_set_conv_nth)

lemma branch_last_le:
  assumes "fork_ok bv fd" and "a < length (items fd)" and "branch fd a (xs @ [c])" and "x \<in> set xs"
  shows "height fd c < height fd x"
proof -
  obtain i where i: "i < length xs" "x = xs ! i" using assms(4) by (auto simp: in_set_conv_nth)
  have "height fd ((xs @ [c]) ! length xs) = height fd a - int (length xs)"
    by (rule conjunct2 [OF branch_height [OF assms(1-3)]]) simp
  moreover have "height fd ((xs @ [c]) ! i) = height fd a - int i"
    using i by (intro conjunct2 [OF branch_height [OF assms(1-3)]]) simp
  ultimately show ?thesis using i by (simp add: nth_append)
qed

lemma same_previous_same_height:
  assumes "view_ok bv" and "fork_ok bv fd" and "x < length (items fd)" and "y < length (items fd)"
    and "previous_id bv (item fd x) = previous_id bv (item fd y)"
  shows "height fd x = height fd y"
proof -
  obtain num where "\<And>b. bv_num bv b = num (bv_previous bv b) + 1"
    using assms(1) unfolding view_ok_def by blast
  then have "bv_num bv (fi_data (item fd x)) = bv_num bv (fi_data (item fd y))"
    using assms(5) by (metis previous_id_def)
  then show ?thesis using item_num [OF assms(2)] assms(3,4) by simp
qed

section \<open>Properties\<close>

definition sound_branches ::
  "'b block_view \<Rightarrow> 'b fork_database \<Rightarrow> block_id \<Rightarrow> block_id \<Rightarrow> nat list \<Rightarrow> nat list \<Rightarrow> bool" where
  \<comment> \<open>two branches that start at the two blocks, and whose last items are their only pair of items
     with the same predecessor\<close>
  "sound_branches bv fd i j xs ys \<longleftrightarrow>
     (\<exists>first second. find_by_id fd (fork_index fd) i = Some first \<and> find_by_id fd (fork_index fd) j = Some second \<and>
        branch fd first xs \<and> branch fd second ys) \<and>
     (\<forall>x \<in> set xs. \<forall>y \<in> set ys.
        previous_id bv (item fd x) = previous_id bv (item fd y) \<longleftrightarrow> x = last xs \<and> y = last ys)"

lemma branches_meet_once:
  \<comment> \<open>two branches whose parts above the height of the other's end are cut off, and that then climb in step
     to items on the same predecessor, share no other predecessor\<close>
  assumes ok: "fork_ok bv fd" "view_ok bv" and f: "f < length (items fd)" and s: "s < length (items fd)"
    and A: "branch fd f (ts @ [c])" "c \<le> f" "\<forall>x \<in> set ts. height fd s < height fd x"
    and B: "branch fd s (us @ [d])" "d \<le> s" "\<forall>x \<in> set us. height fd c < height fd x"
    and C: "branch fd c (vs @ [a])" "branch fd d (ws @ [b])" "length vs = length ws"
      "previous_id bv (item fd a) = previous_id bv (item fd b)"
      "\<forall>i < length vs. previous_id bv (item fd (vs ! i)) \<noteq> previous_id bv (item fd (ws ! i))"
    and x: "x \<in> set ((ts @ vs) @ [a])" and y: "y \<in> set ((us @ ws) @ [b])"
    and e: "previous_id bv (item fd x) = previous_id bv (item fd y)"
  shows "x = a \<and> y = b"
proof -
  let ?xs = "(ts @ vs) @ [a]" and ?ys = "(us @ ws) @ [b]"
  have br: "branch fd f ?xs" "branch fd s ?ys"
    using branch_append_heads [OF A(1) C(1)] branch_append_heads [OF B(1) C(2)] by simp_all
  note inx = branch_range(1) [OF ok(1) f br(1)] and iny = branch_range(1) [OF ok(1) s br(2)]
  have cd: "c < length (items fd)" "d < length (items fd)" using A(2) B(2) f s by simp_all
  have hv: "height fd ((vs @ [a]) ! k) = height fd c - int k" if "k \<le> length vs" for k
    using branch_height [OF ok(1) cd(1) C(1), of k] that by simp
  have hw: "height fd ((ws @ [b]) ! k) = height fd d - int k" if "k \<le> length ws" for k
    using branch_height [OF ok(1) cd(2) C(2), of k] that by simp
  have hab: "height fd a = height fd b" by (rule same_previous_same_height [OF ok(2,1) inx iny C(4)]) simp_all
  then have hcd: "height fd c = height fd d" using hv [OF order_refl] hw [OF order_refl] C(3) by (simp add: nth_append)
  have h: "height fd x = height fd y" by (rule same_previous_same_height [OF ok(2,1) inx [OF x] iny [OF y] e])
  have "x \<notin> set ts" using A(3) branch_range(2) [OF ok(1) s br(2) y] h by fastforce
  with x have "x \<in> set (vs @ [a])" by auto
  then obtain k where k: "k \<le> length vs" "x = (vs @ [a]) ! k"
    by (auto simp only: in_set_conv_nth length_append_singleton less_Suc_eq_le)
  have "y \<notin> set us" using B(3) hv [OF k(1)] k(2) h by fastforce
  with y have "y \<in> set (ws @ [b])" by auto
  then obtain l where l: "l \<le> length ws" "y = (ws @ [b]) ! l"
    by (auto simp only: in_set_conv_nth length_append_singleton less_Suc_eq_le)
  have "k = l" using hv [OF k(1)] hw [OF l(1)] k l h hcd by simp
  moreover have "\<not> k < length vs"
  proof
    assume "k < length vs"
    with C(3,5) k l \<open>k = l\<close> e show False by (simp add: nth_append)
  qed
  ultimately show ?thesis using k l C(3) by (simp add: nth_append)
qed

lemma sound_branchesI:
  assumes "find_by_id fd (fork_index fd) i = Some f" and "find_by_id fd (fork_index fd) j = Some s"
    and "branch fd f (xs @ [a])" and "branch fd s (ys @ [b])"
    and "previous_id bv (item fd a) = previous_id bv (item fd b)"
    and "\<And>x y. x \<in> set (xs @ [a]) \<Longrightarrow> y \<in> set (ys @ [b]) \<Longrightarrow>
      previous_id bv (item fd x) = previous_id bv (item fd y) \<Longrightarrow> x = a \<and> y = b"
  shows "sound_branches bv fd i j (xs @ [a]) (ys @ [b])"
  unfolding sound_branches_def
proof (intro conjI ballI)
  fix x y assume xy: "x \<in> set (xs @ [a])" "y \<in> set (ys @ [b])"
  show "previous_id bv (item fd x) = previous_id bv (item fd y) \<longleftrightarrow> x = last (xs @ [a]) \<and> y = last (ys @ [b])"
    using assms(6) [OF xy] assms(5) by (auto simp only: last_snoc)
qed (use assms(1-4) in blast)

text \<open>C15: \<open>fetch_branch_from\<close> ends, and when it returns, the two branches lead from the two given
  blocks through predecessors to two blocks on the same predecessor, and these are the first such
  pair: no other block of the one branch shares a predecessor with a block of the other.
  The fork database is well formed.\<close>

theorem fetch_branch_from_common_ancestor:
  assumes "fork_ok bv fd" and "view_ok bv"
  shows "\<exists>r. fetch_branch_from bv i j fd = Some r \<and> (\<forall>xs ys. r = Inr (xs, ys) \<longrightarrow> sound_branches bv fd i j xs ys)"
proof (cases "find_by_id fd (fork_index fd) i = None \<or> find_by_id fd (fork_index fd) j = None")
  case True
  then show ?thesis by (auto simp: fetch_branch_from_def split: option.splits)
next
  case False
  then obtain f s where f: "find_by_id fd (fork_index fd) i = Some f" and s: "find_by_id fd (fork_index fd) j = Some s" by auto
  let ?n = "length (items fd)"
  have lt: "f < ?n" "s < ?n" using find_by_id_Some [OF f] find_by_id_Some [OF s] assms(1) by (auto simp: fork_ok_def)
  from climb_above_ends [OF assms(1) lt(2) lt(1), of "?n + 1" "[]"] lt(1) f s
  consider "\<exists>e. fetch_branch_from bv i j fd = Some (Inl e)"
    | (first) ts c where "climb_above (?n + 1) bv fd f s [] = Some (Inr (ts, c))" "branch fd f (ts @ [c])" "c \<le> f"
        "\<forall>x \<in> set ts. height fd s < height fd x"
    by (auto simp: fetch_branch_from_def)
  then show ?thesis
  proof cases
    case A: first
    have cl: "c < ?n" using A(3) lt(1) by simp
    from climb_above_ends [OF assms(1) cl lt(2), of "?n + 1" "[]"] lt(2) f s A(1)
    consider "\<exists>e. fetch_branch_from bv i j fd = Some (Inl e)"
      | (second) us d where "climb_above (?n + 1) bv fd s c [] = Some (Inr (us, d))" "branch fd s (us @ [d])" "d \<le> s"
          "\<forall>x \<in> set us. height fd c < height fd x"
      by (auto simp: fetch_branch_from_def)
    then show ?thesis
    proof cases
      case B: second
      have dl: "d < ?n" using B(3) lt(2) by simp
      from climb_both_ends [OF assms(1) cl dl, of "?n + 1" ts us] cl f s A(1) B(1)
      consider "\<exists>e. fetch_branch_from bv i j fd = Some (Inl e)"
        | (both) vs a ws b where "fetch_branch_from bv i j fd = Some (Inr ((ts @ vs) @ [a], (us @ ws) @ [b]))"
            "branch fd c (vs @ [a])" "branch fd d (ws @ [b])" "length vs = length ws"
            "previous_id bv (item fd a) = previous_id bv (item fd b)"
            "\<forall>i < length vs. previous_id bv (item fd (vs ! i)) \<noteq> previous_id bv (item fd (ws ! i))"
        by (auto simp: fetch_branch_from_def)
      then show ?thesis
      proof cases
        case C: both
        have "sound_branches bv fd i j ((ts @ vs) @ [a]) ((us @ ws) @ [b])"
          by (rule sound_branchesI [OF f s branch_append_heads [OF A(2) C(2)] branch_append_heads [OF B(2) C(3)] C(5)])
            (rule branches_meet_once [OF assms lt A(2-4) B(2-4) C(2-6)])
        then show ?thesis using C(1) by blast
      qed auto
    qed auto
  qed auto
qed

definition word_view :: "32 word list block_view" where
  \<comment> \<open>blocks that list the numbers of their ancestors and a tag, for examples\<close>
  "word_view = \<lparr>bv_num = (\<lambda>b. hd b), bv_id = (\<lambda>b. Hash160 (hd b) (last b) 0 0 1),
     bv_previous = (\<lambda>b. Hash160 (hd b - 1) (hd (tl b)) 0 0 1)\<rparr>"

lemma word_view_ok: "view_ok word_view"
  unfolding view_ok_def word_view_def by (intro exI [of _ hash_word0]) simp

lemma new_fork_database_ok: "fork_ok bv new_fork_database"
  by (simp add: fork_ok_def new_fork_database_def items_ok_def)

lemma pushed_blocks_ok:
  "fork_ok word_view (fold (\<lambda>b fd. snd (fork_push_block word_view b fd)) bs new_fork_database)"
proof -
  have "fork_ok word_view fd \<Longrightarrow> fork_ok word_view (fold (\<lambda>b fd. snd (fork_push_block word_view b fd)) bs fd)" for fd
    by (induction bs arbitrary: fd) (simp_all add: push_block_ok [OF _ word_view_ok])
  then show ?thesis using new_fork_database_ok by blast
qed

definition forked_database :: "32 word list fork_database" where
  \<comment> \<open>block 1, and on it the two forks 2-3-4 and 2'-3'\<close>
  "forked_database = fold (\<lambda>b fd. snd (fork_push_block word_view b fd))
     [[1, 0, 10], [2, 10, 20], [3, 20, 30], [2, 10, 21], [3, 21, 31], [4, 30, 40]] new_fork_database"

theorem fetch_branch_from_common_ancestor_witness:
  "fetch_branch_from word_view (Hash160 4 40 0 0 1) (Hash160 3 31 0 0 1) forked_database = Some (Inr ([5, 2, 1], [4, 3])) \<and>
   sound_branches word_view forked_database (Hash160 4 40 0 0 1) (Hash160 3 31 0 0 1) [5, 2, 1] [4, 3]"
proof -
  have "fork_ok word_view forked_database"
    unfolding forked_database_def by (rule pushed_blocks_ok)
  from fetch_branch_from_common_ancestor [OF this word_view_ok, of "Hash160 4 40 0 0 1" "Hash160 3 31 0 0 1"]
  have "fetch_branch_from word_view (Hash160 4 40 0 0 1) (Hash160 3 31 0 0 1) forked_database = Some (Inr ([5, 2, 1], [4, 3])) \<Longrightarrow> ?thesis"
    by auto
  moreover have "fetch_branch_from word_view (Hash160 4 40 0 0 1) (Hash160 3 31 0 0 1) forked_database = Some (Inr ([5, 2, 1], [4, 3]))"
    by code_simp
  ultimately show ?thesis by blast
qed

lemma window_start:
  fixes n m :: "32 word"
  shows "uint n - uint m \<le> uint (n - min m n)"
proof (cases "m \<le> n")
  case True
  then have "uint (n - m) = uint n - uint m" by (simp add: uint_sub_lem word_le_def)
  with True show ?thesis by (simp add: min_def)
next
  case False
  then show ?thesis by (simp add: min_def word_le_def)
qed

lemma pushed_higher:
  assumes "fork_head fd = Some old" and "old < length (items fd)" and "fi_num (item fd old) < bv_num bv b"
  shows "fork_head (pushed bv b p fd) = Some (length (items fd))"
    and "a \<in> set (fork_index (pushed bv b p fd)) \<Longrightarrow> uint (bv_num bv b) - uint (fork_max_size fd) \<le> height (pushed bv b p fd) a"
proof -
  let ?n = "bv_num bv b"
  have fd': "pushed bv b p fd = (let fd1 = fd\<lparr>items := items fd @ [make_fork_item bv b\<lparr>fi_prev := p\<rparr>]\<rparr>
      in fd1\<lparr>fork_head := Some (length (items fd)),
        fork_index := erase_below fd1 (uint (?n - min (fork_max_size fd) ?n)) (index_insert fd1 (length (items fd)) (fork_index fd)),
        unlinked_index := filter (\<lambda>x. fi_num (item fd1 x) \<noteq> ?n - fork_max_size fd) (unlinked_index fd)\<rparr>)"
    using assms by (simp add: pushed_def Let_def advance_head_def nth_append make_fork_item_def erase_below_def)
  then show "fork_head (pushed bv b p fd) = Some (length (items fd))" by (simp add: Let_def)
  have "uint (?n - min (fork_max_size fd) ?n) \<le> height (pushed bv b p fd) a" if "a \<in> set (fork_index (pushed bv b p fd))"
    using that by (auto simp: fd' Let_def erase_below_def)
  with window_start [of ?n "fork_max_size fd"]
  show "a \<in> set (fork_index (pushed bv b p fd)) \<Longrightarrow> uint ?n - uint (fork_max_size fd) \<le> height (pushed bv b p fd) a" by force
qed

text \<open>C17: pushing a block keeps the fork database well-formed, and when it returns, the head is the
  block with the greatest number: the pushed block when its number exceeds the old head's, the
  old head otherwise; after the head has moved no kept block is more than the configured size
  below it.\<close>

theorem push_block_longest_chain:
  assumes "fork_ok bv fd" and "view_ok bv" and "fork_push_block bv b fd = (Inr h, fd')"
  shows "fork_ok bv fd' \<and> h = fork_head fd' \<and>
    (case fork_head fd of
       None \<Rightarrow> h = Some (length (items fd))
     | Some old \<Rightarrow> h = Some (if fi_num (item fd old) < bv_num bv b then length (items fd) else old)) \<and>
    (h = Some (length (items fd)) \<and> fork_head fd \<noteq> None \<longrightarrow>
       (\<forall>a \<in> set (fork_index fd'). uint (bv_num bv b) - uint (fork_max_size fd) \<le> height fd' a))"
proof -
  have ok: "fork_ok bv fd'" using push_block_ok [OF assms(1,2), of b] assms(3) by simp
  obtain p where p: "fd' = pushed bv b p fd" "h = fork_head fd'"
    using assms(1,3) by (cases rule: fork_push_block_cases [of _ _ b]) auto
  show ?thesis
  proof (cases "fork_head fd")
    case None
    then show ?thesis using ok p by (simp add: pushed_def Let_def advance_head_def)
  next
    case (Some old)
    then have hd: "old < length (items fd)" using assms(1) by (simp add: fork_ok_def)
    show ?thesis
    proof (cases "fi_num (item fd old) < bv_num bv b")
      case True
      then show ?thesis using ok p Some pushed_higher [OF Some hd True] by simp
    next
      case False
      then have "fork_head fd' = Some old"
        using Some hd p(1) by (simp add: pushed_def Let_def advance_head_def nth_append make_fork_item_def)
      then show ?thesis using ok p(2) Some False hd by simp
    qed
  qed
qed

theorem push_block_longest_chain_witness:
  "fork_head (snd (fork_push_block word_view [5, 40, 50] forked_database)) = Some 6"
proof -
  have ok: "fork_ok word_view forked_database"
    unfolding forked_database_def by (rule pushed_blocks_ok)
  have "is_ok (fst (fork_push_block word_view [5, 40, 50] forked_database))" by code_simp
  then obtain h where h: "fork_push_block word_view [5, 40, 50] forked_database =
      (Inr h, snd (fork_push_block word_view [5, 40, 50] forked_database))"
    by (metis is_ok_iff prod.collapse)
  have "fork_head forked_database = Some 5" "length (items forked_database) = 6"
    "fi_num (item forked_database 5) < 5" by (code_simp, code_simp, code_simp)
  moreover have "bv_num word_view [5, 40, 50] = 5" by (simp add: word_view_def)
  ultimately show ?thesis using push_block_longest_chain [OF ok word_view_ok h] by auto
qed

text \<open>A block whose predecessor is unknown is rejected and forgotten: the head, the index and
  the window are unchanged, and the block is not known afterwards, although the comments of the
  code say that such blocks are cached.\<close>

theorem unlinkable_block_is_not_cached:
  assumes "fork_ok bv fd" and "fork_push_block bv b fd = (Inl Unlinkable_Block, fd')" and "\<not> is_known_block (bv_id bv b) fd"
  shows "fork_head fd' = fork_head fd \<and> fork_index fd' = fork_index fd \<and> unlinked_index fd' = [] \<and>
    \<not> is_known_block (bv_id bv b) fd'"
proof -
  have "fd' = allocated bv b fd"
    using assms(1,2) by (cases rule: fork_push_block_cases [of _ _ b]) auto
  moreover have "find_by_id (allocated bv b fd) (fork_index fd) i = find_by_id fd (fork_index fd) i" for i
    using assms(1) by (intro find_by_id_allocated) (simp add: fork_ok_def)
  ultimately show ?thesis
    using assms(1,3) by (auto simp: is_known_block_def allocated_def fork_ok_def find_by_id_def split: if_splits)
qed

theorem unlinkable_block_is_not_cached_witness:
  "\<not> is_known_block (Hash160 9 90 0 0 1) (snd (fork_push_block word_view [9, 80, 90] forked_database))"
proof -
  have ok: "fork_ok word_view forked_database"
    unfolding forked_database_def by (rule pushed_blocks_ok)
  have "fst (fork_push_block word_view [9, 80, 90] forked_database) = Inl Unlinkable_Block" by code_simp
  then have push: "fork_push_block word_view [9, 80, 90] forked_database =
      (Inl Unlinkable_Block, snd (fork_push_block word_view [9, 80, 90] forked_database))"
    by (metis prod.collapse)
  have "\<not> is_known_block (bv_id word_view [9, 80, 90]) forked_database" by code_simp
  from unlinkable_block_is_not_cached [OF ok push this] show ?thesis by (simp add: word_view_def)
qed

end
