(* ===== verification/Assets.thy ===== *)
theory Assets
  imports Object_Id
begin

text \<open>
  Amounts, prices and their text (\<open>protocol/asset.hpp\<close>, \<open>protocol/asset.cpp\<close>,
  \<open>asset_object.cpp\<close>).

  A \<open>share_type\<close> is an \<open>fc::safe<int64_t>\<close>, whose operations throw when their result leaves the
  64 bits: an integer, with the check as the parameter \<open>sf\<close> and its contract \<open>safe_int\<close>.  The
  unsigned 128-bit type of boost is the parameter \<open>u128\<close>, which reduces a result, with the
  contract \<open>wide_int\<close>: it changes no value that fits.  \<open>fc::to_string\<close> is the parameter \<open>to_str\<close>.
\<close>

section \<open>Contracts of the number types\<close>

definition safe_int :: "(int \<Rightarrow> int res) \<Rightarrow> bool" where
  "safe_int sf \<longleftrightarrow> (\<forall>x. if - (2 ^ 63) \<le> x \<and> x < 2 ^ 63 then sf x = Inr x else (\<exists>e. sf x = Inl e))"

definition wide_int :: "(int \<Rightarrow> int) \<Rightarrow> bool" where
  "wide_int u128 \<longleftrightarrow> (\<forall>x. 0 \<le> x \<longrightarrow> x < 2 ^ 128 \<longrightarrow> u128 x = x)"

definition decimal_text :: "(int \<Rightarrow> string) \<Rightarrow> bool" where
  "decimal_text to_str \<longleftrightarrow> (\<forall>n. to_str (int n) = dec_of_nat n)"

definition checked64 :: "int \<Rightarrow> int res" where
  \<comment> \<open>an instance of \<open>safe_int\<close>, for examples\<close>
  "checked64 x = (if - (2 ^ 63) \<le> x \<and> x < 2 ^ 63 then Inr x else Inl Overflow_Exception)"

lemma safe_int_checked64: "safe_int checked64"
  by (simp add: safe_int_def checked64_def)

lemma safe_intD: "safe_int sf \<Longrightarrow> sf x = Inr y \<longleftrightarrow> y = x \<and> - (2 ^ 63) \<le> x \<and> x < 2 ^ 63"
  unfolding safe_int_def by (metis Inl_Inr_False Inr_inject)

lemma safe_int_ok: "safe_int sf \<Longrightarrow> - (2 ^ 63) \<le> x \<Longrightarrow> x < 2 ^ 63 \<Longrightarrow> sf x = Inr x"
  by (simp add: safe_intD)

lemma wide_intD: "wide_int u128 \<Longrightarrow> 0 \<le> x \<Longrightarrow> x < 2 ^ 128 \<Longrightarrow> u128 x = x"
  by (simp add: wide_int_def)

lemma wide_int_mod: "wide_int (\<lambda>x. x mod 2 ^ 128)"
  by (simp add: wide_int_def)

definition GRAPHENE_MAX_SHARE_SUPPLY :: int where
  "GRAPHENE_MAX_SHARE_SUPPLY = 100000000000000000"

section \<open>Assets\<close>

type_synonym asset_id = nat

record asset =
  amount :: int
  asset_id :: asset_id

definition asset_plus :: "(int \<Rightarrow> int res) \<Rightarrow> asset \<Rightarrow> asset \<Rightarrow> asset res" where
  "asset_plus sf a b = res_bind (fc_assert (asset_id a = asset_id b)) (\<lambda>_.
     res_bind (sf (amount a + amount b)) (\<lambda>n. Inr (a\<lparr>amount := n\<rparr>)))"

definition asset_minus :: "(int \<Rightarrow> int res) \<Rightarrow> asset \<Rightarrow> asset \<Rightarrow> asset res" where
  "asset_minus sf a b = res_bind (fc_assert (asset_id a = asset_id b)) (\<lambda>_.
     res_bind (sf (amount a - amount b)) (\<lambda>n. Inr (a\<lparr>amount := n\<rparr>)))"

definition asset_neg :: "(int \<Rightarrow> int res) \<Rightarrow> asset \<Rightarrow> asset res" where
  "asset_neg sf a = res_bind (sf (- amount a)) (\<lambda>n. Inr (a\<lparr>amount := n\<rparr>))"

definition asset_eq :: "asset \<Rightarrow> asset \<Rightarrow> bool" where
  "asset_eq a b \<longleftrightarrow> asset_id a = asset_id b \<and> amount a = amount b"

definition asset_less :: "asset \<Rightarrow> asset \<Rightarrow> bool res" where
  "asset_less a b = res_bind (fc_assert (asset_id a = asset_id b)) (\<lambda>_. Inr (amount a < amount b))"

definition asset_less_eq :: "asset \<Rightarrow> asset \<Rightarrow> bool res" where
  \<comment> \<open>\<open>(a == b) || (a < b)\<close>: the comparison is made only when they differ\<close>
  "asset_less_eq a b = (if asset_eq a b then Inr True else asset_less a b)"

definition asset_greater :: "asset \<Rightarrow> asset \<Rightarrow> bool res" where
  "asset_greater a b = res_bind (asset_less_eq a b) (\<lambda>r. Inr (\<not> r))"

definition asset_greater_eq :: "asset \<Rightarrow> asset \<Rightarrow> bool res" where
  "asset_greater_eq a b = res_bind (asset_less a b) (\<lambda>r. Inr (\<not> r))"

definition asset_scale :: "(int \<Rightarrow> int res) \<Rightarrow> 32 word \<Rightarrow> asset \<Rightarrow> asset res" where
  "asset_scale sf k b = res_bind (sf (amount b * uint k)) (\<lambda>n. Inr (b\<lparr>amount := n\<rparr>))"

fun p10 :: "nat \<Rightarrow> int" where
  "p10 0 = 1"
| "p10 (Suc n) = 10 * p10 n"

definition scaled_precision_lut :: "int list" where
  "scaled_precision_lut = map p10 [0..<19]"

definition scaled_precision :: "nat \<Rightarrow> int res" where
  "scaled_precision prec = res_bind (fc_assert (prec < 19)) (\<lambda>_. Inr (scaled_precision_lut ! prec))"

section \<open>Prices\<close>

record price =
  base :: asset
  quote :: asset

definition price_eq :: "(int \<Rightarrow> int) \<Rightarrow> price \<Rightarrow> price \<Rightarrow> bool" where
  "price_eq u128 a b =
     (if (asset_id (base a), asset_id (quote a)) \<noteq> (asset_id (base b), asset_id (quote b)) then False
      else let amult = u128 (u128 (amount (quote b)) * amount (base a));
               bmult = u128 (u128 (amount (quote a)) * amount (base b))
           in amult = bmult)"

definition price_less :: "(int \<Rightarrow> int) \<Rightarrow> price \<Rightarrow> price \<Rightarrow> bool" where
  "price_less u128 a b =
     (if asset_id (base a) < asset_id (base b) then True
      else if asset_id (base a) > asset_id (base b) then False
      else if asset_id (quote a) < asset_id (quote b) then True
      else if asset_id (quote a) > asset_id (quote b) then False
      else let amult = u128 (u128 (amount (quote b)) * amount (base a));
               bmult = u128 (u128 (amount (quote a)) * amount (base b))
           in amult < bmult)"

definition price_less_eq :: "(int \<Rightarrow> int) \<Rightarrow> price \<Rightarrow> price \<Rightarrow> bool" where
  "price_less_eq u128 a b \<longleftrightarrow> price_eq u128 a b \<or> price_less u128 a b"

definition price_greater :: "(int \<Rightarrow> int) \<Rightarrow> price \<Rightarrow> price \<Rightarrow> bool" where
  "price_greater u128 a b \<longleftrightarrow> \<not> price_less_eq u128 a b"

definition price_greater_eq :: "(int \<Rightarrow> int) \<Rightarrow> price \<Rightarrow> price \<Rightarrow> bool" where
  "price_greater_eq u128 a b \<longleftrightarrow> \<not> price_less u128 a b"

definition asset_times_price :: "(int \<Rightarrow> int) \<Rightarrow> asset \<Rightarrow> price \<Rightarrow> asset res" where
  "asset_times_price u128 a b =
     (if asset_id a = asset_id (base b)
      then res_bind (fc_assert (amount (base b) > 0)) (\<lambda>_.
           let result = u128 (u128 (amount a) * amount (quote b)) div amount (base b)
           in res_bind (fc_assert (result \<le> GRAPHENE_MAX_SHARE_SUPPLY)) (\<lambda>_.
              Inr \<lparr>amount = result, asset_id = asset_id (quote b)\<rparr>))
      else if asset_id a = asset_id (quote b)
      then res_bind (fc_assert (amount (quote b) > 0)) (\<lambda>_.
           let result = u128 (u128 (amount a) * amount (base b)) div amount (quote b)
           in res_bind (fc_assert (result \<le> GRAPHENE_MAX_SHARE_SUPPLY)) (\<lambda>_.
              Inr \<lparr>amount = result, asset_id = asset_id (base b)\<rparr>))
      else Inl Assert_Exception)"

definition asset_div :: "asset \<Rightarrow> asset \<Rightarrow> price res" where
  "asset_div b q = res_bind (fc_assert (asset_id b \<noteq> asset_id q)) (\<lambda>_. Inr \<lparr>base = b, quote = q\<rparr>)"

definition price_max :: "asset_id \<Rightarrow> asset_id \<Rightarrow> price res" where
  "price_max b q = asset_div \<lparr>amount = GRAPHENE_MAX_SHARE_SUPPLY, asset_id = b\<rparr> \<lparr>amount = 1, asset_id = q\<rparr>"

definition price_min :: "asset_id \<Rightarrow> asset_id \<Rightarrow> price res" where
  "price_min b q = asset_div \<lparr>amount = 1, asset_id = b\<rparr> \<lparr>amount = GRAPHENE_MAX_SHARE_SUPPLY, asset_id = q\<rparr>"

definition unit_price :: "asset_id \<Rightarrow> price" where
  "unit_price a = \<lparr>base = \<lparr>amount = 1, asset_id = a\<rparr>, quote = \<lparr>amount = 1, asset_id = a\<rparr>\<rparr>"

definition null_price :: price where
  "null_price = \<lparr>base = \<lparr>amount = 0, asset_id = 0\<rparr>, quote = \<lparr>amount = 0, asset_id = 0\<rparr>\<rparr>"

definition price_invert :: "price \<Rightarrow> price" where
  "price_invert p = \<lparr>base = quote p, quote = base p\<rparr>"

definition price_is_null :: "(int \<Rightarrow> int) \<Rightarrow> price \<Rightarrow> bool" where
  "price_is_null u128 p = price_eq u128 p null_price"

definition price_validate :: "price \<Rightarrow> unit res" where
  "price_validate p =
     res_bind (fc_assert (amount (base p) > 0)) (\<lambda>_.
     res_bind (fc_assert (amount (quote p) > 0)) (\<lambda>_.
     fc_assert (asset_id (base p) \<noteq> asset_id (quote p))))"

definition price_feed_is_for :: "(int \<Rightarrow> int) \<Rightarrow> price \<Rightarrow> asset_id \<Rightarrow> bool" where
  "price_feed_is_for u128 core_exchange_rate a =
     (if \<not> price_is_null u128 core_exchange_rate then asset_id (base core_exchange_rate) = a else True)"

section \<open>Text\<close>

definition find_last_not_of :: "char \<Rightarrow> string \<Rightarrow> nat option" where
  "find_last_not_of c s =
     (let k = length (takeWhile (\<lambda>x. x = c) (rev s))
      in if k < length s then Some (length s - k - 1) else None)"

definition remove_trailing_zeros :: "string \<Rightarrow> string" where
  "remove_trailing_zeros s =
     (case str_find (CHR ''.'') s 0 of
        None \<Rightarrow> s
      | Some dot \<Rightarrow>
          let last = find_last_not_of (CHR ''0'') s;
              offset = (if last = Some dot then 0 else 1)
          in take ((case last of Some l \<Rightarrow> l | None \<Rightarrow> 0) + offset) s)"

fun scan_amount :: "string \<Rightarrow> bool \<Rightarrow> bool \<Rightarrow> (bool \<times> bool) res" where
  \<comment> \<open>the loop over the characters; the result is \<open>negative_found\<close> and \<open>decimal_found\<close>\<close>
  "scan_amount [] negative_found decimal_found = Inr (negative_found, decimal_found)"
| "scan_amount (c # cs) negative_found decimal_found =
     (if is_digit c then scan_amount cs negative_found decimal_found
      else if c = CHR ''-'' \<and> \<not> negative_found then scan_amount cs True decimal_found
      else if c = CHR ''.'' \<and> \<not> decimal_found then scan_amount cs negative_found True
      else Inl Parse_Error)"

definition integer_part :: "(int \<Rightarrow> int res) \<Rightarrow> int \<Rightarrow> string \<Rightarrow> int res" where
  "integer_part sf scale lhs =
     (if lhs = [] then Inr 0
      else res_bind (stoll lhs) (\<lambda>(n, _). res_bind (sf (n * scale)) (\<lambda>m. sf (0 + m))))"

definition decimal_part :: "(int \<Rightarrow> int res) \<Rightarrow> nat \<Rightarrow> int \<Rightarrow> string \<Rightarrow> nat \<Rightarrow> int \<Rightarrow> int res" where
  "decimal_part sf prec scale s dot satoshis =
     (let max_rhs_size = length (drop 1 (dec_of_nat (nat scale)));
          rhs = str_sub s (dot + 1) prec
      in res_bind (fc_assert (length rhs \<le> max_rhs_size)) (\<lambda>_.
         let rhs1 = rhs @ replicate (max_rhs_size - length rhs) (CHR ''0'')
         in if rhs1 = [] then Inr satoshis
            else res_bind (stoll rhs1) (\<lambda>(n, _). sf (satoshis + n))))"

definition amount_from_string :: "(int \<Rightarrow> int res) \<Rightarrow> nat \<Rightarrow> string \<Rightarrow> int res" where
  "amount_from_string sf prec amount_string =
     (let s = remove_trailing_zeros amount_string
      in res_bind (scan_amount s False False) (\<lambda>(negative_found, decimal_found).
         res_bind (scaled_precision prec) (\<lambda>scale.
         let decimal_pos = str_find (CHR ''.'') s 0;
             lhs = str_sub s (if negative_found then 1 else 0) (case decimal_pos of Some d \<Rightarrow> d | None \<Rightarrow> length s)
         in res_bind (integer_part sf scale lhs) (\<lambda>n.
            res_bind (case decimal_pos of Some d \<Rightarrow> decimal_part sf prec scale s d n | None \<Rightarrow> Inr n) (\<lambda>satoshis.
            res_bind (fc_assert (satoshis \<le> GRAPHENE_MAX_SHARE_SUPPLY)) (\<lambda>_.
            if negative_found then sf (satoshis * -1) else Inr satoshis))))))"

fun scale_loop :: "(int \<Rightarrow> int res) \<Rightarrow> nat \<Rightarrow> int \<Rightarrow> int res" where
  "scale_loop sf 0 s = Inr s"
| "scale_loop sf (Suc n) s = res_bind (sf (s * 10)) (scale_loop sf n)"

definition trunc_div :: "int \<Rightarrow> int \<Rightarrow> int" where
  \<comment> \<open>division of C++, towards zero\<close>
  "trunc_div a b = sgn a * sgn b * (\<bar>a\<bar> div \<bar>b\<bar>)"

definition trunc_mod :: "int \<Rightarrow> int \<Rightarrow> int" where
  "trunc_mod a b = a - b * trunc_div a b"

definition amount_to_string :: "(int \<Rightarrow> int res) \<Rightarrow> (int \<Rightarrow> string) \<Rightarrow> nat \<Rightarrow> int \<Rightarrow> string res" where
  "amount_to_string sf to_str prec n =
     res_bind (scale_loop sf prec 1) (\<lambda>scale.
     let result = to_str (trunc_div n scale);
         decimals = trunc_mod n scale
     in if decimals \<noteq> 0 then Inr (result @ ''.'' @ drop 1 (to_str (scale + decimals))) else Inr result)"

section \<open>Lemmas\<close>

lemma p10_eq: "p10 n = 10 ^ n"
  by (induction n) simp_all

lemma scaled_precision_eq: "scaled_precision prec = (if prec < 19 then Inr (10 ^ prec) else Inl Assert_Exception)"
  by (simp add: scaled_precision_def scaled_precision_lut_def p10_eq assert_that_def)

lemma scale_loop_ok:
  assumes "safe_int sf" and "0 < s" and "s * 10 ^ n < 2 ^ 63"
  shows "scale_loop sf n s = Inr (s * 10 ^ n)"
  using assms(2,3)
proof (induction n arbitrary: s)
  case (Suc n)
  have "s * 10 * 1 \<le> s * 10 * 10 ^ n" using Suc.prems(1) by (intro mult_left_mono) auto
  then have "s * 10 < 2 ^ 63" using Suc.prems(2) by (simp add: mult.assoc)
  then have "sf (s * 10) = Inr (s * 10)" using Suc.prems(1) by (intro safe_int_ok [OF assms(1)]) auto
  then show ?case using Suc by (simp add: mult.assoc)
qed simp

lemma trunc_nonneg:
  assumes "0 \<le> n" and "0 < s"
  shows "trunc_div n s = n div s" and "trunc_mod n s = n mod s"
proof -
  show "trunc_div n s = n div s" using assms by (auto simp: trunc_div_def sgn_if)
  then show "trunc_mod n s = n mod s" by (simp add: trunc_mod_def minus_mult_div_eq_mod)
qed

section \<open>Decimal digits\<close>

lemma nat_of_dec_Cons: "nat_of_dec (c # cs) = digit_val c * 10 ^ length cs + nat_of_dec cs"
proof (induction cs rule: rev_induct)
  case (snoc x xs)
  have "nat_of_dec ((c # xs) @ [x]) = 10 * nat_of_dec (c # xs) + digit_val x" by (rule nat_of_dec_snoc)
  with snoc show ?case by (simp add: nat_of_dec_snoc [of xs x])
qed (simp add: nat_of_dec_def)

lemma nat_of_dec_lt: "list_all is_digit cs \<Longrightarrow> nat_of_dec cs < 10 ^ length cs"
proof (induction cs)
  case (Cons c cs)
  have "digit_val c \<le> 9" using Cons.prems by (auto simp: digit_val_def is_digit_def)
  then have "digit_val c * 10 ^ length cs \<le> 9 * 10 ^ length cs" by (rule mult_right_mono) simp
  moreover have "nat_of_dec cs < 10 ^ length cs" using Cons by simp
  ultimately have "digit_val c * 10 ^ length cs + nat_of_dec cs < 10 * 10 ^ length cs" by linarith
  then show ?case by (simp add: nat_of_dec_Cons)
qed (simp add: nat_of_dec_def)

lemma nat_of_dec_zeros: "set cs \<subseteq> {CHR ''0''} \<Longrightarrow> nat_of_dec cs = 0"
proof (induction cs)
  case (Cons c cs)
  moreover have "digit_val (CHR ''0'') = 0" by (simp add: digit_val_def)
  ultimately show ?case by (simp add: nat_of_dec_Cons)
qed (simp add: nat_of_dec_def)

lemma length_dec_of_nat: "10 ^ p \<le> n \<Longrightarrow> n < 10 ^ Suc p \<Longrightarrow> length (dec_of_nat n) = Suc p"
proof (induction p arbitrary: n)
  case 0
  then show ?case by (simp add: dec_of_nat.simps [of n])
next
  case (Suc p)
  have "1 \<le> (10 :: nat) ^ p" by simp
  moreover have "10 * 10 ^ p \<le> n" using Suc.prems(1) by simp
  ultimately have "\<not> n < 10" by linarith
  moreover have "length (dec_of_nat (n div 10)) = Suc p"
    using Suc.prems by (intro Suc.IH) auto
  ultimately show ?case by (simp add: dec_of_nat.simps [of n])
qed

lemma dec_of_nat_offset:
  assumes "d < 10 ^ p"
  shows "length (drop 1 (dec_of_nat (10 ^ p + d))) = p" "nat_of_dec (drop 1 (dec_of_nat (10 ^ p + d))) = d"
    "list_all is_digit (drop 1 (dec_of_nat (10 ^ p + d)))"
proof -
  let ?s = "dec_of_nat (10 ^ p + d)"
  have len: "length ?s = Suc p" using assms by (intro length_dec_of_nat) simp_all
  then obtain c cs where s: "?s = c # cs" and cs: "length cs = p" by (cases ?s) auto
  have dig: "is_digit c" "list_all is_digit cs" using dec_of_nat_digits [of "10 ^ p + d"] s by auto
  have v: "digit_val c * 10 ^ p + nat_of_dec cs = 10 ^ p + d"
    using nat_of_dec_of_nat [of "10 ^ p + d"] by (simp add: s nat_of_dec_Cons cs)
  have lt: "nat_of_dec cs < 10 ^ p" using nat_of_dec_lt [OF dig(2)] cs by simp
  have "digit_val c = (digit_val c * 10 ^ p + nat_of_dec cs) div 10 ^ p" using lt by simp
  also have "\<dots> = (10 ^ p + d) div 10 ^ p" by (simp only: v)
  also have "\<dots> = d div 10 ^ p + 1" by (rule div_add_self1) simp
  also have "\<dots> = 1" using assms by simp
  finally have "nat_of_dec cs = d" using v by simp
  then show "length (drop 1 ?s) = p" "nat_of_dec (drop 1 ?s) = d" "list_all is_digit (drop 1 ?s)"
    using s cs dig(2) by simp_all
qed

definition strip_zeros :: "string \<Rightarrow> string" where
  "strip_zeros ds = rev (dropWhile (\<lambda>x. x = CHR ''0'') (rev ds))"

lemma strip_zeros_pad: "strip_zeros ds @ replicate (length ds - length (strip_zeros ds)) (CHR ''0'') = ds"
proof -
  let ?P = "\<lambda>x. x = CHR ''0''"
  have "takeWhile ?P xs = replicate (length (takeWhile ?P xs)) (CHR ''0'')" for xs
    by (induction xs) auto
  then have tw: "rev (takeWhile ?P (rev ds)) = replicate (length (takeWhile ?P (rev ds))) (CHR ''0'')"
    by (metis rev_replicate)
  have "ds = rev (takeWhile ?P (rev ds) @ dropWhile ?P (rev ds))" by simp
  also have "\<dots> = strip_zeros ds @ replicate (length (takeWhile ?P (rev ds))) (CHR ''0'')"
    by (simp only: rev_append tw strip_zeros_def)
  finally have e: "ds = strip_zeros ds @ replicate (length (takeWhile ?P (rev ds))) (CHR ''0'')" .
  then have "length ds = length (strip_zeros ds) + length (takeWhile ?P (rev ds))"
    by (metis length_append length_replicate)
  with e show ?thesis by simp
qed

lemma remove_trailing_zeros_decimal:
  assumes "CHR ''.'' \<notin> set q" and "strip_zeros ds \<noteq> []"
  shows "remove_trailing_zeros (q @ CHR ''.'' # ds) = q @ CHR ''.'' # strip_zeros ds"
proof -
  let ?P = "\<lambda>x. x = CHR ''0''" and ?s = "q @ CHR ''.'' # ds"
  let ?k = "length (takeWhile ?P (rev ds))"
  have nz: "\<exists>x \<in> set (rev ds). \<not> ?P x" using assms(2) by (auto simp: strip_zeros_def dropWhile_eq_Nil_conv)
  then have "takeWhile ?P (rev ds @ (CHR ''.'' # rev q)) = takeWhile ?P (rev ds)"
    by (auto intro: takeWhile_append1)
  then have tw: "takeWhile ?P (rev ?s) = takeWhile ?P (rev ds)" by simp
  have ds: "ds = strip_zeros ds @ rev (takeWhile ?P (rev ds))"
    unfolding strip_zeros_def by (metis rev_append rev_rev_ident takeWhile_dropWhile_id)
  have k: "length ds = length (strip_zeros ds) + ?k" by (subst ds) simp
  then have kl: "?k < length ds" using assms(2) by (cases "strip_zeros ds") auto
  have last: "find_last_not_of (CHR ''0'') ?s = Some (length ?s - ?k - 1)"
    using kl unfolding find_last_not_of_def Let_def tw by simp
  have dot: "str_find (CHR ''.'') ?s 0 = Some (length q)" by (rule str_find_first [OF assms(1)])
  have "length ?s - ?k - 1 = length q + length (strip_zeros ds)" using k by simp
  moreover have "0 < length (strip_zeros ds)" using assms(2) by simp
  ultimately have "remove_trailing_zeros ?s = take (length q + length (strip_zeros ds) + 1) ?s"
    using dot last by (simp add: remove_trailing_zeros_def Let_def)
  also have "\<dots> = q @ CHR ''.'' # take (length (strip_zeros ds)) ds" by simp
  also have "take (length (strip_zeros ds)) ds = strip_zeros ds" by (subst ds) simp
  finally show ?thesis .
qed

lemma scan_digits: "list_all is_digit ds \<Longrightarrow> scan_amount (ds @ s) n d = scan_amount s n d"
  by (induction ds) auto

lemma strip_zeros_digits: "list_all is_digit ds \<Longrightarrow> list_all is_digit (strip_zeros ds)"
  by (auto simp: strip_zeros_def list_all_iff dest: set_dropWhileD)

lemma dot_not_digit: "list_all is_digit ds \<Longrightarrow> CHR ''.'' \<notin> set ds"
  by (auto simp: list_all_iff is_digit_def)

lemma stoll_digits:
  "list_all is_digit ds \<Longrightarrow> ds \<noteq> [] \<Longrightarrow> int (nat_of_dec ds) < 2 ^ 63 \<Longrightarrow> stoll ds = Inr (int (nat_of_dec ds), length ds)"
  unfolding stoll_def by (rule sto_int_digits) auto

section \<open>Properties\<close>

lemma amount_parts:
  \<comment> \<open>what printing an amount computes: the scale, the digits before the point and their reading\<close>
  assumes "safe_int sf" and "decimal_text to_str" and "prec < 19" and n: "0 \<le> n" "n \<le> GRAPHENE_MAX_SHARE_SUPPLY"
  defines "qs \<equiv> dec_of_nat (nat (n div 10 ^ prec))"
  shows "scale_loop sf prec 1 = Inr (10 ^ prec)" and "list_all is_digit qs" and "CHR ''.'' \<notin> set qs"
    and "to_str (trunc_div n (10 ^ prec)) = qs" and "integer_part sf (10 ^ prec) qs = Inr (n div 10 ^ prec * 10 ^ prec)"
    and "(10 :: int) ^ prec \<le> 10 ^ 18"
proof -
  let ?S = "10 ^ prec :: int"
  let ?q = "n div ?S"
  have "?S \<le> 10 ^ 18" using assms(3) by (intro power_increasing) auto
  then show S18: "?S \<le> 10 ^ 18" by simp
  have S: "0 < ?S" by simp
  have nl: "n < 2 ^ 63" using n(2) by (simp add: GRAPHENE_MAX_SHARE_SUPPLY_def)
  have q: "0 \<le> ?q" "?q \<le> n"
    using S n(1) zdiv_mono2 [of n 1 ?S] by (simp_all add: pos_imp_zdiv_nonneg_iff)
  show dq: "list_all is_digit qs" by (simp add: qs_def dec_of_nat_digits)
  show "CHR ''.'' \<notin> set qs" by (rule dot_not_digit [OF dq])
  have qs: "qs \<noteq> []" "int (nat_of_dec qs) = ?q" using q by (simp_all add: qs_def)
  show "scale_loop sf prec 1 = Inr ?S" using scale_loop_ok [OF assms(1), of 1 prec] S18 by simp
  show "to_str (trunc_div n ?S) = qs"
    using assms(2) q trunc_nonneg(1) [OF n(1) S] by (simp add: decimal_text_def qs_def) (metis int_nat_eq)
  have "0 \<le> n mod ?S" using S by simp
  then have "?q * ?S \<le> n" "0 \<le> ?q * ?S" using S q div_mult_mod_eq [of n ?S] by (linarith, simp)
  then have "sf (?q * ?S) = Inr (?q * ?S)" using nl by (intro safe_int_ok [OF assms(1)]) linarith+
  then show "integer_part sf ?S qs = Inr (?q * ?S)"
    using stoll_digits [OF dq qs(1)] qs q nl by (simp add: integer_part_def)
qed

lemma decimal_digits:
  \<comment> \<open>the digits printed after the point, and what is left of them when trailing zeros are stripped\<close>
  assumes "0 < d" and "d < 10 ^ prec" and "(10 :: int) ^ prec \<le> 10 ^ 18"
  defines "ds \<equiv> drop 1 (dec_of_nat (10 ^ prec + nat d))"
  shows "length ds = prec" and "list_all is_digit ds" and "strip_zeros ds \<noteq> []" and "length (strip_zeros ds) \<le> prec"
    and "stoll ds = Inr (d, length ds)" and "ds \<noteq> []"
proof -
  have "nat d < 10 ^ prec" using assms(1,2) by (simp add: nat_less_iff)
  from dec_of_nat_offset [OF this] show ds: "length ds = prec" "list_all is_digit ds" by (simp_all add: ds_def)
  from dec_of_nat_offset [OF \<open>nat d < 10 ^ prec\<close>] have val: "nat_of_dec ds = nat d" by (simp add: ds_def)
  show nz: "strip_zeros ds \<noteq> []"
  proof
    assume "strip_zeros ds = []"
    then have "set ds \<subseteq> {CHR ''0''}" by (auto simp: strip_zeros_def dropWhile_eq_Nil_conv)
    then show False using nat_of_dec_zeros val assms(1) by simp
  qed
  then show ne: "ds \<noteq> []" by (auto simp: strip_zeros_def)
  show "length (strip_zeros ds) \<le> prec" using arg_cong [OF strip_zeros_pad [of ds], of length] ds(1) by simp
  have "(10 :: int) ^ 18 < 2 ^ 63" by simp
  then have "d < 2 ^ 63" using assms(2,3) by linarith
  with stoll_digits [OF ds(2) ne] val assms(1) show "stoll ds = Inr (d, length ds)" by simp
qed

lemma whole_amount_text:
  assumes sf: "safe_int sf" and ts: "decimal_text to_str" and p: "prec < 19" and n: "0 \<le> n" "n \<le> GRAPHENE_MAX_SHARE_SUPPLY"
    and whole: "n mod 10 ^ prec = 0"
  shows "\<exists>s. amount_to_string sf to_str prec n = Inr s \<and> amount_from_string sf prec s = Inr n"
proof -
  let ?S = "10 ^ prec :: int"
  define qs where "qs = dec_of_nat (nat (n div ?S))"
  note parts = amount_parts [OF sf ts p n, folded qs_def]
  have "amount_to_string sf to_str prec n = Inr qs"
    using parts(1,4) whole by (simp add: amount_to_string_def trunc_nonneg [OF n(1)])
  moreover have dot: "str_find (CHR ''.'') qs 0 = None" using parts(3) by (intro str_find_none) simp
  moreover have "remove_trailing_zeros qs = qs" using dot by (simp add: remove_trailing_zeros_def)
  moreover have "scan_amount qs False False = Inr (False, False)" using scan_digits [OF parts(2), of "[]"] by simp
  ultimately show ?thesis
    using whole n(2) parts(5) p mult_div_mod_eq [of ?S n]
    by (simp add: amount_from_string_def Let_def scaled_precision_eq str_sub_def mult.commute)
qed

lemma fraction_amount_text:
  assumes sf: "safe_int sf" and ts: "decimal_text to_str" and p: "prec < 19" and n: "0 \<le> n" "n \<le> GRAPHENE_MAX_SHARE_SUPPLY"
    and frac: "n mod 10 ^ prec \<noteq> 0"
  shows "\<exists>s. amount_to_string sf to_str prec n = Inr s \<and> amount_from_string sf prec s = Inr n"
proof -
  let ?S = "10 ^ prec :: int"
  let ?q = "n div ?S" and ?d = "n mod ?S"
  define qs where "qs = dec_of_nat (nat ?q)"
  note parts = amount_parts [OF sf ts p n, folded qs_def]
  have d: "0 \<le> ?d" "?d < ?S" by simp_all
  define ds where "ds = drop 1 (dec_of_nat (10 ^ prec + nat ?d))"
  have d0: "0 < ?d" using frac d(1) by linarith
  note ds = decimal_digits [OF d0 d(2) parts(6), folded ds_def]
  have "?S + ?d = int (10 ^ prec + nat ?d)" using d by simp
  then have "drop 1 (to_str (?S + ?d)) = ds" using ts by (metis decimal_text_def ds_def)
  then have print: "amount_to_string sf to_str prec n = Inr (qs @ CHR ''.'' # ds)"
    using parts(1,4) frac by (simp add: amount_to_string_def trunc_nonneg [OF n(1)])
  let ?t = "qs @ CHR ''.'' # strip_zeros ds"
  have rtz: "remove_trailing_zeros (qs @ CHR ''.'' # ds) = ?t" by (rule remove_trailing_zeros_decimal [OF parts(3) ds(3)])
  have dot: "str_find (CHR ''.'') ?t 0 = Some (length qs)" by (rule str_find_first [OF parts(3)])
  have scan: "scan_amount ?t False False = Inr (False, True)"
    using scan_digits [OF parts(2)] scan_digits [OF strip_zeros_digits [OF ds(2)], of "[]"] by (simp add: is_digit_def)
  have max_rhs: "length (drop 1 (dec_of_nat (nat ?S))) = prec"
    using dec_of_nat_offset(1) [of 0 prec] by (simp add: nat_power_eq)
  have sub: "str_sub ?t (length qs + 1) prec = strip_zeros ds" using ds(4) by (simp add: str_sub_def)
  have "n < 2 ^ 63" using n(2) by (simp add: GRAPHENE_MAX_SHARE_SUPPLY_def)
  then have dec: "decimal_part sf prec ?S ?t (length qs) (?q * ?S) = Inr n"
    unfolding decimal_part_def Let_def max_rhs sub
    using strip_zeros_pad [of ds] ds div_mult_mod_eq [of n ?S] n(1) safe_int_ok [OF sf, of n] by simp
  have "amount_from_string sf prec (qs @ CHR ''.'' # ds) = Inr n"
    using scan dot p parts(5) dec n(2)
    by (simp add: amount_from_string_def rtz Let_def scaled_precision_eq) (simp add: str_sub_def)
  with print show ?thesis by blast
qed

text \<open>C37: an amount printed with \<open>amount_to_string\<close> is read back by \<open>amount_from_string\<close>, for every
  precision below 19 and every amount from zero to the maximum share supply, although the reader
  first strips trailing zeros.\<close>

theorem amount_text_round_trip:
  assumes sf: "safe_int sf" and ts: "decimal_text to_str" and p: "prec < 19" and n: "0 \<le> n" "n \<le> GRAPHENE_MAX_SHARE_SUPPLY"
  shows "\<exists>s. amount_to_string sf to_str prec n = Inr s \<and> amount_from_string sf prec s = Inr n"
  by (cases "n mod 10 ^ prec = 0") (use assms in \<open>blast intro: whole_amount_text fraction_amount_text\<close>)+

theorem amount_text_round_trip_witness:
  "\<exists>s. amount_to_string checked64 (\<lambda>n. dec_of_nat (nat n)) 5 123450 = Inr s \<and> amount_from_string checked64 5 s = Inr 123450"
  by (rule amount_text_round_trip [OF safe_int_checked64]) (simp_all add: decimal_text_def GRAPHENE_MAX_SHARE_SUPPLY_def)

definition amount64 :: "asset \<Rightarrow> bool" where
  "amount64 a \<longleftrightarrow> 0 < amount a \<and> amount a < 2 ^ 63"

definition valid_price :: "price \<Rightarrow> bool" where
  \<comment> \<open>what \<open>price::validate\<close> accepts, with amounts of 64 bits\<close>
  "valid_price p \<longleftrightarrow> price_validate p = Inr () \<and> amount (base p) < 2 ^ 63 \<and> amount (quote p) < 2 ^ 63"

lemma valid_priceD:
  "valid_price p \<Longrightarrow> amount64 (base p) \<and> amount64 (quote p) \<and> asset_id (base p) \<noteq> asset_id (quote p)"
  by (auto simp: valid_price_def price_validate_def amount64_def res_bind_eq_Inr)

lemma wide_product:
  assumes "wide_int u128" and "0 \<le> a" "a < 2 ^ 63" and "0 \<le> b" "b < 2 ^ 63"
  shows "u128 (u128 a * b) = a * b"
proof -
  have "a * b < 2 ^ 63 * 2 ^ 63" using assms(2-5) by (intro mult_strict_mono) auto
  then have "a * b < 2 ^ 128" by simp
  then show ?thesis using assms by (simp add: wide_intD)
qed

lemma price_less_cross:
  assumes "wide_int u128" and "valid_price a" and "valid_price b"
  shows "price_less u128 a b \<longleftrightarrow> asset_id (base a) < asset_id (base b) \<or> asset_id (base a) = asset_id (base b) \<and>
      (asset_id (quote a) < asset_id (quote b) \<or> asset_id (quote a) = asset_id (quote b) \<and>
        amount (base a) * amount (quote b) < amount (base b) * amount (quote a))"
    and "price_eq u128 a b \<longleftrightarrow> asset_id (base a) = asset_id (base b) \<and> asset_id (quote a) = asset_id (quote b) \<and>
        amount (base a) * amount (quote b) = amount (base b) * amount (quote a)"
proof -
  note v = valid_priceD [OF assms(2)] valid_priceD [OF assms(3)]
  have "u128 (u128 (amount (quote b)) * amount (base a)) = amount (quote b) * amount (base a)"
    using v by (intro wide_product [OF assms(1)]) (auto simp: amount64_def)
  moreover have "u128 (u128 (amount (quote a)) * amount (base b)) = amount (quote a) * amount (base b)"
    using v by (intro wide_product [OF assms(1)]) (auto simp: amount64_def)
  ultimately show "price_less u128 a b \<longleftrightarrow> asset_id (base a) < asset_id (base b) \<or> asset_id (base a) = asset_id (base b) \<and>
      (asset_id (quote a) < asset_id (quote b) \<or> asset_id (quote a) = asset_id (quote b) \<and>
        amount (base a) * amount (quote b) < amount (base b) * amount (quote a))"
    and "price_eq u128 a b \<longleftrightarrow> asset_id (base a) = asset_id (base b) \<and> asset_id (quote a) = asset_id (quote b) \<and>
        amount (base a) * amount (quote b) = amount (base b) * amount (quote a)"
    by (auto simp: price_less_def price_eq_def Let_def mult.commute)
qed

lemma cross_trans:
  fixes a :: int
  assumes "0 < q1" "0 < q2" "0 < q3" and "a * q2 \<le> b * q1" and "b * q3 < c * q2"
  shows "a * q3 < c * q1"
proof -
  have "q2 * (a * q3) = (a * q2) * q3" by (simp add: ac_simps)
  also have "\<dots> \<le> (b * q1) * q3" using assms(3,4) by (intro mult_right_mono) auto
  also have "\<dots> = q1 * (b * q3)" by (simp add: ac_simps)
  also have "\<dots> < q1 * (c * q2)" using assms(1,5) by (rule mult_strict_left_mono [rotated])
  also have "\<dots> = q2 * (c * q1)" by (simp add: ac_simps)
  finally show ?thesis using assms(2) by simp
qed

text \<open>On valid prices the comparison operators are a total order: it compares the assets first
  and then the ratios exactly, without rounding; of two prices exactly one of less, equal and
  greater holds, and less is transitive.\<close>

theorem price_order_total:
  assumes "wide_int u128" and "valid_price a" and "valid_price b" and "valid_price c"
  shows "(price_less u128 a b \<longleftrightarrow> \<not> price_eq u128 a b \<and> \<not> price_less u128 b a) \<and>
    (price_eq u128 a b \<longleftrightarrow> \<not> price_less u128 a b \<and> \<not> price_less u128 b a) \<and>
    (price_greater u128 a b \<longleftrightarrow> price_less u128 b a) \<and>
    (price_less u128 a b \<longrightarrow> price_less u128 b c \<longrightarrow> price_less u128 a c)"
proof -
  note ab = price_less_cross [OF assms(1,2,3)] and ba = price_less_cross [OF assms(1,3,2)]
    and bc = price_less_cross [OF assms(1,3,4)] and ac = price_less_cross [OF assms(1,2,4)]
  have pos: "0 < amount (quote a)" "0 < amount (quote b)" "0 < amount (quote c)"
    using valid_priceD [OF assms(2)] valid_priceD [OF assms(3)] valid_priceD [OF assms(4)] by (auto simp: amount64_def)
  have eq: "price_eq u128 a b \<longleftrightarrow> \<not> price_less u128 a b \<and> \<not> price_less u128 b a"
    unfolding ab ba by auto
  have asym: "price_less u128 a b \<Longrightarrow> \<not> price_less u128 b a"
    unfolding ab ba by auto
  have trans: "price_less u128 a b \<Longrightarrow> price_less u128 b c \<Longrightarrow> price_less u128 a c"
    unfolding ab bc ac using cross_trans [OF pos, of "amount (base a)" "amount (base b)" "amount (base c)"] by auto
  show ?thesis using eq asym trans by (auto simp: price_greater_def price_less_eq_def)
qed

theorem price_order_total_witness:
  "price_less (\<lambda>x. x mod 2 ^ 128) \<lparr>base = \<lparr>amount = 1, asset_id = 0\<rparr>, quote = \<lparr>amount = 3, asset_id = 1\<rparr>\<rparr>
     \<lparr>base = \<lparr>amount = 1, asset_id = 0\<rparr>, quote = \<lparr>amount = 2, asset_id = 1\<rparr>\<rparr>"
  (is "price_less _ ?a ?b")
proof -
  have "valid_price ?a" "valid_price ?b" by (simp_all add: valid_price_def price_validate_def)
  moreover have "\<not> price_eq (\<lambda>x. x mod 2 ^ 128) ?a ?b" "\<not> price_less (\<lambda>x. x mod 2 ^ 128) ?b ?a"
    by (simp_all add: price_eq_def price_less_def)
  ultimately show ?thesis using price_order_total [OF wide_int_mod, of ?a ?b ?b] by blast
qed

lemma round_trip_floor: "0 < q \<Longrightarrow> 0 < p \<Longrightarrow> x * q div p * p div q \<le> x" for x p q :: int
proof -
  assume q: "0 < q" and p: "0 < p"
  have "x * q div p * p \<le> x * q"
    using div_mult_mod_eq [of "x * q" p] pos_mod_sign [OF p, of "x * q"] by linarith
  then have "x * q div p * p div q \<le> x * q div q" using q by (rule zdiv_mono1)
  then show ?thesis using q by simp
qed

lemma asset_times_price_cases:
  assumes "wide_int u128" and "valid_price p" and "0 \<le> amount a" and "amount a < 2 ^ 63" and "asset_times_price u128 a p = Inr b"
  obtains (base) "asset_id a = asset_id (base p)" "asset_id b = asset_id (quote p)" "0 \<le> amount b" "amount b \<le> GRAPHENE_MAX_SHARE_SUPPLY"
      "amount b = amount a * amount (quote p) div amount (base p)"
    | (quote) "asset_id a = asset_id (quote p)" "asset_id b = asset_id (base p)" "0 \<le> amount b" "amount b \<le> GRAPHENE_MAX_SHARE_SUPPLY"
      "amount b = amount a * amount (base p) div amount (quote p)"
proof -
  note v = valid_priceD [OF assms(2)]
  have w: "u128 (u128 (amount a) * amount (quote p)) = amount a * amount (quote p)"
    "u128 (u128 (amount a) * amount (base p)) = amount a * amount (base p)"
    using v assms(3,4) by (auto intro: wide_product [OF assms(1)] simp: amount64_def)
  consider (b) "asset_id a = asset_id (base p)" | (q) "asset_id a = asset_id (quote p)" "asset_id a \<noteq> asset_id (base p)"
    using assms(5) by (auto simp: asset_times_price_def split: if_splits)
  then show thesis
  proof cases
    case b
    then show thesis using assms(3,5) w v
      by (intro base) (auto simp: asset_times_price_def Let_def res_bind_eq_Inr amount64_def pos_imp_zdiv_nonneg_iff)
  next
    case q
    then show thesis using assms(3,5) w v
      by (intro quote) (auto simp: asset_times_price_def Let_def res_bind_eq_Inr amount64_def pos_imp_zdiv_nonneg_iff)
  qed
qed

text \<open>C39: converting an amount at a price rounds down, so converting it to the other asset and back at
  the same price never yields more than it started with, and no conversion exceeds the maximum
  share supply.\<close>

theorem conversion_never_gains:
  assumes "wide_int u128" and "valid_price p" and "0 \<le> amount a" and "amount a < 2 ^ 63"
    and "asset_times_price u128 a p = Inr b" and "asset_times_price u128 b p = Inr c"
  shows "asset_id c = asset_id a \<and> 0 \<le> amount c \<and> amount c \<le> amount a \<and> amount b \<le> GRAPHENE_MAX_SHARE_SUPPLY"
proof -
  note v = valid_priceD [OF assms(2)]
  have max: "GRAPHENE_MAX_SHARE_SUPPLY < 2 ^ 63" by (simp add: GRAPHENE_MAX_SHARE_SUPPLY_def)
  from assms(1-5) show ?thesis
  proof (cases rule: asset_times_price_cases)
    case b: base
    have "amount b < 2 ^ 63" using b(4) max by linarith
    from assms(1,2) b(3) this assms(6) show ?thesis
      by (cases rule: asset_times_price_cases) (use b v in \<open>auto simp: amount64_def round_trip_floor\<close>)
  next
    case q: quote
    have "amount b < 2 ^ 63" using q(4) max by linarith
    from assms(1,2) q(3) this assms(6) show ?thesis
      by (cases rule: asset_times_price_cases) (use q v in \<open>auto simp: amount64_def round_trip_floor\<close>)
  qed
qed

theorem conversion_never_gains_witness:
  "amount \<lparr>amount = 9, asset_id = 0\<rparr> \<le> amount \<lparr>amount = 10, asset_id = 0\<rparr>"
proof -
  let ?p = "\<lparr>base = \<lparr>amount = 3, asset_id = 0\<rparr>, quote = \<lparr>amount = 2, asset_id = 1\<rparr>\<rparr>"
  have "valid_price ?p" by (simp add: valid_price_def price_validate_def)
  moreover have "asset_times_price (\<lambda>x. x mod 2 ^ 128) \<lparr>amount = 10, asset_id = 0\<rparr> ?p = Inr \<lparr>amount = 6, asset_id = 1\<rparr>"
    "asset_times_price (\<lambda>x. x mod 2 ^ 128) \<lparr>amount = 6, asset_id = 1\<rparr> ?p = Inr \<lparr>amount = 9, asset_id = 0\<rparr>"
    by (simp_all add: asset_times_price_def GRAPHENE_MAX_SHARE_SUPPLY_def)
  ultimately show ?thesis
    using conversion_never_gains [OF wide_int_mod, of ?p "\<lparr>amount = 10, asset_id = 0\<rparr>"] by simp
qed

section \<open>Texts that are not what they seem\<close>

lemma negative_amount_text_lost:
  assumes "decimal_text to_str" and "safe_int sf" and "0 < n" and "n < 10"
  shows "amount_to_string sf to_str 1 (- int n) = Inr ''0.''"
proof -
  have "sf 10 = Inr 10" using assms(2) by (simp add: safe_intD)
  moreover have "trunc_div (- int n) 10 = 0" using assms(3,4) by (simp add: trunc_div_def)
  moreover have "trunc_mod (- int n) 10 = - int n" using assms(3,4) by (simp add: trunc_mod_def trunc_div_def)
  moreover have "to_str 0 = ''0''" "to_str (10 + - int n) = dec_of_nat (10 - n)"
  proof -
    have "dec_of_nat 0 = ''0''" by code_simp
    then show "to_str 0 = ''0''" using assms(1) [unfolded decimal_text_def, rule_format, of 0] by simp
    have "10 + - int n = int (10 - n)" using assms(4) by simp
    then show "to_str (10 + - int n) = dec_of_nat (10 - n)" using assms(1) by (metis decimal_text_def)
  qed
  moreover have "drop 1 (dec_of_nat (10 - n)) = []" using assms(3) by (simp add: dec_of_nat.simps [of "10 - n"])
  ultimately show ?thesis using assms(3) by (simp add: amount_to_string_def)
qed

lemma inner_minus_accepted:
  assumes "safe_int sf"
  shows "amount_from_string sf 0 ''12-3'' = Inr (- 2)"
proof -
  have "sf 2 = Inr 2" "sf (- 2) = Inr (- 2)" using assms by (simp_all add: safe_intD)
  moreover have "remove_trailing_zeros ''12-3'' = ''12-3''" "str_find (CHR ''.'') ''12-3'' 0 = None"
    "scan_amount ''12-3'' False False = Inr (True, False)" "str_sub ''12-3'' 1 (length ''12-3'') = ''2-3''" "stoll ''2-3'' = Inr (2, 1)"
    by code_simp+
  ultimately show ?thesis
    by (simp add: amount_from_string_def scaled_precision_eq integer_part_def GRAPHENE_MAX_SHARE_SUPPLY_def Let_def
        del: scan_amount.simps)
qed

end
