(* ===== verification/Vesting.thy ===== *)
theory Vesting
  imports Assets
begin

text \<open>
  Vesting balances (\<open>vesting_balance_object.hpp\<close>, \<open>vesting_balance_object.cpp\<close>): the linear
  policy with a cliff and the coin-days-destroyed policy, and the balance object that dispatches
  to them.

  \<open>fc::uint128_t\<close> is the parameter \<open>wide\<close> of the record \<open>num_ops\<close>, like the 128-bit type of
  boost in the prices, and \<open>to_uint64\<close> the parameter \<open>low\<close>; \<open>num_ops_ok\<close> is what is relied on.
  A member function that changes the object returns the changed object; when it throws, the
  transaction that called it is undone.
\<close>

record num_ops =
  safe :: "int \<Rightarrow> int res"
  wide :: "int \<Rightarrow> int"
  low :: "int \<Rightarrow> int res"

definition num_ops_ok :: "num_ops \<Rightarrow> bool" where
  "num_ops_ok ops \<longleftrightarrow> safe_int (safe ops) \<and> wide_int (wide ops) \<and>
     (\<forall>x. 0 \<le> x \<longrightarrow> x < 2 ^ 63 \<longrightarrow> low ops x = Inr x)"

definition plain_ops :: num_ops where
  \<comment> \<open>an instance, for examples\<close>
  "plain_ops = \<lparr>safe = checked64, wide = (\<lambda>x. x mod 2 ^ 128), low = (\<lambda>x. Inr (x mod 2 ^ 64))\<rparr>"

lemma plain_ops_ok: "num_ops_ok plain_ops"
  by (simp only: num_ops_ok_def plain_ops_def num_ops.simps safe_int_checked64 wide_int_mod) simp

definition int64_mult :: "int \<Rightarrow> int \<Rightarrow> int res" where
  \<comment> \<open>a product of built-in 64-bit integers, undefined when it overflows\<close>
  "int64_mult a b = (if - (2 ^ 63) \<le> a * b \<and> a * b < 2 ^ 63 then Inr (a * b) else Inl Undefined_Behaviour)"

section \<open>Data\<close>

type_synonym time = "32 word"
type_synonym account_id = nat

record vesting_policy_context =
  ctx_balance :: asset
  ctx_now :: time
  ctx_amount :: asset

record linear_vesting_policy =
  begin_timestamp :: time
  vesting_cliff_seconds :: "32 word"
  vesting_duration_seconds :: "32 word"
  begin_balance :: int

record cdd_vesting_policy =
  vesting_seconds :: "32 word"
  coin_seconds_earned :: int
  start_claim :: time
  coin_seconds_earned_last_update :: time

datatype vesting_policy =
    Linear linear_vesting_policy
  | Cdd cdd_vesting_policy

record vesting_balance =
  vb_owner :: account_id
  vb_balance :: asset
  vb_policy :: vesting_policy

section \<open>The policies\<close>

definition elapsed :: "time \<Rightarrow> time \<Rightarrow> int" where
  "elapsed now earlier = uint now - uint earlier"

definition sum_below_max_shares :: "num_ops \<Rightarrow> asset \<Rightarrow> asset \<Rightarrow> bool res" where
  "sum_below_max_shares ops a b =
     (if \<not> amount a \<le> GRAPHENE_MAX_SHARE_SUPPLY then Inr False
      else if \<not> amount b \<le> GRAPHENE_MAX_SHARE_SUPPLY then Inr False
      else res_bind (safe ops (amount a + amount b)) (\<lambda>s. Inr (s \<le> GRAPHENE_MAX_SHARE_SUPPLY)))"

definition linear_allowed_withdraw :: "num_ops \<Rightarrow> linear_vesting_policy \<Rightarrow> vesting_policy_context \<Rightarrow> asset res" where
  "linear_allowed_withdraw ops p ctx =
     res_bind
       (if ctx_now ctx > begin_timestamp p
        then let elapsed_seconds = elapsed (ctx_now ctx) (begin_timestamp p)
             in if elapsed_seconds \<ge> uint (vesting_cliff_seconds p)
                then res_bind
                      (if elapsed_seconds < uint (vesting_duration_seconds p)
                       then low ops (wide ops (wide ops (begin_balance p) * elapsed_seconds) div uint (vesting_duration_seconds p))
                       else Inr (begin_balance p)) (\<lambda>total_vested.
                     res_bind (safe ops (begin_balance p - amount (ctx_balance ctx))) (\<lambda>withdrawn_already.
                     safe ops (total_vested - withdrawn_already)))
                else Inr 0
        else Inr 0)
       (\<lambda>allowed_withdraw. Inr \<lparr>amount = allowed_withdraw, asset_id = asset_id (ctx_amount ctx)\<rparr>)"

definition linear_deposit_allowed :: "num_ops \<Rightarrow> vesting_policy_context \<Rightarrow> bool res" where
  "linear_deposit_allowed ops ctx =
     (if asset_id (ctx_amount ctx) = asset_id (ctx_balance ctx)
      then sum_below_max_shares ops (ctx_amount ctx) (ctx_balance ctx) else Inr False)"

definition linear_withdraw_allowed :: "num_ops \<Rightarrow> linear_vesting_policy \<Rightarrow> vesting_policy_context \<Rightarrow> bool res" where
  "linear_withdraw_allowed ops p ctx =
     (if asset_id (ctx_amount ctx) = asset_id (ctx_balance ctx)
      then res_bind (linear_allowed_withdraw ops p ctx) (asset_less_eq (ctx_amount ctx)) else Inr False)"

definition max_seconds :: "cdd_vesting_policy \<Rightarrow> int" where
  "max_seconds p = max (uint (vesting_seconds p)) 1"

definition compute_coin_seconds_earned :: "num_ops \<Rightarrow> cdd_vesting_policy \<Rightarrow> vesting_policy_context \<Rightarrow> int" where
  "compute_coin_seconds_earned ops p ctx =
     (let delta_seconds = elapsed (ctx_now ctx) (coin_seconds_earned_last_update p);
          delta_coin_seconds = wide ops (wide ops (amount (ctx_balance ctx)) * delta_seconds);
          coin_seconds_earned_cap = wide ops (wide ops (amount (ctx_balance ctx)) * max_seconds p)
      in min (wide ops (coin_seconds_earned p + delta_coin_seconds)) coin_seconds_earned_cap)"

definition update_coin_seconds_earned :: "num_ops \<Rightarrow> vesting_policy_context \<Rightarrow> cdd_vesting_policy \<Rightarrow> cdd_vesting_policy" where
  "update_coin_seconds_earned ops ctx p =
     p\<lparr>coin_seconds_earned := compute_coin_seconds_earned ops p ctx, coin_seconds_earned_last_update := ctx_now ctx\<rparr>"

definition cdd_allowed_withdraw :: "num_ops \<Rightarrow> cdd_vesting_policy \<Rightarrow> vesting_policy_context \<Rightarrow> asset res" where
  "cdd_allowed_withdraw ops p ctx =
     (if ctx_now ctx \<le> start_claim p then Inr \<lparr>amount = 0, asset_id = asset_id (ctx_balance ctx)\<rparr>
      else let cs_earned = compute_coin_seconds_earned ops p ctx;
               withdraw_available = cs_earned div max_seconds p
           in res_bind (low ops withdraw_available) (\<lambda>n. Inr \<lparr>amount = n, asset_id = asset_id (ctx_balance ctx)\<rparr>))"

definition cdd_on_deposit :: "num_ops \<Rightarrow> vesting_policy_context \<Rightarrow> cdd_vesting_policy \<Rightarrow> cdd_vesting_policy" where
  "cdd_on_deposit ops ctx p = update_coin_seconds_earned ops ctx p"

definition cdd_on_deposit_vested :: "num_ops \<Rightarrow> vesting_policy_context \<Rightarrow> cdd_vesting_policy \<Rightarrow> cdd_vesting_policy res" where
  "cdd_on_deposit_vested ops ctx p =
     (let p1 = cdd_on_deposit ops ctx p
      in res_bind (int64_mult (amount (ctx_amount ctx)) (max_seconds p)) (\<lambda>cs.
         Inr (p1\<lparr>coin_seconds_earned := wide ops (coin_seconds_earned p1 + cs)\<rparr>)))"

definition cdd_on_withdraw :: "num_ops \<Rightarrow> vesting_policy_context \<Rightarrow> cdd_vesting_policy \<Rightarrow> cdd_vesting_policy" where
  "cdd_on_withdraw ops ctx p =
     (let p1 = update_coin_seconds_earned ops ctx p;
          coin_seconds_needed = wide ops (wide ops (amount (ctx_amount ctx)) * max_seconds p)
      in p1\<lparr>coin_seconds_earned := wide ops (coin_seconds_earned p1 - coin_seconds_needed)\<rparr>)"

definition cdd_deposit_allowed :: "num_ops \<Rightarrow> vesting_policy_context \<Rightarrow> bool res" where
  "cdd_deposit_allowed ops ctx =
     (if asset_id (ctx_amount ctx) = asset_id (ctx_balance ctx)
      then sum_below_max_shares ops (ctx_amount ctx) (ctx_balance ctx) else Inr False)"

definition cdd_withdraw_allowed :: "num_ops \<Rightarrow> cdd_vesting_policy \<Rightarrow> vesting_policy_context \<Rightarrow> bool res" where
  "cdd_withdraw_allowed ops p ctx = res_bind (cdd_allowed_withdraw ops p ctx) (asset_less_eq (ctx_amount ctx))"

section \<open>The balance object\<close>

fun policy_on_deposit :: "num_ops \<Rightarrow> vesting_policy_context \<Rightarrow> vesting_policy \<Rightarrow> vesting_policy res" where
  "policy_on_deposit ops ctx (Linear p) = Inr (Linear p)"
| "policy_on_deposit ops ctx (Cdd p) = Inr (Cdd (cdd_on_deposit ops ctx p))"

fun policy_on_deposit_vested :: "num_ops \<Rightarrow> vesting_policy_context \<Rightarrow> vesting_policy \<Rightarrow> vesting_policy res" where
  "policy_on_deposit_vested ops ctx (Linear p) = Inl Assert_Exception"
| "policy_on_deposit_vested ops ctx (Cdd p) = res_bind (cdd_on_deposit_vested ops ctx p) (\<lambda>q. Inr (Cdd q))"

fun policy_on_withdraw :: "num_ops \<Rightarrow> vesting_policy_context \<Rightarrow> vesting_policy \<Rightarrow> vesting_policy res" where
  "policy_on_withdraw ops ctx (Linear p) = Inr (Linear p)"
| "policy_on_withdraw ops ctx (Cdd p) = Inr (Cdd (cdd_on_withdraw ops ctx p))"

definition vb_deposit_allowed :: "num_ops \<Rightarrow> time \<Rightarrow> asset \<Rightarrow> vesting_balance \<Rightarrow> bool res" where
  "vb_deposit_allowed ops now a vb =
     (let ctx = \<lparr>ctx_balance = vb_balance vb, ctx_now = now, ctx_amount = a\<rparr>
      in case vb_policy vb of Linear p \<Rightarrow> linear_deposit_allowed ops ctx | Cdd p \<Rightarrow> cdd_deposit_allowed ops ctx)"

definition vb_deposit_vested_allowed :: "num_ops \<Rightarrow> time \<Rightarrow> asset \<Rightarrow> vesting_balance \<Rightarrow> bool res" where
  "vb_deposit_vested_allowed ops now a vb =
     (let ctx = \<lparr>ctx_balance = vb_balance vb, ctx_now = now, ctx_amount = a\<rparr>
      in case vb_policy vb of Linear p \<Rightarrow> Inr False | Cdd p \<Rightarrow> cdd_deposit_allowed ops ctx)"

definition vb_allowed_withdraw :: "num_ops \<Rightarrow> time \<Rightarrow> vesting_balance \<Rightarrow> asset res" where
  "vb_allowed_withdraw ops now vb =
     (let ctx = \<lparr>ctx_balance = vb_balance vb, ctx_now = now, ctx_amount = \<lparr>amount = 0, asset_id = 0\<rparr>\<rparr>
      in case vb_policy vb of Linear p \<Rightarrow> linear_allowed_withdraw ops p ctx | Cdd p \<Rightarrow> cdd_allowed_withdraw ops p ctx)"

definition vb_withdraw_allowed :: "num_ops \<Rightarrow> time \<Rightarrow> asset \<Rightarrow> vesting_balance \<Rightarrow> bool res" where
  "vb_withdraw_allowed ops now a vb =
     (let ctx = \<lparr>ctx_balance = vb_balance vb, ctx_now = now, ctx_amount = a\<rparr>
      in case vb_policy vb of Linear p \<Rightarrow> linear_withdraw_allowed ops p ctx | Cdd p \<Rightarrow> cdd_withdraw_allowed ops p ctx)"

definition vb_deposit :: "num_ops \<Rightarrow> time \<Rightarrow> asset \<Rightarrow> vesting_balance \<Rightarrow> vesting_balance res" where
  "vb_deposit ops now a vb =
     (let ctx = \<lparr>ctx_balance = vb_balance vb, ctx_now = now, ctx_amount = a\<rparr>
      in res_bind (policy_on_deposit ops ctx (vb_policy vb)) (\<lambda>p.
         res_bind (asset_plus (safe ops) (vb_balance vb) a) (\<lambda>b.
         Inr (vb\<lparr>vb_policy := p, vb_balance := b\<rparr>))))"

definition vb_deposit_vested :: "num_ops \<Rightarrow> time \<Rightarrow> asset \<Rightarrow> vesting_balance \<Rightarrow> vesting_balance res" where
  "vb_deposit_vested ops now a vb =
     (let ctx = \<lparr>ctx_balance = vb_balance vb, ctx_now = now, ctx_amount = a\<rparr>
      in res_bind (policy_on_deposit_vested ops ctx (vb_policy vb)) (\<lambda>p.
         res_bind (asset_plus (safe ops) (vb_balance vb) a) (\<lambda>b.
         Inr (vb\<lparr>vb_policy := p, vb_balance := b\<rparr>))))"

definition vb_withdraw :: "num_ops \<Rightarrow> time \<Rightarrow> asset \<Rightarrow> vesting_balance \<Rightarrow> vesting_balance res" where
  "vb_withdraw ops now a vb =
     (let ctx = \<lparr>ctx_balance = vb_balance vb, ctx_now = now, ctx_amount = a\<rparr>
      in res_bind (policy_on_withdraw ops ctx (vb_policy vb)) (\<lambda>p.
         res_bind (asset_minus (safe ops) (vb_balance vb) a) (\<lambda>b.
         Inr (vb\<lparr>vb_policy := p, vb_balance := b\<rparr>))))"

section \<open>The coin-days-destroyed policy\<close>

lemma num_ops_okD:
  assumes "num_ops_ok ops"
  shows "safe_int (safe ops)" and "wide_int (wide ops)" and "0 \<le> x \<Longrightarrow> x < 2 ^ 63 \<Longrightarrow> low ops x = Inr x"
  using assms by (auto simp: num_ops_ok_def)

lemma max_seconds_bounds: "1 \<le> max_seconds p" "max_seconds p < 2 ^ 32"
  using uint_bounded [of "vesting_seconds p"] by (auto simp: max_seconds_def)

lemma elapsed_bounds: "b \<le> a \<Longrightarrow> 0 \<le> elapsed a b" "elapsed a b < 2 ^ 32"
proof -
  show "0 \<le> elapsed a b" if "b \<le> a" using that by (simp add: elapsed_def word_le_def)
  have "uint a < 2 ^ 32" "0 \<le> uint b" using uint_bounded [of a] by simp_all
  then show "elapsed a b < 2 ^ 32" unfolding elapsed_def by linarith
qed

definition cdd_covered :: "time \<Rightarrow> int \<Rightarrow> cdd_vesting_policy \<Rightarrow> bool" where
  \<comment> \<open>the coin seconds of a policy are paid for by its balance\<close>
  "cdd_covered now bal p \<longleftrightarrow>
     0 \<le> bal \<and> bal \<le> GRAPHENE_MAX_SHARE_SUPPLY \<and> coin_seconds_earned_last_update p \<le> now \<and>
     0 \<le> coin_seconds_earned p \<and> coin_seconds_earned p \<le> bal * max_seconds p"

lemma cap_bounds:
  fixes bal k :: int
  assumes "0 \<le> bal" and "bal \<le> GRAPHENE_MAX_SHARE_SUPPLY" and "0 \<le> k" and "k < 2 ^ 32"
  shows "0 \<le> bal * k" and "bal * k < 2 ^ 90"
proof -
  have "bal * k \<le> 10 ^ 17 * 2 ^ 32"
    using assms by (intro mult_mono) (auto simp: GRAPHENE_MAX_SHARE_SUPPLY_def)
  then show "bal * k < 2 ^ 90" by simp
  show "0 \<le> bal * k" using assms by simp
qed

lemma compute_exact:
  assumes "num_ops_ok ops" and "cdd_covered now0 (amount (ctx_balance ctx)) p" and "now0 \<le> ctx_now ctx"
  shows "compute_coin_seconds_earned ops p ctx =
    min (coin_seconds_earned p + amount (ctx_balance ctx) * elapsed (ctx_now ctx) (coin_seconds_earned_last_update p))
        (amount (ctx_balance ctx) * max_seconds p)"
proof -
  let ?a = "amount (ctx_balance ctx)" and ?d = "elapsed (ctx_now ctx) (coin_seconds_earned_last_update p)"
  note w = wide_intD [OF num_ops_okD(2) [OF assms(1)]]
  have a: "0 \<le> ?a" "?a \<le> GRAPHENE_MAX_SHARE_SUPPLY" using assms(2) by (auto simp: cdd_covered_def)
  have d: "0 \<le> ?d" "?d < 2 ^ 32"
    using assms(2,3) elapsed_bounds by (auto simp: cdd_covered_def)
  have cap: "0 \<le> ?a * max_seconds p" "?a * max_seconds p < 2 ^ 90"
    using max_seconds_bounds [of p] by (intro cap_bounds [OF a]; simp)+
  have del: "0 \<le> ?a * ?d" "?a * ?d < 2 ^ 90" using cap_bounds [OF a d] .
  have "wide ops ?a = ?a" using a by (intro w) (auto simp: GRAPHENE_MAX_SHARE_SUPPLY_def)
  moreover have "wide ops (?a * ?d) = ?a * ?d" using del by (intro w) auto
  moreover have "wide ops (?a * max_seconds p) = ?a * max_seconds p" using cap by (intro w) auto
  moreover have "wide ops (coin_seconds_earned p + ?a * ?d) = coin_seconds_earned p + ?a * ?d"
    using assms(2) cap del by (intro w) (auto simp: cdd_covered_def)
  ultimately show ?thesis by (simp add: compute_coin_seconds_earned_def Let_def)
qed

lemma update_covered:
  assumes "num_ops_ok ops" and "cdd_covered now0 (amount (ctx_balance ctx)) p" and "now0 \<le> ctx_now ctx"
  shows "cdd_covered (ctx_now ctx) (amount (ctx_balance ctx)) (update_coin_seconds_earned ops ctx p)"
proof -
  have "coin_seconds_earned_last_update p \<le> ctx_now ctx" using assms(2,3) by (auto simp: cdd_covered_def)
  then have "0 \<le> elapsed (ctx_now ctx) (coin_seconds_earned_last_update p)" by (rule elapsed_bounds)
  moreover have "max_seconds (update_coin_seconds_earned ops ctx p) = max_seconds p"
    by (simp add: update_coin_seconds_earned_def max_seconds_def)
  moreover have "0 \<le> amount (ctx_balance ctx) * max_seconds p"
    using assms(2) max_seconds_bounds(1) [of p] by (simp add: cdd_covered_def)
  ultimately show ?thesis
    using assms(2) by (simp add: cdd_covered_def compute_exact [OF assms] update_coin_seconds_earned_def)
qed

lemma max_seconds_update [simp]:
  "max_seconds (update_coin_seconds_earned ops ctx p) = max_seconds p"
  "max_seconds (p\<lparr>coin_seconds_earned := x\<rparr>) = max_seconds p"
  by (simp_all add: max_seconds_def update_coin_seconds_earned_def)

definition cdd_releasable :: "time \<Rightarrow> int \<Rightarrow> cdd_vesting_policy \<Rightarrow> int" where
  \<comment> \<open>what the policy releases, over the unbounded integers\<close>
  "cdd_releasable now bal p =
     (if now \<le> start_claim p then 0
      else min (coin_seconds_earned p + bal * elapsed now (coin_seconds_earned_last_update p)) (bal * max_seconds p)
           div max_seconds p)"

lemma releasable_bounds:
  assumes "cdd_covered now0 bal p" and "now0 \<le> now"
  shows "0 \<le> cdd_releasable now bal p" and "cdd_releasable now bal p \<le> bal"
proof -
  let ?d = "elapsed now (coin_seconds_earned_last_update p)"
  let ?m = "min (coin_seconds_earned p + bal * ?d) (bal * max_seconds p)"
  have b: "0 \<le> bal" "0 \<le> coin_seconds_earned p" "coin_seconds_earned_last_update p \<le> now"
    using assms by (auto simp: cdd_covered_def)
  have "0 \<le> bal * ?d" "0 \<le> bal * max_seconds p"
    using b elapsed_bounds(1) [OF b(3)] max_seconds_bounds(1) [of p] by simp_all
  then have "0 \<le> ?m" "?m \<le> bal * max_seconds p" using b by auto
  moreover have "0 < max_seconds p" using max_seconds_bounds(1) [of p] by simp
  ultimately have "0 \<le> ?m div max_seconds p" "?m div max_seconds p \<le> bal"
    using zdiv_mono1 [of ?m "bal * max_seconds p" "max_seconds p"] by (simp_all add: pos_imp_zdiv_nonneg_iff)
  then show "0 \<le> cdd_releasable now bal p" and "cdd_releasable now bal p \<le> bal"
    using b(1) by (auto simp: cdd_releasable_def)
qed

lemma cdd_allowed_withdraw_exact:
  assumes "num_ops_ok ops" and "cdd_covered now0 (amount (ctx_balance ctx)) p" and "now0 \<le> ctx_now ctx"
  shows "cdd_allowed_withdraw ops p ctx =
    Inr \<lparr>amount = cdd_releasable (ctx_now ctx) (amount (ctx_balance ctx)) p, asset_id = asset_id (ctx_balance ctx)\<rparr>"
proof -
  let ?r = "cdd_releasable (ctx_now ctx) (amount (ctx_balance ctx)) p"
  have "0 \<le> ?r" "?r \<le> amount (ctx_balance ctx)" by (rule releasable_bounds [OF assms(2,3)])+
  moreover have "amount (ctx_balance ctx) \<le> GRAPHENE_MAX_SHARE_SUPPLY" using assms(2) by (simp add: cdd_covered_def)
  ultimately have "low ops ?r = Inr ?r"
    by (intro num_ops_okD(3) [OF assms(1)]) (auto simp: GRAPHENE_MAX_SHARE_SUPPLY_def)
  then show ?thesis
    by (auto simp: cdd_allowed_withdraw_def compute_exact [OF assms] cdd_releasable_def Let_def split: if_splits)
qed

end
