(* ===== verification/Vesting_Properties.thy ===== *)
theory Vesting_Properties
  imports Vesting
begin

text \<open>
  The contract of the vesting balances: the amount a policy releases as a function over the
  unbounded integers, the invariant that both policies keep under every operation, and what
  an operation that the policy allows does.
\<close>

section \<open>The linear policy\<close>

definition linear_vested :: "time \<Rightarrow> linear_vesting_policy \<Rightarrow> int" where
  "linear_vested now p =
     (if now > begin_timestamp p \<and> elapsed now (begin_timestamp p) \<ge> uint (vesting_cliff_seconds p)
      then if elapsed now (begin_timestamp p) < uint (vesting_duration_seconds p)
           then begin_balance p * elapsed now (begin_timestamp p) div uint (vesting_duration_seconds p)
           else begin_balance p
      else 0)"

definition linear_releasable :: "time \<Rightarrow> int \<Rightarrow> linear_vesting_policy \<Rightarrow> int" where
  "linear_releasable now bal p =
     (if now > begin_timestamp p \<and> elapsed now (begin_timestamp p) \<ge> uint (vesting_cliff_seconds p)
      then linear_vested now p - (begin_balance p - bal) else 0)"

definition linear_covered :: "time \<Rightarrow> int \<Rightarrow> linear_vesting_policy \<Rightarrow> bool" where
  \<comment> \<open>what has been withdrawn had vested\<close>
  "linear_covered now bal p \<longleftrightarrow>
     0 \<le> bal \<and> bal \<le> GRAPHENE_MAX_SHARE_SUPPLY \<and> 0 \<le> begin_balance p \<and>
     begin_balance p \<le> GRAPHENE_MAX_SHARE_SUPPLY \<and> begin_balance p - bal \<le> linear_vested now p"

lemma elapsed_mono: "t \<le> t' \<Longrightarrow> elapsed t b \<le> elapsed t' b"
  by (simp add: elapsed_def word_le_def)

lemma linear_vested_bounds:
  assumes "0 \<le> begin_balance p"
  shows "0 \<le> linear_vested now p" and "linear_vested now p \<le> begin_balance p"
proof -
  let ?e = "elapsed now (begin_timestamp p)" and ?d = "uint (vesting_duration_seconds p)"
  have "0 \<le> begin_balance p * ?e div ?d \<and> begin_balance p * ?e div ?d \<le> begin_balance p"
    if "begin_timestamp p < now" "?e < ?d"
  proof -
    have e: "0 \<le> ?e" using that(1) by (intro elapsed_bounds(1)) simp
    have "begin_balance p * ?e \<le> begin_balance p * ?d" using that(2) assms by (intro mult_left_mono) auto
    then have "begin_balance p * ?e div ?d \<le> begin_balance p"
      using zdiv_mono1 [of "begin_balance p * ?e" "begin_balance p * ?d" ?d] e that(2) by simp
    then show ?thesis using e that(2) assms by (simp add: pos_imp_zdiv_nonneg_iff)
  qed
  then show "0 \<le> linear_vested now p" and "linear_vested now p \<le> begin_balance p"
    using assms by (auto simp: linear_vested_def)
qed

lemma linear_vested_mono:
  assumes "0 \<le> begin_balance p" and "now \<le> now'"
  shows "linear_vested now p \<le> linear_vested now' p"
proof (cases "begin_timestamp p < now \<and> uint (vesting_cliff_seconds p) \<le> elapsed now (begin_timestamp p)")
  case True
  let ?e = "elapsed now (begin_timestamp p)" and ?e' = "elapsed now' (begin_timestamp p)"
    and ?d = "uint (vesting_duration_seconds p)"
  have "begin_timestamp p < now'" using True assms(2) by auto
  moreover have e: "?e \<le> ?e'" using assms(2) by (rule elapsed_mono)
  ultimately have on: "begin_timestamp p < now' \<and> uint (vesting_cliff_seconds p) \<le> ?e'" using True by simp
  show ?thesis
  proof (cases "?e' < ?d")
    case True': True
    have "begin_balance p * ?e \<le> begin_balance p * ?e'" using e assms(1) by (rule mult_left_mono)
    moreover have "0 \<le> ?e'" using \<open>begin_timestamp p < now'\<close> by (intro elapsed_bounds(1)) simp
    ultimately have "begin_balance p * ?e div ?d \<le> begin_balance p * ?e' div ?d"
      using True' by (intro zdiv_mono1) auto
    then show ?thesis using True' True on e by (simp add: linear_vested_def)
  next
    case False
    then have "linear_vested now' p = begin_balance p" using on by (simp add: linear_vested_def)
    then show ?thesis using linear_vested_bounds(2) [OF assms(1)] by simp
  qed
next
  case False
  then have "linear_vested now p = 0" by (auto simp: linear_vested_def)
  then show ?thesis using linear_vested_bounds(1) [OF assms(1)] by simp
qed

lemma linear_covered_later:
  "linear_covered now bal p \<Longrightarrow> now \<le> now' \<Longrightarrow> linear_covered now' bal p"
  using linear_vested_mono [of p now now'] by (auto simp: linear_covered_def)

lemma linear_releasable_bounds:
  assumes "linear_covered now bal p"
  shows "0 \<le> linear_releasable now bal p" and "linear_releasable now bal p \<le> bal"
  using assms linear_vested_bounds(2) [of p now] by (auto simp: linear_covered_def linear_releasable_def)

lemma linear_allowed_withdraw_exact:
  assumes "num_ops_ok ops" and "linear_covered now0 (amount (ctx_balance ctx)) p" and "now0 \<le> ctx_now ctx"
  shows "linear_allowed_withdraw ops p ctx =
    Inr \<lparr>amount = linear_releasable (ctx_now ctx) (amount (ctx_balance ctx)) p, asset_id = asset_id (ctx_amount ctx)\<rparr>"
proof (cases "begin_timestamp p < ctx_now ctx \<and>
    uint (vesting_cliff_seconds p) \<le> elapsed (ctx_now ctx) (begin_timestamp p)")
  case True
  let ?now = "ctx_now ctx" and ?bal = "amount (ctx_balance ctx)"
  let ?e = "elapsed ?now (begin_timestamp p)" and ?d = "uint (vesting_duration_seconds p)"
  have cov: "linear_covered ?now ?bal p" using linear_covered_later [OF assms(2,3)] .
  then have b: "0 \<le> begin_balance p" "begin_balance p \<le> GRAPHENE_MAX_SHARE_SUPPLY" "0 \<le> ?bal" "?bal \<le> GRAPHENE_MAX_SHARE_SUPPLY"
    by (auto simp: linear_covered_def)
  note sf = safe_int_ok [OF num_ops_okD(1) [OF assms(1)]]
  note w = wide_intD [OF num_ops_okD(2) [OF assms(1)]]
  have e: "0 \<le> ?e" "?e < 2 ^ 32" using True elapsed_bounds(1) [of "begin_timestamp p" ?now] elapsed_bounds(2) by auto
  have "wide ops (begin_balance p) = begin_balance p" using b by (intro w) (auto simp: GRAPHENE_MAX_SHARE_SUPPLY_def)
  moreover have "wide ops (begin_balance p * ?e) = begin_balance p * ?e"
    using cap_bounds [OF b(1,2) e] by (intro w) auto
  moreover have "low ops (linear_vested ?now p) = Inr (linear_vested ?now p)"
    using linear_vested_bounds [OF b(1), of ?now] b(2)
    by (intro num_ops_okD(3) [OF assms(1)]) (auto simp: GRAPHENE_MAX_SHARE_SUPPLY_def)
  ultimately have tot: "(if ?e < ?d then low ops (wide ops (wide ops (begin_balance p) * ?e) div ?d) else Inr (begin_balance p))
      = Inr (linear_vested ?now p)"
    using True by (auto simp: linear_vested_def)
  have "safe ops (begin_balance p - ?bal) = Inr (begin_balance p - ?bal)"
    using b by (intro sf) (auto simp: GRAPHENE_MAX_SHARE_SUPPLY_def)
  moreover have "safe ops (linear_vested ?now p - (begin_balance p - ?bal)) = Inr (linear_vested ?now p - (begin_balance p - ?bal))"
    using b linear_vested_bounds [OF b(1), of ?now] by (intro sf) (auto simp: GRAPHENE_MAX_SHARE_SUPPLY_def)
  ultimately show ?thesis
    using True by (simp add: linear_allowed_withdraw_def tot linear_releasable_def Let_def)
next
  case False
  then show ?thesis by (auto simp: linear_allowed_withdraw_def linear_releasable_def Let_def)
qed

section \<open>The contract of a balance object\<close>

definition vb_covered :: "time \<Rightarrow> vesting_balance \<Rightarrow> bool" where
  "vb_covered now vb =
     (case vb_policy vb of Linear p \<Rightarrow> linear_covered now (amount (vb_balance vb)) p
      | Cdd p \<Rightarrow> cdd_covered now (amount (vb_balance vb)) p)"

definition vb_releasable :: "time \<Rightarrow> vesting_balance \<Rightarrow> int" where
  "vb_releasable now vb =
     (case vb_policy vb of Linear p \<Rightarrow> linear_releasable now (amount (vb_balance vb)) p
      | Cdd p \<Rightarrow> cdd_releasable now (amount (vb_balance vb)) p)"

lemma cdd_covered_later: "cdd_covered now bal p \<Longrightarrow> now \<le> now' \<Longrightarrow> cdd_covered now' bal p"
  by (auto simp: cdd_covered_def)

lemma vb_covered_later: "vb_covered now vb \<Longrightarrow> now \<le> now' \<Longrightarrow> vb_covered now' vb"
  by (auto simp: vb_covered_def linear_covered_later cdd_covered_later split: vesting_policy.splits)

lemma vb_covered_balance:
  "vb_covered now vb \<Longrightarrow> 0 \<le> amount (vb_balance vb) \<and> amount (vb_balance vb) \<le> GRAPHENE_MAX_SHARE_SUPPLY"
  by (auto simp: vb_covered_def linear_covered_def cdd_covered_def split: vesting_policy.splits)

lemma vb_releasable_bounds:
  assumes "vb_covered now vb"
  shows "0 \<le> vb_releasable now vb" and "vb_releasable now vb \<le> amount (vb_balance vb)"
  using assms linear_releasable_bounds releasable_bounds
  by (auto simp: vb_covered_def vb_releasable_def split: vesting_policy.splits)

lemma asset_less_eq_same:
  "asset_id a = asset_id b \<Longrightarrow> asset_less_eq a b = Inr (amount a \<le> amount b)"
  by (auto simp: asset_less_eq_def asset_less_def asset_eq_def)

lemma asset_less_eq_True:
  "asset_less_eq a b = Inr True \<longleftrightarrow> asset_id a = asset_id b \<and> amount a \<le> amount b"
  by (auto simp: asset_less_eq_def asset_less_def asset_eq_def res_simps)

lemma vb_withdraw_allowed_iff:
  assumes "num_ops_ok ops" and "vb_covered now vb"
  shows "vb_withdraw_allowed ops now a vb = Inr True \<longleftrightarrow>
    asset_id a = asset_id (vb_balance vb) \<and> amount a \<le> vb_releasable now vb"
proof (cases "vb_policy vb")
  case (Linear p)
  then have cov: "linear_covered now (amount (vb_balance vb)) p" using assms(2) by (simp add: vb_covered_def)
  show ?thesis
    using linear_allowed_withdraw_exact [OF assms(1), of now "\<lparr>ctx_balance = vb_balance vb, ctx_now = now, ctx_amount = a\<rparr>" p] cov
    by (auto simp: Linear vb_withdraw_allowed_def linear_withdraw_allowed_def vb_releasable_def asset_less_eq_True Let_def)
next
  case (Cdd p)
  then have cov: "cdd_covered now (amount (vb_balance vb)) p" using assms(2) by (simp add: vb_covered_def)
  show ?thesis
    using cdd_allowed_withdraw_exact [OF assms(1), of now "\<lparr>ctx_balance = vb_balance vb, ctx_now = now, ctx_amount = a\<rparr>" p] cov
    by (auto simp: Cdd vb_withdraw_allowed_def cdd_withdraw_allowed_def vb_releasable_def asset_less_eq_True Let_def)
qed


section \<open>What the operations do\<close>







lemma elapsed_self [simp]: "elapsed t t = 0"
  by (simp add: elapsed_def)

lemma cdd_spend:
  assumes "num_ops_ok ops" and "cdd_covered now bal p" and "ctx_balance ctx = b" and "amount b = bal" and "ctx_now ctx = now"
    and "0 \<le> amount (ctx_amount ctx)" and "amount (ctx_amount ctx) \<le> cdd_releasable now bal p"
  shows "cdd_covered now (bal - amount (ctx_amount ctx)) (cdd_on_withdraw ops ctx p)"
    and "cdd_releasable now (bal - amount (ctx_amount ctx)) (cdd_on_withdraw ops ctx p)
      = cdd_releasable now bal p - amount (ctx_amount ctx)"
proof -
  let ?x = "amount (ctx_amount ctx)" and ?m = "max_seconds p" and ?u = "update_coin_seconds_earned ops ctx p"
  let ?c = "coin_seconds_earned ?u"
  have cov: "cdd_covered now bal ?u"
    using update_covered [OF assms(1), of now ctx p] assms(2-5) by simp
  have c: "?c = min (coin_seconds_earned p + bal * elapsed now (coin_seconds_earned_last_update p)) (bal * ?m)"
    using compute_exact [OF assms(1), of now ctx p] assms(2-5) by (simp add: update_coin_seconds_earned_def)
  have m: "0 < ?m" using max_seconds_bounds(1) [of p] by simp
  have c0: "0 \<le> ?c" "?c \<le> bal * ?m" using cov by (auto simp: cdd_covered_def)
  have xle: "?x * ?m \<le> ?c"
  proof (cases "now \<le> start_claim p")
    case True
    then have "?x = 0" using assms(6,7) by (simp add: cdd_releasable_def)
    then show ?thesis using c0 by simp
  next
    case False
    then have "?x * ?m \<le> ?c div ?m * ?m" using assms(7) m by (simp add: cdd_releasable_def c)
    also have "\<dots> \<le> ?c" using m by (simp add: minus_mod_eq_div_mult [symmetric])
    finally show ?thesis .
  qed
  have bm: "bal * ?m < 2 ^ 90"
    using max_seconds_bounds [of p] assms(2) by (intro cap_bounds) (auto simp: cdd_covered_def)
  have x0: "0 \<le> ?x * ?m" using assms(6) m by simp
  note w = wide_intD [OF num_ops_okD(2) [OF assms(1)]]
  have "?x \<le> bal" using assms(2,7) releasable_bounds(2) [of now bal p now] by simp
  moreover have "bal \<le> GRAPHENE_MAX_SHARE_SUPPLY" using assms(2) by (simp add: cdd_covered_def)
  ultimately have "wide ops ?x = ?x" "?x \<le> bal" using assms(6) by (auto intro!: w simp: GRAPHENE_MAX_SHARE_SUPPLY_def)
  moreover have "wide ops (?x * ?m) = ?x * ?m" using x0 xle c0 bm by (intro w) auto
  moreover have "wide ops (?c - ?x * ?m) = ?c - ?x * ?m" using x0 xle c0 bm by (intro w) auto
  ultimately have eff: "cdd_on_withdraw ops ctx p = ?u\<lparr>coin_seconds_earned := ?c - ?x * ?m\<rparr>" and xb: "?x \<le> bal"
    by (simp_all add: cdd_on_withdraw_def Let_def)
  show "cdd_covered now (bal - ?x) (cdd_on_withdraw ops ctx p)"
    using cov xle xb c0 assms(6) by (auto simp: eff cdd_covered_def left_diff_distrib)
  have "(?c - ?x * ?m) div ?m = ?c div ?m - ?x"
    using div_mult_self1 [of ?m ?c "- ?x"] m by (simp add: algebra_simps)
  moreover have "start_claim (cdd_on_withdraw ops ctx p) = start_claim p" "max_seconds (cdd_on_withdraw ops ctx p) = ?m"
      "coin_seconds_earned_last_update (cdd_on_withdraw ops ctx p) = now"
    using assms(5) by (simp_all add: eff update_coin_seconds_earned_def max_seconds_def)
  moreover have "coin_seconds_earned (cdd_on_withdraw ops ctx p) = ?c - ?x * ?m" by (simp add: eff)
  ultimately show "cdd_releasable now (bal - ?x) (cdd_on_withdraw ops ctx p) = cdd_releasable now bal p - ?x"
    using c0 c assms(6,7) by (auto simp: cdd_releasable_def left_diff_distrib)
qed


lemma linear_spend:
  assumes "linear_covered now bal p" and "0 \<le> x" and "x \<le> linear_releasable now bal p"
  shows "linear_covered now (bal - x) p" and "linear_releasable now (bal - x) p = linear_releasable now bal p - x"
  using assms linear_vested_bounds(2) [of p now]
  by (auto simp: linear_covered_def linear_releasable_def split: if_splits)

lemma vb_withdraw_effect:
  assumes "num_ops_ok ops" and "vb_covered now vb" and "0 \<le> amount a" and "vb_withdraw_allowed ops now a vb = Inr True"
  obtains vb' where "vb_withdraw ops now a vb = Inr vb'" and "vb_covered now vb'"
    and "vb_releasable now vb' = vb_releasable now vb - amount a"
    and "vb_balance vb' = (vb_balance vb)\<lparr>amount := amount (vb_balance vb) - amount a\<rparr>"
proof -
  let ?ctx = "\<lparr>ctx_balance = vb_balance vb, ctx_now = now, ctx_amount = a\<rparr>"
  let ?b = "(vb_balance vb)\<lparr>amount := amount (vb_balance vb) - amount a\<rparr>"
  have al: "asset_id a = asset_id (vb_balance vb)" "amount a \<le> vb_releasable now vb"
    using assms(4) vb_withdraw_allowed_iff [OF assms(1,2)] by auto
  have "amount a \<le> amount (vb_balance vb)" using al(2) vb_releasable_bounds(2) [OF assms(2)] by simp
  then have "safe ops (amount (vb_balance vb) - amount a) = Inr (amount (vb_balance vb) - amount a)"
    using vb_covered_balance [OF assms(2)] assms(3)
    by (intro safe_int_ok [OF num_ops_okD(1) [OF assms(1)]]) (auto simp: GRAPHENE_MAX_SHARE_SUPPLY_def)
  then have minus: "asset_minus (safe ops) (vb_balance vb) a = Inr ?b" using al by (simp add: asset_minus_def)
  show thesis
  proof (cases "vb_policy vb")
    case (Linear p)
    then show thesis
      using minus that [of "vb\<lparr>vb_policy := Linear p, vb_balance := ?b\<rparr>"] linear_spend [of now _ p "amount a"] assms(2,3) al(2)
      by (simp add: vb_withdraw_def vb_covered_def vb_releasable_def)
  next
    case (Cdd p)
    then show thesis
      using minus that [of "vb\<lparr>vb_policy := Cdd (cdd_on_withdraw ops ?ctx p), vb_balance := ?b\<rparr>"]
        cdd_spend [OF assms(1), of now "amount (vb_balance vb)" p ?ctx "vb_balance vb"] assms(2,3) al(2)
      by (simp add: vb_withdraw_def vb_covered_def vb_releasable_def)
  qed
qed

section \<open>Histories of a balance\<close>




definition example_cdd :: vesting_balance where
  "example_cdd = \<lparr>vb_owner = 5, vb_balance = \<lparr>amount = 100, asset_id = 0\<rparr>,
     vb_policy = Cdd \<lparr>vesting_seconds = 10, coin_seconds_earned = 0, start_claim = 0, coin_seconds_earned_last_update = 50\<rparr>\<rparr>"

lemma example_cdd_covered: "vb_covered 50 example_cdd"
  by (simp add: example_cdd_def vb_covered_def cdd_covered_def GRAPHENE_MAX_SHARE_SUPPLY_def max_seconds_def)



text \<open>An allowed withdrawal never throws; it takes exactly the amount out of the balance, and exactly the
  amount out of what may still be withdrawn at that time, so that splitting a withdrawal gains nothing; and a
  withdrawal is allowed exactly up to the releasable amount, in the asset of the balance.\<close>

theorem withdrawal_spends_the_allowance:
  assumes "num_ops_ok ops" and "vb_covered now vb" and "0 \<le> amount a"
  shows "(vb_withdraw_allowed ops now a vb = Inr True \<longleftrightarrow>
      asset_id a = asset_id (vb_balance vb) \<and> amount a \<le> vb_releasable now vb) \<and>
    (vb_withdraw_allowed ops now a vb = Inr True \<longrightarrow>
      (\<exists>vb'. vb_withdraw ops now a vb = Inr vb' \<and> amount (vb_balance vb') = amount (vb_balance vb) - amount a \<and>
        vb_releasable now vb' = vb_releasable now vb - amount a))"
proof (intro conjI impI)
  show "vb_withdraw_allowed ops now a vb = Inr True \<longleftrightarrow>
      asset_id a = asset_id (vb_balance vb) \<and> amount a \<le> vb_releasable now vb"
    by (rule vb_withdraw_allowed_iff [OF assms(1,2)])
next
  assume "vb_withdraw_allowed ops now a vb = Inr True"
  from vb_withdraw_effect [OF assms this] show "\<exists>vb'. vb_withdraw ops now a vb = Inr vb' \<and>
      amount (vb_balance vb') = amount (vb_balance vb) - amount a \<and>
      vb_releasable now vb' = vb_releasable now vb - amount a"
    by (metis asset.select_convs(1) asset.surjective asset.update_convs(1))
qed

theorem withdrawal_spends_the_allowance_witness:
  "vb_withdraw_allowed plain_ops 55 \<lparr>amount = 50, asset_id = 0\<rparr> example_cdd = Inr True \<longleftrightarrow> 50 \<le> vb_releasable 55 example_cdd"
proof -
  have "vb_covered 55 example_cdd" using vb_covered_later [OF example_cdd_covered] by simp
  from withdrawal_spends_the_allowance [OF plain_ops_ok this, of "\<lparr>amount = 50, asset_id = 0\<rparr>"] show ?thesis
    by (simp add: example_cdd_def)
qed

text \<open>Vesting completes.  Under the coin-days policy the whole balance may be withdrawn once the vesting
  period has passed since the last update and the claim date is over; under the linear policy, when its duration and
  cliff are over.  Before the cliff, or before the claim date, nothing may be withdrawn.\<close>

theorem vesting_completes:
  assumes "num_ops_ok ops" and "vb_covered now0 vb" and "now0 \<le> now" and "asset_id a = asset_id (vb_balance vb)"
  shows "(\<forall>p. vb_policy vb = Cdd p \<and> start_claim p < now \<and>
        max_seconds p \<le> elapsed now (coin_seconds_earned_last_update p) \<longrightarrow>
      (vb_withdraw_allowed ops now a vb = Inr True \<longleftrightarrow> amount a \<le> amount (vb_balance vb))) \<and>
    (\<forall>p. vb_policy vb = Cdd p \<and> now \<le> start_claim p \<longrightarrow>
      (vb_withdraw_allowed ops now a vb = Inr True \<longleftrightarrow> amount a \<le> 0)) \<and>
    (\<forall>p. vb_policy vb = Linear p \<and> begin_timestamp p < now \<and>
        uint (vesting_cliff_seconds p) \<le> elapsed now (begin_timestamp p) \<and>
        uint (vesting_duration_seconds p) \<le> elapsed now (begin_timestamp p) \<longrightarrow>
      (vb_withdraw_allowed ops now a vb = Inr True \<longleftrightarrow> amount a \<le> amount (vb_balance vb))) \<and>
    (\<forall>p. vb_policy vb = Linear p \<and> elapsed now (begin_timestamp p) < uint (vesting_cliff_seconds p) \<longrightarrow>
      (vb_withdraw_allowed ops now a vb = Inr True \<longleftrightarrow> amount a \<le> 0))"
proof -
  have cov: "vb_covered now vb" using vb_covered_later [OF assms(2,3)] .
  have full: "cdd_releasable now bal p = bal"
    if c: "cdd_covered now bal p" and s: "start_claim p < now"
      and e: "max_seconds p \<le> elapsed now (coin_seconds_earned_last_update p)" for bal p
  proof -
    have "bal * max_seconds p \<le> bal * elapsed now (coin_seconds_earned_last_update p)"
      using c e by (intro mult_left_mono) (auto simp: cdd_covered_def)
    then have "bal * max_seconds p \<le> coin_seconds_earned p + bal * elapsed now (coin_seconds_earned_last_update p)"
      using c by (simp add: cdd_covered_def)
    moreover have "max_seconds p \<noteq> 0" using max_seconds_bounds(1) [of p] by simp
    moreover have "\<not> now \<le> start_claim p" using s by simp
    ultimately show ?thesis by (simp add: cdd_releasable_def min_absorb2)
  qed
  have early: "cdd_releasable now bal p = 0" if "now \<le> start_claim p" for bal p
    using that by (simp add: cdd_releasable_def)
  show ?thesis
    using cov assms(4) by (auto simp: vb_withdraw_allowed_iff [OF assms(1) cov] vb_covered_def vb_releasable_def full early
        linear_releasable_def linear_vested_def split: if_splits)
qed

theorem vesting_completes_witness:
  "vb_withdraw_allowed plain_ops 61 \<lparr>amount = 100, asset_id = 0\<rparr> example_cdd = Inr True"
proof -
  have "asset_id \<lparr>amount = 100, asset_id = 0\<rparr> = asset_id (vb_balance example_cdd)" by (simp add: example_cdd_def)
  from vesting_completes [OF plain_ops_ok example_cdd_covered _ this, of 61] show ?thesis
    by (simp add: example_cdd_def elapsed_def max_seconds_def)
qed

section \<open>Divergences\<close>

text \<open>
  The comment of \<open>linear_vesting_policy\<close> says that new funds may not be added to a linear
  vesting balance; \<open>is_deposit_allowed\<close> allows it, and what is added may be withdrawn at
  once, because the vested part is computed from the initial balance only.
\<close>

definition example_linear :: vesting_balance where
  "example_linear = \<lparr>vb_owner = 5, vb_balance = \<lparr>amount = 100, asset_id = 7\<rparr>,
     vb_policy = Linear \<lparr>begin_timestamp = 0, vesting_cliff_seconds = 10, vesting_duration_seconds = 100, begin_balance = 100\<rparr>\<rparr>"

lemma linear_deposit_vests_at_once:
  "vb_deposit_allowed plain_ops 20 \<lparr>amount = 50, asset_id = 7\<rparr> example_linear = Inr True"
  "res_bind (vb_deposit plain_ops 20 \<lparr>amount = 50, asset_id = 7\<rparr> example_linear)
    (vb_withdraw_allowed plain_ops 20 \<lparr>amount = 70, asset_id = 7\<rparr>) = Inr True"
  by code_simp+

text \<open>
  \<open>vesting_balance_object::get_allowed_withdraw\<close> asks the policy with a default amount, whose
  asset is the core asset; the linear policy answers in the asset of that amount, not of the
  balance.
\<close>

lemma linear_allowance_in_core_asset:
  "asset_id (vb_balance example_linear) = 7"
  "vb_allowed_withdraw plain_ops 20 example_linear = Inr \<lparr>amount = 20, asset_id = 0\<rparr>"
  by code_simp+

text \<open>
  \<open>cdd_vesting_policy::on_deposit_vested\<close> multiplies the 64-bit amount by the vesting period
  before widening; the product overflows for amounts that \<open>is_deposit_vested_allowed\<close> accepts.
\<close>

definition example_empty_cdd :: vesting_balance where
  "example_empty_cdd = \<lparr>vb_owner = 5, vb_balance = \<lparr>amount = 0, asset_id = 0\<rparr>,
     vb_policy = Cdd \<lparr>vesting_seconds = 31536000, coin_seconds_earned = 0, start_claim = 0, coin_seconds_earned_last_update = 50\<rparr>\<rparr>"

lemma vested_deposit_overflows:
  "vb_deposit_vested_allowed plain_ops 50 \<lparr>amount = 10 ^ 12, asset_id = 0\<rparr> example_empty_cdd = Inr True"
  "vb_deposit_vested plain_ops 50 \<lparr>amount = 10 ^ 12, asset_id = 0\<rparr> example_empty_cdd = Inl Undefined_Behaviour"
  by code_simp+

end
