(* ===== verification/Authority.thy ===== *)
theory Authority
  imports Prelude
begin

text \<open>
  Authorities (\<open>protocol/authority.hpp\<close>), the signature check of transactions
  (\<open>sign_state\<close>, \<open>verify_authority\<close>, \<open>get_required_signatures\<close>,
  \<open>minimize_required_signatures\<close> in \<open>protocol/transaction.cpp\<close>) and the collection of what
  an operation requires (\<open>protocol/operations.cpp\<close>).

  Flat maps and flat sets are lists sorted by key.  Public keys are numbers (their order is
  all that is used), weights are 16-bit and the tot of a check is a 32-bit word, as in the
  code.  The recursion depth is counted down from \<open>max_recursion\<close>: the code's
  \<open>depth == max_recursion\<close> is zero here.  Recovering a public key from a signature is the
  parameter \<open>recover\<close>; the operations are an arbitrary type with the accounts each of them
  requires.
\<close>

section \<open>Flat maps\<close>

fun flat_map_put :: "'k::linorder \<Rightarrow> 'v \<Rightarrow> ('k \<times> 'v) list \<Rightarrow> ('k \<times> 'v) list" where
  "flat_map_put k v [] = [(k, v)]"
| "flat_map_put k v ((k', v') # m) =
     (if k < k' then (k, v) # (k', v') # m else if k = k' then (k, v) # m else (k', v') # flat_map_put k v m)"

lemma flat_map_put_keys: "set (map fst (flat_map_put k v m)) = insert k (set (map fst m))"
  by (induction k v m rule: flat_map_put.induct) auto

lemma flat_map_put_set: "set (flat_map_put k v m) \<subseteq> insert (k, v) (set m)"
  by (induction k v m rule: flat_map_put.induct) auto

lemma flat_map_put_sorted:
  "sorted_wrt (<) (map fst m) \<Longrightarrow> sorted_wrt (<) (map fst (flat_map_put k v m))"
proof (induction k v m rule: flat_map_put.induct)
  case (2 k v k' v' m)
  have "\<forall>x \<in> set (map fst (flat_map_put k v m)). k' < x" if "k' < k"
    using 2(2) that by (simp only: flat_map_put_keys) auto
  then show ?case using 2 by (auto dest: less_trans)
qed simp

lemma flat_map_put_map_of:
  "map_of (flat_map_put k v m) = (map_of m)(k \<mapsto> v)" if "sorted_wrt (<) (map fst m)"
  using that
proof (induction k v m rule: flat_map_put.induct)
  case (2 k v k' v' m)
  then show ?case by (auto simp: fun_eq_iff)
qed simp

section \<open>Data\<close>

type_synonym account = nat
type_synonym public_key = nat
type_synonym weight = "16 word"

record authority =
  weight_threshold :: "32 word"
  account_auths :: "(account \<times> weight) list"
  key_auths :: "(public_key \<times> weight) list"

definition GRAPHENE_MINER_ACCOUNT :: account where "GRAPHENE_MINER_ACCOUNT = 0"
definition GRAPHENE_NULL_ACCOUNT :: account where "GRAPHENE_NULL_ACCOUNT = 1"
definition GRAPHENE_TEMP_ACCOUNT :: account where "GRAPHENE_TEMP_ACCOUNT = 2"
definition GRAPHENE_MAX_SIG_CHECK_DEPTH :: nat where "GRAPHENE_MAX_SIG_CHECK_DEPTH = 2"

definition add_key_authority :: "public_key \<Rightarrow> weight \<Rightarrow> authority \<Rightarrow> authority" where
  "add_key_authority k w a = a\<lparr>key_auths := flat_map_put k w (key_auths a)\<rparr>"

definition add_account_authority :: "account \<Rightarrow> weight \<Rightarrow> authority \<Rightarrow> authority" where
  "add_account_authority k w a = a\<lparr>account_auths := flat_map_put k w (account_auths a)\<rparr>"

definition is_impossible :: "authority \<Rightarrow> bool" where
  "is_impossible a \<longleftrightarrow>
     fold (\<lambda>x s. s + ucast (snd x)) (key_auths a) (fold (\<lambda>x s. s + ucast (snd x)) (account_auths a) (0 :: 64 word))
       < ucast (weight_threshold a)"

definition get_keys :: "authority \<Rightarrow> public_key list" where
  "get_keys a = map fst (key_auths a)"

definition num_auths :: "authority \<Rightarrow> 32 word" where
  "num_auths a = word_of_nat (length (account_auths a) + length (key_auths a))"

definition clear_authority :: "authority \<Rightarrow> authority" where
  "clear_authority a = a\<lparr>account_auths := [], key_auths := []\<rparr>"

definition null_authority :: authority where
  "null_authority = add_account_authority GRAPHENE_NULL_ACCOUNT 1 \<lparr>weight_threshold = 1, account_auths = [], key_auths = []\<rparr>"

section \<open>Checking signatures\<close>

record sign_state =
  provided_signatures :: "(public_key \<times> bool) list"
  approved_by :: "account list"
  available_keys :: "public_key list"

definition signed_by :: "public_key \<Rightarrow> sign_state \<Rightarrow> bool \<times> sign_state" where
  "signed_by k s =
     (case map_of (provided_signatures s) k of
        None \<Rightarrow> if k \<in> set (available_keys s)
                then (True, s\<lparr>provided_signatures := flat_map_put k True (provided_signatures s)\<rparr>)
                else (False, s)
      | Some used \<Rightarrow> (True, s\<lparr>provided_signatures := flat_map_put k True (provided_signatures s)\<rparr>))"

fun check_keys :: "32 word \<Rightarrow> (public_key \<times> weight) list \<Rightarrow> 32 word \<Rightarrow> sign_state \<Rightarrow> bool \<times> 32 word \<times> sign_state" where
  "check_keys threshold [] tot s = (False, tot, s)"
| "check_keys threshold ((k, w) # ks) tot s =
     (case signed_by k s of
        (False, s1) \<Rightarrow> check_keys threshold ks tot s1
      | (True, s1) \<Rightarrow> let tot1 = tot + ucast w
                      in if tot1 \<ge> threshold then (True, tot1, s1) else check_keys threshold ks tot1 s1)"

fun check_accounts :: "(account \<Rightarrow> authority option) \<Rightarrow> (authority option \<Rightarrow> sign_state \<Rightarrow> bool \<times> sign_state) option \<Rightarrow>
    32 word \<Rightarrow> (account \<times> weight) list \<Rightarrow> 32 word \<Rightarrow> sign_state \<Rightarrow> bool \<times> sign_state" where
  \<comment> \<open>the loop over the account authorities; the check one level deeper is \<^const>\<open>None\<close> at the
      deepest level\<close>
  "check_accounts get_active deeper threshold [] tot s = (tot \<ge> threshold, s)"
| "check_accounts get_active deeper threshold ((a, w) # as) tot s =
     (let tot1 = tot + ucast w
      in if a \<notin> set (approved_by s)
         then (case deeper of
                 None \<Rightarrow> (False, s)
               | Some check \<Rightarrow>
                   (case check (get_active a) s of
                      (False, s1) \<Rightarrow> check_accounts get_active deeper threshold as tot s1
                    | (True, s1) \<Rightarrow>
                        let s2 = s1\<lparr>approved_by := insort_insert a (approved_by s1)\<rparr>
                        in if tot1 \<ge> threshold then (True, s2)
                           else check_accounts get_active deeper threshold as tot1 s2))
         else if tot1 \<ge> threshold then (True, s)
         else check_accounts get_active deeper threshold as tot1 s)"

definition check_authority_body :: "(account \<Rightarrow> authority option) \<Rightarrow> (authority option \<Rightarrow> sign_state \<Rightarrow> bool \<times> sign_state) option \<Rightarrow>
    authority option \<Rightarrow> sign_state \<Rightarrow> bool \<times> sign_state" where
  "check_authority_body get_active deeper au s =
     (case au of
        None \<Rightarrow> (False, s)
      | Some auth \<Rightarrow>
          (case check_keys (weight_threshold auth) (key_auths auth) 0 s of
             (True, tot, s1) \<Rightarrow> (True, s1)
           | (False, tot, s1) \<Rightarrow> check_accounts get_active deeper (weight_threshold auth) (account_auths auth) tot s1))"

primrec check_authority :: "(account \<Rightarrow> authority option) \<Rightarrow> nat \<Rightarrow> authority option \<Rightarrow> sign_state \<Rightarrow> bool \<times> sign_state" where
  "check_authority get_active 0 = check_authority_body get_active None"
| "check_authority get_active (Suc n) = check_authority_body get_active (Some (check_authority get_active n))"

definition check_account :: "(account \<Rightarrow> authority option) \<Rightarrow> nat \<Rightarrow> account \<Rightarrow> sign_state \<Rightarrow> bool \<times> sign_state" where
  \<comment> \<open>the overload for an account\<close>
  "check_account get_active max_recursion a s =
     (if a \<in> set (approved_by s) then (True, s) else check_authority get_active max_recursion (get_active a) s)"

definition remove_unused_signatures :: "sign_state \<Rightarrow> bool \<times> sign_state" where
  "remove_unused_signatures s =
     (let remove_sigs = map fst (filter (\<lambda>p. \<not> snd p) (provided_signatures s))
      in (remove_sigs \<noteq> [], s\<lparr>provided_signatures := fold AList.delete remove_sigs (provided_signatures s)\<rparr>))"

definition sign_state_init :: "public_key list \<Rightarrow> public_key list \<Rightarrow> sign_state" where
  "sign_state_init sigs keys =
     \<lparr>provided_signatures = fold (\<lambda>k. flat_map_put k False) sigs [], approved_by = [GRAPHENE_TEMP_ACCOUNT],
      available_keys = keys\<rparr>"

section \<open>Transactions\<close>

record op_auths =
  fee_payer :: account
  op_active :: "account list"
  op_owner :: "account list"
  op_other :: "authority list"

definition operation_get_required_authorities :: "op_auths \<Rightarrow> account list \<times> account list \<times> authority list
    \<Rightarrow> account list \<times> account list \<times> authority list" where
  "operation_get_required_authorities oa = (\<lambda>(act, own, oth).
     (fold insort_insert (op_active oa) (insort_insert (fee_payer oa) act),
      fold insort_insert (op_owner oa) own, oth @ op_other oa))"

definition get_required_authorities :: "('op \<Rightarrow> op_auths) \<Rightarrow> 'op list \<Rightarrow> account list \<times> account list \<times> authority list" where
  "get_required_authorities auths ops = fold (\<lambda>x. operation_get_required_authorities (auths x)) ops ([], [], [])"

fun check_others :: "(account \<Rightarrow> authority option) \<Rightarrow> nat \<Rightarrow> authority list \<Rightarrow> sign_state \<Rightarrow> sign_state res" where
  "check_others get_active depth [] s = Inr s"
| "check_others get_active depth (au # aus) s =
     (case check_authority get_active depth (Some au) s of
        (True, s1) \<Rightarrow> check_others get_active depth aus s1
      | (False, s1) \<Rightarrow> Inl Tx_Missing_Other_Auth)"

fun check_actives :: "(account \<Rightarrow> authority option) \<Rightarrow> (account \<Rightarrow> authority option) \<Rightarrow> nat \<Rightarrow> account list \<Rightarrow> sign_state \<Rightarrow> sign_state res" where
  "check_actives get_active get_owner depth [] s = Inr s"
| "check_actives get_active get_owner depth (a # as) s =
     (case check_account get_active depth a s of
        (True, s1) \<Rightarrow> check_actives get_active get_owner depth as s1
      | (False, s1) \<Rightarrow>
          (case check_authority get_active depth (get_owner a) s1 of
             (True, s2) \<Rightarrow> check_actives get_active get_owner depth as s2
           | (False, s2) \<Rightarrow> Inl Tx_Missing_Active_Auth))"

fun check_owners :: "(account \<Rightarrow> authority option) \<Rightarrow> (account \<Rightarrow> authority option) \<Rightarrow> nat \<Rightarrow> account list \<Rightarrow> account list \<Rightarrow> sign_state \<Rightarrow> sign_state res" where
  "check_owners get_active get_owner depth owner_approvals [] s = Inr s"
| "check_owners get_active get_owner depth owner_approvals (a # as) s =
     (if a \<in> set owner_approvals then check_owners get_active get_owner depth owner_approvals as s
      else (case check_authority get_active depth (get_owner a) s of
              (True, s1) \<Rightarrow> check_owners get_active get_owner depth owner_approvals as s1
            | (False, s1) \<Rightarrow> Inl Tx_Missing_Owner_Auth))"

definition verify_authority :: "('op \<Rightarrow> op_auths) \<Rightarrow> 'op list \<Rightarrow> public_key list \<Rightarrow> (account \<Rightarrow> authority option) \<Rightarrow>
    (account \<Rightarrow> authority option) \<Rightarrow> nat \<Rightarrow> bool \<Rightarrow> account list \<Rightarrow> account list \<Rightarrow> unit res" where
  "verify_authority auths ops sigs get_active get_owner max_recursion_depth allow_committee active_approvals owner_approvals =
     (case get_required_authorities auths ops of
        (required_active, required_owner, other) \<Rightarrow>
          res_bind (if \<not> allow_committee
                    then assert_that (GRAPHENE_MINER_ACCOUNT \<notin> set required_active) Invalid_Committee_Approval
                    else Inr ()) (\<lambda>_.
          let s0 = sign_state_init sigs [];
              s1 = s0\<lparr>approved_by := fold insort_insert owner_approvals (fold insort_insert active_approvals (approved_by s0))\<rparr>
          in res_bind (check_others get_active max_recursion_depth other s1) (\<lambda>s2.
             res_bind (check_actives get_active get_owner max_recursion_depth required_active s2) (\<lambda>s3.
             res_bind (check_owners get_active get_owner max_recursion_depth owner_approvals required_owner s3) (\<lambda>s4.
             assert_that (\<not> fst (remove_unused_signatures s4)) Tx_Irrelevant_Sig)))))"

definition get_signature_keys :: "('sig \<Rightarrow> 'digest \<Rightarrow> public_key) \<Rightarrow> 'digest \<Rightarrow> 'sig list \<Rightarrow> public_key list res" where
  "get_signature_keys recover d sigs =
     res_fold (\<lambda>sg result. let k = recover sg d
        in if k \<in> set result then Inl Tx_Duplicate_Sig else Inr (insort_insert k result)) sigs []"

definition get_required_signatures :: "('sig \<Rightarrow> 'digest \<Rightarrow> public_key) \<Rightarrow> 'digest \<Rightarrow> 'sig list \<Rightarrow> ('op \<Rightarrow> op_auths) \<Rightarrow> 'op list \<Rightarrow>
    public_key list \<Rightarrow> (account \<Rightarrow> authority option) \<Rightarrow> (account \<Rightarrow> authority option) \<Rightarrow> nat \<Rightarrow> public_key list res" where
  "get_required_signatures recover d sigs auths ops available get_active get_owner max_recursion_depth =
     (case get_required_authorities auths ops of
        (required_active, required_owner, other) \<Rightarrow>
          res_bind (get_signature_keys recover d sigs) (\<lambda>keys.
          let s0 = sign_state_init keys available;
              s1 = fold (\<lambda>au s. snd (check_authority get_active max_recursion_depth (Some au) s)) other s0;
              s2 = fold (\<lambda>a s. snd (check_authority get_active max_recursion_depth (get_owner a) s)) required_owner s1;
              s3 = fold (\<lambda>a s. snd (check_account get_active max_recursion_depth a s)) required_active s2;
              s4 = snd (remove_unused_signatures s3)
          in Inr (filter (\<lambda>k. k \<in> set available) (map fst (provided_signatures s4)))))"

fun minimize_loop :: "(public_key list \<Rightarrow> unit res) \<Rightarrow> public_key list \<Rightarrow> public_key list \<Rightarrow> public_key list res" where
  "minimize_loop verify [] result = Inr result"
| "minimize_loop verify (k # ks) result =
     (let erased = removeAll k result
      in case verify erased of
           Inr _ \<Rightarrow> minimize_loop verify ks erased
         | Inl e \<Rightarrow> if e \<in> {Tx_Missing_Owner_Auth, Tx_Missing_Active_Auth, Tx_Missing_Other_Auth}
                    then minimize_loop verify ks (insort_insert k erased) else Inl e)"

definition minimize_required_signatures :: "('sig \<Rightarrow> 'digest \<Rightarrow> public_key) \<Rightarrow> 'digest \<Rightarrow> 'sig list \<Rightarrow> ('op \<Rightarrow> op_auths) \<Rightarrow> 'op list \<Rightarrow>
    public_key list \<Rightarrow> (account \<Rightarrow> authority option) \<Rightarrow> (account \<Rightarrow> authority option) \<Rightarrow> nat \<Rightarrow> public_key list res" where
  "minimize_required_signatures recover d sigs auths ops available get_active get_owner max_recursion =
     res_bind (get_required_signatures recover d sigs auths ops available get_active get_owner max_recursion) (\<lambda>s.
     minimize_loop (\<lambda>keys. verify_authority auths ops keys get_active get_owner max_recursion False [] []) s s)"

end
