(* ===== verification/Authority_Correct.thy ===== *)
theory Authority_Correct
  imports Authority
begin

text \<open>
  What the signature check decides.  An account is \<open>approvable\<close> when it is among the given
  approvals or when the keys and the approvable accounts of its active authority reach the
  threshold; the check accepts only such authorities, and exactly such authorities when no
  account hierarchy is deeper than the recursion limit.
\<close>

definition key_weight :: "public_key set \<Rightarrow> (public_key \<times> weight) list \<Rightarrow> nat" where
  "key_weight K ks = sum_list (map (\<lambda>(k, w). if k \<in> K then unat w else 0) ks)"

definition authority_weight :: "public_key set \<Rightarrow> account set \<Rightarrow> authority \<Rightarrow> nat" where
  "authority_weight K A au = key_weight K (key_auths au) + key_weight A (account_auths au)"

definition authority_met :: "public_key set \<Rightarrow> account set \<Rightarrow> authority \<Rightarrow> bool" where
  "authority_met K A au \<longleftrightarrow> unat (weight_threshold au) \<le> authority_weight K A au"

inductive_set approvable :: "(account \<Rightarrow> authority option) \<Rightarrow> public_key set \<Rightarrow> account set \<Rightarrow> account set"
  for get_active K base where
  Approved: "a \<in> base \<Longrightarrow> a \<in> approvable get_active K base"
| Active: "get_active a = Some au \<Longrightarrow> \<forall>x \<in> S. x \<in> approvable get_active K base \<Longrightarrow> authority_met K S au
    \<Longrightarrow> a \<in> approvable get_active K base"

inductive_set consulted :: "(account \<Rightarrow> authority option) \<Rightarrow> authority set \<Rightarrow> authority set"
  for get_active tops where
  Top: "au \<in> tops \<Longrightarrow> au \<in> consulted get_active tops"
| Member: "au \<in> consulted get_active tops \<Longrightarrow> a \<in> fst ` set (account_auths au) \<Longrightarrow> get_active a = Some au'
    \<Longrightarrow> au' \<in> consulted get_active tops"

definition usable_keys :: "sign_state \<Rightarrow> public_key set" where
  "usable_keys s = fst ` set (provided_signatures s) \<union> set (available_keys s)"

definition sign_inv :: "(account \<Rightarrow> authority option) \<Rightarrow> public_key list \<Rightarrow> public_key set \<Rightarrow> account set \<Rightarrow> authority set \<Rightarrow> sign_state \<Rightarrow> bool" where
  "sign_inv get_active V K base C s \<longleftrightarrow>
     available_keys s = V \<and> sorted_wrt (<) (map fst (provided_signatures s)) \<and> usable_keys s = K \<and> base \<subseteq> set (approved_by s) \<and> set (approved_by s) \<subseteq> approvable get_active K base \<and>
     (\<forall>k. (k, True) \<in> set (provided_signatures s) \<longrightarrow> (\<exists>au \<in> C. k \<in> fst ` set (key_auths au)))"

lemma key_weight_simps [simp]:
  "key_weight K [] = 0" "key_weight K ((k, w) # ks) = (if k \<in> K then unat w else 0) + key_weight K ks"
  by (simp_all add: key_weight_def)

lemma key_weight_mono: "K \<subseteq> L \<Longrightarrow> key_weight K ks \<le> key_weight L ks"
  by (induction ks) auto

lemma authority_met_mono: "A \<subseteq> B \<Longrightarrow> authority_met K A au \<Longrightarrow> authority_met K B au"
  using key_weight_mono [of A B "account_auths au"] by (simp add: authority_met_def authority_weight_def)

lemma approvableI:
  "get_active a = Some au \<Longrightarrow> authority_met K (approvable get_active K base) au \<Longrightarrow> a \<in> approvable get_active K base"
  by (rule approvable.Active) auto

lemma approvable_cases:
  assumes "a \<in> approvable get_active K base" and "a \<notin> base"
  obtains au where "get_active a = Some au" and "authority_met K (approvable get_active K base) au"
  using assms by (cases rule: approvable.cases) (auto intro: authority_met_mono [rotated])

lemma unat_plus_le: "unat (x + y) \<le> unat x + unat (y :: 'a::len word)"
  by (simp add: unat_word_ariths mod_less_eq_dividend)

lemma unat_ucast_weight [simp]: "unat (ucast (w :: weight) :: 32 word) = unat w"
  using unsigned_less [where ?'a = nat, of w] by (simp add: unsigned_ucast_eq take_bit_eq_mod)

lemma signed_by_cases:
  assumes "signed_by k s = (r, s')"
  shows "r \<longleftrightarrow> k \<in> usable_keys s"
    and "s' = (if r then s\<lparr>provided_signatures := flat_map_put k True (provided_signatures s)\<rparr> else s)"
proof -
  have "map_of (provided_signatures s) k = None \<longleftrightarrow> k \<notin> fst ` set (provided_signatures s)"
    by (rule map_of_eq_None_iff)
  then show "r \<longleftrightarrow> k \<in> usable_keys s"
    and "s' = (if r then s\<lparr>provided_signatures := flat_map_put k True (provided_signatures s)\<rparr> else s)"
    using assms by (auto simp: signed_by_def usable_keys_def split: option.splits if_splits)
qed

lemma usable_keys_put: "usable_keys (s\<lparr>provided_signatures := flat_map_put k b (provided_signatures s)\<rparr>) = insert k (usable_keys s)"
  using flat_map_put_keys [of k b "provided_signatures s"] by (simp add: usable_keys_def)

lemma signed_by_inv:
  assumes "signed_by k s = (r, s')" and "sign_inv get_active V K base C s" and "au \<in> C" and "k \<in> fst ` set (key_auths au)"
  shows "sign_inv get_active V K base C s'" and "r \<longleftrightarrow> k \<in> K"
proof -
  show r: "r \<longleftrightarrow> k \<in> K" using signed_by_cases(1) [OF assms(1)] assms(2) by (simp add: sign_inv_def)
  have flags: "\<exists>au \<in> C. x \<in> fst ` set (key_auths au)"
    if "(x, True) \<in> set (flat_map_put k True (provided_signatures s))" for x
  proof -
    have "x = k \<or> (x, True) \<in> set (provided_signatures s)"
      using that flat_map_put_set [of k True "provided_signatures s"] by auto
    then show ?thesis using assms(2-4) by (auto simp only: sign_inv_def)
  qed
  show "sign_inv get_active V K base C s'"
    using signed_by_cases(2) [OF assms(1)] assms(2) r flags
    by (auto simp: sign_inv_def usable_keys_put flat_map_put_sorted)
qed

lemma check_keys_spec:
  assumes "check_keys thr ks tot s = (r, tot', s')" and "sign_inv get_active V K base C s" and "au \<in> C"
    and "fst ` set ks \<subseteq> fst ` set (key_auths au)"
  shows "sign_inv get_active V K base C s' \<and> (r \<longrightarrow> unat thr \<le> unat tot + key_weight K ks) \<and>
    (\<not> r \<longrightarrow> unat tot' \<le> unat tot + key_weight K ks) \<and>
    (\<not> r \<and> unat tot + key_weight K ks < 2 ^ 32 \<longrightarrow> unat tot' = unat tot + key_weight K ks)"
  using assms(1,2,4)
proof (induction ks arbitrary: tot s)
  case (Cons kw ks)
  obtain k w where kw: "kw = (k, w)" by (cases kw)
  obtain b s1 where sb: "signed_by k s = (b, s1)" by (cases "signed_by k s")
  have inv: "sign_inv get_active V K base C s1" and b: "b \<longleftrightarrow> k \<in> K"
    using signed_by_inv [OF sb Cons.prems(2) assms(3)] Cons.prems(3) kw by auto
  have sub: "fst ` set ks \<subseteq> fst ` set (key_auths au)" using Cons.prems(3) by auto
  show ?case
  proof (cases b)
    case False
    then show ?thesis using Cons.IH [OF _ inv sub, of tot] Cons.prems(1) sb b by (simp add: kw)
  next
    case True
    have le: "unat (tot + ucast w) \<le> unat tot + unat w" using unat_plus_le [of tot "ucast w"] by simp
    have eq: "unat (tot + ucast w) = unat tot + unat w" if "unat tot + unat w < 2 ^ 32"
      using that unat_add_lem [of tot "ucast w :: 32 word"] by simp
    show ?thesis
    proof (cases "thr \<le> tot + ucast w")
      case t: True
      then show ?thesis using Cons.prems(1) sb True inv b le by (auto simp: kw word_le_nat_alt)
    next
      case f: False
      then have "check_keys thr ks (tot + ucast w) s1 = (r, tot', s')" using Cons.prems(1) sb True by (simp add: kw)
      from Cons.IH [OF this inv sub] True show ?thesis using le eq b by (auto simp: kw)
    qed
  qed
qed simp

lemma approve_inv:
  assumes "sign_inv get_active V K base C s" and "a \<in> approvable get_active K base"
  shows "sign_inv get_active V K base C (s\<lparr>approved_by := insort_insert a (approved_by s)\<rparr>)"
proof -
  have "set (insort_insert a (approved_by s)) = insert a (set (approved_by s))" by (rule set_insort_insert)
  then show ?thesis using assms by (auto simp: sign_inv_def usable_keys_def)
qed

definition deeper_sound :: "(account \<Rightarrow> authority option) \<Rightarrow> public_key list \<Rightarrow> public_key set \<Rightarrow> account set \<Rightarrow> authority set \<Rightarrow>
    (authority option \<Rightarrow> sign_state \<Rightarrow> bool \<times> sign_state) \<Rightarrow> account \<Rightarrow> bool" where
  "deeper_sound get_active V K base C check a \<longleftrightarrow>
     (\<forall>s r s'. check (get_active a) s = (r, s') \<longrightarrow> sign_inv get_active V K base C s \<longrightarrow>
        sign_inv get_active V K base C s' \<and> (r \<longrightarrow> a \<in> approvable get_active K base))"

definition deeper_complete :: "(account \<Rightarrow> authority option) \<Rightarrow> public_key list \<Rightarrow> public_key set \<Rightarrow> account set \<Rightarrow> authority set \<Rightarrow>
    (authority option \<Rightarrow> sign_state \<Rightarrow> bool \<times> sign_state) option \<Rightarrow> account \<Rightarrow> bool" where
  "deeper_complete get_active V K base C deeper a \<longleftrightarrow>
     a \<in> base \<or> (\<exists>check. deeper = Some check \<and>
       (a \<in> approvable get_active K base \<longrightarrow> (\<forall>s. sign_inv get_active V K base C s \<longrightarrow> fst (check (get_active a) s))))"

lemma check_accounts_spec:
  assumes "check_accounts get_active deeper thr as tot s = (r, s')" and "sign_inv get_active V K base C s"
    and "\<forall>a \<in> fst ` set as. \<forall>check. deeper = Some check \<longrightarrow> deeper_sound get_active V K base C check a"
  shows "sign_inv get_active V K base C s' \<and> (r \<longrightarrow> unat thr \<le> unat tot + key_weight (approvable get_active K base) as) \<and>
    ((\<forall>a \<in> fst ` set as. deeper_complete get_active V K base C deeper a) \<longrightarrow>
      unat tot + key_weight UNIV as < 2 ^ 32 \<longrightarrow>
      unat thr \<le> unat tot + key_weight (approvable get_active K base) as \<longrightarrow> r)"
  using assms
proof (induction as arbitrary: tot s)
  case (Cons aw as)
  let ?A = "approvable get_active K base"
  obtain a w where aw: "aw = (a, w)" by (cases aw)
  have sub: "\<forall>a \<in> fst ` set as. \<forall>check. deeper = Some check \<longrightarrow> deeper_sound get_active V K base C check a"
    using Cons.prems(3) by simp
  have le: "unat (tot + ucast w) \<le> unat tot + unat w" using unat_plus_le [of tot "ucast w"] by simp
  have eq: "unat (tot + ucast w) = unat tot + unat w" if "unat tot + unat w < 2 ^ 32"
    using that unat_add_lem [of tot "ucast w :: 32 word"] by simp
  have add: ?case
    if in_A: "a \<in> ?A" and inv: "sign_inv get_active V K base C s2"
      and run: "(if thr \<le> tot + ucast w then (True, s2) else check_accounts get_active deeper thr as (tot + ucast w) s2) = (r, s')" for s2
  proof (cases "thr \<le> tot + ucast w")
    case True
    then show ?thesis using run in_A inv le by (auto simp: aw word_le_nat_alt)
  next
    case False
    then have "check_accounts get_active deeper thr as (tot + ucast w) s2 = (r, s')" using run by simp
    from Cons.IH [OF this inv sub] show ?thesis using in_A le eq by (auto simp: aw)
  qed
  have in_base: "a \<in> set (approved_by s) \<or> a \<notin> base" using Cons.prems(2) by (auto simp: sign_inv_def)
  show ?case
  proof (cases "a \<in> set (approved_by s)")
    case True
    then show ?thesis using Cons.prems by (intro add [of s]) (auto simp: aw sign_inv_def)
  next
    case new: False
    show ?thesis
    proof (cases deeper)
      case None
      then show ?thesis using new Cons.prems(1,2) in_base by (auto simp: aw deeper_complete_def)
    next
      case (Some check)
      obtain b s1 where run: "check (get_active a) s = (b, s1)" by (cases "check (get_active a) s")
      have sound: "sign_inv get_active V K base C s1" "b \<longrightarrow> a \<in> ?A"
        using Cons.prems(2,3) Some run by (auto simp: aw deeper_sound_def)
      show ?thesis
      proof (cases b)
        case True
        show ?thesis
          by (rule add [OF _ approve_inv [OF sound(1)]]) (use Cons.prems(1) new Some run True sound(2) in \<open>auto simp: aw Let_def split: if_splits\<close>)
      next
        case False
        then have "check_accounts get_active deeper thr as tot s1 = (r, s')" using Cons.prems(1) new Some run by (simp add: aw)
        note IH = Cons.IH [OF this sound(1) sub]
        have "a \<notin> ?A" if "deeper_complete get_active V K base C deeper a"
          using that new in_base False run Some Cons.prems(2) by (auto simp: deeper_complete_def)
        with IH show ?thesis by (auto simp: aw)
      qed
    qed
  qed
qed (auto simp: word_le_nat_alt)


section \<open>The check of an authority\<close>

lemma check_body_spec:
  assumes "check_authority_body get_active deeper (Some au) s = (r, s')" and "sign_inv get_active V K base C s" and "au \<in> C"
    and "\<forall>a \<in> fst ` set (account_auths au). \<forall>check. deeper = Some check \<longrightarrow> deeper_sound get_active V K base C check a"
  shows "sign_inv get_active V K base C s'" and "r \<Longrightarrow> authority_met K (approvable get_active K base) au"
    and "\<forall>a \<in> fst ` set (account_auths au). deeper_complete get_active V K base C deeper a \<Longrightarrow>
      authority_weight UNIV UNIV au < 2 ^ 32 \<Longrightarrow> authority_met K (approvable get_active K base) au \<Longrightarrow> r"
proof -
  let ?A = "approvable get_active K base" and ?kw = "key_weight K (key_auths au)"
  have ub: "?kw \<le> key_weight UNIV (key_auths au)" by (rule key_weight_mono) simp
  obtain b tot s1 where ck: "check_keys (weight_threshold au) (key_auths au) 0 s = (b, tot, s1)"
    by (cases "check_keys (weight_threshold au) (key_auths au) 0 s") auto
  have keys: "sign_inv get_active V K base C s1" "b \<longrightarrow> unat (weight_threshold au) \<le> ?kw" "\<not> b \<longrightarrow> unat tot \<le> ?kw"
      "\<not> b \<and> ?kw < 2 ^ 32 \<longrightarrow> unat tot = ?kw"
    using check_keys_spec [OF ck assms(2,3)] by auto
  have all: "sign_inv get_active V K base C s' \<and> (r \<longrightarrow> authority_met K ?A au) \<and>
    ((\<forall>a \<in> fst ` set (account_auths au). deeper_complete get_active V K base C deeper a) \<longrightarrow>
      authority_weight UNIV UNIV au < 2 ^ 32 \<longrightarrow> authority_met K ?A au \<longrightarrow> r)"
  proof (cases b)
    case True
    then show ?thesis
      using assms(1) ck keys by (auto simp: check_authority_body_def authority_met_def authority_weight_def)
  next
    case False
    then have "check_accounts get_active deeper (weight_threshold au) (account_auths au) tot s1 = (r, s')"
      using assms(1) ck by (simp add: check_authority_body_def)
    from check_accounts_spec [OF this keys(1) assms(4)] show ?thesis
      using keys(3,4) False ub by (auto simp: authority_met_def authority_weight_def)
  qed
  then show "sign_inv get_active V K base C s'" and "r \<Longrightarrow> authority_met K ?A au"
    and "\<forall>a \<in> fst ` set (account_auths au). deeper_complete get_active V K base C deeper a \<Longrightarrow>
      authority_weight UNIV UNIV au < 2 ^ 32 \<Longrightarrow> authority_met K ?A au \<Longrightarrow> r"
    by blast+
qed

definition closed_under :: "(account \<Rightarrow> authority option) \<Rightarrow> authority set \<Rightarrow> bool" where
  "closed_under get_active C \<longleftrightarrow>
     (\<forall>au \<in> C. \<forall>a \<in> fst ` set (account_auths au). \<forall>au'. get_active a = Some au' \<longrightarrow> au' \<in> C)"

lemma consulted_closed: "closed_under get_active (consulted get_active tops)"
  unfolding closed_under_def by (blast intro: consulted.Member)

lemma check_body_None: "check_authority_body get_active deeper None s = (r, s') \<longleftrightarrow> \<not> r \<and> s' = s"
  by (auto simp: check_authority_body_def)

lemma check_authority_unfold:
  "check_authority get_active n = check_authority_body get_active (case n of 0 \<Rightarrow> None | Suc m \<Rightarrow> Some (check_authority get_active m))"
  by (cases n) simp_all

lemma check_authority_sound:
  assumes "closed_under get_active C" and "check_authority get_active n (Some au) s = (r, s')"
    and "sign_inv get_active V K base C s" and "au \<in> C"
  shows "sign_inv get_active V K base C s'" and "r \<Longrightarrow> authority_met K (approvable get_active K base) au"
proof -
  have "sign_inv get_active V K base C s' \<and> (r \<longrightarrow> authority_met K (approvable get_active K base) au)"
    using assms(2-4)
  proof (induction n arbitrary: au s r s')
    case 0
    then show ?case using check_body_spec(1,2) [of get_active None au s r s' V K base C] by auto
  next
    case (Suc n)
    have "deeper_sound get_active V K base C (check_authority get_active n) a" if "a \<in> fst ` set (account_auths au)" for a
    proof (cases "get_active a")
      case None
      then show ?thesis by (auto simp: deeper_sound_def check_authority_unfold [of _ n] check_body_None)
    next
      case (Some au')
      then have "au' \<in> C" using assms(1) Suc.prems(3) that by (auto simp: closed_under_def)
      then show ?thesis using Suc.IH [of au'] Some by (auto simp: deeper_sound_def intro: approvableI)
    qed
    then show ?case
      using check_body_spec(1,2) [of get_active "Some (check_authority get_active n)" au s r s' V K base C] Suc.prems by auto
  qed
  then show "sign_inv get_active V K base C s'" and "r \<Longrightarrow> authority_met K (approvable get_active K base) au" by blast+
qed

primrec within_depth :: "(account \<Rightarrow> authority option) \<Rightarrow> account set \<Rightarrow> nat \<Rightarrow> authority \<Rightarrow> bool" where
  \<comment> \<open>every account that is not approved beforehand is reached before the recursion limit\<close>
  "within_depth get_active base 0 au \<longleftrightarrow> (\<forall>a \<in> fst ` set (account_auths au). a \<in> base)"
| "within_depth get_active base (Suc n) au \<longleftrightarrow>
     (\<forall>a \<in> fst ` set (account_auths au). a \<in> base \<or>
        (case get_active a of None \<Rightarrow> True | Some au' \<Rightarrow> within_depth get_active base n au'))"

definition weights_fit :: "authority set \<Rightarrow> bool" where
  "weights_fit C \<longleftrightarrow> (\<forall>au \<in> C. authority_weight UNIV UNIV au < 2 ^ 32)"

lemma check_authority_complete:
  assumes "closed_under get_active C" and "weights_fit C" and "within_depth get_active base n au"
    and "sign_inv get_active V K base C s" and "au \<in> C" and "authority_met K (approvable get_active K base) au"
  shows "fst (check_authority get_active n (Some au) s)"
  using assms(3-)
proof (induction n arbitrary: au s)
  case 0
  obtain r s' where run: "check_authority_body get_active None (Some au) s = (r, s')" by (cases "check_authority_body get_active None (Some au) s")
  show ?case
    using check_body_spec(3) [OF run 0(2,3)] 0 assms(2) run by (auto simp: deeper_complete_def weights_fit_def)
next
  case (Suc n)
  let ?check = "check_authority get_active n"
  obtain r s' where run: "check_authority_body get_active (Some ?check) (Some au) s = (r, s')"
    by (cases "check_authority_body get_active (Some ?check) (Some au) s")
  have snd: "deeper_sound get_active V K base C ?check a" if a: "a \<in> fst ` set (account_auths au)" for a
  proof (cases "get_active a")
    case None
    then show ?thesis by (auto simp: deeper_sound_def check_authority_unfold [of _ n] check_body_None)
  next
    case (Some au')
    then have C: "au' \<in> C" using assms(1) Suc.prems(3) a by (auto simp: closed_under_def)
    show ?thesis using check_authority_sound [OF assms(1) _ _ C] Some by (auto simp: deeper_sound_def intro: approvableI)
  qed
  have cpl: "deeper_complete get_active V K base C (Some ?check) a" if a: "a \<in> fst ` set (account_auths au)" for a
  proof (cases "a \<in> base")
    case False
    have "fst (?check (get_active a) s)" if A: "a \<in> approvable get_active K base" and inv: "sign_inv get_active V K base C s" for s
      using A False
    proof (cases rule: approvable_cases)
      case (1 au')
      then have "au' \<in> C" using assms(1) Suc.prems(3) a by (auto simp: closed_under_def)
      moreover have "within_depth get_active base n au'" using Suc.prems(1) a False 1(1) by auto
      ultimately show ?thesis using Suc.IH [OF _ inv] 1 by simp
    qed
    then show ?thesis by (simp add: deeper_complete_def)
  qed (simp add: deeper_complete_def)
  show ?case
    using check_body_spec(3) [OF run Suc.prems(2,3)] snd cpl Suc.prems(3,4) assms(2) run by (auto simp: weights_fit_def)
qed

end
