(* ===== verification/Authority_Properties.thy ===== *)
theory Authority_Properties
  imports Authority_Correct
begin

text \<open>
  The properties of the signature check of transactions: what \<open>verify_authority\<close> guarantees,
  when \<open>check_authority\<close> is exact, and what \<open>minimize_required_signatures\<close> keeps.
\<close>

section \<open>The start of a check\<close>

lemma init_keys: "fst ` set (fold (\<lambda>k. flat_map_put k False) ks m) = set ks \<union> fst ` set m"
proof (induction ks arbitrary: m)
  case (Cons k ks)
  then show ?case using flat_map_put_keys [of k False m] by simp
qed simp

lemma init_flags: "\<forall>p \<in> set m. \<not> snd p \<Longrightarrow> \<forall>p \<in> set (fold (\<lambda>k. flat_map_put k False) ks m). \<not> snd p"
proof (induction ks arbitrary: m)
  case (Cons k ks)
  then have "\<forall>p \<in> set (flat_map_put k False m). \<not> snd p" using flat_map_put_set [of k False m] by auto
  then show ?case using Cons.IH by simp
qed simp

lemma set_fold_insert: "set (fold insort_insert xs ys) = set xs \<union> set ys"
proof (induction xs arbitrary: ys)
  case (Cons x xs)
  then show ?case using set_insort_insert [of x ys] by simp
qed simp

definition approved_base :: "account list \<Rightarrow> account list \<Rightarrow> account set" where
  "approved_base active_approvals owner_approvals = insert GRAPHENE_TEMP_ACCOUNT (set active_approvals \<union> set owner_approvals)"

lemma init_sorted: "sorted_wrt (<) (map fst m) \<Longrightarrow> sorted_wrt (<) (map fst (fold (\<lambda>k. flat_map_put k b) ks m))"
  by (induction ks arbitrary: m) (simp_all add: flat_map_put_sorted)

lemma init_state_inv: "sign_inv get_active avail (set sigs \<union> set avail) {GRAPHENE_TEMP_ACCOUNT} C (sign_state_init sigs avail)"
proof -
  have "(k, True) \<notin> set (fold (\<lambda>k. flat_map_put k False) sigs [])" for k
    using init_flags [of "[]" sigs] by force
  then show ?thesis
    by (auto simp: sign_inv_def usable_keys_def sign_state_init_def init_keys init_sorted intro: approvable.Approved)
qed

lemma init_inv:
  "sign_inv get_active avail (set sigs \<union> set avail) (approved_base act own) C
     ((sign_state_init sigs avail)\<lparr>approved_by := fold insort_insert own (fold insort_insert act (approved_by (sign_state_init sigs avail)))\<rparr>)"
proof -
  have "(k, True) \<notin> set (fold (\<lambda>k. flat_map_put k False) sigs [])" for k
    using init_flags [of "[]" sigs] by force
  then show ?thesis
    by (auto simp: sign_inv_def usable_keys_def sign_state_init_def init_keys init_sorted set_fold_insert approved_base_def
        intro: approvable.Approved)
qed

definition required_authorities :: "(account \<Rightarrow> authority option) \<Rightarrow> (account \<Rightarrow> authority option) \<Rightarrow>
    account list \<times> account list \<times> authority list \<Rightarrow> authority set" where
  "required_authorities get_active get_owner req = (case req of (act, own, oth) \<Rightarrow>
     set oth \<union> {au. \<exists>a \<in> set act. get_active a = Some au \<or> get_owner a = Some au} \<union> {au. \<exists>a \<in> set own. get_owner a = Some au})"

lemma check_others_sound:
  assumes "check_others get_active n aus s = Inr s'" and "sign_inv get_active V K base C s"
    and "closed_under get_active C" and "set aus \<subseteq> C"
  shows "sign_inv get_active V K base C s' \<and> (\<forall>au \<in> set aus. authority_met K (approvable get_active K base) au)"
  using assms(1,2,4)
proof (induction aus arbitrary: s)
  case (Cons au aus)
  obtain s1 where run: "check_authority get_active n (Some au) s = (True, s1)" and rest: "check_others get_active n aus s1 = Inr s'"
    using Cons.prems(1) by (auto split: prod.splits bool.splits)
  then show ?case using check_authority_sound [OF assms(3) run Cons.prems(2)] Cons.IH [OF rest] Cons.prems(3) by auto
qed simp

definition account_authorized :: "(account \<Rightarrow> authority option) \<Rightarrow> (account \<Rightarrow> authority option) \<Rightarrow> public_key set \<Rightarrow> account set \<Rightarrow> account \<Rightarrow> bool" where
  \<comment> \<open>through its active authority, or through its owner authority\<close>
  "account_authorized get_active get_owner K base a \<longleftrightarrow>
     a \<in> approvable get_active K base \<or>
     (\<exists>au. get_owner a = Some au \<and> authority_met K (approvable get_active K base) au)"

lemma check_option_sound:
  assumes "check_authority get_active n opt s = (r, s')" and "sign_inv get_active V K base C s"
    and "closed_under get_active C" and "\<And>au. opt = Some au \<Longrightarrow> au \<in> C"
  shows "sign_inv get_active V K base C s' \<and> (r \<longrightarrow> (\<exists>au. opt = Some au \<and> authority_met K (approvable get_active K base) au))"
proof (cases opt)
  case None
  then show ?thesis using assms by (auto simp: check_authority_unfold [of _ n] check_body_None)
next
  case (Some au)
  then show ?thesis using check_authority_sound [OF assms(3) _ assms(2) assms(4)] assms(1) by auto
qed

lemma check_actives_sound:
  assumes "check_actives get_active get_owner n as s = Inr s'" and "sign_inv get_active V K base C s"
    and "closed_under get_active C" and "\<forall>a \<in> set as. \<forall>au. get_active a = Some au \<or> get_owner a = Some au \<longrightarrow> au \<in> C"
  shows "sign_inv get_active V K base C s' \<and> (\<forall>a \<in> set as. account_authorized get_active get_owner K base a)"
  using assms(1,2,4)
proof (induction as arbitrary: s)
  case (Cons a as)
  obtain r s1 where run: "check_account get_active n a s = (r, s1)" by (cases "check_account get_active n a s")
  have s1: "sign_inv get_active V K base C s1 \<and> (r \<longrightarrow> a \<in> approvable get_active K base)"
  proof (cases "a \<in> set (approved_by s)")
    case True
    then show ?thesis using run Cons.prems(2) by (auto simp: check_account_def sign_inv_def)
  next
    case False
    then have "check_authority get_active n (get_active a) s = (r, s1)" using run by (simp add: check_account_def)
    from check_option_sound [OF this Cons.prems(2) assms(3)] Cons.prems(3) show ?thesis by (auto intro: approvableI)
  qed
  show ?case
  proof (cases r)
    case True
    then show ?thesis using Cons.IH [of s1] Cons.prems run s1 by (auto simp: account_authorized_def)
  next
    case False
    then obtain s2 where own: "check_authority get_active n (get_owner a) s1 = (True, s2)"
      and rest: "check_actives get_active get_owner n as s2 = Inr s'"
      using Cons.prems(1) run by (auto split: prod.splits bool.splits)
    from check_option_sound [OF own _ assms(3)] s1 Cons.prems(3) show ?thesis
      using Cons.IH [OF rest] Cons.prems(3) by (auto simp: account_authorized_def)
  qed
qed simp

lemma check_owners_sound:
  assumes "check_owners get_active get_owner n approvals as s = Inr s'" and "sign_inv get_active V K base C s"
    and "closed_under get_active C" and "\<forall>a \<in> set as. \<forall>au. get_owner a = Some au \<longrightarrow> au \<in> C"
  shows "sign_inv get_active V K base C s' \<and> (\<forall>a \<in> set as. a \<in> set approvals \<or>
    (\<exists>au. get_owner a = Some au \<and> authority_met K (approvable get_active K base) au))"
  using assms(1,2,4)
proof (induction as arbitrary: s)
  case (Cons a as)
  show ?case
  proof (cases "a \<in> set approvals")
    case True
    then show ?thesis using Cons by simp
  next
    case False
    then obtain s1 where own: "check_authority get_active n (get_owner a) s = (True, s1)"
      and rest: "check_owners get_active get_owner n approvals as s1 = Inr s'"
      using Cons.prems(1) by (auto split: prod.splits bool.splits)
    from check_option_sound [OF own Cons.prems(2) assms(3)] Cons.prems(3) show ?thesis
      using Cons.IH [OF rest] Cons.prems(3) by auto
  qed
qed simp

section \<open>Properties\<close>

lemma verify_authority_steps:
  \<comment> \<open>what the accepted check established, with the state it ended in\<close>
  assumes "verify_authority auths ops sigs get_active get_owner n allow_committee act_appr own_appr = Inr ()"
    and "get_required_authorities auths ops = (act, own, oth)"
  defines "base \<equiv> approved_base act_appr own_appr" and "A \<equiv> approvable get_active (set sigs) (approved_base act_appr own_appr)"
    and "C \<equiv> consulted get_active (required_authorities get_active get_owner (act, own, oth))"
  obtains s where "sign_inv get_active [] (set sigs) base C s" and "\<not> fst (remove_unused_signatures s)"
    and "\<forall>au \<in> set oth. authority_met (set sigs) A au"
    and "\<forall>a \<in> set act. account_authorized get_active get_owner (set sigs) base a"
    and "\<forall>a \<in> set own. a \<in> set own_appr \<or> (\<exists>au. get_owner a = Some au \<and> authority_met (set sigs) A au)"
    and "allow_committee \<or> GRAPHENE_MINER_ACCOUNT \<notin> set act"
proof -
  let ?req = "required_authorities get_active get_owner (act, own, oth)" and ?K = "set sigs"
  let ?s1 = "(sign_state_init sigs [])\<lparr>approved_by := fold insort_insert own_appr
      (fold insort_insert act_appr (approved_by (sign_state_init sigs [])))\<rparr>"
  have C: "closed_under get_active C" unfolding C_def by (rule consulted_closed)
  have tops: "au \<in> C" if "au \<in> ?req" for au using that unfolding C_def by (rule consulted.Top)
  obtain s2 s3 s4 where runs: "check_others get_active n oth ?s1 = Inr s2" "check_actives get_active get_owner n act s2 = Inr s3"
      "check_owners get_active get_owner n own_appr own s3 = Inr s4" "\<not> fst (remove_unused_signatures s4)"
    and com: "allow_committee \<or> GRAPHENE_MINER_ACCOUNT \<notin> set act"
    using assms(1,2) by (auto simp: verify_authority_def res_simps Let_def split: if_splits)
  have "set oth \<subseteq> C" using tops by (auto simp: required_authorities_def)
  have "sign_inv get_active [] ?K base C ?s1"
    using init_inv [of get_active "[]" sigs act_appr own_appr C] by (simp add: base_def)
  from check_others_sound [OF runs(1) this C \<open>set oth \<subseteq> C\<close>]
  have s2: "sign_inv get_active [] ?K base C s2" and oth: "\<forall>au \<in> set oth. authority_met ?K A au"
    by (auto simp: base_def A_def)
  have "\<forall>a \<in> set act. \<forall>au. get_active a = Some au \<or> get_owner a = Some au \<longrightarrow> au \<in> C"
    using tops by (auto simp: required_authorities_def)
  from check_actives_sound [OF runs(2) s2 C this]
  have s3: "sign_inv get_active [] ?K base C s3" and act: "\<forall>a \<in> set act. account_authorized get_active get_owner ?K base a"
    by auto
  have "\<forall>a \<in> set own. \<forall>au. get_owner a = Some au \<longrightarrow> au \<in> C" using tops by (auto simp: required_authorities_def)
  from check_owners_sound [OF runs(3) s3 C this]
  have s4: "sign_inv get_active [] ?K base C s4"
    and own: "\<forall>a \<in> set own. a \<in> set own_appr \<or> (\<exists>au. get_owner a = Some au \<and> authority_met ?K A au)"
    by (auto simp: base_def A_def)
  show thesis by (rule that [OF s4 runs(4) oth act own com])
qed

text \<open>C14: when \<open>verify_authority\<close> accepts a transaction, every authority it requires is met by the signing
  keys and the given approvals: the other authorities and the active ones, through the account's active or owner
  authority, by keys and accounts whose weights reach the threshold, recursively; the owner ones by approval or
  through the owner authority; the committee account is not among them unless that was allowed; and every
  signature was of use, its key being listed in an authority that had to be consulted.  Thresholds
  are met in unbounded arithmetic, although the check adds 32-bit weights.\<close>

theorem verify_authority_sound:
  assumes "verify_authority auths ops sigs get_active get_owner n allow_committee act_appr own_appr = Inr ()"
    and "get_required_authorities auths ops = (act, own, oth)"
  defines "base \<equiv> approved_base act_appr own_appr" and "A \<equiv> approvable get_active (set sigs) (approved_base act_appr own_appr)"
  shows "(\<forall>au \<in> set oth. authority_met (set sigs) A au) \<and>
    (\<forall>a \<in> set act. account_authorized get_active get_owner (set sigs) base a) \<and>
    (\<forall>a \<in> set own. a \<in> set own_appr \<or> (\<exists>au. get_owner a = Some au \<and> authority_met (set sigs) A au)) \<and>
    (allow_committee \<or> GRAPHENE_MINER_ACCOUNT \<notin> set act) \<and>
    (\<forall>k \<in> set sigs. \<exists>au \<in> consulted get_active (required_authorities get_active get_owner (act, own, oth)).
        k \<in> set (get_keys au))"
proof -
  let ?C = "consulted get_active (required_authorities get_active get_owner (act, own, oth))"
  obtain s where s: "sign_inv get_active [] (set sigs) base ?C s" "\<not> fst (remove_unused_signatures s)"
    and met: "\<forall>au \<in> set oth. authority_met (set sigs) A au" "\<forall>a \<in> set act. account_authorized get_active get_owner (set sigs) base a"
      "\<forall>a \<in> set own. a \<in> set own_appr \<or> (\<exists>au. get_owner a = Some au \<and> authority_met (set sigs) A au)"
      "allow_committee \<or> GRAPHENE_MINER_ACCOUNT \<notin> set act"
    unfolding base_def A_def by (rule verify_authority_steps [OF assms(1,2)])
  have "\<forall>p \<in> set (provided_signatures s). snd p" using s(2) by (auto simp: remove_unused_signatures_def Let_def filter_empty_conv)
  then have "\<forall>k \<in> set sigs. \<exists>au \<in> ?C. k \<in> set (get_keys au)"
    using s(1) by (force simp: sign_inv_def usable_keys_def get_keys_def)
  with met show ?thesis by blast
qed

definition example_active :: "account \<Rightarrow> authority option" where
  "example_active a =
     (if a = 5 then Some \<lparr>weight_threshold = 2, account_auths = [(6, 1)], key_auths = [(1, 1)]\<rparr>
      else if a = 6 then Some \<lparr>weight_threshold = 1, account_auths = [], key_auths = [(2, 1), (3, 1)]\<rparr> else None)"

definition payer_only :: "account \<Rightarrow> op_auths" where
  "payer_only a = \<lparr>fee_payer = a, op_active = [], op_owner = [], op_other = []\<rparr>"

theorem verify_authority_sound_witness:
  "verify_authority payer_only [5] [1, 2] example_active (\<lambda>_. None) 2 False [] [] = Inr () \<and>
   account_authorized example_active (\<lambda>_. None) {1, 2} (approved_base [] []) 5"
proof -
  have run: "verify_authority payer_only [5] [1, 2] example_active (\<lambda>_. None) 2 False [] [] = Inr ()" by code_simp
  have req: "get_required_authorities payer_only [5] = ([5], [], [])" by code_simp
  from verify_authority_sound [OF run req] run show ?thesis by simp
qed

text \<open>C31: when no chain of account authorities that is not cut short by a prior approval is deeper than the
  recursion limit, and no authority's weights overflow 32 bits, \<open>check_authority\<close> accepts an authority exactly when
  the signing and available keys and the approvable accounts meet its threshold.\<close>

theorem check_authority_decides:
  assumes "within_depth get_active {GRAPHENE_TEMP_ACCOUNT} n au" and "weights_fit (consulted get_active {au})"
  shows "fst (check_authority get_active n (Some au) (sign_state_init sigs avail)) \<longleftrightarrow>
    authority_met (set sigs \<union> set avail) (approvable get_active (set sigs \<union> set avail) {GRAPHENE_TEMP_ACCOUNT}) au"
proof -
  let ?C = "consulted get_active {au}" and ?s = "sign_state_init sigs avail"
  have top: "au \<in> ?C" by (intro consulted.Top) simp
  obtain r s' where run: "check_authority get_active n (Some au) ?s = (r, s')" by (cases "check_authority get_active n (Some au) ?s")
  show ?thesis
    using check_authority_sound(2) [OF consulted_closed run init_state_inv top]
      check_authority_complete [OF consulted_closed assms(2,1) init_state_inv [of get_active avail sigs ?C] top] run by auto
qed

lemma example_consulted:
  "consulted example_active {the (example_active 5)} \<subseteq> {the (example_active 5), the (example_active 6)}"
proof
  fix au assume "au \<in> consulted example_active {the (example_active 5)}"
  then show "au \<in> {the (example_active 5), the (example_active 6)}"
    by (induction rule: consulted.induct) (auto simp: example_active_def split: if_splits)
qed

theorem check_authority_decides_witness:
  "\<not> authority_met {1} (approvable example_active {1} {GRAPHENE_TEMP_ACCOUNT}) (the (example_active 5))"
proof -
  have "within_depth example_active {GRAPHENE_TEMP_ACCOUNT} 2 (the (example_active 5))"
    by (simp add: example_active_def numeral_2_eq_2)
  moreover have "weights_fit (consulted example_active {the (example_active 5)})"
    using example_consulted by (auto simp: weights_fit_def authority_weight_def example_active_def)
  moreover have "\<not> fst (check_authority example_active 2 (Some (the (example_active 5))) (sign_state_init [1] []))" by code_simp
  ultimately show ?thesis using check_authority_decides [of example_active 2 _ "[1]" "[]"] by auto
qed

text \<open>
  Beyond the limit the answer depends on the order of the accounts: at the deepest level an
  account that is not yet approved ends the check, although a later one is approved and would
  reach the threshold alone.
\<close>

lemma depth_limit_hides_approval:
  "fst (check_authority (\<lambda>_. None) 0 (Some \<lparr>weight_threshold = 1, account_auths = [(2, 1), (7, 1)], key_auths = []\<rparr>) (sign_state_init [] []))"
  "\<not> fst (check_authority (\<lambda>_. None) 0 (Some \<lparr>weight_threshold = 1, account_auths = [(1, 1), (2, 1)], key_auths = []\<rparr>) (sign_state_init [] []))"
  by code_simp+

section \<open>Minimal signatures\<close>

definition missing_authority :: "error set" where
  "missing_authority = {Tx_Missing_Owner_Auth, Tx_Missing_Active_Auth, Tx_Missing_Other_Auth}"

lemma reinsert: "sorted_wrt (<) xs \<Longrightarrow> k \<in> set xs \<Longrightarrow> insort_insert k (removeAll k xs) = (xs :: 'a::linorder list)"
proof -
  assume xs: "sorted_wrt (<) xs" "k \<in> set xs"
  have "sorted xs" "distinct xs" using xs(1) by (simp_all add: strict_sorted_iff)
  then have "insort k (remove1 k xs) = xs" using xs(2) by (intro insort_remove1) auto
  then show ?thesis using \<open>distinct xs\<close> by (simp add: insort_insert_key_def distinct_remove1_removeAll)
qed

definition needed_key :: "(public_key list \<Rightarrow> unit res) \<Rightarrow> public_key list \<Rightarrow> public_key list \<Rightarrow> public_key \<Rightarrow> bool" where
  \<comment> \<open>without the key some set between the result and the start misses an authority\<close>
  "needed_key verify t r k \<longleftrightarrow>
     (\<exists>u. set r \<subseteq> set u \<and> set u \<subseteq> set t \<and> k \<in> set u \<and> (\<exists>e \<in> missing_authority. verify (removeAll k u) = Inl e))"

lemma needed_key_mono: "set t \<subseteq> set t' \<Longrightarrow> needed_key verify t r k \<Longrightarrow> needed_key verify t' r k"
  unfolding needed_key_def by blast

lemma minimize_loop_spec:
  assumes "minimize_loop verify ks t = Inr r" and "sorted_wrt (<) t" and "distinct ks" and "set ks \<subseteq> set t"
  shows "set r \<subseteq> set t \<and> (verify t = Inr () \<longrightarrow> verify r = Inr ()) \<and> (\<forall>k \<in> set ks. k \<in> set r \<longrightarrow> needed_key verify t r k)"
  using assms
proof (induction ks arbitrary: t)
  case (Cons k ks)
  have k: "k \<in> set t" "k \<notin> set ks" using Cons.prems by auto
  show ?case
  proof (cases "verify (removeAll k t)")
    case (Inr u)
    have run: "minimize_loop verify ks (removeAll k t) = Inr r" using Inr Cons.prems(1) by simp
    have sorted: "sorted_wrt (<) (removeAll k t)" using Cons.prems(2) by (simp add: removeAll_filter_not_eq sorted_wrt_filter)
    have sub: "set ks \<subseteq> set (removeAll k t)" using Cons.prems(4) k(2) by auto
    have "distinct ks" using Cons.prems(3) by simp
    from Cons.IH [OF run sorted this sub] Inr
    have IH: "set r \<subseteq> set t - {k}" "verify r = Inr ()" "\<forall>k' \<in> set ks. k' \<in> set r \<longrightarrow> needed_key verify (removeAll k t) r k'"
      by auto
    have "\<forall>k' \<in> set ks. k' \<in> set r \<longrightarrow> needed_key verify t r k'"
      using IH(3) needed_key_mono [of "removeAll k t" t verify r] by auto
    then show ?thesis using IH(1,2) by auto
  next
    case (Inl e)
    then have e: "e \<in> missing_authority" and run: "minimize_loop verify ks t = Inr r"
      using Cons.prems(1) reinsert [OF Cons.prems(2) k(1)] by (auto simp: missing_authority_def split: if_splits)
    from Cons.IH [OF run Cons.prems(2)] Cons.prems(3,4)
    have IH: "set r \<subseteq> set t" "verify t = Inr () \<longrightarrow> verify r = Inr ()" "\<forall>k \<in> set ks. k \<in> set r \<longrightarrow> needed_key verify t r k"
      by auto
    have "needed_key verify t r k" unfolding needed_key_def using Inl e k(1) IH(1) by blast
    then show ?thesis using IH by simp
  qed
qed simp

lemma set_of_deletions: "sorted_wrt (<) (map fst m) \<Longrightarrow> sorted_wrt (<) (map fst (fold AList.delete ks m))"
proof (induction ks arbitrary: m)
  case (Cons k ks)
  have "sorted_wrt (<) (map fst (AList.delete k m))"
    using Cons.prems by (simp add: AList.delete_eq sorted_wrt_map sorted_wrt_filter)
  then show ?case using Cons.IH by simp
qed simp

lemma fold_invariant: "P s \<Longrightarrow> (\<And>x s. x \<in> set xs \<Longrightarrow> P s \<Longrightarrow> P (f x s)) \<Longrightarrow> P (fold f xs s)"
  by (induction xs arbitrary: s) auto

lemma checked_inv:
  assumes "sign_inv get_active V K base UNIV s"
  shows "sign_inv get_active V K base UNIV (snd (check_authority get_active n opt s))"
    and "sign_inv get_active V K base UNIV (snd (check_account get_active n a s))"
proof -
  have closed: "closed_under get_active UNIV" by (simp add: closed_under_def)
  have "sign_inv get_active V K base UNIV (snd (check_authority get_active n opt s))" for opt
    using check_option_sound [OF _ assms closed, of n opt] by (cases "check_authority get_active n opt s") auto
  then show "sign_inv get_active V K base UNIV (snd (check_authority get_active n opt s))"
    and "sign_inv get_active V K base UNIV (snd (check_account get_active n a s))"
    using assms by (auto simp: check_account_def)
qed

lemma required_signatures_sorted:
  assumes "get_required_signatures recover d sigs auths ops available get_active get_owner n = Inr s"
  shows "sorted_wrt (<) s" and "set s \<subseteq> set available"
proof -
  obtain act own oth where req: "get_required_authorities auths ops = (act, own, oth)" by (cases "get_required_authorities auths ops")
  obtain keys where "get_signature_keys recover d sigs = Inr keys"
    and s: "s = filter (\<lambda>k. k \<in> set available) (map fst (provided_signatures (snd (remove_unused_signatures
      (fold (\<lambda>a s. snd (check_account get_active n a s)) act (fold (\<lambda>a s. snd (check_authority get_active n (get_owner a) s)) own
        (fold (\<lambda>au s. snd (check_authority get_active n (Some au) s)) oth (sign_state_init keys available))))))))"
    using assms req by (auto simp: get_required_signatures_def Let_def res_simps)
  let ?P = "sign_inv get_active available (set keys \<union> set available) {GRAPHENE_TEMP_ACCOUNT} UNIV"
  have "?P (fold (\<lambda>a s. snd (check_account get_active n a s)) act (fold (\<lambda>a s. snd (check_authority get_active n (get_owner a) s)) own
        (fold (\<lambda>au s. snd (check_authority get_active n (Some au) s)) oth (sign_state_init keys available))))"
    by (intro fold_invariant [where P = ?P] checked_inv init_state_inv)
  then show "sorted_wrt (<) s"
    by (auto simp: s sign_inv_def remove_unused_signatures_def Let_def intro!: sorted_wrt_filter set_of_deletions)
  show "set s \<subseteq> set available" by (auto simp: s)
qed

text \<open>\<open>minimize_required_signatures\<close> returns part of what \<open>get_required_signatures\<close> returns, and of the
  available keys; if the required signatures satisfy the transaction, so do the minimal ones; and each key that is
  kept was needed, some set of keys that includes the result misses an authority without it.\<close>

theorem minimal_signatures_suffice:
  assumes "minimize_required_signatures recover d sigs auths ops available get_active get_owner n = Inr r"
  defines "verify \<equiv> \<lambda>keys. verify_authority auths ops keys get_active get_owner n False [] []"
  shows "\<exists>s. get_required_signatures recover d sigs auths ops available get_active get_owner n = Inr s \<and>
    set r \<subseteq> set s \<and> set s \<subseteq> set available \<and> (verify s = Inr () \<longrightarrow> verify r = Inr ()) \<and>
    (\<forall>k \<in> set r. needed_key verify s r k)"
proof -
  obtain s where s: "get_required_signatures recover d sigs auths ops available get_active get_owner n = Inr s"
    and loop: "minimize_loop verify s s = Inr r"
    using assms(1) by (auto simp: minimize_required_signatures_def verify_def res_simps)
  note sorted = required_signatures_sorted [OF s]
  have "distinct s" using sorted(1) by (simp add: strict_sorted_iff)
  from minimize_loop_spec [OF loop sorted(1) this] have r: "set r \<subseteq> set s" "verify s = Inr () \<longrightarrow> verify r = Inr ()"
    "\<forall>k \<in> set s. k \<in> set r \<longrightarrow> needed_key verify s r k" by auto
  then show ?thesis using s sorted(2) by blast
qed

text \<open>Keys 1 and 2 reach the threshold before key 3, which alone suffices, is looked at.\<close>

theorem minimal_signatures_suffice_witness:
  "minimize_required_signatures (\<lambda>s d. s) () [] payer_only [5] [1, 2, 3]
     (\<lambda>a. if a = 5 then Some \<lparr>weight_threshold = 2, account_auths = [], key_auths = [(1, 1), (2, 2), (3, 1)]\<rparr> else None) (\<lambda>_. None) 2 = Inr [2] \<and>
   verify_authority payer_only [5] [2]
     (\<lambda>a. if a = 5 then Some \<lparr>weight_threshold = 2, account_auths = [], key_auths = [(1, 1), (2, 2), (3, 1)]\<rparr> else None) (\<lambda>_. None) 2 False [] [] = Inr ()"
proof -
  let ?ga = "\<lambda>a. if a = (5 :: account) then Some \<lparr>weight_threshold = 2, account_auths = [], key_auths = [(1, 1), (2, 2), (3, 1)]\<rparr> else None"
  have run: "minimize_required_signatures (\<lambda>s d. s) () [] payer_only [5] [1, 2, 3] ?ga (\<lambda>_. None) 2 = Inr [2]" by code_simp
  have s: "get_required_signatures (\<lambda>s d. s) () [] payer_only [5] [1, 2, 3] ?ga (\<lambda>_. None) 2 = Inr [1, 2]" by code_simp
  have v: "verify_authority payer_only [5] [1, 2] ?ga (\<lambda>_. None) 2 False [] [] = Inr ()" by code_simp
  from minimal_signatures_suffice [OF run] run s v show ?thesis by simp
qed

end
