(* ===== verification/Account_Names.thy ===== *)
theory Account_Names
  imports Authority
begin

text \<open>
  Names of accounts (\<open>is_valid_name\<close>, \<open>is_cheap_name\<close> in \<open>protocol/account.cpp\<close>): the scan with
  positions as the code makes it, and the grammar of its comment as a reference, a name being
  a list of labels separated by dots.  \<open>tolower\<close> is that of the C locale.
\<close>

definition GRAPHENE_MIN_ACCOUNT_NAME_LENGTH :: nat where "GRAPHENE_MIN_ACCOUNT_NAME_LENGTH = 5"
definition GRAPHENE_MAX_ACCOUNT_NAME_LENGTH :: nat where "GRAPHENE_MAX_ACCOUNT_NAME_LENGTH = 63"

definition tolower :: "char \<Rightarrow> char" where
  "tolower c = (if 65 \<le> (of_char c :: nat) \<and> (of_char c :: nat) \<le> 90 then char_of (of_char c + 32 :: nat) else c)"

definition is_letter :: "char \<Rightarrow> bool" where
  "is_letter c \<longleftrightarrow> 97 \<le> (of_char c :: nat) \<and> (of_char c :: nat) \<le> 122"

section \<open>The code\<close>

text \<open>The three switch statements: what may begin, end and stand within a label.\<close>

definition letter :: "char \<Rightarrow> bool" where "letter c \<longleftrightarrow> is_letter (tolower c)"
definition let_dig :: "char \<Rightarrow> bool" where "let_dig c \<longleftrightarrow> letter c \<or> is_digit (tolower c)"
definition let_dig_hyp :: "char \<Rightarrow> bool" where "let_dig_hyp c \<longleftrightarrow> let_dig c \<or> tolower c = CHR ''-''"

definition label_end :: "string \<Rightarrow> nat \<Rightarrow> nat" where
  "label_end name start = (case str_find (CHR ''.'') name start of None \<Rightarrow> length name | Some e \<Rightarrow> e)"

lemma label_end_bound: "start < length name \<Longrightarrow> start \<le> label_end name start"
  by (auto simp: label_end_def str_find_def Let_def)

function name_labels_ok :: "string \<Rightarrow> nat \<Rightarrow> bool" where
  \<comment> \<open>the loop, from position \<open>start\<close>\<close>
  "name_labels_ok name start =
     (let stop = label_end name start
      in if stop - start < 3 then False
         else if \<not> letter (name ! start) then False
         else if \<not> let_dig (name ! (stop - 1)) then False
         else if \<not> (\<forall>i \<in> set [start + 1..<stop - 1]. let_dig_hyp (name ! i)) then False
         else if stop = length name then True
         else name_labels_ok name (stop + 1))"
  by pat_completeness auto
termination
  by (relation "measure (\<lambda>(name, start). length name - start)")
    (auto simp: label_end_def str_find_def Let_def split: option.splits if_splits)

declare name_labels_ok.simps [simp del]

definition is_valid_name :: "string \<Rightarrow> bool" where
  "is_valid_name name =
     (if length name < GRAPHENE_MIN_ACCOUNT_NAME_LENGTH then False
      else if length name > GRAPHENE_MAX_ACCOUNT_NAME_LENGTH then False
      else name_labels_ok name 0)"

fun is_cheap_scan :: "string \<Rightarrow> bool \<Rightarrow> bool" where
  "is_cheap_scan [] v = (\<not> v)"
| "is_cheap_scan (c # cs) v =
     (if is_digit c then True
      else if c = CHR ''.'' \<or> c = CHR ''-'' \<or> c = CHR ''/'' then True
      else is_cheap_scan cs (v \<or> c \<in> set ''aeiouy''))"

definition is_cheap_name :: "string \<Rightarrow> bool" where
  "is_cheap_name n = is_cheap_scan n False"

section \<open>The grammar\<close>

function split_dots :: "string \<Rightarrow> string list" where
  "split_dots s = (let l = takeWhile (\<lambda>c. c \<noteq> CHR ''.'') s
     in if length l < length s then l # split_dots (drop (length l + 1) s) else [l])"
  by pat_completeness auto
termination by (relation "measure length") auto

declare split_dots.simps [simp del]

definition label_ok :: "string \<Rightarrow> bool" where
  "label_ok l \<longleftrightarrow> 3 \<le> length l \<and> letter (hd l) \<and> let_dig (last l) \<and> (\<forall>c \<in> set l. let_dig_hyp c)"

lemma list_all_middle:
  assumes "2 \<le> length l"
  shows "(\<forall>c \<in> set l. P c) \<longleftrightarrow> P (hd l) \<and> P (last l) \<and> (\<forall>i \<in> set [1..<length l - 1]. P (l ! i))"
proof -
  have ne: "l \<noteq> []" "0 < length l" "length l - 1 < length l" using assms by auto
  have "(\<forall>c \<in> set l. P c) \<longleftrightarrow> (\<forall>i < length l. P (l ! i))" by (auto simp: all_set_conv_all_nth)
  also have "\<dots> \<longleftrightarrow> P (l ! 0) \<and> P (l ! (length l - 1)) \<and> (\<forall>i. 1 \<le> i \<and> i < length l - 1 \<longrightarrow> P (l ! i))"
  proof (intro iffI conjI allI impI)
    fix i assume *: "P (l ! 0) \<and> P (l ! (length l - 1)) \<and> (\<forall>i. 1 \<le> i \<and> i < length l - 1 \<longrightarrow> P (l ! i))" and "i < length l"
    then consider "i = 0" | "i = length l - 1" | "1 \<le> i \<and> i < length l - 1" by linarith
    then show "P (l ! i)" using * by cases auto
  qed (use ne in auto)
  finally show ?thesis by (simp add: hd_conv_nth [OF ne(1)] last_conv_nth [OF ne(1)]) auto
qed

lemma label_at:
  assumes "start \<le> length name"
  defines "l \<equiv> takeWhile (\<lambda>c. c \<noteq> CHR ''.'') (drop start name)"
  shows "label_end name start = start + length l" and "label_end name start \<le> length name"
    and "i < length l \<Longrightarrow> name ! (start + i) = l ! i"
proof -
  have le: "length l \<le> length name - start" unfolding l_def by (metis length_drop length_takeWhile_le)
  show "label_end name start = start + length l" using le assms(1) by (auto simp: label_end_def str_find_def l_def Let_def)
  then show "label_end name start \<le> length name" using le assms(1) by simp
  show "name ! (start + i) = l ! i" if "i < length l"
    using that le by (simp add: l_def takeWhile_nth)
qed

lemma label_checks:
  assumes "stop = start + length l" and "\<And>i. i < length l \<Longrightarrow> name ! (start + i) = l ! i"
  shows "label_ok l \<longleftrightarrow> \<not> stop - start < 3 \<and> letter (name ! start) \<and> let_dig (name ! (stop - 1)) \<and>
    (\<forall>i \<in> set [start + 1..<stop - 1]. let_dig_hyp (name ! i))"
proof (cases "3 \<le> length l")
  case True
  then have ne: "l \<noteq> []" by auto
  have first: "name ! start = hd l" using assms(2) [of 0] ne by (simp add: hd_conv_nth)
  have final: "name ! (stop - 1) = last l"
    using assms(2) [of "length l - 1"] assms(1) ne True by (simp add: last_conv_nth)
  have img: "set [start + 1..<stop - 1] = (\<lambda>i. start + i) ` set [1..<length l - 1]"
    unfolding assms(1) using True by (auto simp: image_iff intro!: bexI [of _ "_ - start"])
  have mid: "(\<forall>i \<in> set [start + 1..<stop - 1]. let_dig_hyp (name ! i)) \<longleftrightarrow> (\<forall>i \<in> set [1..<length l - 1]. let_dig_hyp (l ! i))"
    unfolding img ball_simps(9) using assms(2) by (intro ball_cong) auto
  have all: "(\<forall>c \<in> set l. let_dig_hyp c) \<longleftrightarrow> let_dig_hyp (hd l) \<and> let_dig_hyp (last l) \<and>
      (\<forall>i \<in> set [1..<length l - 1]. let_dig_hyp (l ! i))"
    using True by (intro list_all_middle) simp
  have "letter (hd l) \<longrightarrow> let_dig_hyp (hd l)" "let_dig (last l) \<longrightarrow> let_dig_hyp (last l)"
    by (simp_all add: let_dig_hyp_def let_dig_def)
  then show ?thesis
    unfolding mid first final label_ok_def all using True assms(1) by auto
next
  case False
  then show ?thesis using assms(1) by (simp add: label_ok_def)
qed

lemma name_labels_ok_split:
  assumes "start \<le> length name"
  shows "name_labels_ok name start \<longleftrightarrow> (\<forall>l \<in> set (split_dots (drop start name)). label_ok l)"
  using assms
proof (induction name start rule: name_labels_ok.induct)
  case (1 name start)
  let ?l = "takeWhile (\<lambda>c. c \<noteq> CHR ''.'') (drop start name)" and ?stop = "label_end name start"
  note at = label_at [OF "1.prems"]
  have here: "label_ok ?l \<longleftrightarrow> \<not> ?stop - start < 3 \<and> letter (name ! start) \<and> let_dig (name ! (?stop - 1)) \<and>
    (\<forall>i \<in> set [start + 1..<?stop - 1]. let_dig_hyp (name ! i))"
    by (rule label_checks [OF at(1)]) (rule at(3))
  have unfold: "name_labels_ok name start \<longleftrightarrow> label_ok ?l \<and> (?stop = length name \<or> name_labels_ok name (?stop + 1))"
  proof -
    have "name_labels_ok name start \<longleftrightarrow> (\<not> ?stop - start < 3 \<and> letter (name ! start) \<and> let_dig (name ! (?stop - 1)) \<and>
      (\<forall>i \<in> set [start + 1..<?stop - 1]. let_dig_hyp (name ! i))) \<and> (?stop = length name \<or> name_labels_ok name (?stop + 1))"
      by (subst name_labels_ok.simps) (simp add: Let_def)
    then show ?thesis using here by (simp only:)
  qed
  show ?case
  proof (cases "?stop = length name")
    case True
    then have "length ?l = length name - start" using at(1) by linarith
    then have "split_dots (drop start name) = [?l]" by (subst split_dots.simps) (simp add: Let_def)
    then show ?thesis using unfold True by simp
  next
    case False
    then have lt: "length ?l < length (drop start name)" using at(1,2) by simp
    then have split: "split_dots (drop start name) = ?l # split_dots (drop (?stop + 1) name)"
      using at(1) by (subst split_dots.simps) (simp add: Let_def add.commute)
    have next_ok: "name_labels_ok name (?stop + 1) \<longleftrightarrow> (\<forall>l \<in> set (split_dots (drop (?stop + 1) name)). label_ok l)" if "label_ok ?l"
    proof (rule "1.IH" [OF refl])
      show "?stop + 1 \<le> length name" using False at(2) by simp
    qed (use that here False in blast)+
    have "name_labels_ok name start \<longleftrightarrow> label_ok ?l \<and> (\<forall>l \<in> set (split_dots (drop (?stop + 1) name)). label_ok l)"
      using unfold False next_ok by blast
    then show ?thesis unfolding split list.set ball_simps(7) .
  qed
qed

text \<open>C38: \<open>is_valid_name\<close> accepts exactly the names of 5 to 63 characters whose dot-separated labels have three or
  more characters, begin with a letter, end with a letter or digit and contain only letters, digits and hyphens.
  Letters may be of either case, although the comment of the function and a test (line 84: \<open>aaa-BBB-ccc\<close> is invalid) demand lower case, and names of three characters are
  refused, although \<open>src/tests/tests/basic_tests.cpp\<close> (lines 67 to 77) expects six of them to be valid:
  \<open>GRAPHENE_MIN_ACCOUNT_NAME_LENGTH\<close> is 5 (\<open>three_letter_names_rejected\<close>).\<close>

theorem is_valid_name_grammar:
  "is_valid_name name \<longleftrightarrow> length name \<in> {5..63} \<and> list_all label_ok (split_dots name)"
  using name_labels_ok_split [of 0 name]
  by (auto simp: list_all_iff is_valid_name_def GRAPHENE_MIN_ACCOUNT_NAME_LENGTH_def GRAPHENE_MAX_ACCOUNT_NAME_LENGTH_def)

lemma three_letter_names_rejected:
  "list_all (\<lambda>name. \<not> is_valid_name name) [''aaa'', ''a0a'', ''a-a'', ''aa0'', ''a00'', ''a-0'']"
  by (simp add: is_valid_name_def GRAPHENE_MIN_ACCOUNT_NAME_LENGTH_def)

lemma upper_case_name_accepted: "is_valid_name ''ALICE''" "is_valid_name ''aaa-BBB-ccc''"
  by (simp add: is_valid_name_def name_labels_ok_split split_dots.simps label_ok_def letter_def let_dig_def let_dig_hyp_def
      tolower_def is_letter_def GRAPHENE_MIN_ACCOUNT_NAME_LENGTH_def GRAPHENE_MAX_ACCOUNT_NAME_LENGTH_def)+

lemma is_cheap_scan_iff:
  "is_cheap_scan n v \<longleftrightarrow> (\<exists>c \<in> set n. is_digit c \<or> c \<in> set ''.-/'') \<or> \<not> v \<and> (\<forall>c \<in> set n. c \<notin> set ''aeiouy'')"
  by (induction n v rule: is_cheap_scan.induct) auto

lemma is_cheap_name_iff:
  "is_cheap_name n \<longleftrightarrow> (\<exists>c \<in> set n. is_digit c \<or> c \<in> set ''.-/'') \<or> (\<forall>c \<in> set n. c \<notin> set ''aeiouy'')"
  by (simp add: is_cheap_name_def is_cheap_scan_iff)

end
