(* ===== verification/Votes.thy ===== *)
theory Votes
  imports Authority_Correct Object_Id Assets
begin

text \<open>
  Vote identifiers (\<open>protocol/vote.hpp\<close>, \<open>protocol/vote.cpp\<close>), the options of an account and the
  validation of the account operations (\<open>protocol/account.hpp\<close>, \<open>protocol/account.cpp\<close>) and the
  vote counter that turns tallies into the weights of an authority (\<open>vote_count.hpp\<close>).
\<close>

section \<open>Vote identifiers\<close>

record vote_id =
  content :: "32 word"

definition vt_miner :: "32 word" where "vt_miner = 0"

definition make_vote_id :: "32 word \<Rightarrow> 32 word \<Rightarrow> vote_id" where
  "make_vote_id ty inst = \<lparr>content = push_bit 8 inst OR ty\<rparr>"

definition set_type :: "32 word \<Rightarrow> vote_id \<Rightarrow> vote_id" where
  "set_type ty v = v\<lparr>content := (content v AND 0xffffff00) OR (ty AND 0xff)\<rparr>"

definition vote_type :: "vote_id \<Rightarrow> 32 word" where
  "vote_type v = content v AND 0xff"

definition set_instance :: "32 word \<Rightarrow> vote_id \<Rightarrow> vote_id" where
  "set_instance inst v = v\<lparr>content := (content v AND 0xff) OR push_bit 8 inst\<rparr>"

definition vote_instance :: "vote_id \<Rightarrow> 32 word" where
  "vote_instance v = drop_bit 8 (content v)"

definition stoul :: "string \<Rightarrow> (int \<times> nat) res" where
  \<comment> \<open>a minus sign negates in the unsigned type\<close>
  "stoul s = res_bind (sto_int (- (2 ^ 64 - 1)) (2 ^ 64 - 1) s) (\<lambda>(v, n). Inr (v mod 2 ^ 64, n))"

definition vote_id_of_string :: "string \<Rightarrow> vote_id res" where
  "vote_id_of_string serial =
     (case str_find (CHR '':'') serial 0 of
        None \<Rightarrow> Inr \<lparr>content = 0\<rparr>
      | Some colon \<Rightarrow>
          res_bind (stoul (str_sub serial 0 colon)) (\<lambda>(t, _).
          res_bind (stoul (drop (colon + 1) serial)) (\<lambda>(i, _).
          Inr (make_vote_id (word_of_int t) (word_of_int i)))))"

definition string_of_vote_id :: "vote_id \<Rightarrow> string" where
  "string_of_vote_id v = dec_of_nat (unat (vote_type v)) @ '':'' @ dec_of_nat (unat (vote_instance v))"

definition get_next_vote_id :: "32 word \<Rightarrow> 32 word \<Rightarrow> vote_id \<times> 32 word" where
  \<comment> \<open>from \<open>next_available_vote_id\<close>, returned incremented\<close>
  "get_next_vote_id ty next_available = (make_vote_id ty next_available, next_available + 1)"

section \<open>Account operations\<close>

definition GRAPHENE_PROXY_TO_SELF_ACCOUNT :: account where "GRAPHENE_PROXY_TO_SELF_ACCOUNT = 3"

record account_options =
  voting_account :: account
  num_miner :: "16 word"
  votes :: "vote_id list"

record account_create_operation =
  ac_fee :: asset
  ac_registrar :: account
  ac_owner :: authority
  ac_options :: account_options

record account_update_operation =
  au_fee :: asset
  au_account :: account
  au_owner :: "authority option"
  au_new_options :: "account_options option"

fun count_down_miners :: "vote_id list \<Rightarrow> 16 word \<Rightarrow> 16 word" where
  "count_down_miners [] needed = needed"
| "count_down_miners (v # vs) needed =
     count_down_miners vs (if vote_type v = vt_miner \<and> needed \<noteq> 0 then needed - 1 else needed)"

definition validate_options :: "account_options \<Rightarrow> unit res" where
  "validate_options opts = fc_assert (count_down_miners (votes opts) (num_miner opts) = 0)"

definition validate_account_create :: "account_create_operation \<Rightarrow> unit res" where
  "validate_account_create op =
     res_bind (fc_assert (amount (ac_fee op) \<ge> 0)) (\<lambda>_.
     res_bind (fc_assert (num_auths (ac_owner op) \<noteq> 0)) (\<lambda>_.
     res_bind (fc_assert (\<not> is_impossible (ac_owner op))) (\<lambda>_.
     validate_options (ac_options op))))"

definition validate_account_update :: "account_update_operation \<Rightarrow> unit res" where
  "validate_account_update op =
     res_bind (fc_assert (au_account op \<noteq> GRAPHENE_TEMP_ACCOUNT)) (\<lambda>_.
     res_bind (fc_assert (amount (au_fee op) \<ge> 0)) (\<lambda>_.
     res_bind (fc_assert (au_account op \<noteq> 0)) (\<lambda>_.
     res_bind (fc_assert (au_owner op \<noteq> None \<or> au_new_options op \<noteq> None)) (\<lambda>_.
     res_bind (case au_owner op of None \<Rightarrow> Inr ()
               | Some ow \<Rightarrow> res_bind (fc_assert (num_auths ow \<noteq> 0)) (\<lambda>_. fc_assert (\<not> is_impossible ow))) (\<lambda>_.
     (case au_new_options op of None \<Rightarrow> Inr () | Some opts \<Rightarrow> validate_options opts))))))"

definition account_create_auths :: "account_create_operation \<Rightarrow> op_auths" where
  "account_create_auths op = \<lparr>fee_payer = ac_registrar op, op_active = [ac_registrar op], op_owner = [], op_other = []\<rparr>"

definition account_update_auths :: "account_update_operation \<Rightarrow> op_auths" where
  "account_update_auths op =
     \<lparr>fee_payer = au_account op,
      op_active = (if au_owner op \<noteq> None then [] else [au_account op]),
      op_owner = (if au_owner op \<noteq> None then [au_account op] else []), op_other = []\<rparr>"

section \<open>The vote counter\<close>

record vote_counter =
  last_votes :: "64 word"
  total_votes :: "64 word"
  bitshift :: int
  vc_auth :: authority

definition new_vote_counter :: vote_counter where
  "new_vote_counter = \<lparr>last_votes = - 1, total_votes = 0, bitshift = - 1,
     vc_auth = \<lparr>weight_threshold = 0, account_auths = [], key_auths = []\<rparr>\<rparr>"

fun find_msb :: "nat \<Rightarrow> nat" where
  "find_msb n = (if n < 2 then 0 else 1 + find_msb (n div 2))"

declare find_msb.simps [simp del]

definition vote_counter_add :: "account \<Rightarrow> 64 word \<Rightarrow> vote_counter \<Rightarrow> vote_counter" where
  "vote_counter_add who vs c =
     (if vs = 0 then c
      else let c1 = c\<lparr>last_votes := vs,
                 bitshift := (if bitshift c = - 1 then max (int (find_msb (unat vs)) - 15) 0 else bitshift c)\<rparr>;
               scaled_votes = max (drop_bit (nat (bitshift c1)) vs) 1
           in c1\<lparr>total_votes := total_votes c1 + scaled_votes,
                 vc_auth := add_account_authority who (ucast scaled_votes) (vc_auth c1)\<rparr>)"

definition vote_counter_finish :: "authority \<Rightarrow> vote_counter \<Rightarrow> authority" where
  \<comment> \<open>the authority written, the given one when nobody was added\<close>
  "vote_counter_finish out_auth c =
     (if total_votes c = 0 then out_auth
      else let weight = (ucast (total_votes c) :: 32 word)
           in (vc_auth c)\<lparr>weight_threshold := drop_bit 1 weight + 1\<rparr>)"

definition vote_counter_is_empty :: "vote_counter \<Rightarrow> bool" where
  "vote_counter_is_empty c \<longleftrightarrow> total_votes c = 0"

definition count_votes :: "(account \<times> 64 word) list \<Rightarrow> vote_counter" where
  \<comment> \<open>the way the maintenance uses a counter\<close>
  "count_votes xs = fold (\<lambda>(who, vs). vote_counter_add who vs) xs new_vote_counter"

section \<open>Identifiers read back\<close>

lemma bit_ff_word: "bit (0xFF :: 32 word) n \<longleftrightarrow> n < 8"
proof -
  have "(0xFF :: 32 word) = mask 8" by (simp add: mask_eq_exp_minus_1)
  then have "bit (0xFF :: 32 word) n \<longleftrightarrow> bit (mask 8 :: 32 word) n" by (rule arg_cong)
  also have "\<dots> \<longleftrightarrow> n < 8" by (auto simp: bit_mask_iff)
  finally show ?thesis .
qed

lemma vote_id_parts:
  assumes "drop_bit 24 inst = 0" and "drop_bit 8 ty = 0"
  shows "vote_type (make_vote_id ty inst) = ty" and "vote_instance (make_vote_id ty inst) = inst"
proof -
  have ty: "bit ty n \<Longrightarrow> n < 8" for n using not_bit_if_drop_zero [OF assms(2), of n] by force
  have inst: "bit inst n \<Longrightarrow> n < 24" for n using not_bit_if_drop_zero [OF assms(1), of n] by force
  show "vote_type (make_vote_id ty inst) = ty"
    by (rule bit_word_eqI) (use ty in \<open>auto simp: vote_type_def make_vote_id_def bit_simps bit_ff_word\<close>)
  show "vote_instance (make_vote_id ty inst) = inst"
    by (rule bit_word_eqI) (use ty inst in \<open>auto simp: vote_instance_def make_vote_id_def bit_simps; force\<close>)
qed

lemma vote_id_unpack: "make_vote_id (vote_type v) (vote_instance v) = v"
proof -
  have "push_bit 8 (drop_bit 8 (content v)) OR (content v AND 0xff) = content v"
    by (rule bit_word_eqI) (auto simp: bit_simps bit_ff_word)
  then show ?thesis by (simp add: make_vote_id_def vote_type_def vote_instance_def)
qed

lemma stoul_dec: "n < 2 ^ 64 \<Longrightarrow> stoul (dec_of_nat n) = Inr (int n, length (dec_of_nat n))"
  using sto_int_digits [OF dec_of_nat_digits dec_of_nat_nonempty, of "- (2 ^ 64 - 1)" n "2 ^ 64 - 1"]
  by (simp add: stoul_def)

text \<open>Every vote identifier is read back from its printed form \<open>type:instance\<close>, and setting the type of an identifier
  or its instance leaves the other part as it is.\<close>

theorem vote_id_text_round_trip:
  "vote_id_of_string (string_of_vote_id v) = Inr v \<and>
   vote_type (set_instance i v) = vote_type v \<and> vote_instance (set_type t v) = vote_instance v"
proof (intro conjI)
  let ?t = "unat (vote_type v)" and ?i = "unat (vote_instance v)"
  have lt: "unat (w :: 32 word) < 2 ^ 64" for w
  proof -
    have "unat w < 2 ^ LENGTH(32)" by (rule unsigned_less)
    then show ?thesis by simp
  qed
  have colon: "CHR '':'' \<notin> set (dec_of_nat n)" for n by (rule dec_of_nat_no_char) (simp add: is_digit_def)
  have find: "str_find (CHR '':'') (string_of_vote_id v) 0 = Some (length (dec_of_nat ?t))"
    using str_find_first [OF colon, of ?t] by (simp add: string_of_vote_id_def)
  have reread: "word_of_int (int (unat w)) = w" for w :: "32 word" by (simp add: uint_nat [symmetric])
  show "vote_id_of_string (string_of_vote_id v) = Inr v"
    unfolding vote_id_of_string_def find
    by (simp add: string_of_vote_id_def str_sub_def stoul_dec [OF lt] vote_id_unpack reread)
  have "content (set_instance i v) AND 0xff = content v AND 0xff"
    by (rule bit_word_eqI) (auto simp: set_instance_def bit_simps bit_ff_word)
  then show "vote_type (set_instance i v) = vote_type v" by (simp add: vote_type_def)
  have high: "bit (0xffffff00 :: 32 word) n \<longleftrightarrow> 8 \<le> n \<and> n < 32" for n
  proof -
    have "(0xffffff00 :: 32 word) = push_bit 8 (mask 24)" by (simp add: push_bit_eq_mult mask_eq_exp_minus_1)
    then have "bit (0xffffff00 :: 32 word) n = bit (push_bit 8 (mask 24) :: 32 word) n" by (rule arg_cong)
    also have "\<dots> \<longleftrightarrow> 8 \<le> n \<and> n < 32" by (auto simp: bit_simps)
    finally show ?thesis .
  qed
  have low: "bit (0xffffff :: int) n \<longleftrightarrow> n < 24" for n
  proof -
    have "(0xffffff :: int) = mask 24" by (simp add: mask_eq_exp_minus_1)
    then have "bit (0xffffff :: int) n = bit (mask 24 :: int) n" by (rule arg_cong)
    also have "\<dots> \<longleftrightarrow> n < 24" by (auto simp: bit_mask_iff)
    finally show ?thesis .
  qed
  have "drop_bit 8 (content (set_type t v)) = drop_bit 8 (content v)"
    by (rule bit_word_eqI) (auto simp: set_type_def bit_simps bit_ff_word high low dest: bit_imp_le_length)
  then show "vote_instance (set_type t v) = vote_instance v" by (simp add: vote_instance_def)
qed

lemma count_down_miners_nat:
  "unat (count_down_miners vs n) = unat n - length (filter (\<lambda>v. vote_type v = vt_miner) vs)"
proof (induction vs arbitrary: n)
  case (Cons v vs)
  have "unat (n - 1) = unat n - 1" if "n \<noteq> 0" using that by (simp add: unat_minus_one)
  then show ?case using Cons [of "n - 1"] Cons [of n] by auto
qed simp

lemma validate_options_iff:
  \<comment> \<open>options ask for no more miners than they vote for\<close>
  "validate_options opts = Inr () \<longleftrightarrow> unat (num_miner opts) \<le> length (filter (\<lambda>v. vote_type v = vt_miner) (votes opts))"
proof -
  have "count_down_miners (votes opts) (num_miner opts) = 0 \<longleftrightarrow> unat (count_down_miners (votes opts) (num_miner opts)) = 0"
    by (simp add: unat_eq_0)
  then show ?thesis by (simp add: validate_options_def count_down_miners_nat)
qed


section \<open>What the counter counts\<close>

definition auth_total :: "('k \<times> weight) list \<Rightarrow> nat" where
  "auth_total as = sum_list (map (\<lambda>a. unat (snd a)) as)"

lemma auth_total_put: "k \<notin> fst ` set m \<Longrightarrow> auth_total (flat_map_put k w m) = unat w + auth_total m"
  by (induction k w m rule: flat_map_put.induct) (auto simp: auth_total_def)

lemma less_two_power_Suc_msb: "n < 2 ^ (find_msb n + 1)"
proof (induction n rule: find_msb.induct)
  case (1 n)
  show ?case
  proof (cases "n < 2")
    case False
    then have "n div 2 < 2 ^ (find_msb (n div 2) + 1)" using 1 by simp
    then have "n < 2 * 2 ^ (find_msb (n div 2) + 1)" by linarith
    then show ?thesis using False by (simp add: find_msb.simps [of n])
  qed (simp add: find_msb.simps [of n])
qed

definition scale_of :: "nat \<Rightarrow> nat \<Rightarrow> nat" where
  \<comment> \<open>the weight of a tally when \<open>v0\<close> is the greatest\<close>
  "scale_of v0 v = max (v div 2 ^ (find_msb v0 - 15)) 1"

lemma scale_of_bound:
  assumes "v \<le> v0"
  shows "1 \<le> scale_of v0 v" and "scale_of v0 v < 2 ^ 16"
proof -
  have "v < 2 ^ (16 + (find_msb v0 - 15))"
  proof -
    have "v < 2 ^ (find_msb v0 + 1)" using less_two_power_Suc_msb [of v0] assms by simp
    also have "\<dots> \<le> 2 ^ (16 + (find_msb v0 - 15))" by (intro power_increasing) auto
    finally show ?thesis .
  qed
  then have "v div 2 ^ (find_msb v0 - 15) < 2 ^ 16" by (simp add: less_mult_imp_div_less power_add)
  then show "1 \<le> scale_of v0 v" and "scale_of v0 v < 2 ^ 16" by (simp_all add: scale_of_def)
qed

definition counter_inv :: "nat \<Rightarrow> nat \<Rightarrow> account set \<Rightarrow> vote_counter \<Rightarrow> bool" where
  \<comment> \<open>after at most \<open>n\<close> of \<open>who\<close> were added, the first of them with \<open>v0\<close> votes\<close>
  "counter_inv v0 n who c \<longleftrightarrow>
     bitshift c = int (find_msb v0 - 15) \<and> fst ` set (account_auths (vc_auth c)) \<subseteq> who \<and> key_auths (vc_auth c) = [] \<and>
     unat (total_votes c) = auth_total (account_auths (vc_auth c)) \<and> unat (total_votes c) \<le> n * 65535 \<and>
     (\<forall>(a, w) \<in> set (account_auths (vc_auth c)). w \<noteq> 0)"

lemma unat_drop_bit: "unat (drop_bit n w) = unat (w :: 'a::len word) div 2 ^ n"
proof -
  have "unat (drop_bit n w) = drop_bit n (unat w)"
    using unsigned_less [where ?'a = nat, of w] by (simp add: unsigned_drop_bit_eq take_bit_nat_eq_self)
  then show ?thesis by (simp add: drop_bit_eq_div)
qed

lemma scaled_word:
  fixes vs :: "64 word"
  assumes "unat vs \<le> v0"
  defines "s \<equiv> max (drop_bit (find_msb v0 - 15) vs) 1"
  shows "unat s = scale_of v0 (unat vs)" and "unat (ucast s :: weight) = scale_of v0 (unat vs)"
proof -
  note d = unat_drop_bit [of "find_msb v0 - 15" vs]
  show s: "unat s = scale_of v0 (unat vs)"
    unfolding s_def scale_of_def d [symmetric] by (simp add: max_def word_le_nat_alt)
  have "unat (ucast s :: weight) = unat s mod 2 ^ 16" by (simp add: unsigned_ucast_eq take_bit_eq_mod)
  then show "unat (ucast s :: weight) = scale_of v0 (unat vs)"
    using s scale_of_bound(2) [OF assms(1)] by simp
qed

lemma counter_add:
  assumes "counter_inv v0 n who c" and "unat vs \<le> v0" and "a \<notin> who" and "n < 65536"
  shows "counter_inv v0 (Suc n) (insert a who) (vote_counter_add a vs c) \<and>
    unat (total_votes c) + (if vs = 0 then 0 else 1) \<le> unat (total_votes (vote_counter_add a vs c))"
proof (cases "vs = 0")
  case True
  then show ?thesis using assms(1) by (auto simp: vote_counter_add_def counter_inv_def)
next
  case False
  let ?s = "max (drop_bit (find_msb v0 - 15) vs) 1"
  have shift: "bitshift c \<noteq> - 1" "nat (bitshift c) = find_msb v0 - 15" using assms(1) by (auto simp: counter_inv_def)
  note s = scaled_word [OF assms(2)]
  have bnd: "unat ?s \<le> 65535" "1 \<le> unat ?s" using s scale_of_bound [OF assms(2)] by simp_all
  have tot: "unat (total_votes c) \<le> n * 65535" using assms(1) by (simp add: counter_inv_def)
  have "n * 65535 \<le> 65535 * 65535" using assms(4) by simp
  then have add: "unat (total_votes c + ?s) = unat (total_votes c) + unat ?s"
    using tot bnd(1) unat_add_lem [of "total_votes c" ?s] by simp
  have new: "a \<notin> fst ` set (account_auths (vc_auth c))" using assms(1,3) by (auto simp: counter_inv_def)
  have w0: "(ucast ?s :: weight) \<noteq> 0" using s bnd(2) by (metis unat_0 not_one_le_zero)
  have eff: "vote_counter_add a vs c = c\<lparr>last_votes := vs, bitshift := bitshift c, total_votes := total_votes c + ?s,
      vc_auth := add_account_authority a (ucast ?s) (vc_auth c)\<rparr>"
    using False shift by (simp add: vote_counter_add_def Let_def)
  have "\<forall>(b, w) \<in> set (flat_map_put a (ucast ?s) (account_auths (vc_auth c))). w \<noteq> 0"
    using flat_map_put_set [of a "ucast ?s" "account_auths (vc_auth c)"] w0 assms(1) by (auto simp: counter_inv_def)
  then show ?thesis
    using assms(1) add tot bnd s new flat_map_put_keys [of a "ucast ?s :: weight" "account_auths (vc_auth c)"]
      auth_total_put [OF new, of "ucast ?s"]
    unfolding eff counter_inv_def add_account_authority_def by (auto simp: False)
qed


lemma counter_fold:
  assumes "counter_inv v0 n who c" and "distinct (map fst xs)" and "fst ` set xs \<inter> who = {}"
    and "\<forall>x \<in> set xs. unat (snd x) \<le> v0" and "n + length xs \<le> 65536"
  shows "counter_inv v0 (n + length xs) (who \<union> fst ` set xs) (fold (\<lambda>(who, vs). vote_counter_add who vs) xs c) \<and>
    unat (total_votes c) \<le> unat (total_votes (fold (\<lambda>(who, vs). vote_counter_add who vs) xs c))"
  using assms
proof (induction xs arbitrary: n who c)
  case (Cons x xs)
  obtain a v where x: "x = (a, v)" by (cases x)
  have step: "counter_inv v0 (Suc n) (insert a who) (vote_counter_add a v c) \<and>
      unat (total_votes c) + (if v = 0 then 0 else 1) \<le> unat (total_votes (vote_counter_add a v c))"
    by (rule counter_add [OF Cons.prems(1)]) (use Cons.prems(3,4,5) x in auto)
  have "counter_inv v0 (Suc n + length xs) (insert a who \<union> fst ` set xs) (fold (\<lambda>(who, vs). vote_counter_add who vs) xs (vote_counter_add a v c)) \<and>
      unat (total_votes (vote_counter_add a v c)) \<le> unat (total_votes (fold (\<lambda>(who, vs). vote_counter_add who vs) xs (vote_counter_add a v c)))"
    by (rule Cons.IH [OF step [THEN conjunct1]]) (use Cons.prems(2-5) x in auto)
  then show ?case using step x by (auto split: if_splits)
qed simp

lemma counter_first:
  assumes "v \<noteq> 0"
  shows "counter_inv (unat v) 1 {a} (vote_counter_add a v new_vote_counter) \<and>
    1 \<le> unat (total_votes (vote_counter_add a v new_vote_counter))"
proof -
  let ?c = "new_vote_counter\<lparr>bitshift := int (find_msb (unat v) - 15)\<rparr>"
  have "counter_inv (unat v) 0 {} ?c"
    by (simp add: counter_inv_def new_vote_counter_def auth_total_def)
  from counter_add [OF this, of v a] assms have "counter_inv (unat v) 1 {a} (vote_counter_add a v ?c) \<and>
      1 \<le> unat (total_votes (vote_counter_add a v ?c))" by simp
  moreover have "vote_counter_add a v ?c = vote_counter_add a v new_vote_counter"
  proof -
    have "max (int (find_msb (unat v)) - 15) 0 = int (find_msb (unat v) - 15)" by linarith
    then show ?thesis using assms by (simp add: vote_counter_add_def new_vote_counter_def Let_def)
  qed
  ultimately show ?thesis by simp
qed

lemma disjoint_weights: "A \<inter> B = {} \<Longrightarrow> key_weight A as + key_weight B as \<le> auth_total as"
  by (induction as) (auto simp: auth_total_def)

lemma fold_weights: "fold (\<lambda>x s. s + ucast (snd x)) as (t :: 64 word) = t + word_of_nat (auth_total as)"
proof (induction as arbitrary: t)
  case (Cons a as)
  have "(ucast (snd a) :: 64 word) = word_of_nat (unat (snd a))" by (simp add: word_unat_eq_iff unsigned_ucast_eq unsigned_of_nat)
  then show ?case using Cons by (simp add: auth_total_def add.assoc)
qed (simp add: auth_total_def)

lemma count_votes_inv:
  assumes "sorted_wrt (\<lambda>x y. snd y \<le> snd x) xs" and "distinct (map fst xs)" and "length xs \<le> 65536"
    and "xs \<noteq> []" and "snd (hd xs) \<noteq> 0"
  shows "counter_inv (unat (snd (hd xs))) (length xs) (fst ` set xs) (count_votes xs) \<and> 1 \<le> unat (total_votes (count_votes xs))"
proof -
  obtain k v ys where xs: "xs = (k, v) # ys" using assms(4) by (cases xs) auto
  have v: "v \<noteq> 0" using assms(5) by (simp add: xs)
  have "counter_inv (unat v) (1 + length ys) ({k} \<union> fst ` set ys) (count_votes xs) \<and>
      unat (total_votes (vote_counter_add k v new_vote_counter)) \<le> unat (total_votes (count_votes xs))"
    unfolding count_votes_def xs using assms(1,2,3)
    by (simp only: fold_simps case_prod_conv, intro counter_fold [OF counter_first [OF v, THEN conjunct1]])
      (auto simp: xs word_le_nat_alt)
  then show ?thesis using counter_first [OF v, of k] by (auto simp: xs)
qed

lemma half_plus_one:
  fixes t :: "64 word" and n :: nat
  assumes "unat t = n" and "n < 2 ^ 32"
  shows "unat (drop_bit 1 (ucast t) + 1 :: 32 word) = n div 2 + 1"
proof -
  have "unat (ucast t :: 32 word) = n" using assms by (simp add: unsigned_ucast_eq take_bit_eq_mod)
  then have half: "unat (drop_bit 1 (ucast t) :: 32 word) = n div 2" unfolding unat_drop_bit by simp
  have "n div 2 \<le> 2 ^ 32 div 2" using assms(2) by (intro div_le_mono) simp
  then have "n div 2 + 1 < 2 ^ 32" by simp
  then show ?thesis using half unat_add_lem [of "drop_bit 1 (ucast t) :: 32 word" 1] by simp
qed

text \<open>Counting at most 65536 distinct voters in descending order of their tallies never overflows the 16-bit
  weights or the 32-bit total: the finished authority weighs each voter with tally by its scaled tally, its threshold
  is one more than half the total weight, which the weights can reach, and no two disjoint sets of voters
  both reach it.\<close>

theorem counted_votes_majority:
  fixes out :: authority
  assumes "sorted_wrt (\<lambda>x y. snd y \<le> snd x) xs" and "distinct (map fst xs)" and "length xs \<le> 65536"
    and "xs \<noteq> []" and "snd (hd xs) \<noteq> 0"
  defines "a \<equiv> vote_counter_finish out (count_votes xs)"
  shows "unat (weight_threshold a) = auth_total (account_auths a) div 2 + 1 \<and> \<not> is_impossible a \<and>
    auth_total (account_auths a) \<le> length xs * 65535 \<and> (\<forall>(k, w) \<in> set (account_auths a). k \<in> fst ` set xs \<and> w \<noteq> 0) \<and>
    (\<forall>A B. A \<inter> B = {} \<longrightarrow> \<not> (authority_met {} A a \<and> authority_met {} B a))"
proof -
  let ?c = "count_votes xs"
  let ?as = "account_auths (vc_auth ?c)"
  note c = count_votes_inv [OF assms(1-5)]
  have T: "unat (total_votes ?c) = auth_total ?as" "auth_total ?as \<le> length xs * 65535"
    and as: "key_auths (vc_auth ?c) = []" "fst ` set ?as \<subseteq> fst ` set xs" "\<forall>(a, w) \<in> set ?as. w \<noteq> 0"
    using c by (auto simp: counter_inv_def)
  have "length xs * 65535 \<le> 65536 * 65535" by (rule mult_right_mono [OF assms(3)]) simp
  then have T32: "auth_total ?as < 2 ^ 32" using T(2) by simp
  have a: "a = (vc_auth ?c)\<lparr>weight_threshold := drop_bit 1 (ucast (total_votes ?c)) + 1\<rparr>"
    using c by (auto simp: a_def vote_counter_finish_def Let_def)
  then have thr: "unat (weight_threshold a) = auth_total ?as div 2 + 1" using half_plus_one [OF T(1) T32] by simp
  have "unat (word_of_nat (auth_total ?as) :: 64 word) = auth_total ?as" using T32 by (simp add: unsigned_of_nat take_bit_nat_eq_self)
  moreover have "unat (ucast (weight_threshold a) :: 64 word) = unat (weight_threshold a)"
    using unsigned_less [where ?'a = nat, of "weight_threshold a"] by (simp add: unsigned_ucast_eq take_bit_nat_eq_self)
  ultimately have possible: "\<not> is_impossible a"
    using thr c [THEN conjunct2] T(1) by (simp add: is_impossible_def fold_weights word_less_nat_alt) (simp add: a as(1) fold_weights word_less_nat_alt auth_total_def [of "[]"])
  note disj = disjoint_weights [of _ _ ?as]
  have "\<not> (authority_met {} A a \<and> authority_met {} B a)" if "A \<inter> B = {}" for A B
    using disj [OF that] thr as(1) by (auto simp: authority_met_def authority_weight_def a)
  moreover have "\<forall>(k, w) \<in> set ?as. k \<in> fst ` set xs \<and> w \<noteq> 0" using as(2,3) by force
  moreover have "account_auths a = ?as" by (simp add: a)
  ultimately show ?thesis using thr possible T(2) by simp
qed

theorem counted_votes_majority_witness:
  "\<not> is_impossible (vote_counter_finish null_authority (count_votes [(10, 1000000), (11, 300000), (12, 5)]))"
  using counted_votes_majority [of "[(10, 1000000), (11, 300000), (12, 5)]" null_authority] by simp

end
