(* ===== verification/Tables.thy ===== *)
theory Tables
  imports Prelude
begin

text \<open>
  A typed index of the database as a table: the objects by instance number in order of creation,
  and the next number.  Creating or modifying an object fails when it clashes with another under one
  of the unique keys of the index; the key of a table is the \<open>clash\<close> argument of its operations.
  The undo sessions of the indexes are those of the object database (theory \<open>Undo_Database\<close>).

  The locale \<open>unique_index\<close> is what the rest of the development relies on: with a symmetric clash
  relation every operation keeps the table well formed and its keys unique.
\<close>

section \<open>Operations\<close>

record 'a table =
  rows :: "(nat \<times> 'a) list"
  next_instance :: nat

definition tbl_find :: "nat \<Rightarrow> 'a table \<Rightarrow> 'a option" where
  "tbl_find i t = map_of (rows t) i"

definition tbl_get :: "nat \<Rightarrow> 'a table \<Rightarrow> 'a res" where
  "tbl_get i t = of_option Assert_Exception (tbl_find i t)"

definition tbl_create :: "('a \<Rightarrow> 'a \<Rightarrow> bool) \<Rightarrow> 'a \<Rightarrow> 'a table \<Rightarrow> (nat \<times> 'a table) res" where
  "tbl_create clash v t =
     (if \<exists>(j, w) \<in> set (rows t). clash v w then Inl Assert_Exception
      else Inr (next_instance t, \<lparr>rows = rows t @ [(next_instance t, v)], next_instance = next_instance t + 1\<rparr>))"

definition tbl_modify :: "('a \<Rightarrow> 'a \<Rightarrow> bool) \<Rightarrow> nat \<Rightarrow> ('a \<Rightarrow> 'a res) \<Rightarrow> 'a table \<Rightarrow> 'a table res" where
  "tbl_modify clash i f t =
     res_bind (tbl_get i t) (\<lambda>v. res_bind (f v) (\<lambda>v'.
       if \<exists>(j, w) \<in> set (rows t). j \<noteq> i \<and> clash v' w then Inl Assert_Exception
       else Inr (t\<lparr>rows := map (\<lambda>(j, w). (j, if j = i then v' else w)) (rows t)\<rparr>)))"

definition tbl_remove :: "nat \<Rightarrow> 'a table \<Rightarrow> 'a table res" where
  "tbl_remove i t = res_bind (tbl_get i t) (\<lambda>_. Inr (t\<lparr>rows := filter (\<lambda>(j, w). j \<noteq> i) (rows t)\<rparr>))"

definition tbl_ok :: "'a table \<Rightarrow> bool" where
  "tbl_ok t \<longleftrightarrow> distinct (map fst (rows t)) \<and> (\<forall>i \<in> fst ` set (rows t). i < next_instance t)"

definition tbl_sum :: "('a \<Rightarrow> int) \<Rightarrow> 'a table \<Rightarrow> int" where
  "tbl_sum g t = sum_list (map (\<lambda>(i, v). g v) (rows t))"

definition index_ok :: "('a \<Rightarrow> 'a \<Rightarrow> bool) \<Rightarrow> 'a table \<Rightarrow> bool" where
  \<comment> \<open>well formed, and no two objects clash\<close>
  "index_ok clash t \<longleftrightarrow> tbl_ok t \<and> (\<forall>(i, v) \<in> set (rows t). \<forall>(j, w) \<in> set (rows t). i \<noteq> j \<longrightarrow> \<not> clash v w)"

abbreviation no_clash :: "'a \<Rightarrow> 'a \<Rightarrow> bool" where
  "no_clash v w \<equiv> False"

section \<open>Sums over tables\<close>

lemma tbl_createD:
  assumes "tbl_create clash v t = Inr (i, t')"
  shows "i = next_instance t" and "rows t' = rows t @ [(i, v)]" and "next_instance t' = next_instance t + 1"
    and "\<forall>(j, w) \<in> set (rows t). \<not> clash v w"
  using assms by (auto simp: tbl_create_def split: if_splits)

lemma tbl_modifyD:
  assumes "tbl_modify clash i f t = Inr t'"
  obtains v v' where "tbl_find i t = Some v" and "f v = Inr v'"
    and "t' = t\<lparr>rows := map (\<lambda>(j, w). (j, if j = i then v' else w)) (rows t)\<rparr>"
  using assms by (auto simp: tbl_modify_def tbl_get_def res_simps split: if_splits)

lemma tbl_create_ok: "tbl_ok t \<Longrightarrow> tbl_create clash v t = Inr (i, t') \<Longrightarrow> tbl_ok t'"
  by (frule tbl_createD(1), frule tbl_createD(2), frule tbl_createD(3)) (auto simp: tbl_ok_def less_Suc_eq)

lemma map_fst_replace: "map fst (map (\<lambda>(j, w). (j, if j = i then v else w)) xs) = map fst xs"
  by (induction xs) auto

lemma tbl_modify_ok:
  assumes "tbl_modify clash i f t = Inr t'" and "tbl_ok t"
  shows "tbl_ok t'"
proof -
  obtain v' where t': "t' = t\<lparr>rows := map (\<lambda>(j, w). (j, if j = i then v' else w)) (rows t)\<rparr>"
    using assms(1) by (rule tbl_modifyD)
  have "map fst (rows t') = map fst (rows t)" by (simp add: t' map_fst_replace del: map_map)
  moreover have "fst ` set (rows t') = fst ` set (rows t)" using calculation by (metis list.set_map)
  moreover have "next_instance t' = next_instance t" by (simp add: t')
  ultimately show ?thesis using assms(2) unfolding tbl_ok_def by metis
qed

lemma tbl_sum_create: "tbl_create clash v t = Inr (i, t') \<Longrightarrow> tbl_sum g t' = tbl_sum g t + g v"
  by (frule tbl_createD(2)) (simp add: tbl_sum_def)

lemma tbl_sum_modify:
  assumes "tbl_modify clash i f t = Inr t'" and "tbl_ok t" and "tbl_find i t = Some v" and "f v = Inr v'"
  shows "tbl_sum g t' = tbl_sum g t + (g v' - g v)"
proof -
  obtain u u' where u: "tbl_find i t = Some u" "f u = Inr u'"
    and "t' = t\<lparr>rows := map (\<lambda>(j, w). (j, if j = i then u' else w)) (rows t)\<rparr>"
    using assms(1) by (rule tbl_modifyD)
  then have t': "t' = t\<lparr>rows := map (\<lambda>(j, w). (j, if j = i then v' else w)) (rows t)\<rparr>" using assms(3,4) by auto
  have "sum_list (map (\<lambda>(i, v). g v) (map (\<lambda>(j, w). (j, if j = i then v' else w)) xs)) =
      sum_list (map (\<lambda>(i, v). g v) xs) + (case map_of xs i of None \<Rightarrow> 0 | Some v \<Rightarrow> g v' - g v)"
    if "distinct (map fst xs)" for xs :: "(nat \<times> 'a) list"
    using that
  proof (induction xs)
    case (Cons x xs)
    obtain j w where x: "x = (j, w)" by (cases x)
    have "map_of xs j = None" using Cons.prems x by (simp add: map_of_eq_None_iff)
    then show ?case using Cons x by (auto split: option.splits)
  qed simp
  then show ?thesis using assms(2,3) by (simp add: tbl_sum_def t' tbl_ok_def tbl_find_def)
qed

lemma tbl_removeD:
  assumes "tbl_remove i t = Inr t'"
  obtains v where "tbl_find i t = Some v" and "t' = t\<lparr>rows := filter (\<lambda>(j, w). j \<noteq> i) (rows t)\<rparr>"
  using assms by (auto simp: tbl_remove_def tbl_get_def res_simps)

lemma tbl_remove_ok: "tbl_ok t \<Longrightarrow> tbl_remove i t = Inr t' \<Longrightarrow> tbl_ok t'"
proof -
  assume ok: "tbl_ok t" and "tbl_remove i t = Inr t'"
  then have t': "t' = t\<lparr>rows := filter (\<lambda>(j, w). j \<noteq> i) (rows t)\<rparr>" by (auto elim: tbl_removeD)
  have "map fst (filter (\<lambda>(j, w). j \<noteq> i) xs) = filter (\<lambda>j. j \<noteq> i) (map fst xs)" for xs :: "(nat \<times> 'a) list"
    by (induction xs) auto
  then show "tbl_ok t'" using ok by (auto simp: t' tbl_ok_def)
qed

lemma tbl_find_iff: "tbl_ok t \<Longrightarrow> tbl_find i t = Some v \<longleftrightarrow> (i, v) \<in> set (rows t)"
  by (simp add: tbl_find_def tbl_ok_def)

lemma tbl_find_create: "tbl_ok t \<Longrightarrow> tbl_create clash v t = Inr (i, t') \<Longrightarrow> tbl_find j t' = (if j = i then Some v else tbl_find j t)"
  and tbl_find_new: "tbl_ok t \<Longrightarrow> tbl_create clash v t = Inr (i, t') \<Longrightarrow> tbl_find i t = None"
proof -
  assume ok: "tbl_ok t" and cr: "tbl_create clash v t = Inr (i, t')"
  have i: "i = next_instance t" and r: "rows t' = rows t @ [(i, v)]" using tbl_createD [OF cr] by auto
  show none: "tbl_find i t = None" using ok by (auto simp: tbl_find_def tbl_ok_def map_of_eq_None_iff i)
  show "tbl_find j t' = (if j = i then Some v else tbl_find j t)"
    using none by (auto simp: tbl_find_def r map_add_def split: option.splits)
qed

lemma tbl_find_modify:
  assumes "tbl_modify clash i f t = Inr t'" and "tbl_find i t = Some v" and "f v = Inr v'"
  shows "tbl_find j t' = (if j = i then Some v' else tbl_find j t)"
proof -
  obtain u u' where u: "tbl_find i t = Some u" "f u = Inr u'"
    and "t' = t\<lparr>rows := map (\<lambda>(j, w). (j, if j = i then u' else w)) (rows t)\<rparr>"
    using assms(1) by (rule tbl_modifyD)
  then have t': "t' = t\<lparr>rows := map (\<lambda>(j, w). (j, if j = i then v' else w)) (rows t)\<rparr>" using assms(2,3) by auto
  show ?thesis
    using assms(2) map_of_map_entry [of i "\<lambda>_. v'" "rows t"] by (simp add: t' tbl_find_def)
qed

lemma tbl_find_remove: "tbl_remove i t = Inr t' \<Longrightarrow> tbl_find j t' = (if j = i then None else tbl_find j t)"
  by (auto elim!: tbl_removeD simp: tbl_find_def map_of_filter_key)

section \<open>Unique keys\<close>

lemma index_okI:
  "tbl_ok t \<Longrightarrow> (\<And>i v j w. (i, v) \<in> set (rows t) \<Longrightarrow> (j, w) \<in> set (rows t) \<Longrightarrow> i \<noteq> j \<Longrightarrow> \<not> clash v w) \<Longrightarrow> index_ok clash t"
  by (auto simp: index_ok_def)

lemma index_okD:
  "index_ok clash t \<Longrightarrow> tbl_ok t"
  "index_ok clash t \<Longrightarrow> (i, v) \<in> set (rows t) \<Longrightarrow> (j, w) \<in> set (rows t) \<Longrightarrow> i \<noteq> j \<Longrightarrow> \<not> clash v w"
  by (auto simp: index_ok_def)

locale unique_index =
  fixes clash :: "'a \<Rightarrow> 'a \<Rightarrow> bool"
  assumes clash_sym: "clash v w \<Longrightarrow> clash w v"
begin

lemma create_keeps:
  assumes "index_ok clash t" and "tbl_create clash v t = Inr (i, t')"
  shows "index_ok clash t'"
proof (rule index_okI)
  show "tbl_ok t'" by (rule tbl_create_ok [OF index_okD(1) [OF assms(1)] assms(2)])
next
  have new: "\<not> clash v w \<and> \<not> clash w v" if "(j, w) \<in> set (rows t)" for j w
    using bspec [OF tbl_createD(4) [OF assms(2)] that] clash_sym [of w v] by auto
  fix j x k y assume in1: "(j, x) \<in> set (rows t')" and in2: "(k, y) \<in> set (rows t')" and "j \<noteq> k"
  have split: "(j, x) \<in> set (rows t) \<or> j = i \<and> x = v" "(k, y) \<in> set (rows t) \<or> k = i \<and> y = v"
    using in1 in2 by (auto simp: tbl_createD(2) [OF assms(2)])
  show "\<not> clash x y"
    using split \<open>j \<noteq> k\<close> new [of j x] new [of k y] index_okD(2) [OF assms(1), of j x k y] by blast
qed

lemma modify_keeps:
  assumes "index_ok clash t" and "tbl_modify clash i f t = Inr t'"
  shows "index_ok clash t'"
proof -
  obtain v v' where v: "tbl_find i t = Some v" "f v = Inr v'"
    and t': "t' = t\<lparr>rows := map (\<lambda>(j, w). (j, if j = i then v' else w)) (rows t)\<rparr>"
    using assms(2) by (rule tbl_modifyD)
  have "\<not> clash v' w" if "(j, w) \<in> set (rows t)" "j \<noteq> i" for j w
    using assms(2) v that by (auto simp: tbl_modify_def tbl_get_def split: if_splits)
  then have new: "\<not> clash v' w \<and> \<not> clash w v'" if "(j, w) \<in> set (rows t)" "j \<noteq> i" for j w
    using that clash_sym [of w v'] by blast
  show ?thesis
  proof (rule index_okI)
    show "tbl_ok t'" by (rule tbl_modify_ok [OF assms(2) index_okD(1) [OF assms(1)]])
  next
    fix j x k y assume "(j, x) \<in> set (rows t')" "(k, y) \<in> set (rows t')" "j \<noteq> k"
    then show "\<not> clash x y"
      using new index_okD(2) [OF assms(1)] by (auto simp: t' split: if_splits)
  qed
qed

lemma remove_keeps:
  assumes "index_ok clash t" and "tbl_remove i t = Inr t'"
  shows "index_ok clash t'"
proof (rule index_okI)
  show "tbl_ok t'" by (rule tbl_remove_ok [OF index_okD(1) [OF assms(1)] assms(2)])
next
  fix j x k y assume "(j, x) \<in> set (rows t')" "(k, y) \<in> set (rows t')" "j \<noteq> k"
  then show "\<not> clash x y" using assms(2) index_okD(2) [OF assms(1)] by (auto elim!: tbl_removeD)
qed

lemma same_key: "index_ok clash t \<Longrightarrow> tbl_find i t = Some v \<Longrightarrow> tbl_find j t = Some w \<Longrightarrow> clash v w \<Longrightarrow> i = j"
  by (auto simp: index_ok_def tbl_find_iff)

end

interpretation plain: unique_index no_clash
  by unfold_locales simp

end
