(* ===== verification/Fees.thy ===== *)
theory Fees
  imports Vesting
begin

text \<open>
  Fee parameters, the fee schedule and the chain parameters
  (\<open>protocol/fee_schedule.hpp\<close>, \<open>protocol/fee_schedule.cpp\<close>, \<open>protocol/chain_parameters.hpp\<close>,
  \<open>base_operation::calculate_data_fee\<close>).

  A fee parameter struct has a fee and, for some operations, a price per kilobyte or per output;
  the static variant of them is the tag of the operation with these two numbers, and the flat set
  of variants, ordered by tag alone, is a list sorted by tag.  Sums and products of the built-in
  unsigned integers are on words.  The conversion of a 64-bit word to \<open>share_type\<close> and the size of
  a packed operation are parameters.
\<close>

section \<open>Constants\<close>

definition GRAPHENE_BLOCKCHAIN_PRECISION :: nat where "GRAPHENE_BLOCKCHAIN_PRECISION = 100000000"
definition GRAPHENE_MIN_TRANSACTION_SIZE_LIMIT :: nat where "GRAPHENE_MIN_TRANSACTION_SIZE_LIMIT = 1024"
definition GRAPHENE_MIN_BLOCK_INTERVAL :: nat where "GRAPHENE_MIN_BLOCK_INTERVAL = 1"
definition GRAPHENE_MAX_BLOCK_INTERVAL :: nat where "GRAPHENE_MAX_BLOCK_INTERVAL = 30"
definition GRAPHENE_MIN_BLOCK_SIZE_LIMIT :: nat where
  "GRAPHENE_MIN_BLOCK_SIZE_LIMIT = GRAPHENE_MIN_TRANSACTION_SIZE_LIMIT * 5"
definition GRAPHENE_100_PERCENT :: int where "GRAPHENE_100_PERCENT = 10000"
definition GRAPHENE_MAX_URL_LENGTH :: nat where "GRAPHENE_MAX_URL_LENGTH = 127"

section \<open>Schedules\<close>

record fee_parameters =
  fp_which :: nat
  fp_fee :: "64 word"
  fp_price :: "32 word"

record fee_schedule =
  fs_parameters :: "fee_parameters list"
  fs_scale :: "32 word"

record chain_parameters =
  current_fees :: fee_schedule
  block_interval :: "8 word"
  maintenance_interval :: "32 word"
  maintenance_skip_slots :: "8 word"
  miner_proposal_review_period :: "32 word"
  maximum_transaction_size :: "32 word"
  maximum_block_size :: "32 word"
  maximum_time_until_expiration :: "32 word"
  maximum_proposal_lifetime :: "32 word"
  maximum_asset_feed_publishers :: "8 word"
  maximum_miner_count :: "16 word"
  maximum_authority_membership :: "16 word"
  cashback_vesting_period_seconds :: "32 word"
  cashback_vesting_threshold :: int
  miner_pay_vesting_seconds :: "32 word"
  max_predicate_opcode :: "16 word"
  max_authority_depth :: "8 word"
  freeze_transfers_after_block :: "64 word"

definition validate_parameters :: "chain_parameters \<Rightarrow> unit res" where
  \<comment> \<open>\<open>chain_parameters::validate\<close>; the fees have nothing to check\<close>
  "validate_parameters p =
     res_bind (fc_assert (unat (block_interval p) \<ge> GRAPHENE_MIN_BLOCK_INTERVAL)) (\<lambda>_.
     res_bind (fc_assert (unat (block_interval p) \<le> GRAPHENE_MAX_BLOCK_INTERVAL)) (\<lambda>_.
     res_bind (fc_assert (block_interval p > 0)) (\<lambda>_.
     res_bind (fc_assert (maintenance_interval p > ucast (block_interval p))) (\<lambda>_.
     res_bind (fc_assert (maintenance_interval p mod ucast (block_interval p) = 0)) (\<lambda>_.
     res_bind (fc_assert (unat (maximum_transaction_size p) \<ge> GRAPHENE_MIN_TRANSACTION_SIZE_LIMIT)) (\<lambda>_.
     res_bind (fc_assert (unat (maximum_block_size p) \<ge> GRAPHENE_MIN_BLOCK_SIZE_LIMIT)) (\<lambda>_.
     res_bind (fc_assert (maximum_time_until_expiration p > ucast (block_interval p))) (\<lambda>_.
     fc_assert (maximum_proposal_lifetime p - miner_proposal_review_period p > ucast (block_interval p))))))))))"

section \<open>Scaling a fee\<close>

definition calculate_data_fee :: "num_ops \<Rightarrow> nat \<Rightarrow> 64 word \<Rightarrow> 64 word res" where
  "calculate_data_fee ops bytes price_per_kbyte =
     (let result = wide ops (wide ops (int bytes) * uint price_per_kbyte) div 1024
      in res_bind (fc_assert (result \<le> GRAPHENE_MAX_SHARE_SUPPLY)) (\<lambda>_.
         res_bind (low ops result) (\<lambda>r. Inr (word_of_int r))))"

definition scaled_fee :: "num_ops \<Rightarrow> 64 word \<Rightarrow> 32 word \<Rightarrow> int res" where
  "scaled_fee ops base_value scale =
     (let scaled = wide ops (wide ops (uint base_value) * uint scale) div GRAPHENE_100_PERCENT
      in res_bind (fc_assert (scaled \<le> GRAPHENE_MAX_SHARE_SUPPLY)) (\<lambda>_. low ops scaled))"

definition covers :: "num_ops \<Rightarrow> price \<Rightarrow> int \<Rightarrow> asset \<Rightarrow> bool res" where
  \<comment> \<open>not \<open>result * core_exchange_rate < asset(scaled)\<close>\<close>
  "covers ops rate scaled result =
     res_bind (asset_times_price (wide ops) result rate) (\<lambda>back.
     res_bind (asset_less back \<lparr>amount = scaled, asset_id = 0\<rparr>) (\<lambda>b. Inr (\<not> b)))"

partial_function (option) raise_fee :: "num_ops \<Rightarrow> price \<Rightarrow> int \<Rightarrow> asset \<Rightarrow> asset res option" where
  \<comment> \<open>the loop that increments the result until it covers the fee; \<^const>\<open>None\<close> if it never ends\<close>
  "raise_fee ops rate scaled result =
     (if covers ops rate scaled result = Inr False
      then if is_ok (safe ops (amount result + 1))
           then raise_fee ops rate scaled (result\<lparr>amount := projr (safe ops (amount result + 1))\<rparr>)
           else Some (res_bind (safe ops (amount result + 1)) (\<lambda>_. Inr result))
      else Some (res_bind (covers ops rate scaled result) (\<lambda>_. Inr result)))"

declare raise_fee.simps [code]

definition fee_in_asset :: "num_ops \<Rightarrow> price \<Rightarrow> int \<Rightarrow> asset res option" where
  "fee_in_asset ops rate scaled =
     (case asset_times_price (wide ops) \<lparr>amount = scaled, asset_id = 0\<rparr> rate of
        Inl e \<Rightarrow> Some (Inl e)
      | Inr result \<Rightarrow>
          (case raise_fee ops rate scaled result of
             None \<Rightarrow> None
           | Some r \<Rightarrow> Some (res_bind r (\<lambda>f. res_bind (fc_assert (amount f \<le> GRAPHENE_MAX_SHARE_SUPPLY)) (\<lambda>_. Inr f)))))"

section \<open>What the conversion returns\<close>

definition core_sides :: "price \<Rightarrow> int \<Rightarrow> int \<Rightarrow> asset_id \<Rightarrow> bool" where
  \<comment> \<open>a valid price of \<open>p\<close> of the core asset for \<open>q\<close> of the asset \<open>a\<close>, in either order\<close>
  "core_sides rate p q a \<longleftrightarrow> valid_price rate \<and>
     (rate = \<lparr>base = \<lparr>amount = p, asset_id = 0\<rparr>, quote = \<lparr>amount = q, asset_id = a\<rparr>\<rparr> \<or>
      rate = \<lparr>base = \<lparr>amount = q, asset_id = a\<rparr>, quote = \<lparr>amount = p, asset_id = 0\<rparr>\<rparr>)"

lemma core_sidesD:
  "core_sides rate p q a \<Longrightarrow> 0 < p \<and> p < 2 ^ 63 \<and> 0 < q \<and> q < 2 ^ 63 \<and> a \<noteq> 0"
  by (auto simp: core_sides_def dest!: valid_priceD simp: amount64_def)

lemma core_sides_convert:
  assumes "num_ops_ok ops" and "core_sides rate p q a" and "0 \<le> x" and "x < 2 ^ 63"
  shows "asset_times_price (wide ops) \<lparr>amount = x, asset_id = 0\<rparr> rate =
      (if x * q div p \<le> GRAPHENE_MAX_SHARE_SUPPLY then Inr \<lparr>amount = x * q div p, asset_id = a\<rparr> else Inl Assert_Exception)"
    and "asset_times_price (wide ops) \<lparr>amount = x, asset_id = a\<rparr> rate =
      (if x * p div q \<le> GRAPHENE_MAX_SHARE_SUPPLY then Inr \<lparr>amount = x * p div q, asset_id = 0\<rparr> else Inl Assert_Exception)"
proof -
  note d = core_sidesD [OF assms(2)]
  have w: "wide ops (wide ops x * q) = x * q" "wide ops (wide ops x * p) = x * p"
    using d assms(3,4) by (auto intro!: wide_product [OF num_ops_okD(2) [OF assms(1)]])
  show "asset_times_price (wide ops) \<lparr>amount = x, asset_id = 0\<rparr> rate =
      (if x * q div p \<le> GRAPHENE_MAX_SHARE_SUPPLY then Inr \<lparr>amount = x * q div p, asset_id = a\<rparr> else Inl Assert_Exception)"
    and "asset_times_price (wide ops) \<lparr>amount = x, asset_id = a\<rparr> rate =
      (if x * p div q \<le> GRAPHENE_MAX_SHARE_SUPPLY then Inr \<lparr>amount = x * p div q, asset_id = 0\<rparr> else Inl Assert_Exception)"
    using assms(2) d w by (auto simp: core_sides_def asset_times_price_def Let_def)
qed

lemma covers_core_sides:
  assumes "num_ops_ok ops" and "core_sides rate p q a" and "0 \<le> x" and "x < 2 ^ 63"
  shows "covers ops rate s \<lparr>amount = x, asset_id = a\<rparr> =
      (if x * p div q \<le> GRAPHENE_MAX_SHARE_SUPPLY then Inr (s \<le> x * p div q) else Inl Assert_Exception)"
  by (simp add: covers_def core_sides_convert(2) [OF assms] asset_less_def not_less)

lemma raise_fee_stops: "covers ops rate s f = Inr True \<Longrightarrow> raise_fee ops rate s f = Some (Inr f)"
  and raise_fee_fails: "covers ops rate s f = Inl e \<Longrightarrow> raise_fee ops rate s f = Some (Inl e)"
  and raise_fee_steps: "covers ops rate s f = Inr False \<Longrightarrow> safe ops (amount f + 1) = Inr n \<Longrightarrow>
    raise_fee ops rate s f = raise_fee ops rate s (f\<lparr>amount := n\<rparr>)"
  by (subst raise_fee.simps, simp)+

lemma div_less_iff: "0 < q \<Longrightarrow> x div q < y \<longleftrightarrow> x < y * (q :: int)"
proof
  assume q: "0 < q" and "x < y * q"
  show "x div q < y"
  proof (rule ccontr)
    assume "\<not> x div q < y"
    then have "y * q \<le> x div q * q" using q by (intro mult_right_mono) auto
    then show False using \<open>x < y * q\<close> div_mult_mod_eq [of x q] pos_mod_sign [OF q, of x] by linarith
  qed
next
  assume q: "0 < q" and "x div q < y"
  then have "x div q * q + q \<le> y * q" using mult_right_mono [of "x div q + 1" y q] by (simp add: distrib_right)
  then show "x < y * q" using div_mult_mod_eq [of x q] pos_mod_bound [OF q, of x] by linarith
qed

lemma floor_and_back:
  fixes p q s :: int
  assumes "0 < p" and "0 < q"
  shows "s * q div p * p div q \<le> s" and "s \<le> (s * q div p + 1) * p div q" and "n < s * q div p \<Longrightarrow> n * p div q < s"
proof -
  have lower: "s * q div p * p \<le> s * q"
    using div_mult_mod_eq [of "s * q" p] pos_mod_sign [OF assms(1), of "s * q"] by linarith
  have upper: "s * q < (s * q div p + 1) * p"
    using div_mult_mod_eq [of "s * q" p] pos_mod_bound [OF assms(1), of "s * q"] by (simp only: distrib_right mult_1)
  show "s * q div p * p div q \<le> s" using lower assms(2) zdiv_mono1 [of "s * q div p * p" "s * q" q] by simp
  show "s \<le> (s * q div p + 1) * p div q" using upper assms(2) zdiv_mono1 [of "s * q" "(s * q div p + 1) * p" q] by simp
  show "n * p div q < s" if "n < s * q div p"
  proof -
    have "(n + 1) * p \<le> s * q div p * p" using that assms(1) by (intro mult_right_mono) auto
    then have "n * p < s * q" using lower assms(1) by (simp add: algebra_simps)
    then show ?thesis using assms(2) div_less_iff [of q "n * p" s] by simp
  qed
qed

lemma fee_raised_once:
  \<comment> \<open>the floor does not cover the fee: the next amount does, if it can be converted back\<close>
  assumes "num_ops_ok ops" and "core_sides rate p q a" and "0 \<le> s" and "s \<le> GRAPHENE_MAX_SHARE_SUPPLY"
    and n: "n = s * q div p" "n \<le> GRAPHENE_MAX_SHARE_SUPPLY" and "n * p div q < s"
  shows "fee_in_asset ops rate s = Some (if (n + 1) * p div q \<le> GRAPHENE_MAX_SHARE_SUPPLY
      then res_bind (fc_assert (n + 1 \<le> GRAPHENE_MAX_SHARE_SUPPLY)) (\<lambda>_. Inr \<lparr>amount = n + 1, asset_id = a\<rparr>)
      else Inl Assert_Exception)"
    and "(n + 1) * p div q \<le> GRAPHENE_MAX_SHARE_SUPPLY \<Longrightarrow> covers ops rate s \<lparr>amount = n + 1, asset_id = a\<rparr> = Inr True"
proof -
  let ?M = GRAPHENE_MAX_SHARE_SUPPLY and ?f = "\<lambda>n. \<lparr>amount = n, asset_id = a\<rparr>"
  note d = core_sidesD [OF assms(2)]
  have M: "?M + 1 < 2 ^ 63" by (simp add: GRAPHENE_MAX_SHARE_SUPPLY_def)
  have n0: "0 \<le> n" using d assms(3) by (simp add: n pos_imp_zdiv_nonneg_iff)
  have start: "asset_times_price (wide ops) \<lparr>amount = s, asset_id = 0\<rparr> rate = Inr (?f n)"
    using core_sides_convert(1) [OF assms(1,2,3)] n assms(4) M by simp
  have sf: "safe ops (n + 1) = Inr (n + 1)"
    using n(2) n0 M by (intro safe_int_ok [OF num_ops_okD(1) [OF assms(1)]]) auto
  have "covers ops rate s (?f n) = Inr False"
    using covers_core_sides [OF assms(1,2) n0, of s] assms(4,7) n(2) M by simp
  from raise_fee_steps [OF this] sf have step: "raise_fee ops rate s (?f n) = raise_fee ops rate s (?f (n + 1))" by simp
  have enough: "s \<le> (n + 1) * p div q" using floor_and_back(2) [of p q s] d by (simp add: n)
  have c: "covers ops rate s (?f (n + 1)) = (if (n + 1) * p div q \<le> ?M then Inr True else Inl Assert_Exception)"
    using covers_core_sides [OF assms(1,2), of "n + 1" s] n0 n(2) M enough by simp
  then show "(n + 1) * p div q \<le> ?M \<Longrightarrow> covers ops rate s (?f (n + 1)) = Inr True" by simp
  show "fee_in_asset ops rate s = Some (if (n + 1) * p div q \<le> ?M
      then res_bind (fc_assert (n + 1 \<le> ?M)) (\<lambda>_. Inr (?f (n + 1))) else Inl Assert_Exception)"
    using c start step by (simp add: fee_in_asset_def raise_fee_stops raise_fee_fails)
qed

text \<open>C34: converting a core fee of at most the maximum supply at a valid price against the core asset
  always ends, whatever the ratio.  When it does not throw, the result covers the fee when converted back,
  no smaller amount does, and it does not exceed the maximum supply.\<close>

theorem fee_conversion_least:
  assumes "num_ops_ok ops" and "core_sides rate p q a" and "0 \<le> s" and "s \<le> GRAPHENE_MAX_SHARE_SUPPLY"
  shows "\<exists>r. fee_in_asset ops rate s = Some r \<and>
    (\<forall>f. r = Inr f \<longrightarrow> asset_id f = a \<and> amount f \<le> GRAPHENE_MAX_SHARE_SUPPLY \<and> covers ops rate s f = Inr True \<and>
      (\<forall>n. 0 \<le> n \<and> n < amount f \<longrightarrow> covers ops rate s \<lparr>amount = n, asset_id = a\<rparr> = Inr False))"
proof (cases "s * q div p \<le> GRAPHENE_MAX_SHARE_SUPPLY")
  case False
  then have "fee_in_asset ops rate s = Some (Inl Assert_Exception)"
    using core_sides_convert(1) [OF assms(1,2,3)] assms(4) by (simp add: fee_in_asset_def GRAPHENE_MAX_SHARE_SUPPLY_def)
  then show ?thesis by simp
next
  case True
  let ?M = GRAPHENE_MAX_SHARE_SUPPLY and ?n = "s * q div p"
  let ?f = "\<lambda>n. \<lparr>amount = n, asset_id = a\<rparr>"
  note d = core_sidesD [OF assms(2)]
  have M: "?M + 1 < 2 ^ 63" by (simp add: GRAPHENE_MAX_SHARE_SUPPLY_def)
  have n0: "0 \<le> ?n" using d assms(3) by (simp add: pos_imp_zdiv_nonneg_iff)
  have start: "asset_times_price (wide ops) \<lparr>amount = s, asset_id = 0\<rparr> rate = Inr (?f ?n)"
    using core_sides_convert(1) [OF assms(1,2,3)] True assms(4) M by simp
  have below: "n * p div q < s" if "n < ?n" for n using that d by (intro floor_and_back(3)) auto
  have small: "covers ops rate s (?f n) = Inr False" if "0 \<le> n" "n * p div q < s" "n \<le> ?M" for n
    using covers_core_sides [OF assms(1,2), of n s] that M assms(4) by simp
  show ?thesis
  proof (cases "?n * p div q < s")
    case False
    then have c: "covers ops rate s (?f ?n) = Inr True"
      using covers_core_sides [OF assms(1,2) n0, of s] floor_and_back(1) [of p q s] d True assms(4) M by simp
    then have "fee_in_asset ops rate s = Some (Inr (?f ?n))"
      using start True by (simp add: fee_in_asset_def raise_fee_stops)
    then show ?thesis using c True small below by auto
  next
    case less: True
    have "covers ops rate s (?f n) = Inr False" if "0 \<le> n" "n < ?n + 1" for n
      using small [of n] below [of n] less that True by (cases "n = ?n") auto
    then show ?thesis
      using fee_raised_once [OF assms refl True less] by (cases "?n + 1 \<le> ?M") auto
  qed
qed

theorem fee_conversion_least_witness:
  "\<exists>r. fee_in_asset plain_ops \<lparr>base = \<lparr>amount = 3, asset_id = 0\<rparr>, quote = \<lparr>amount = 2, asset_id = 5\<rparr>\<rparr> 10 = Some r"
  using fee_conversion_least [OF plain_ops_ok, of "\<lparr>base = \<lparr>amount = 3, asset_id = 0\<rparr>, quote = \<lparr>amount = 2, asset_id = 5\<rparr>\<rparr>" 3 2 5 10]
  by (auto simp: core_sides_def valid_price_def price_validate_def GRAPHENE_MAX_SHARE_SUPPLY_def)

lemma fee_in_core:
  \<comment> \<open>at the unit price, which the evaluators use, the scaled fee is the fee\<close>
  assumes "num_ops_ok ops" and "0 \<le> s" and "s \<le> GRAPHENE_MAX_SHARE_SUPPLY"
  shows "fee_in_asset ops (unit_price 0) s = Some (Inr \<lparr>amount = s, asset_id = 0\<rparr>)"
proof -
  have "asset_times_price (wide ops) \<lparr>amount = s, asset_id = 0\<rparr> (unit_price 0) = Inr \<lparr>amount = s, asset_id = 0\<rparr>"
    using assms wide_intD [OF num_ops_okD(2) [OF assms(1)], of s]
    by (simp add: asset_times_price_def unit_price_def GRAPHENE_MAX_SHARE_SUPPLY_def)
  then show ?thesis
    using assms(3) by (simp add: fee_in_asset_def raise_fee_stops covers_def asset_less_def)
qed

lemma scaled_fee_eq:
  assumes "num_ops_ok ops"
  shows "scaled_fee ops b k =
    (let s = uint b * uint k div 10000 in if s \<le> GRAPHENE_MAX_SHARE_SUPPLY then Inr s else Inl Assert_Exception)"
proof -
  note w = wide_intD [OF num_ops_okD(2) [OF assms]]
  have lt: "uint b < 2 ^ 64" "uint k < 2 ^ 32" using uint_lt2p [of b] uint_lt2p [of k] by simp_all
  have "uint b * uint k \<le> 2 ^ 64 * 2 ^ 32" using lt by (intro mult_mono) auto
  then have "wide ops (wide ops (uint b) * uint k) = uint b * uint k" using lt w by simp
  moreover have "0 \<le> uint b * uint k div 10000" by (simp add: pos_imp_zdiv_nonneg_iff)
  ultimately show ?thesis
    using num_ops_okD(3) [OF assms, of "uint b * uint k div 10000"]
    by (auto simp: scaled_fee_def Let_def GRAPHENE_100_PERCENT_def GRAPHENE_MAX_SHARE_SUPPLY_def)
qed

section \<open>Chain parameters\<close>

lemma validate_parameters_iff:
  "validate_parameters p = Inr () \<longleftrightarrow> unat (block_interval p) \<in> {1..30} \<and>
    unat (block_interval p) < unat (maintenance_interval p) \<and> unat (block_interval p) dvd unat (maintenance_interval p) \<and>
    1024 \<le> unat (maximum_transaction_size p) \<and> 5120 \<le> unat (maximum_block_size p) \<and>
    unat (block_interval p) < unat (maximum_time_until_expiration p) \<and>
    unat (block_interval p) < unat (maximum_proposal_lifetime p - miner_proposal_review_period p)"
proof -
  have u: "unat (ucast (block_interval p) :: 32 word) = unat (block_interval p)"
    using unsigned_less [where ?'a = nat, of "block_interval p"] by (simp add: unsigned_ucast_eq take_bit_nat_eq_self)
  have "block_interval p > 0 \<longleftrightarrow> 0 < unat (block_interval p)" by (simp add: word_less_nat_alt)
  moreover have "maintenance_interval p mod ucast (block_interval p) = 0 \<longleftrightarrow> unat (block_interval p) dvd unat (maintenance_interval p)"
    by (simp add: u unat_mod dvd_eq_mod_eq_0 flip: unat_eq_0)
  ultimately show ?thesis
    by (auto simp: validate_parameters_def res_bind_eq_Inr word_less_nat_alt u GRAPHENE_MIN_BLOCK_INTERVAL_def
        GRAPHENE_MAX_BLOCK_INTERVAL_def GRAPHENE_MIN_TRANSACTION_SIZE_LIMIT_def GRAPHENE_MIN_BLOCK_SIZE_LIMIT_def)
qed

lemma long_review_period_accepted:
  \<comment> \<open>a review period longer than the lifetime of a proposal: the difference wraps\<close>
  assumes "validate_parameters p = Inr ()"
  shows "validate_parameters (p\<lparr>maximum_proposal_lifetime := 1000, miner_proposal_review_period := 2000\<rparr>) = Inr ()"
  using assms by (auto simp: validate_parameters_iff)

end
