(* ===== verification/Operations.thy ===== *)
theory Operations
  imports Fees Votes Object_Id
begin

text \<open>
  The operations (\<open>protocol/*.hpp\<close>, the variant \<open>operation\<close> of \<open>protocol/operations.hpp\<close>): their
  data, validation, required authorities and fees.

  The proposed operations of a proposal are operations, so the variant is one recursive datatype
  and the operations without nesting are records.  Of the reserved operations only the number and
  the fee matter.  Extensions, and stealth memos of blind outputs, are never read by the code and
  are left out.  Commitments of 33 bytes are numbers in the order of their bytes, the null
  commitment is zero.  The elliptic curve library, the text of a public key, packing, hashing and
  recovering the signer of a transaction, the conversion of 64-bit words to \<open>share_type\<close> and the
  narrowing of instances are the record \<open>externals\<close>.
\<close>

type_synonym bytes = "8 word list"
type_synonym commitment = nat

section \<open>Data\<close>

record memo_data =
  memo_from :: public_key
  memo_to :: public_key
  memo_nonce :: "64 word"
  memo_text :: bytes

record transfer_operation =
  tf_fee :: asset
  tf_from :: account
  tf_to :: public_key
  tf_amount :: asset
  tf_memo :: "memo_data option"

record set_transfer_freeze_block_operation =
  fz_announcer :: account
  fz_block_num :: "64 word"
  fz_fee :: asset

record miner_create_operation =
  mc_fee :: asset
  mc_miner_account :: account
  mc_url :: string
  mc_block_signing_key :: public_key

record miner_update_operation =
  mu_fee :: asset
  mu_miner :: nat
  mu_miner_account :: account
  mu_new_url :: "string option"
  mu_new_signing_key :: "public_key option"

record miner_update_global_parameters_operation =
  gu_fee :: asset
  gu_new_parameters :: chain_parameters

record proposal_update_operation =
  pu_fee_paying_account :: account
  pu_fee :: asset
  pu_proposal :: nat
  active_approvals_to_add :: "account list"
  active_approvals_to_remove :: "account list"
  owner_approvals_to_add :: "account list"
  owner_approvals_to_remove :: "account list"
  key_approvals_to_add :: "public_key list"
  key_approvals_to_remove :: "public_key list"

record proposal_delete_operation =
  pd_fee_paying_account :: account
  pd_using_owner_authority :: bool
  pd_fee :: asset
  pd_proposal :: nat

datatype vesting_policy_initializer =
    Linear_Init (init_begin_timestamp: time) (init_cliff: "32 word") (init_duration: "32 word")
  | Cdd_Init (init_start_claim: time) (init_vesting_seconds: "32 word")

record vesting_balance_create_operation =
  vc_fee :: asset
  vc_creator :: account
  vc_owner :: account
  vc_amount :: asset
  vc_policy :: vesting_policy_initializer

record vesting_balance_withdraw_operation =
  vw_fee :: asset
  vw_vesting_balance :: nat
  vw_owner :: account
  vw_amount :: asset

record blind_input =
  bi_commitment :: commitment
  bi_owner :: authority

record blind_output =
  bo_commitment :: commitment
  bo_range_proof :: bytes
  bo_owner :: authority

record transfer_to_blind_operation =
  tb_fee :: asset
  tb_amount :: asset
  tb_from :: account
  tb_blinding_factor :: nat
  tb_outputs :: "blind_output list"

record transfer_from_blind_operation =
  fb_fee :: asset
  fb_amount :: asset
  fb_to :: account
  fb_blinding_factor :: nat
  fb_inputs :: "blind_input list"

record blind_transfer_operation =
  bt_fee :: asset
  bt_inputs :: "blind_input list"
  bt_outputs :: "blind_output list"

datatype confidential_tx_extension = No_Extension | Range_Proof bytes | Tx_X bytes bytes

record confidential_tx =
  ct_commitment :: commitment
  ct_tx_key :: public_key
  ct_owner :: public_key
  ct_data :: bytes
  ct_extension :: confidential_tx_extension

record transfer_to_confidential_operation =
  tc_fee :: asset
  tc_amount :: asset
  tc_from :: account
  tc_blinding_factor :: nat
  tc_outputs :: "confidential_tx list"

record transfer_from_confidential_operation =
  fc_fee :: asset
  fc_inputs :: "confidential_tx list"
  fc_to :: "public_key list"
  fc_amount :: "asset list"
  fc_blinding_factor :: nat
  fc_outputs :: "confidential_tx list"

datatype operation =
    Transfer transfer_operation
  | Account_Create account_create_operation
  | Account_Update account_update_operation
  | Miner_Create miner_create_operation
  | Miner_Update miner_update_operation
  | Miner_Update_Global_Parameters miner_update_global_parameters_operation
  | Proposal_Create (pc_fee: asset) (pc_fee_paying_account: account) (pc_proposed_ops: "operation list")
      (pc_expiration_time: time) (pc_review_period_seconds: "32 word option")
  | Proposal_Update proposal_update_operation
  | Proposal_Delete proposal_delete_operation
  | Set_Transfer_Freeze_Block set_transfer_freeze_block_operation
  | Vesting_Balance_Create vesting_balance_create_operation
  | Vesting_Balance_Withdraw vesting_balance_withdraw_operation
  | Transfer_To_Blind transfer_to_blind_operation
  | Blind_Transfer blind_transfer_operation
  | Transfer_From_Blind transfer_from_blind_operation
  | Transfer_To_Confidential transfer_to_confidential_operation
  | Transfer_From_Confidential transfer_from_confidential_operation
  | Rfu_Operation nat asset

record transaction =
  tr_ref_block_num :: "16 word"
  tr_ref_block_prefix :: "32 word"
  tr_expiration :: time
  tr_operations :: "operation list"

record signed_transaction = transaction +
  tr_signatures :: "nat list"

record externals =
  nops :: num_ops
  share_of :: "64 word \<Rightarrow> int res"
  id_instance :: "64 word \<Rightarrow> nat"
  key_name :: "public_key \<Rightarrow> string"
  pack_size :: "operation \<Rightarrow> nat"
  trx_id :: "transaction \<Rightarrow> nat"
  trx_signer :: "nat \<Rightarrow> transaction \<Rightarrow> public_key"
  ec_blind :: "nat \<Rightarrow> int \<Rightarrow> commitment"
  ec_blind_unit :: "nat \<Rightarrow> 64 word \<Rightarrow> int \<Rightarrow> commitment"
  ec_verify_sum :: "commitment list \<Rightarrow> commitment list \<Rightarrow> int \<Rightarrow> bool"
  ec_range_max :: "bytes \<Rightarrow> int res"

fun op_which :: "operation \<Rightarrow> nat" where
  "op_which (Transfer _) = 0"
| "op_which (Account_Create _) = 1"
| "op_which (Account_Update _) = 2"
| "op_which (Miner_Create _) = 3"
| "op_which (Miner_Update _) = 4"
| "op_which (Miner_Update_Global_Parameters _) = 5"
| "op_which (Proposal_Create _ _ _ _ _) = 6"
| "op_which (Proposal_Update _) = 7"
| "op_which (Proposal_Delete _) = 8"
| "op_which (Set_Transfer_Freeze_Block _) = 9"
| "op_which (Vesting_Balance_Create _) = 10"
| "op_which (Vesting_Balance_Withdraw _) = 11"
| "op_which (Transfer_To_Blind _) = 12"
| "op_which (Blind_Transfer _) = 13"
| "op_which (Transfer_From_Blind _) = 14"
| "op_which (Transfer_To_Confidential _) = 15"
| "op_which (Transfer_From_Confidential _) = 16"
| "op_which (Rfu_Operation n _) = n + 11"

fun op_fee :: "operation \<Rightarrow> asset" where
  "op_fee (Transfer o') = tf_fee o'"
| "op_fee (Account_Create o') = ac_fee o'"
| "op_fee (Account_Update o') = au_fee o'"
| "op_fee (Miner_Create o') = mc_fee o'"
| "op_fee (Miner_Update o') = mu_fee o'"
| "op_fee (Miner_Update_Global_Parameters o') = gu_fee o'"
| "op_fee (Proposal_Create f _ _ _ _) = f"
| "op_fee (Proposal_Update o') = pu_fee o'"
| "op_fee (Proposal_Delete o') = pd_fee o'"
| "op_fee (Set_Transfer_Freeze_Block o') = fz_fee o'"
| "op_fee (Vesting_Balance_Create o') = vc_fee o'"
| "op_fee (Vesting_Balance_Withdraw o') = vw_fee o'"
| "op_fee (Transfer_To_Blind o') = tb_fee o'"
| "op_fee (Blind_Transfer o') = bt_fee o'"
| "op_fee (Transfer_From_Blind o') = fb_fee o'"
| "op_fee (Transfer_To_Confidential o') = tc_fee o'"
| "op_fee (Transfer_From_Confidential o') = fc_fee o'"
| "op_fee (Rfu_Operation _ f) = f"

section \<open>Validation\<close>

definition int64_add :: "int \<Rightarrow> int \<Rightarrow> int res" where
  \<comment> \<open>a sum of built-in 64-bit integers, undefined when it overflows\<close>
  "int64_add a b = (if - (2 ^ 63) \<le> a + b \<and> a + b < 2 ^ 63 then Inr (a + b) else Inl Undefined_Behaviour)"

definition validate_transfer :: "transfer_operation \<Rightarrow> unit res" where
  "validate_transfer op =
     res_bind (fc_assert (amount (tf_fee op) \<ge> 0)) (\<lambda>_.
     res_bind (fc_assert (amount (tf_amount op) > 0)) (\<lambda>_.
     (case tf_memo op of None \<Rightarrow> Inr () | Some m \<Rightarrow> fc_assert (length (memo_text m) \<le> 1008))))"

definition validate_proposal_update :: "proposal_update_operation \<Rightarrow> unit res" where
  "validate_proposal_update op =
     res_bind (fc_assert (amount (pu_fee op) \<ge> 0)) (\<lambda>_.
     res_bind (fc_assert (\<not> (active_approvals_to_add op = [] \<and> active_approvals_to_remove op = [] \<and>
        owner_approvals_to_add op = [] \<and> owner_approvals_to_remove op = [] \<and>
        key_approvals_to_add op = [] \<and> key_approvals_to_remove op = []))) (\<lambda>_.
     res_bind (fc_assert (\<forall>a \<in> set (active_approvals_to_add op). a \<notin> set (active_approvals_to_remove op))) (\<lambda>_.
     res_bind (fc_assert (\<forall>a \<in> set (owner_approvals_to_add op). a \<notin> set (owner_approvals_to_remove op))) (\<lambda>_.
     fc_assert (\<forall>a \<in> set (key_approvals_to_add op). a \<notin> set (key_approvals_to_remove op))))))"

definition all_range_proofs :: "externals \<Rightarrow> bytes list \<Rightarrow> unit res" where
  "all_range_proofs E proofs =
     res_fold (\<lambda>p _. res_bind (ec_range_max E p) (\<lambda>m. fc_assert (m \<le> GRAPHENE_MAX_SHARE_SUPPLY))) proofs ()"

fun outputs_ascending :: "blind_output list \<Rightarrow> commitment option \<Rightarrow> unit res" where
  \<comment> \<open>the loop over the outputs, given the commitment before\<close>
  "outputs_ascending [] prev = Inr ()"
| "outputs_ascending (x # xs) prev =
     res_bind (case prev of None \<Rightarrow> Inr () | Some c \<Rightarrow> fc_assert (c < bo_commitment x)) (\<lambda>_.
     res_bind (fc_assert (\<not> is_impossible (bo_owner x))) (\<lambda>_. outputs_ascending xs (Some (bo_commitment x))))"

definition validate_transfer_to_blind :: "externals \<Rightarrow> transfer_to_blind_operation \<Rightarrow> unit res" where
  "validate_transfer_to_blind E op =
     res_bind (fc_assert (amount (tb_fee op) \<ge> 0)) (\<lambda>_.
     res_bind (fc_assert (amount (tb_amount op) > 0)) (\<lambda>_.
     res_bind (outputs_ascending (tb_outputs op) None) (\<lambda>_.
     res_bind (fc_assert (tb_outputs op \<noteq> [])) (\<lambda>_.
     res_bind (fc_assert (ec_verify_sum E [ec_blind E (tb_blinding_factor op) (amount (tb_amount op))]
        (map bo_commitment (tb_outputs op)) 0)) (\<lambda>_.
     if length (tb_outputs op) > 1 then all_range_proofs E (map bo_range_proof (tb_outputs op)) else Inr ())))))"

definition validate_transfer_from_blind :: "externals \<Rightarrow> transfer_from_blind_operation \<Rightarrow> unit res" where
  "validate_transfer_from_blind E op =
     res_bind (fc_assert (amount (fb_amount op) > 0)) (\<lambda>_.
     res_bind (fc_assert (amount (fb_fee op) \<ge> 0)) (\<lambda>_.
     res_bind (fc_assert (fb_inputs op \<noteq> [])) (\<lambda>_.
     res_bind (fc_assert (asset_id (fb_amount op) = asset_id (fb_fee op))) (\<lambda>_.
     res_bind (int64_add (amount (fb_fee op)) (amount (fb_amount op))) (\<lambda>net_public.
     res_bind (fc_assert (sorted_wrt (<) (map bi_commitment (fb_inputs op)))) (\<lambda>_.
     fc_assert (ec_verify_sum E (map bi_commitment (fb_inputs op)) [ec_blind E (fb_blinding_factor op) net_public] 0)))))))"

definition validate_blind_transfer :: "externals \<Rightarrow> blind_transfer_operation \<Rightarrow> unit res" where
  "validate_blind_transfer E op =
     res_bind (fc_assert (sorted_wrt (<) (map bi_commitment (bt_inputs op)))) (\<lambda>_.
     res_bind (outputs_ascending (bt_outputs op) None) (\<lambda>_.
     res_bind (fc_assert (bt_inputs op \<noteq> [])) (\<lambda>_.
     res_bind (fc_assert (ec_verify_sum E (map bi_commitment (bt_inputs op)) (map bo_commitment (bt_outputs op))
        (amount (bt_fee op)))) (\<lambda>_.
     if length (bt_outputs op) > 1 then all_range_proofs E (map bo_range_proof (bt_outputs op)) else Inr ()))))"

definition asset_unit :: "asset_id \<Rightarrow> 64 word res" where
  \<comment> \<open>\<open>uint64_t\<close> of an asset identifier\<close>
  "asset_unit a = res_bind (object_id_type 1 3 (word_of_nat a)) (\<lambda>i. Inr (number i))"

definition le_word :: "bytes \<Rightarrow> 64 word" where
  \<comment> \<open>\<open>memcpy\<close> of eight bytes into a little-endian word\<close>
  "le_word bs = foldr (\<lambda>b w. push_bit 8 w OR ucast b) bs 0"

definition public_output :: "externals \<Rightarrow> bytes \<Rightarrow> asset res" where
  \<comment> \<open>the amount that an output with the null commitment carries in its data\<close>
  "public_output E d =
     (if length d < 16 then Inl Undefined_Behaviour
      else res_bind (share_of E (le_word (take 8 d))) (\<lambda>v.
           Inr \<lparr>amount = v, asset_id = id_instance E (instance_of (Object_Id (le_word (take 8 (drop 8 d)))))\<rparr>))"

definition messages_short :: "confidential_tx list \<Rightarrow> unit res" where
  "messages_short outs =
     res_fold (\<lambda>x _. case ct_extension x of Tx_X _ msg \<Rightarrow> fc_assert (length msg \<le> 256) | _ \<Rightarrow> Inr ()) outs ()"

definition output_range_proof :: "externals \<Rightarrow> confidential_tx \<Rightarrow> unit res" where
  "output_range_proof E x =
     (case ct_extension x of
        Tx_X p _ \<Rightarrow> all_range_proofs E [p]
      | Range_Proof p \<Rightarrow> all_range_proofs E [p]
      | No_Extension \<Rightarrow> Inl Assert_Exception)"

definition validate_transfer_to_confidential :: "externals \<Rightarrow> transfer_to_confidential_operation \<Rightarrow> unit res" where
  "validate_transfer_to_confidential E op =
     res_bind (fc_assert (amount (tc_fee op) \<ge> 0)) (\<lambda>_.
     res_bind (fc_assert (amount (tc_amount op) > 0)) (\<lambda>_.
     res_bind (fc_assert (tc_outputs op \<noteq> [])) (\<lambda>_.
     res_bind (fc_assert (sorted_wrt (\<le>) (map ct_commitment (tc_outputs op)))) (\<lambda>_.
     res_bind (messages_short (tc_outputs op)) (\<lambda>_.
     res_bind (asset_unit (asset_id (tc_amount op))) (\<lambda>unit_id.
     res_bind (fc_assert (ec_verify_sum E
        [ec_blind_unit E (tc_blinding_factor op) unit_id (amount (tc_amount op))]
        (map ct_commitment (tc_outputs op)) 0)) (\<lambda>_.
     if length (tc_outputs op) > 1
     then res_fold (\<lambda>x _. res_bind (fc_assert (ct_commitment x \<noteq> 0)) (\<lambda>_. output_range_proof E x)) (tc_outputs op) ()
     else Inr ())))))))"

definition public_volume :: "externals \<Rightarrow> transfer_from_confidential_operation \<Rightarrow> asset res" where
  "public_volume E op =
     res_bind (res_fold (\<lambda>a v. asset_plus (safe (nops E)) v a) (fc_amount op) (fc_fee op)) (\<lambda>v.
     res_fold (\<lambda>x v. if ct_commitment x = 0
                      then res_bind (public_output E (ct_data x)) (\<lambda>a. asset_plus (safe (nops E)) v a)
                      else Inr v) (fc_outputs op) v)"

definition validate_transfer_from_confidential :: "externals \<Rightarrow> transfer_from_confidential_operation \<Rightarrow> unit res" where
  "validate_transfer_from_confidential E op =
     res_bind (fc_assert (amount (fc_fee op) \<ge> 0)) (\<lambda>_.
     res_bind (fc_assert (\<forall>a \<in> set (fc_amount op). amount a > 0)) (\<lambda>_.
     res_bind (messages_short (fc_outputs op)) (\<lambda>_.
     res_bind (public_volume E op) (\<lambda>v.
     res_bind (asset_unit (asset_id v)) (\<lambda>unit_id.
     let pub_commit = ec_blind_unit E (fc_blinding_factor op) unit_id (amount v);
         in_commits = map ct_commitment (fc_inputs op);
         out_commits = map ct_commitment (fc_outputs op)
     in res_bind (fc_assert (in_commits \<noteq> [])) (\<lambda>_.
        res_bind (fc_assert (length (fc_amount op) = length (fc_to op))) (\<lambda>_.
        res_bind (fc_assert (sorted_wrt (\<le>) in_commits)) (\<lambda>_.
        res_bind (fc_assert (sorted_wrt (\<le>) out_commits)) (\<lambda>_.
        res_bind (if length (filter (\<lambda>c. c \<noteq> 0) out_commits) > 1
                  then res_fold (\<lambda>x _. output_range_proof E x) (fc_outputs op) () else Inr ()) (\<lambda>_.
        fc_assert (ec_verify_sum E in_commits (filter (\<lambda>c. c \<noteq> 0) (out_commits @ [pub_commit])) 0)))))))))))"

fun operation_validate :: "externals \<Rightarrow> operation \<Rightarrow> unit res" where
  "operation_validate E (Transfer op) = validate_transfer op"
| "operation_validate E (Account_Create op) = validate_account_create op"
| "operation_validate E (Account_Update op) = validate_account_update op"
| "operation_validate E (Miner_Create op) =
     res_bind (fc_assert (amount (mc_fee op) \<ge> 0)) (\<lambda>_. fc_assert (length (mc_url op) < GRAPHENE_MAX_URL_LENGTH))"
| "operation_validate E (Miner_Update op) =
     res_bind (fc_assert (amount (mu_fee op) \<ge> 0)) (\<lambda>_.
     (case mu_new_url op of None \<Rightarrow> Inr () | Some u \<Rightarrow> fc_assert (length u < GRAPHENE_MAX_URL_LENGTH)))"
| "operation_validate E (Miner_Update_Global_Parameters op) =
     res_bind (fc_assert (amount (gu_fee op) \<ge> 0)) (\<lambda>_. validate_parameters (gu_new_parameters op))"
| "operation_validate E (Proposal_Create fee payer proposed_ops expiration_time review) =
     res_bind (fc_assert (proposed_ops \<noteq> [])) (\<lambda>_. res_fold (\<lambda>op _. operation_validate E op) proposed_ops ())"
| "operation_validate E (Proposal_Update op) = validate_proposal_update op"
| "operation_validate E (Proposal_Delete op) = fc_assert (amount (pd_fee op) \<ge> 0)"
| "operation_validate E (Set_Transfer_Freeze_Block op) = fc_assert (amount (fz_fee op) \<ge> 0)"
| "operation_validate E (Vesting_Balance_Create op) =
     res_bind (fc_assert (amount (vc_fee op) \<ge> 0)) (\<lambda>_. fc_assert (amount (vc_amount op) > 0))"
| "operation_validate E (Vesting_Balance_Withdraw op) =
     res_bind (fc_assert (amount (vw_fee op) \<ge> 0)) (\<lambda>_. fc_assert (amount (vw_amount op) > 0))"
| "operation_validate E (Transfer_To_Blind op) = validate_transfer_to_blind E op"
| "operation_validate E (Blind_Transfer op) = validate_blind_transfer E op"
| "operation_validate E (Transfer_From_Blind op) = validate_transfer_from_blind E op"
| "operation_validate E (Transfer_To_Confidential op) = validate_transfer_to_confidential E op"
| "operation_validate E (Transfer_From_Confidential op) = validate_transfer_from_confidential E op"
| "operation_validate E (Rfu_Operation n fee) = Inl Assert_Exception"

section \<open>Required authorities\<close>

definition key_authority :: "public_key \<Rightarrow> authority" where
  \<comment> \<open>\<open>authority(1, key, 1)\<close>\<close>
  "key_authority k = \<lparr>weight_threshold = 1, account_auths = [], key_auths = [(k, 1)]\<rparr>"

definition pays :: "account \<Rightarrow> op_auths" where
  "pays a = \<lparr>fee_payer = a, op_active = [], op_owner = [], op_other = []\<rparr>"

definition proposal_update_auths :: "proposal_update_operation \<Rightarrow> op_auths" where
  "proposal_update_auths op =
     (let keys = fold (\<lambda>k. flat_map_put k 1) (key_approvals_to_add op @ key_approvals_to_remove op) []
      in \<lparr>fee_payer = pu_fee_paying_account op,
          op_active = active_approvals_to_add op @ active_approvals_to_remove op,
          op_owner = owner_approvals_to_add op @ owner_approvals_to_remove op,
          op_other = [\<lparr>weight_threshold = word_of_nat (length keys), account_auths = [], key_auths = keys\<rparr>]\<rparr>)"

fun operation_auths :: "operation \<Rightarrow> op_auths" where
  "operation_auths (Transfer op) = pays (tf_from op)"
| "operation_auths (Account_Create op) = account_create_auths op"
| "operation_auths (Account_Update op) = account_update_auths op"
| "operation_auths (Miner_Create op) = pays (mc_miner_account op)"
| "operation_auths (Miner_Update op) = pays (mu_miner_account op)"
| "operation_auths (Miner_Update_Global_Parameters op) = pays 0"
| "operation_auths (Proposal_Create fee payer proposed_ops expiration_time review) = pays payer"
| "operation_auths (Proposal_Update op) = proposal_update_auths op"
| "operation_auths (Proposal_Delete op) = pays (pd_fee_paying_account op)"
| "operation_auths (Set_Transfer_Freeze_Block op) = pays (fz_announcer op)"
| "operation_auths (Vesting_Balance_Create op) = pays (vc_creator op)"
| "operation_auths (Vesting_Balance_Withdraw op) = pays (vw_owner op)"
| "operation_auths (Transfer_To_Blind op) = pays (tb_from op)"
| "operation_auths (Blind_Transfer op) = (pays GRAPHENE_TEMP_ACCOUNT)\<lparr>op_other := map bi_owner (bt_inputs op)\<rparr>"
| "operation_auths (Transfer_From_Blind op) = (pays GRAPHENE_TEMP_ACCOUNT)\<lparr>op_other := map bi_owner (fb_inputs op)\<rparr>"
| "operation_auths (Transfer_To_Confidential op) = pays (tc_from op)"
| "operation_auths (Transfer_From_Confidential op) =
     (pays GRAPHENE_TEMP_ACCOUNT)\<lparr>op_other := map (\<lambda>x. key_authority (ct_owner x)) (fc_inputs op)\<rparr>"
| "operation_auths (Rfu_Operation n fee) = pays 0"

abbreviation op_fee_payer :: "operation \<Rightarrow> account" where "op_fee_payer op \<equiv> fee_payer (operation_auths op)"

section \<open>Fees\<close>

fun default_fee :: "nat \<Rightarrow> fee_parameters" where
  \<comment> \<open>the default values of the fee parameter structs\<close>
  "default_fee n =
     (if n = 3 then \<lparr>fp_which = n, fp_fee = 50000000, fp_price = 0\<rparr>
      else if n = 5 then \<lparr>fp_which = n, fp_fee = 10, fp_price = 0\<rparr>
      else if n = 6 \<or> n = 7 then \<lparr>fp_which = n, fp_fee = 100000, fp_price = 10\<rparr>
      else if n < 12 then \<lparr>fp_which = n, fp_fee = 100000, fp_price = 0\<rparr>
      else if n = 14 then \<lparr>fp_which = n, fp_fee = 5000000, fp_price = 0\<rparr>
      else if n < 17 then \<lparr>fp_which = n, fp_fee = 5000000, fp_price = 5000000\<rparr>
      else \<lparr>fp_which = n, fp_fee = - 1, fp_price = 0\<rparr>)"

definition find_fee :: "nat \<Rightarrow> fee_schedule \<Rightarrow> fee_parameters" where
  "find_fee n fs = (case find (\<lambda>p. fp_which p = n) (fs_parameters fs) of None \<Rightarrow> default_fee n | Some p \<Rightarrow> p)"

definition base_fee :: "externals \<Rightarrow> operation \<Rightarrow> fee_parameters \<Rightarrow> 64 word res" where
  \<comment> \<open>\<open>calculate_fee\<close> of the operations, before the conversion to \<open>share_type\<close>\<close>
  "base_fee E op k =
     (let per_output = (\<lambda>n. Inr (fp_fee k + word_of_nat n * ucast (fp_price k)))
      in case op of
           Proposal_Create _ _ _ _ _ \<Rightarrow> res_bind (calculate_data_fee (nops E) (pack_size E op) (ucast (fp_price k))) (\<lambda>d. Inr (fp_fee k + d))
         | Proposal_Update _ \<Rightarrow> res_bind (calculate_data_fee (nops E) (pack_size E op) (ucast (fp_price k))) (\<lambda>d. Inr (fp_fee k + d))
         | Transfer_To_Blind x \<Rightarrow> per_output (length (tb_outputs x))
         | Blind_Transfer x \<Rightarrow> per_output (length (bt_outputs x))
         | Transfer_To_Confidential x \<Rightarrow> per_output (length (tc_outputs x))
         | Transfer_From_Confidential x \<Rightarrow> per_output (length (fc_outputs x) + length (fc_to x))
         | _ \<Rightarrow> Inr (fp_fee k))"

definition calculate_fee :: "externals \<Rightarrow> operation \<Rightarrow> price \<Rightarrow> fee_schedule \<Rightarrow> asset res option" where
  \<comment> \<open>\<open>fee_schedule::calculate_fee\<close>\<close>
  "calculate_fee E op rate fs =
     (case res_bind (base_fee E op (find_fee (op_which op) fs)) (\<lambda>b.
           res_bind (share_of E b) (\<lambda>v.
           scaled_fee (nops E) (word_of_int v) (fs_scale fs))) of
        Inl e \<Rightarrow> Some (Inl e)
      | Inr scaled \<Rightarrow> fee_in_asset (nops E) rate scaled)"

definition transaction_validate :: "externals \<Rightarrow> operation list \<Rightarrow> unit res" where
  \<comment> \<open>\<open>transaction::validate\<close>\<close>
  "transaction_validate E operations =
     res_bind (fc_assert (operations \<noteq> [])) (\<lambda>_. res_fold (\<lambda>op _. operation_validate E op) operations ())"

end
