(* ===== verification/Chain_State.thy ===== *)
theory Chain_State
  imports Tables Vesting_Properties Operations Blocks
begin

text \<open>
  The state of the chain that the evaluators and the block processing change: the tables of the
  database, the objects in them and their unique keys.

  An exception in an operation ends the transaction, which restores the state before it (theory
  \<open>Undo_Database\<close>), so a failing operation returns no state.  The block number of a transaction
  detail is \<^const>\<open>None\<close> where the code leaves it uninitialised.
\<close>

section \<open>Objects\<close>

record account_object =
  ao_registrar :: account
  ao_name :: string
  ao_owner :: authority
  ao_options :: account_options
  ao_statistics :: nat
  ao_cashback_vb :: "nat option"
  ao_top_n_control_flags :: "8 word"

record account_statistics =
  st_owner :: account
  st_total_core_in_orders :: int

record account_balance =
  ab_owner :: account
  ab_asset_type :: asset_id
  ab_balance :: int
  ab_vote_power :: "64 word"
  ab_casted_vote :: vote_id

record miner_object =
  mo_account :: account
  mo_last_aslot :: "64 word"
  mo_signing_key :: public_key
  mo_pay_vb :: "nat option"
  mo_vote_id :: vote_id
  mo_total_votes :: "64 word"
  mo_url :: string
  mo_total_missed :: int
  mo_last_confirmed_block_num :: "32 word"

record asset_object =
  as_symbol :: string
  as_precision :: "8 word"
  as_max_supply :: int
  as_dynamic_data :: nat

record asset_dynamic_data =
  ad_current_supply :: int
  ad_confidential_supply :: int
  ad_accumulated_fees :: int

record global_properties =
  gp_parameters :: chain_parameters
  gp_pending_parameters :: "chain_parameters option"
  gp_next_available_vote_id :: "32 word"
  gp_active_miners :: "nat list"

record dynamic_properties =
  dp_head_block_number :: "32 word"
  dp_head_block_id :: block_id
  dp_time :: time
  dp_current_miner :: nat
  dp_next_maintenance_time :: time
  dp_last_budget_time :: time
  dp_miner_budget_from_fees :: int
  dp_unspent_fee_budget :: int
  dp_mined_rewards :: int
  dp_miner_budget_from_rewards :: int
  dp_accounts_registered_this_interval :: "32 word"
  dp_recently_missed_count :: "32 word"
  dp_current_aslot :: "64 word"
  dp_recent_slots_filled :: "128 word"
  dp_dynamic_flags :: "32 word"
  dp_last_irreversible_block_num :: "32 word"

datatype detail_type = Detail_Transfer | Detail_Account_Create | Detail_Confidential_Transfer | Detail_Withdraw

record transaction_detail =
  m_operation_type :: detail_type
  m_from_account :: account
  m_to_account :: account
  m_from_name :: string
  m_to_name :: string
  m_transaction_amount :: asset
  m_transaction_fee :: asset
  m_str_description :: string
  m_transaction_encrypted_memo :: "memo_data option"
  m_timestamp :: time
  m_block_number :: "32 word option"
  m_tx_id :: nat

record transaction_object =
  to_trx_id :: nat
  to_trx :: signed_transaction

record proposal_object =
  po_expiration_time :: time
  po_review_period_time :: "time option"
  po_proposed_transaction :: transaction
  po_required_active_approvals :: "account list"
  po_available_active_approvals :: "account list"
  po_required_owner_approvals :: "account list"
  po_available_owner_approvals :: "account list"
  po_available_key_approvals :: "public_key list"

record blinded_balance =
  bb_commitment :: commitment
  bb_asset_id :: asset_id
  bb_owner :: authority

record confidential_tx_object =
  co_commitment :: commitment
  co_tx_key :: public_key
  co_owner :: public_key
  co_data :: bytes
  co_range_proof :: bytes
  co_message :: bytes
  co_unspent :: bool
  co_timestamp :: time
  co_block_number :: "32 word"

record budget_record =
  br_time :: time
  br_time_since_last_budget :: int
  br_from_initial_reserve :: int
  br_from_accumulated_fees :: int
  br_planned_for_mining :: int
  br_generated_in_last_interval :: int
  br_supply_delta :: int
  br_account_balances :: int
  br_vesting_balances :: int
  br_next_maintenance_time :: time
  br_block_interval :: "8 word"

record chain =
  c_accounts :: "account_object table"
  c_statistics :: "account_statistics table"
  c_balances :: "account_balance table"
  c_vesting :: "vesting_balance table"
  c_miners :: "miner_object table"
  c_assets :: "asset_object table"
  c_asset_data :: "asset_dynamic_data table"
  c_details :: "transaction_detail table"
  c_budgets :: "budget_record table"
  c_proposals :: "proposal_object table"
  c_transactions :: "transaction_object table"
  c_blinded :: "blinded_balance table"
  c_confidential :: "confidential_tx_object table"
  c_block_summaries :: "block_id table"
  c_global :: global_properties
  c_dynamic :: dynamic_properties
  c_shuffled_miners :: "nat list"

definition get_voted_miner :: "account_object \<Rightarrow> vote_id" where
  "get_voted_miner a =
     (case filter (\<lambda>v. vote_type v = vt_miner) (votes (ao_options a)) of
        v # _ \<Rightarrow> v
      | [] \<Rightarrow> make_vote_id vt_miner (- 1))"

text \<open>The unique keys of the indexes besides the identifier.\<close>

definition account_clash :: "account_object \<Rightarrow> account_object \<Rightarrow> bool" where
  "account_clash a b \<longleftrightarrow> ao_name a = ao_name b"

definition balance_clash :: "account_balance \<Rightarrow> account_balance \<Rightarrow> bool" where
  \<comment> \<open>\<open>by_owner\<close> implies the other two\<close>
  "balance_clash a b \<longleftrightarrow> ab_owner a = ab_owner b"

definition miner_clash :: "miner_object \<Rightarrow> miner_object \<Rightarrow> bool" where
  \<comment> \<open>vote identifiers compare by instance\<close>
  "miner_clash a b \<longleftrightarrow> mo_account a = mo_account b \<or> vote_instance (mo_vote_id a) = vote_instance (mo_vote_id b)"

definition asset_clash :: "asset_object \<Rightarrow> asset_object \<Rightarrow> bool" where
  "asset_clash a b \<longleftrightarrow> as_symbol a = as_symbol b"

definition transaction_clash :: "transaction_object \<Rightarrow> transaction_object \<Rightarrow> bool" where
  "transaction_clash a b \<longleftrightarrow> to_trx_id a = to_trx_id b"

definition blinded_clash :: "blinded_balance \<Rightarrow> blinded_balance \<Rightarrow> bool" where
  "blinded_clash a b \<longleftrightarrow> bb_commitment a = bb_commitment b"

definition confidential_clash :: "confidential_tx_object \<Rightarrow> confidential_tx_object \<Rightarrow> bool" where
  "confidential_clash a b \<longleftrightarrow> co_commitment a = co_commitment b \<or> co_tx_key a = co_tx_key b"

definition budget_clash :: "budget_record \<Rightarrow> budget_record \<Rightarrow> bool" where
  "budget_clash a b \<longleftrightarrow> br_time a = br_time b"

abbreviation head_block_time :: "chain \<Rightarrow> time" where "head_block_time c \<equiv> dp_time (c_dynamic c)"
abbreviation head_block_num :: "chain \<Rightarrow> 32 word" where "head_block_num c \<equiv> dp_head_block_number (c_dynamic c)"

section \<open>The indexes keep their keys unique\<close>

interpretation accounts: unique_index account_clash by unfold_locales (simp add: account_clash_def)
interpretation balances: unique_index balance_clash by unfold_locales (simp add: balance_clash_def)
interpretation miners: unique_index miner_clash by unfold_locales (auto simp: miner_clash_def)
interpretation assets: unique_index asset_clash by unfold_locales (simp add: asset_clash_def)
interpretation budgets: unique_index budget_clash by unfold_locales (simp add: budget_clash_def)
interpretation transactions: unique_index transaction_clash by unfold_locales (simp add: transaction_clash_def)
interpretation blinded: unique_index blinded_clash by unfold_locales (simp add: blinded_clash_def)
interpretation confidential: unique_index confidential_clash by unfold_locales (auto simp: confidential_clash_def)

end
