(* ===== verification/Balances.thy ===== *)
theory Balances
  imports Chain_State
begin

text \<open>
  The balance functions of the database (\<open>db_balance.cpp\<close>), \<open>cut_fee\<close> and
  \<open>get_real_supply\<close>.
\<close>

section \<open>Liquid balances\<close>

definition find_balance :: "account \<Rightarrow> asset_id \<Rightarrow> chain \<Rightarrow> (nat \<times> account_balance) option" where
  \<comment> \<open>the index \<open>by_account_asset\<close>\<close>
  "find_balance owner a c = find (\<lambda>(i, b). ab_owner b = owner \<and> ab_asset_type b = a) (rows (c_balances c))"

definition get_balance :: "account \<Rightarrow> asset_id \<Rightarrow> chain \<Rightarrow> asset" where
  "get_balance owner a c =
     (case find_balance owner a c of
        None \<Rightarrow> \<lparr>amount = 0, asset_id = a\<rparr>
      | Some (i, b) \<Rightarrow> \<lparr>amount = ab_balance b, asset_id = ab_asset_type b\<rparr>)"

definition balance_adjust :: "num_ops \<Rightarrow> asset \<Rightarrow> account_balance \<Rightarrow> account_balance res" where
  "balance_adjust ops delta b = res_bind (safe ops (ab_balance b + amount delta)) (\<lambda>n. Inr (b\<lparr>ab_balance := n\<rparr>))"

definition adjust_balance :: "num_ops \<Rightarrow> account \<Rightarrow> asset \<Rightarrow> chain \<Rightarrow> chain res" where
  "adjust_balance ops who delta c =
     (if amount delta = 0 then Inr c
      else case find_balance who (asset_id delta) c of
        None \<Rightarrow>
          res_bind (fc_assert (amount delta > 0)) (\<lambda>_.
          res_bind (tbl_create balance_clash
            \<lparr>ab_owner = who, ab_asset_type = asset_id delta, ab_balance = amount delta, ab_vote_power = 0,
             ab_casted_vote = make_vote_id vt_miner (- 1)\<rparr> (c_balances c)) (\<lambda>(_, t).
          Inr (c\<lparr>c_balances := t\<rparr>)))
      | Some (i, b) \<Rightarrow>
          res_bind (if amount delta < 0
                    then res_bind (asset_neg (safe ops) delta) (\<lambda>need.
                         res_bind (asset_greater_eq \<lparr>amount = ab_balance b, asset_id = ab_asset_type b\<rparr> need) fc_assert)
                    else Inr ()) (\<lambda>_.
          res_bind (tbl_modify balance_clash i (balance_adjust ops delta) (c_balances c)) (\<lambda>t.
          Inr (c\<lparr>c_balances := t\<rparr>))))"

definition cut_fee :: "num_ops \<Rightarrow> int \<Rightarrow> 16 word \<Rightarrow> int res" where
  "cut_fee ops a p =
     (if a = 0 \<or> p = 0 then Inr 0
      else if p = 10000 then Inr a
      else low ops (wide ops (wide ops a * uint p) div 10000))"

section \<open>Vesting deposits\<close>

definition core_asset :: "int \<Rightarrow> asset" where
  "core_asset n = \<lparr>amount = n, asset_id = 0\<rparr>"

definition lazy_vesting_target :: "nat option \<Rightarrow> 32 word \<Rightarrow> account \<Rightarrow> chain \<Rightarrow> nat option res" where
  \<comment> \<open>the tests of the \<open>while (true)\<close> block: the balance that can be deposited to, if any\<close>
  "lazy_vesting_target ovbid req_vesting_seconds req_owner c =
     (case ovbid of
        None \<Rightarrow> Inr None
      | Some i \<Rightarrow>
          res_bind (tbl_get i (c_vesting c)) (\<lambda>vbo.
            Inr (if vb_owner vbo \<noteq> req_owner then None
                 else case vb_policy vbo of
                   Linear _ \<Rightarrow> None
                 | Cdd p \<Rightarrow> if vesting_seconds p \<noteq> req_vesting_seconds then None else Some i)))"

definition new_lazy_vesting :: "num_ops \<Rightarrow> int \<Rightarrow> 32 word \<Rightarrow> account \<Rightarrow> bool \<Rightarrow> time \<Rightarrow> vesting_balance res" where
  "new_lazy_vesting ops n req_vesting_seconds req_owner require_vesting now =
     res_bind (if require_vesting then Inr 0 else int64_mult n (uint req_vesting_seconds)) (\<lambda>earned.
     Inr \<lparr>vb_owner = req_owner, vb_balance = core_asset n,
          vb_policy = Cdd \<lparr>vesting_seconds = req_vesting_seconds, coin_seconds_earned = wide ops earned,
            start_claim = 0, coin_seconds_earned_last_update = now\<rparr>\<rparr>)"

definition deposit_lazy_vesting :: "num_ops \<Rightarrow> nat option \<Rightarrow> int \<Rightarrow> 32 word \<Rightarrow> account \<Rightarrow> bool \<Rightarrow> chain \<Rightarrow> (nat option \<times> chain) res" where
  "deposit_lazy_vesting ops ovbid n req_vesting_seconds req_owner require_vesting c =
     (if n = 0 then Inr (None, c)
      else let now = head_block_time c
           in res_bind (lazy_vesting_target ovbid req_vesting_seconds req_owner c) (\<lambda>target.
              case target of
                Some i \<Rightarrow>
                  res_bind (tbl_modify no_clash i
                    (\<lambda>vbo. if require_vesting then vb_deposit ops now (core_asset n) vbo
                           else vb_deposit_vested ops now (core_asset n) vbo) (c_vesting c)) (\<lambda>t.
                  Inr (None, c\<lparr>c_vesting := t\<rparr>))
              | None \<Rightarrow>
                  res_bind (new_lazy_vesting ops n req_vesting_seconds req_owner require_vesting now) (\<lambda>vbo.
                  res_bind (tbl_create no_clash vbo (c_vesting c)) (\<lambda>(i, t).
                  Inr (Some i, c\<lparr>c_vesting := t\<rparr>)))))"

definition set_cashback_vb :: "nat \<Rightarrow> nat \<Rightarrow> chain \<Rightarrow> chain res" where
  "set_cashback_vb acct vb c =
     res_bind (tbl_modify account_clash acct (\<lambda>a. Inr (a\<lparr>ao_cashback_vb := Some vb\<rparr>)) (c_accounts c)) (\<lambda>t.
     Inr (c\<lparr>c_accounts := t\<rparr>))"

definition deposit_cashback :: "num_ops \<Rightarrow> account \<Rightarrow> int \<Rightarrow> bool \<Rightarrow> chain \<Rightarrow> chain res" where
  "deposit_cashback ops acct n require_vesting c =
     (if n = 0 then Inr c
      else if acct = GRAPHENE_MINER_ACCOUNT \<or> acct = GRAPHENE_NULL_ACCOUNT \<or> acct = GRAPHENE_TEMP_ACCOUNT then
        res_bind (tbl_get 0 (c_assets c)) (\<lambda>core.
        res_bind (tbl_modify no_clash (as_dynamic_data core)
          (\<lambda>d. res_bind (safe ops (ad_current_supply d - n)) (\<lambda>s. Inr (d\<lparr>ad_current_supply := s\<rparr>))) (c_asset_data c)) (\<lambda>t.
        Inr (c\<lparr>c_asset_data := t\<rparr>)))
      else
        res_bind (tbl_get acct (c_accounts c)) (\<lambda>a.
        res_bind (deposit_lazy_vesting ops (ao_cashback_vb a) n
          (cashback_vesting_period_seconds (gp_parameters (c_global c))) acct require_vesting c) (\<lambda>(new_vbid, c1).
        case new_vbid of None \<Rightarrow> Inr c1 | Some vb \<Rightarrow> set_cashback_vb acct vb c1)))"

definition deposit_miner_pay :: "num_ops \<Rightarrow> nat \<Rightarrow> int \<Rightarrow> chain \<Rightarrow> chain res" where
  "deposit_miner_pay ops wit n c =
     (if n = 0 then Inr c
      else
        res_bind (tbl_get wit (c_miners c)) (\<lambda>w.
        res_bind (deposit_lazy_vesting ops (mo_pay_vb w) n
          (miner_pay_vesting_seconds (gp_parameters (c_global c))) (mo_account w) True c) (\<lambda>(new_vbid, c1).
        case new_vbid of
          None \<Rightarrow> Inr c1
        | Some vb \<Rightarrow>
            res_bind (tbl_modify miner_clash wit (\<lambda>m. Inr (m\<lparr>mo_pay_vb := Some vb\<rparr>)) (c_miners c1)) (\<lambda>t.
            Inr (c1\<lparr>c_miners := t\<rparr>)))))"

definition deposit_account_pay :: "num_ops \<Rightarrow> account \<Rightarrow> int \<Rightarrow> chain \<Rightarrow> chain res" where
  "deposit_account_pay ops acct n c =
     (if n = 0 then Inr c
      else
        res_bind (tbl_get acct (c_accounts c)) (\<lambda>a.
        res_bind (deposit_lazy_vesting ops (ao_cashback_vb a) n
          (miner_pay_vesting_seconds (gp_parameters (c_global c))) acct True c) (\<lambda>(new_vbid, c1).
        case new_vbid of None \<Rightarrow> Inr c1 | Some vb \<Rightarrow> set_cashback_vb acct vb c1)))"

section \<open>Supply\<close>

fun safe_sum :: "num_ops \<Rightarrow> int list \<Rightarrow> int \<Rightarrow> int res" where
  "safe_sum ops [] s = Inr s"
| "safe_sum ops (x # xs) s = res_bind (safe ops (s + x)) (safe_sum ops xs)"

definition get_real_supply :: "num_ops \<Rightarrow> chain \<Rightarrow> (int \<times> int) res" where
  \<comment> \<open>account balances and vesting balances\<close>
  "get_real_supply ops c =
     res_bind (safe_sum ops (map (\<lambda>(i, b). ab_balance b) (rows (c_balances c))) 0) (\<lambda>a.
     res_bind (safe_sum ops (map (\<lambda>(i, v). amount (vb_balance v)) (rows (c_vesting c))) 0) (\<lambda>v.
     Inr (a, v)))"

end
