(* ===== verification/Evaluators.thy ===== *)
theory Evaluators
  imports Balances
begin

text \<open>
  The evaluators: the part that all operations share (\<open>evaluator.hpp\<close>, \<open>evaluator.cpp\<close>) and those
  of accounts, transfers, miners and vesting balances (\<open>account_evaluator.cpp\<close>,
  \<open>transfer_evaluator.cpp\<close>, \<open>miner_evaluator.cpp\<close>, \<open>vesting_balance_evaluator.cpp\<close>).

  An evaluator looks up the payer of the fee, requires the scheduled fee, checks the operation
  against the state, adds the fee to the accumulated fees, applies the operation and takes the fee
  from the payer, in this order.  A call that may not return is an option: \<^const>\<open>None\<close> is no
  return, as in the fee conversion.  The results of operations (identifiers of created objects)
  and the history of operations are left out.
\<close>

section \<open>Calls that may not return\<close>

type_synonym 'a run = "'a res option"

definition run_bind :: "'a run \<Rightarrow> ('a \<Rightarrow> 'b run) \<Rightarrow> 'b run" where
  "run_bind m f = (case m of None \<Rightarrow> None | Some (Inl e) \<Rightarrow> Some (Inl e) | Some (Inr x) \<Rightarrow> f x)"

lemma run_bind_simps [simp]:
  "run_bind None f = None" "run_bind (Some (Inl e)) f = Some (Inl e)" "run_bind (Some (Inr x)) f = f x"
  by (simp_all add: run_bind_def)

lemma run_bind_eq_Inr [res_simps]: "run_bind m f = Some (Inr y) \<longleftrightarrow> (\<exists>x. m = Some (Inr x) \<and> f x = Some (Inr y))"
  by (cases m rule: option.exhaust; cases "the m") auto

lemma run_bind_eq_None [res_simps]: "run_bind m f = None \<longleftrightarrow> m = None \<or> (\<exists>x. m = Some (Inr x) \<and> f x = None)"
  by (cases m rule: option.exhaust; cases "the m") auto

section \<open>The common part\<close>

record eval_flags =
  skip_fee :: bool
  skip_fee_schedule_check :: bool
  is_proposed_trx :: bool

definition prepare_fee :: "account \<Rightarrow> asset \<Rightarrow> chain \<Rightarrow> unit res" where
  "prepare_fee payer fee c =
     res_bind (fc_assert (amount fee \<ge> 0)) (\<lambda>_.
     res_bind (tbl_get payer (c_accounts c)) (\<lambda>a.
     res_bind (tbl_get (ao_statistics a) (c_statistics c)) (\<lambda>_.
     res_bind (tbl_get (asset_id fee) (c_assets c)) (\<lambda>fa.
     res_bind (tbl_get (as_dynamic_data fa) (c_asset_data c)) (\<lambda>_.
     fc_assert (asset_id fee = 0))))))"

definition modify_dynamic_data :: "asset_id \<Rightarrow> (asset_dynamic_data \<Rightarrow> asset_dynamic_data res) \<Rightarrow> chain \<Rightarrow> chain res" where
  "modify_dynamic_data a f c =
     res_bind (tbl_get a (c_assets c)) (\<lambda>obj.
     res_bind (tbl_modify no_clash (as_dynamic_data obj) f (c_asset_data c)) (\<lambda>t.
     Inr (c\<lparr>c_asset_data := t\<rparr>)))"

definition pay_fee :: "num_ops \<Rightarrow> eval_flags \<Rightarrow> int \<Rightarrow> chain \<Rightarrow> chain res" where
  "pay_fee ops fl core_fee_paid c =
     (if skip_fee fl then Inr c
      else modify_dynamic_data 0 (\<lambda>d. res_bind (safe ops (ad_accumulated_fees d + core_fee_paid)) (\<lambda>n.
             Inr (d\<lparr>ad_accumulated_fees := n\<rparr>))) c)"

definition check_fee :: "externals \<Rightarrow> eval_flags \<Rightarrow> operation \<Rightarrow> chain \<Rightarrow> unit run" where
  \<comment> \<open>the first half of \<open>evaluator::evaluate\<close>\<close>
  "check_fee E fl op c =
     run_bind (Some (prepare_fee (op_fee_payer op) (op_fee op) c)) (\<lambda>_.
     if skip_fee_schedule_check fl then Some (Inr ())
     else run_bind (calculate_fee E op (unit_price 0) (current_fees (gp_parameters (c_global c)))) (\<lambda>required.
          Some (assert_that (amount (op_fee op) \<ge> amount required) Insufficient_Fee)))"

definition run_evaluator :: "externals \<Rightarrow> eval_flags \<Rightarrow> operation \<Rightarrow> (chain \<Rightarrow> unit res) \<Rightarrow> (chain \<Rightarrow> chain run) \<Rightarrow> chain \<Rightarrow> chain run" where
  \<comment> \<open>\<open>start_evaluate\<close>: \<open>evaluate\<close>, then \<open>apply\<close>\<close>
  "run_evaluator E fl op do_evaluate do_apply c =
     run_bind (check_fee E fl op c) (\<lambda>_.
     run_bind (Some (do_evaluate c)) (\<lambda>_.
     run_bind (Some (pay_fee (nops E) fl (amount (op_fee op)) c)) (\<lambda>c1.
     run_bind (do_apply c1) (\<lambda>c2.
     Some (res_bind (asset_neg (safe (nops E)) (op_fee op)) (\<lambda>f.
           adjust_balance (nops E) (op_fee_payer op) f c2))))))"

section \<open>Accounts\<close>

definition verify_authority_accounts :: "chain \<Rightarrow> authority \<Rightarrow> unit res" where
  "verify_authority_accounts c a =
     res_bind (assert_that (num_auths a \<le> ucast (maximum_authority_membership (gp_parameters (c_global c)))) Max_Auth_Exceeded) (\<lambda>_.
     res_fold (\<lambda>(acnt, w) _. assert_that (tbl_find acnt (c_accounts c) \<noteq> None) Auth_Account_Not_Found) (account_auths a) ())"

definition verify_account_votes :: "chain \<Rightarrow> account_options \<Rightarrow> unit res" where
  "verify_account_votes c opts =
     res_bind (fc_assert (num_miner opts \<le> maximum_miner_count (gp_parameters (c_global c)))) (\<lambda>_.
     fc_assert (\<forall>v \<in> set (votes opts). vote_instance v < gp_next_available_vote_id (c_global c)))"

definition find_account :: "string \<Rightarrow> chain \<Rightarrow> (nat \<times> account_object) option" where
  \<comment> \<open>the index \<open>by_name\<close>\<close>
  "find_account name c = find (\<lambda>(i, a). ao_name a = name) (rows (c_accounts c))"

definition count_registration :: "chain \<Rightarrow> chain" where
  "count_registration c =
     c\<lparr>c_dynamic := (c_dynamic c)\<lparr>dp_accounts_registered_this_interval := dp_accounts_registered_this_interval (c_dynamic c) + 1\<rparr>\<rparr>"

definition new_account :: "account \<Rightarrow> string \<Rightarrow> authority \<Rightarrow> account_options \<Rightarrow> chain \<Rightarrow> (nat \<times> chain) res" where
  \<comment> \<open>creates the statistics object of the account and the account\<close>
  "new_account reg name owner opts c =
     res_bind (tbl_create no_clash \<lparr>st_owner = next_instance (c_accounts c), st_total_core_in_orders = 0\<rparr> (c_statistics c)) (\<lambda>(s, ts).
     res_bind (tbl_create account_clash
       \<lparr>ao_registrar = reg, ao_name = name, ao_owner = owner, ao_options = opts, ao_statistics = s,
        ao_cashback_vb = None, ao_top_n_control_flags = 0\<rparr> (c_accounts c)) (\<lambda>(i, ta).
     Inr (i, c\<lparr>c_statistics := ts, c_accounts := ta\<rparr>)))"

definition add_detail :: "transaction_detail \<Rightarrow> chain \<Rightarrow> chain res" where
  "add_detail d c = res_bind (tbl_create no_clash d (c_details c)) (\<lambda>(_, t). Inr (c\<lparr>c_details := t\<rparr>))"

definition first_key :: "authority \<Rightarrow> public_key res" where
  "first_key a = (case get_keys a of [] \<Rightarrow> Inl Assert_Exception | k # _ \<Rightarrow> Inr k)"

definition account_create_do_evaluate :: "externals \<Rightarrow> account_create_operation \<Rightarrow> chain \<Rightarrow> unit res" where
  "account_create_do_evaluate E op c =
     res_bind (fc_assert (tbl_find (voting_account (ac_options op)) (c_accounts c) \<noteq> None)) (\<lambda>_.
     res_bind (verify_authority_accounts c (ac_owner op)) (\<lambda>_.
     res_bind (first_key (ac_owner op)) (\<lambda>k.
     if key_name E k \<noteq> [] then fc_assert (find_account (key_name E k) c = None) else Inr ())))"

definition account_create_do_apply :: "externals \<Rightarrow> nat \<Rightarrow> account_create_operation \<Rightarrow> chain \<Rightarrow> chain res" where
  "account_create_do_apply E tx op c =
     res_bind (first_key (ac_owner op)) (\<lambda>k.
     res_bind (new_account (ac_registrar op) (key_name E k) (ac_owner op) (ac_options op) c) (\<lambda>(i, c1).
     add_detail \<lparr>m_operation_type = Detail_Account_Create, m_from_account = ac_registrar op, m_to_account = i,
        m_from_name = [], m_to_name = [], m_transaction_amount = \<lparr>amount = 0, asset_id = 0\<rparr>,
        m_transaction_fee = ac_fee op, m_str_description = [], m_transaction_encrypted_memo = None,
        m_timestamp = head_block_time c, m_block_number = None, m_tx_id = tx\<rparr> (count_registration c1)))"

definition account_update_do_evaluate :: "account_update_operation \<Rightarrow> chain \<Rightarrow> unit res" where
  "account_update_do_evaluate op c =
     res_bind (case au_owner op of None \<Rightarrow> Inr () | Some ow \<Rightarrow> verify_authority_accounts c ow) (\<lambda>_.
     res_bind (tbl_get (au_account op) (c_accounts c)) (\<lambda>_.
     (case au_new_options op of None \<Rightarrow> Inr () | Some opts \<Rightarrow> verify_account_votes c opts)))"

definition updated_account :: "account_update_operation \<Rightarrow> account_object \<Rightarrow> account_object" where
  "updated_account op a =
     (let a1 = (case au_owner op of None \<Rightarrow> a | Some ow \<Rightarrow> a\<lparr>ao_owner := ow, ao_top_n_control_flags := 0\<rparr>)
      in case au_new_options op of None \<Rightarrow> a1 | Some opts \<Rightarrow> a1\<lparr>ao_options := opts\<rparr>)"

definition account_update_do_apply :: "account_update_operation \<Rightarrow> chain \<Rightarrow> chain res" where
  "account_update_do_apply op c =
     res_bind (tbl_modify account_clash (au_account op) (\<lambda>a. Inr (updated_account op a)) (c_accounts c)) (\<lambda>t.
     Inr (c\<lparr>c_accounts := t\<rparr>))"

section \<open>Transfers\<close>

definition freeze_authority_key :: string where
  "freeze_authority_key = ''CVA8f4eMzscbG1pSTBjxy1n5YdYtfo6tN5KxXGWrDzBctCti155C6''"

definition set_transfer_freeze_block_do_evaluate :: "externals \<Rightarrow> set_transfer_freeze_block_operation \<Rightarrow> chain \<Rightarrow> unit res" where
  "set_transfer_freeze_block_do_evaluate E op c =
     res_bind (tbl_get (fz_announcer op) (c_accounts c)) (\<lambda>announcer.
     fc_assert (\<exists>k \<in> set (get_keys (ao_owner announcer)). key_name E k = freeze_authority_key))"

definition set_transfer_freeze_block_do_apply :: "set_transfer_freeze_block_operation \<Rightarrow> chain \<Rightarrow> chain res" where
  \<comment> \<open>sets the block, then runs off the end of a function that must return a value\<close>
  "set_transfer_freeze_block_do_apply op c =
     (let g = c_global c;
          c1 = c\<lparr>c_global := g\<lparr>gp_parameters := (gp_parameters g)\<lparr>freeze_transfers_after_block := fz_block_num op\<rparr>\<rparr>\<rparr>
      in Inl Undefined_Behaviour)"

definition transfer_do_evaluate :: "transfer_operation \<Rightarrow> chain \<Rightarrow> unit res" where
  "transfer_do_evaluate op c =
     res_bind (fc_assert (ucast (head_block_num c) < freeze_transfers_after_block (gp_parameters (c_global c)))) (\<lambda>_.
     res_bind (tbl_get (tf_from op) (c_accounts c)) (\<lambda>_.
     res_bind (tbl_get (asset_id (tf_amount op)) (c_assets c)) (\<lambda>_.
     fc_assert (amount (get_balance (tf_from op) (asset_id (tf_amount op)) c) \<ge> amount (tf_amount op)))))"

definition default_options :: account_options where
  "default_options = \<lparr>voting_account = GRAPHENE_PROXY_TO_SELF_ACCOUNT, num_miner = 0, votes = []\<rparr>"

definition receiving_account :: "externals \<Rightarrow> transfer_operation \<Rightarrow> chain \<Rightarrow> (nat \<times> chain) res" where
  \<comment> \<open>the account named by the key, created when there is none\<close>
  "receiving_account E op c =
     (let to_name = key_name E (tf_to op)
      in case find_account to_name c of
           Some (i, a) \<Rightarrow> Inr (i, c)
         | None \<Rightarrow>
             res_bind (verify_authority_accounts c (key_authority (tf_to op))) (\<lambda>_.
             res_bind (new_account (tf_from op) to_name (key_authority (tf_to op)) default_options c) (\<lambda>(_, c1).
             let c2 = count_registration c1
             in case find_account to_name c2 of
                  None \<Rightarrow> Inl Assert_Exception
                | Some (i, a) \<Rightarrow> Inr (i, c2))))"

definition transfer_do_apply :: "externals \<Rightarrow> nat \<Rightarrow> transfer_operation \<Rightarrow> chain \<Rightarrow> chain res" where
  "transfer_do_apply E tx op c =
     res_bind (receiving_account E op c) (\<lambda>(to, c1).
     res_bind (asset_neg (safe (nops E)) (tf_amount op)) (\<lambda>n.
     res_bind (adjust_balance (nops E) (tf_from op) n c1) (\<lambda>c2.
     res_bind (adjust_balance (nops E) to (tf_amount op) c2) (\<lambda>c3.
     add_detail \<lparr>m_operation_type = Detail_Transfer, m_from_account = tf_from op, m_to_account = to,
        m_from_name = [], m_to_name = [], m_transaction_amount = tf_amount op, m_transaction_fee = tf_fee op,
        m_str_description = ''transfer'', m_transaction_encrypted_memo = tf_memo op,
        m_timestamp = head_block_time c3, m_block_number = Some (head_block_num c3), m_tx_id = tx\<rparr> c3))))"

section \<open>Miners\<close>

definition miner_create_do_apply :: "miner_create_operation \<Rightarrow> chain \<Rightarrow> chain res" where
  "miner_create_do_apply op c =
     (case get_next_vote_id (gp_next_available_vote_id (c_global c)) vt_miner of
        (vid, next) \<Rightarrow>
          let c1 = c\<lparr>c_global := (c_global c)\<lparr>gp_next_available_vote_id := next\<rparr>\<rparr>
          in res_bind (tbl_create miner_clash
               \<lparr>mo_account = mc_miner_account op, mo_last_aslot = 0, mo_signing_key = mc_block_signing_key op,
                mo_pay_vb = None, mo_vote_id = vid, mo_total_votes = 0, mo_url = mc_url op, mo_total_missed = 0,
                mo_last_confirmed_block_num = 0\<rparr> (c_miners c1)) (\<lambda>(_, t).
             Inr (c1\<lparr>c_miners := t\<rparr>)))"

definition miner_update_do_evaluate :: "miner_update_operation \<Rightarrow> chain \<Rightarrow> unit res" where
  "miner_update_do_evaluate op c =
     res_bind (tbl_get (mu_miner op) (c_miners c)) (\<lambda>m. fc_assert (mo_account m = mu_miner_account op))"

definition updated_miner :: "miner_update_operation \<Rightarrow> miner_object \<Rightarrow> miner_object" where
  "updated_miner op m =
     (let m1 = (case mu_new_url op of None \<Rightarrow> m | Some u \<Rightarrow> m\<lparr>mo_url := u\<rparr>)
      in case mu_new_signing_key op of None \<Rightarrow> m1 | Some k \<Rightarrow> m1\<lparr>mo_signing_key := k\<rparr>)"

definition miner_update_do_apply :: "miner_update_operation \<Rightarrow> chain \<Rightarrow> chain res" where
  "miner_update_do_apply op c =
     res_bind (tbl_modify miner_clash (mu_miner op) (\<lambda>m. Inr (updated_miner op m)) (c_miners c)) (\<lambda>t.
     Inr (c\<lparr>c_miners := t\<rparr>))"

definition update_global_parameters_do_apply :: "miner_update_global_parameters_operation \<Rightarrow> chain \<Rightarrow> chain res" where
  "update_global_parameters_do_apply op c =
     Inr (c\<lparr>c_global := (c_global c)\<lparr>gp_pending_parameters := Some (gu_new_parameters op)\<rparr>\<rparr>)"

section \<open>Vesting balances\<close>

definition vesting_balance_create_do_evaluate :: "vesting_balance_create_operation \<Rightarrow> chain \<Rightarrow> unit res" where
  "vesting_balance_create_do_evaluate op c =
     res_bind (tbl_get (vc_creator op) (c_accounts c)) (\<lambda>_.
     res_bind (tbl_get (vc_owner op) (c_accounts c)) (\<lambda>_.
     res_bind (fc_assert (amount (vc_amount op) > 0)) (\<lambda>_.
     res_bind (asset_greater_eq (get_balance (vc_creator op) (asset_id (vc_amount op)) c) (vc_amount op)) fc_assert)))"

definition init_policy :: "vesting_policy_initializer \<Rightarrow> int \<Rightarrow> time \<Rightarrow> vesting_policy" where
  \<comment> \<open>\<open>init_policy_visitor\<close>\<close>
  "init_policy i init_balance now =
     (case i of
        Linear_Init b cl du \<Rightarrow> Linear \<lparr>begin_timestamp = b, vesting_cliff_seconds = cl, vesting_duration_seconds = du,
                                  begin_balance = init_balance\<rparr>
      | Cdd_Init st vs \<Rightarrow> Cdd \<lparr>vesting_seconds = vs, coin_seconds_earned = 0, start_claim = st,
                             coin_seconds_earned_last_update = now\<rparr>)"

definition vesting_balance_create_do_apply :: "externals \<Rightarrow> vesting_balance_create_operation \<Rightarrow> chain \<Rightarrow> chain res" where
  "vesting_balance_create_do_apply E op c =
     res_bind (res_bind (asset_greater_eq (get_balance (vc_creator op) (asset_id (vc_amount op)) c) (vc_amount op)) fc_assert) (\<lambda>_.
     res_bind (asset_neg (safe (nops E)) (vc_amount op)) (\<lambda>n.
     res_bind (adjust_balance (nops E) (vc_creator op) n c) (\<lambda>c1.
     res_bind (tbl_create no_clash
       \<lparr>vb_owner = vc_owner op, vb_balance = vc_amount op,
        vb_policy = init_policy (vc_policy op) (amount (vc_amount op)) (head_block_time c)\<rparr> (c_vesting c1)) (\<lambda>(_, t).
     Inr (c1\<lparr>c_vesting := t\<rparr>)))))"

definition vesting_balance_withdraw_do_evaluate :: "externals \<Rightarrow> vesting_balance_withdraw_operation \<Rightarrow> chain \<Rightarrow> unit res" where
  "vesting_balance_withdraw_do_evaluate E op c =
     res_bind (tbl_get (vw_vesting_balance op) (c_vesting c)) (\<lambda>vbo.
     res_bind (fc_assert (vw_owner op = vb_owner vbo)) (\<lambda>_.
     res_bind (res_bind (vb_withdraw_allowed (nops E) (head_block_time c) (vw_amount op) vbo) fc_assert) (\<lambda>_.
     res_bind (tbl_get (vw_owner op) (c_accounts c)) (\<lambda>_. Inr ()))))"

definition vesting_balance_withdraw_do_apply :: "externals \<Rightarrow> nat \<Rightarrow> vesting_balance_withdraw_operation \<Rightarrow> chain \<Rightarrow> chain res" where
  "vesting_balance_withdraw_do_apply E tx op c =
     res_bind (tbl_modify no_clash (vw_vesting_balance op)
       (vb_withdraw (nops E) (head_block_time c) (vw_amount op)) (c_vesting c)) (\<lambda>t.
     res_bind (add_detail \<lparr>m_operation_type = Detail_Withdraw, m_from_account = vw_owner op, m_to_account = vw_owner op,
        m_from_name = [], m_to_name = [], m_transaction_amount = vw_amount op, m_transaction_fee = vw_fee op,
        m_str_description = ''vesting balance withdraw'', m_transaction_encrypted_memo = None,
        m_timestamp = head_block_time c, m_block_number = Some (head_block_num c), m_tx_id = tx\<rparr> (c\<lparr>c_vesting := t\<rparr>)) (\<lambda>c1.
     adjust_balance (nops E) (vw_owner op) (vw_amount op) c1))"

end
