(* ===== verification/Confidential.thy ===== *)
theory Confidential
  imports Evaluators
begin

text \<open>
  The evaluators of blind and confidential transfers (\<open>confidential_evaluator.cpp\<close>).  Whether the
  commitments of an operation balance is checked by its validation (theory \<open>Operations\<close>); here the
  commitments are created, found, spent and removed, and the confidential supply follows the public
  amounts.
\<close>

definition accounts_exist :: "chain \<Rightarrow> authority \<Rightarrow> unit res" where
  "accounts_exist c a = res_fold (\<lambda>(acnt, w) _. res_bind (tbl_get acnt (c_accounts c)) (\<lambda>_. Inr ())) (account_auths a) ()"

definition change_confidential_supply :: "num_ops \<Rightarrow> asset_id \<Rightarrow> int \<Rightarrow> chain \<Rightarrow> chain res" where
  "change_confidential_supply ops a delta =
     modify_dynamic_data a (\<lambda>d.
       res_bind (safe ops (ad_confidential_supply d + delta)) (\<lambda>n.
       res_bind (fc_assert (n \<ge> 0)) (\<lambda>_. Inr (d\<lparr>ad_confidential_supply := n\<rparr>))))"

section \<open>Blind balances\<close>

definition find_blinded :: "commitment \<Rightarrow> chain \<Rightarrow> (nat \<times> blinded_balance) option" where
  \<comment> \<open>the index \<open>by_commitment\<close>\<close>
  "find_blinded k c = find (\<lambda>(i, b). bb_commitment b = k) (rows (c_blinded c))"

definition create_blinded :: "asset_id \<Rightarrow> blind_output \<Rightarrow> chain \<Rightarrow> chain res" where
  "create_blinded a x c =
     res_bind (tbl_create blinded_clash \<lparr>bb_commitment = bo_commitment x, bb_asset_id = a, bb_owner = bo_owner x\<rparr> (c_blinded c))
       (\<lambda>(_, t). Inr (c\<lparr>c_blinded := t\<rparr>))"

definition remove_blinded :: "error \<Rightarrow> blind_input \<Rightarrow> chain \<Rightarrow> chain res" where
  "remove_blinded missing x c =
     (case find_blinded (bi_commitment x) c of
        None \<Rightarrow> Inl missing
      | Some (i, _) \<Rightarrow> res_bind (tbl_remove i (c_blinded c)) (\<lambda>t. Inr (c\<lparr>c_blinded := t\<rparr>)))"

definition check_blind_input :: "error \<Rightarrow> asset_id \<Rightarrow> chain \<Rightarrow> blind_input \<Rightarrow> unit res" where
  "check_blind_input missing a c x =
     (case find_blinded (bi_commitment x) c of
        None \<Rightarrow> Inl missing
      | Some (_, b) \<Rightarrow> res_bind (fc_assert (bb_asset_id b = a)) (\<lambda>_. fc_assert (bb_owner b = bi_owner x)))"

definition transfer_to_blind_do_evaluate :: "transfer_to_blind_operation \<Rightarrow> chain \<Rightarrow> unit res" where
  "transfer_to_blind_do_evaluate op c = res_fold (\<lambda>x _. accounts_exist c (bo_owner x)) (tb_outputs op) ()"

definition transfer_to_blind_do_apply :: "num_ops \<Rightarrow> transfer_to_blind_operation \<Rightarrow> chain \<Rightarrow> chain res" where
  "transfer_to_blind_do_apply ops op c =
     res_bind (asset_neg (safe ops) (tb_amount op)) (\<lambda>n.
     res_bind (adjust_balance ops (tb_from op) n c) (\<lambda>c1.
     res_bind (change_confidential_supply ops (asset_id (tb_amount op)) (amount (tb_amount op)) c1) (\<lambda>c2.
     res_fold (create_blinded (asset_id (tb_amount op))) (tb_outputs op) c2)))"

definition transfer_from_blind_do_evaluate :: "transfer_from_blind_operation \<Rightarrow> chain \<Rightarrow> unit res" where
  "transfer_from_blind_do_evaluate op c =
     res_bind (tbl_get (asset_id (fb_fee op)) (c_assets c)) (\<lambda>_.
     res_fold (\<lambda>x _. check_blind_input Assert_Exception (asset_id (fb_fee op)) c x) (fb_inputs op) ())"

definition transfer_from_blind_do_apply :: "num_ops \<Rightarrow> transfer_from_blind_operation \<Rightarrow> chain \<Rightarrow> chain res" where
  "transfer_from_blind_do_apply ops op c =
     res_bind (adjust_balance ops GRAPHENE_TEMP_ACCOUNT (fb_fee op) c) (\<lambda>c1.
     res_bind (adjust_balance ops (fb_to op) (fb_amount op) c1) (\<lambda>c2.
     res_bind (res_fold (remove_blinded Assert_Exception) (fb_inputs op) c2) (\<lambda>c3.
     res_bind (safe ops (amount (fb_amount op) + amount (fb_fee op))) (\<lambda>n.
     change_confidential_supply ops (asset_id (fb_amount op)) (- n) c3))))"

definition blind_transfer_do_evaluate :: "blind_transfer_operation \<Rightarrow> chain \<Rightarrow> unit res" where
  "blind_transfer_do_evaluate op c =
     res_bind (tbl_get (asset_id (bt_fee op)) (c_assets c)) (\<lambda>_.
     res_bind (res_fold (\<lambda>x _. accounts_exist c (bo_owner x)) (bt_outputs op) ()) (\<lambda>_.
     res_fold (\<lambda>x _. check_blind_input Unknown_Commitment (asset_id (bt_fee op)) c x) (bt_inputs op) ()))"

definition blind_transfer_do_apply :: "num_ops \<Rightarrow> blind_transfer_operation \<Rightarrow> chain \<Rightarrow> chain res" where
  "blind_transfer_do_apply ops op c =
     res_bind (adjust_balance ops GRAPHENE_TEMP_ACCOUNT (bt_fee op) c) (\<lambda>c1.
     res_bind (res_fold (remove_blinded Unknown_Commitment) (bt_inputs op) c1) (\<lambda>c2.
     res_bind (res_fold (create_blinded (asset_id (bt_fee op))) (bt_outputs op) c2) (\<lambda>c3.
     change_confidential_supply ops (asset_id (bt_fee op)) (- amount (bt_fee op)) c3)))"

section \<open>Confidential transactions\<close>

definition extension_parts :: "confidential_tx_extension \<Rightarrow> bytes \<times> bytes" where
  \<comment> \<open>the range proof and the message\<close>
  "extension_parts x = (case x of Tx_X p m \<Rightarrow> (p, m) | Range_Proof p \<Rightarrow> (p, []) | No_Extension \<Rightarrow> ([], []))"

definition create_confidential :: "confidential_tx \<Rightarrow> chain \<Rightarrow> chain res" where
  "create_confidential x c =
     (case extension_parts (ct_extension x) of
        (p, m) \<Rightarrow>
          res_bind (tbl_create confidential_clash
            \<lparr>co_commitment = ct_commitment x, co_tx_key = ct_tx_key x, co_owner = ct_owner x, co_data = ct_data x,
             co_range_proof = p, co_message = m, co_unspent = True, co_timestamp = head_block_time c,
             co_block_number = head_block_num c\<rparr> (c_confidential c)) (\<lambda>(_, t).
          Inr (c\<lparr>c_confidential := t\<rparr>)))"

definition transfer_to_confidential_do_apply :: "num_ops \<Rightarrow> nat \<Rightarrow> transfer_to_confidential_operation \<Rightarrow> chain \<Rightarrow> chain res" where
  "transfer_to_confidential_do_apply ops tx op c =
     res_bind (tbl_get (asset_id (tc_amount op)) (c_assets c)) (\<lambda>_.
     res_bind (asset_neg (safe ops) (tc_amount op)) (\<lambda>n.
     res_bind (adjust_balance ops (tc_from op) n c) (\<lambda>c1.
     res_bind (change_confidential_supply ops (asset_id (tc_amount op)) (amount (tc_amount op)) c1) (\<lambda>c2.
     res_bind (res_fold (\<lambda>x c. res_bind (fc_assert (ct_commitment x \<noteq> 0)) (\<lambda>_. create_confidential x c)) (tc_outputs op) c2) (\<lambda>c3.
     add_detail \<lparr>m_operation_type = Detail_Confidential_Transfer, m_from_account = tc_from op,
        m_to_account = GRAPHENE_NULL_ACCOUNT, m_from_name = [], m_to_name = [], m_transaction_amount = tc_amount op,
        m_transaction_fee = tc_fee op, m_str_description = ''confidential transfer'', m_transaction_encrypted_memo = None,
        m_timestamp = head_block_time c3, m_block_number = Some (head_block_num c3), m_tx_id = tx\<rparr> c3)))))"

definition le_bytes :: "64 word \<Rightarrow> bytes" where
  "le_bytes w = map (\<lambda>i. ucast (drop_bit (8 * i) w)) [0..<8]"

definition public_tx :: "public_key \<times> asset \<Rightarrow> confidential_tx res" where
  \<comment> \<open>an address and an amount as an output with the null commitment\<close>
  "public_tx = (\<lambda>(k, a).
     res_bind (asset_unit (asset_id a)) (\<lambda>u.
     Inr \<lparr>ct_commitment = 0, ct_tx_key = k, ct_owner = k, ct_data = le_bytes (word_of_int (amount a)) @ le_bytes u,
          ct_extension = No_Extension\<rparr>))"

fun map_res :: "('a \<Rightarrow> 'b res) \<Rightarrow> 'a list \<Rightarrow> 'b list res" where
  "map_res f [] = Inr []"
| "map_res f (x # xs) = res_bind (f x) (\<lambda>y. res_bind (map_res f xs) (\<lambda>ys. Inr (y # ys)))"

definition find_confidential :: "commitment \<Rightarrow> chain \<Rightarrow> (nat \<times> confidential_tx_object) option" where
  "find_confidential k c = find (\<lambda>(i, x). co_commitment x = k) (rows (c_confidential c))"

definition spend_confidential :: "confidential_tx \<Rightarrow> chain \<Rightarrow> chain res" where
  "spend_confidential x c =
     (case find_confidential (ct_commitment x) c of
        None \<Rightarrow> Inl Unknown_Commitment
      | Some (i, o') \<Rightarrow>
          res_bind (fc_assert (co_unspent o')) (\<lambda>_.
          res_bind (tbl_modify confidential_clash i (\<lambda>v. Inr (v\<lparr>co_unspent := False, co_range_proof := []\<rparr>)) (c_confidential c)) (\<lambda>t.
          Inr (c\<lparr>c_confidential := t\<rparr>))))"

definition public_memo :: "confidential_tx_extension \<Rightarrow> memo_data option" where
  \<comment> \<open>\<open>memo_data::set_message\<close> with null keys: a zero checksum and the text\<close>
  "public_memo x =
     (case x of
        Tx_X _ m \<Rightarrow> Some \<lparr>memo_from = 0, memo_to = 0, memo_nonce = 0, memo_text = replicate 4 0 @ m\<rparr>
      | _ \<Rightarrow> None)"

definition pay_public_output :: "externals \<Rightarrow> nat \<Rightarrow> transfer_from_confidential_operation \<Rightarrow> confidential_tx \<Rightarrow> chain \<Rightarrow> chain res" where
  \<comment> \<open>when the address is not found, building the message of the assertion dereferences the end iterator\<close>
  "pay_public_output E tx op x c =
     (case find_account (key_name E (ct_owner x)) c of
        None \<Rightarrow> Inl Undefined_Behaviour
      | Some (to, _) \<Rightarrow>
          res_bind (public_output E (ct_data x)) (\<lambda>a.
          res_bind (adjust_balance (nops E) to a c) (\<lambda>c1.
          res_bind (change_confidential_supply (nops E) (asset_id (fc_fee op)) (- amount a) c1) (\<lambda>c2.
          add_detail \<lparr>m_operation_type = Detail_Confidential_Transfer, m_from_account = 0, m_to_account = to,
             m_from_name = key_name E (ct_tx_key x), m_to_name = key_name E (ct_owner x), m_transaction_amount = a,
             m_transaction_fee = \<lparr>amount = 0, asset_id = asset_id (fc_fee op)\<rparr>,
             m_str_description = ''confidential transfer'', m_transaction_encrypted_memo = public_memo (ct_extension x),
             m_timestamp = head_block_time c2, m_block_number = Some (head_block_num c2), m_tx_id = tx\<rparr> c2))))"

definition transfer_from_confidential_do_apply :: "externals \<Rightarrow> nat \<Rightarrow> transfer_from_confidential_operation \<Rightarrow> chain \<Rightarrow> chain res" where
  "transfer_from_confidential_do_apply E tx op c =
     res_bind (tbl_get (asset_id (fc_fee op)) (c_assets c)) (\<lambda>_.
     res_bind (map_res public_tx (zip (fc_to op) (fc_amount op))) (\<lambda>publics.
     res_bind (adjust_balance (nops E) GRAPHENE_TEMP_ACCOUNT \<lparr>amount = amount (fc_fee op), asset_id = 0\<rparr> c) (\<lambda>c1.
     res_bind (change_confidential_supply (nops E) (asset_id (fc_fee op)) (- amount (fc_fee op)) c1) (\<lambda>c2.
     res_bind (res_fold spend_confidential (fc_inputs op) c2) (\<lambda>c3.
     res_fold (\<lambda>x c. if ct_commitment x \<noteq> 0 then create_confidential x c else pay_public_output E tx op x c)
       (fc_outputs op @ publics) c3)))))"

end
