(* ===== verification/Transactions.thy ===== *)
theory Transactions
  imports Confidential
begin

text \<open>
  Proposals and transactions: the evaluators of \<open>proposal_evaluator.cpp\<close>, the execution of a
  proposal (\<open>database::push_proposal\<close>), the dispatch of operations
  (\<open>database::apply_operation\<close>) and of transactions (\<open>database::_apply_transaction\<close>).

  Executing a proposal applies its operations, one of which may be the update of a proposal that
  executes another: the recursion is on fuel, and \<^const>\<open>None\<close> is running out of it.

  An account that an authority names but that does not exist makes the code throw during the
  signature check; here the check of that account fails.  No stored authority names such an account,
  and one in an operation that does is rejected by the operation's evaluator.
\<close>

section \<open>Flags of the block processing\<close>

definition skip_miner_signature :: "32 word" where "skip_miner_signature = push_bit 0 1"
definition skip_transaction_signatures :: "32 word" where "skip_transaction_signatures = push_bit 1 1"
definition skip_transaction_dupe_check :: "32 word" where "skip_transaction_dupe_check = push_bit 2 1"
definition skip_tapos_check :: "32 word" where "skip_tapos_check = push_bit 5 1"
definition skip_authority_check :: "32 word" where "skip_authority_check = push_bit 6 1"

section \<open>Proposals\<close>

definition owner_of :: "chain \<Rightarrow> account \<Rightarrow> authority option" where
  "owner_of c a = map_option ao_owner (tbl_find a (c_accounts c))"

definition proposal_create_do_evaluate :: "externals \<Rightarrow> operation list \<Rightarrow> time \<Rightarrow> 32 word option \<Rightarrow> chain \<Rightarrow> unit res" where
  "proposal_create_do_evaluate E proposed_ops expiration_time review c =
     (let now = head_block_time c; params = gp_parameters (c_global c)
      in res_bind (fc_assert (expiration_time > now)) (\<lambda>_.
         res_bind (fc_assert (expiration_time \<le> now + maximum_proposal_lifetime params)) (\<lambda>_.
         res_bind (fc_assert (case review of None \<Rightarrow> True | Some r \<Rightarrow> uint r < elapsed expiration_time now)) (\<lambda>_.
         (case get_required_authorities operation_auths proposed_ops of
            (act, own, other) \<Rightarrow>
              res_bind (fc_assert (other = [])) (\<lambda>_.
              res_bind (if GRAPHENE_MINER_ACCOUNT \<in> set act \<union> set own
                        then (case review of
                                None \<Rightarrow> Inl Assert_Exception
                              | Some r \<Rightarrow> fc_assert (r \<ge> miner_proposal_review_period params))
                        else Inr ()) (\<lambda>_.
              transaction_validate E proposed_ops)))))))"

definition new_proposal :: "operation list \<Rightarrow> time \<Rightarrow> 32 word option \<Rightarrow> proposal_object" where
  "new_proposal proposed_ops expiration_time review =
     (case get_required_authorities operation_auths proposed_ops of
        (required_active, required_owner, other) \<Rightarrow>
          \<lparr>po_expiration_time = expiration_time,
           po_review_period_time = map_option (\<lambda>r. expiration_time - r) review,
           po_proposed_transaction = \<lparr>tr_ref_block_num = 0, tr_ref_block_prefix = 0, tr_expiration = expiration_time,
             tr_operations = proposed_ops\<rparr>,
           po_required_active_approvals = filter (\<lambda>a. a \<notin> set required_owner) required_active,
           po_available_active_approvals = [], po_required_owner_approvals = required_owner,
           po_available_owner_approvals = [], po_available_key_approvals = []\<rparr>)"

definition proposal_create_do_apply :: "operation list \<Rightarrow> time \<Rightarrow> 32 word option \<Rightarrow> chain \<Rightarrow> chain res" where
  "proposal_create_do_apply proposed_ops expiration_time review c =
     res_bind (tbl_create no_clash (new_proposal proposed_ops expiration_time review) (c_proposals c)) (\<lambda>(_, t).
     Inr (c\<lparr>c_proposals := t\<rparr>))"

definition proposal_update_do_evaluate :: "proposal_update_operation \<Rightarrow> chain \<Rightarrow> unit res" where
  "proposal_update_do_evaluate op c =
     res_bind (tbl_get (pu_proposal op) (c_proposals c)) (\<lambda>p.
     res_bind (case po_review_period_time p of
                 None \<Rightarrow> Inr ()
               | Some t \<Rightarrow> if head_block_time c \<ge> t
                           then fc_assert (active_approvals_to_add op = [] \<and> owner_approvals_to_add op = []) else Inr ()) (\<lambda>_.
     res_bind (fc_assert (set (active_approvals_to_remove op) \<subseteq> set (po_available_active_approvals p))) (\<lambda>_.
     fc_assert (set (owner_approvals_to_remove op) \<subseteq> set (po_available_owner_approvals p)))))"

definition change_approvals :: "'a::linorder list \<Rightarrow> 'a list \<Rightarrow> 'a list \<Rightarrow> 'a list" where
  "change_approvals added removed available = fold removeAll removed (fold insort_insert added available)"

definition updated_proposal :: "proposal_update_operation \<Rightarrow> proposal_object \<Rightarrow> proposal_object" where
  "updated_proposal op p =
     p\<lparr>po_available_active_approvals :=
         change_approvals (active_approvals_to_add op) (active_approvals_to_remove op) (po_available_active_approvals p),
       po_available_owner_approvals :=
         change_approvals (owner_approvals_to_add op) (owner_approvals_to_remove op) (po_available_owner_approvals p),
       po_available_key_approvals :=
         change_approvals (key_approvals_to_add op) (key_approvals_to_remove op) (po_available_key_approvals p)\<rparr>"

definition is_authorized_to_execute :: "chain \<Rightarrow> proposal_object \<Rightarrow> bool" where
  "is_authorized_to_execute c p =
     is_ok (verify_authority operation_auths (tr_operations (po_proposed_transaction p)) (po_available_key_approvals p)
       (owner_of c) (owner_of c) (unat (max_authority_depth (gp_parameters (c_global c)))) True
       (po_available_active_approvals p) (po_available_owner_approvals p))"

definition proposal_update_do_apply :: "(nat \<Rightarrow> chain \<Rightarrow> chain run) \<Rightarrow> proposal_update_operation \<Rightarrow> chain \<Rightarrow> chain run" where
  \<comment> \<open>\<open>push\<close> executes a proposal; its exceptions are caught and its changes undone\<close>
  "proposal_update_do_apply push op c =
     run_bind (Some (tbl_modify no_clash (pu_proposal op) (\<lambda>p. Inr (updated_proposal op p)) (c_proposals c))) (\<lambda>t.
     let c1 = c\<lparr>c_proposals := t\<rparr>
     in run_bind (Some (tbl_get (pu_proposal op) t)) (\<lambda>p.
        if po_review_period_time p \<noteq> None then Some (Inr c1)
        else if is_authorized_to_execute c1 p
        then (case push (pu_proposal op) c1 of
                None \<Rightarrow> None
              | Some (Inr c2) \<Rightarrow> Some (Inr c2)
              | Some (Inl e) \<Rightarrow> Some (if e = Undefined_Behaviour then Inl e else Inr c1))
        else Some (Inr c1)))"

definition proposal_delete_do_evaluate :: "proposal_delete_operation \<Rightarrow> chain \<Rightarrow> unit res" where
  "proposal_delete_do_evaluate op c =
     res_bind (tbl_get (pd_proposal op) (c_proposals c)) (\<lambda>p.
     fc_assert (pd_fee_paying_account op \<in>
       set (if pd_using_owner_authority op then po_required_owner_approvals p else po_required_active_approvals p)))"

definition proposal_delete_do_apply :: "proposal_delete_operation \<Rightarrow> chain \<Rightarrow> chain res" where
  "proposal_delete_do_apply op c =
     res_bind (tbl_remove (pd_proposal op) (c_proposals c)) (\<lambda>t. Inr (c\<lparr>c_proposals := t\<rparr>))"

section \<open>Operations\<close>

fun evaluate_op :: "externals \<Rightarrow> eval_flags \<Rightarrow> operation \<Rightarrow> chain \<Rightarrow> unit res" where
  \<comment> \<open>\<open>do_evaluate\<close> of the evaluator registered for the operation\<close>
  "evaluate_op E fl (Transfer op) c = transfer_do_evaluate op c"
| "evaluate_op E fl (Account_Create op) c = account_create_do_evaluate E op c"
| "evaluate_op E fl (Account_Update op) c = account_update_do_evaluate op c"
| "evaluate_op E fl (Miner_Create op) c = Inr ()"
| "evaluate_op E fl (Miner_Update op) c = miner_update_do_evaluate op c"
| "evaluate_op E fl (Miner_Update_Global_Parameters op) c = fc_assert (is_proposed_trx fl)"
| "evaluate_op E fl (Proposal_Create fee payer ops expiration_time review) c = proposal_create_do_evaluate E ops expiration_time review c"
| "evaluate_op E fl (Proposal_Update op) c = proposal_update_do_evaluate op c"
| "evaluate_op E fl (Proposal_Delete op) c = proposal_delete_do_evaluate op c"
| "evaluate_op E fl (Set_Transfer_Freeze_Block op) c = set_transfer_freeze_block_do_evaluate E op c"
| "evaluate_op E fl (Vesting_Balance_Create op) c = vesting_balance_create_do_evaluate op c"
| "evaluate_op E fl (Vesting_Balance_Withdraw op) c = vesting_balance_withdraw_do_evaluate E op c"
| "evaluate_op E fl (Transfer_To_Blind op) c = transfer_to_blind_do_evaluate op c"
| "evaluate_op E fl (Blind_Transfer op) c = blind_transfer_do_evaluate op c"
| "evaluate_op E fl (Transfer_From_Blind op) c = transfer_from_blind_do_evaluate op c"
| "evaluate_op E fl (Transfer_To_Confidential op) c = Inr ()"
| "evaluate_op E fl (Transfer_From_Confidential op) c = Inr ()"
| "evaluate_op E fl (Rfu_Operation n fee) c = Inl Assert_Exception"

fun do_apply_op :: "externals \<Rightarrow> (nat \<Rightarrow> chain \<Rightarrow> chain run) \<Rightarrow> nat \<Rightarrow> operation \<Rightarrow> chain \<Rightarrow> chain run" where
  \<comment> \<open>\<open>do_apply\<close> of the evaluator registered for the operation\<close>
  "do_apply_op E push tx (Transfer op) c = Some (transfer_do_apply E tx op c)"
| "do_apply_op E push tx (Account_Create op) c = Some (account_create_do_apply E tx op c)"
| "do_apply_op E push tx (Account_Update op) c = Some (account_update_do_apply op c)"
| "do_apply_op E push tx (Miner_Create op) c = Some (miner_create_do_apply op c)"
| "do_apply_op E push tx (Miner_Update op) c = Some (miner_update_do_apply op c)"
| "do_apply_op E push tx (Miner_Update_Global_Parameters op) c = Some (update_global_parameters_do_apply op c)"
| "do_apply_op E push tx (Proposal_Create fee payer ops expiration_time review) c =
     Some (proposal_create_do_apply ops expiration_time review c)"
| "do_apply_op E push tx (Proposal_Update op) c = proposal_update_do_apply push op c"
| "do_apply_op E push tx (Proposal_Delete op) c = Some (proposal_delete_do_apply op c)"
| "do_apply_op E push tx (Set_Transfer_Freeze_Block op) c = Some (set_transfer_freeze_block_do_apply op c)"
| "do_apply_op E push tx (Vesting_Balance_Create op) c = Some (vesting_balance_create_do_apply E op c)"
| "do_apply_op E push tx (Vesting_Balance_Withdraw op) c = Some (vesting_balance_withdraw_do_apply E tx op c)"
| "do_apply_op E push tx (Transfer_To_Blind op) c = Some (transfer_to_blind_do_apply (nops E) op c)"
| "do_apply_op E push tx (Blind_Transfer op) c = Some (blind_transfer_do_apply (nops E) op c)"
| "do_apply_op E push tx (Transfer_From_Blind op) c = Some (transfer_from_blind_do_apply (nops E) op c)"
| "do_apply_op E push tx (Transfer_To_Confidential op) c = Some (transfer_to_confidential_do_apply (nops E) tx op c)"
| "do_apply_op E push tx (Transfer_From_Confidential op) c = Some (transfer_from_confidential_do_apply E tx op c)"
| "do_apply_op E push tx (Rfu_Operation n fee) c = Some (Inl Assert_Exception)"

fun run_ops :: "(operation \<Rightarrow> chain \<Rightarrow> chain run) \<Rightarrow> nat option \<Rightarrow> operation list \<Rightarrow> chain \<Rightarrow> chain run" where
  \<comment> \<open>applies operations in order; those of a proposal are read from the proposal, which must still be
      there after each of them\<close>
  "run_ops f source [] c = Some (Inr c)"
| "run_ops f source (x # xs) c =
     run_bind (f x c) (\<lambda>c1.
     case source of
       None \<Rightarrow> run_ops f source xs c1
     | Some p \<Rightarrow> if tbl_find p (c_proposals c1) = None then Some (Inl Undefined_Behaviour) else run_ops f source xs c1)"

definition push_proposal :: "externals \<Rightarrow> (eval_flags \<Rightarrow> nat \<Rightarrow> operation \<Rightarrow> chain \<Rightarrow> chain run) \<Rightarrow> nat \<Rightarrow> chain \<Rightarrow> chain run" where
  "push_proposal E apply_op p c =
     run_bind (Some (tbl_get p (c_proposals c))) (\<lambda>prop.
     let trx = po_proposed_transaction prop;
         fl = \<lparr>skip_fee = False, skip_fee_schedule_check = False, is_proposed_trx = True\<rparr>
     in run_bind (run_ops (apply_op fl (trx_id E trx)) (Some p) (tr_operations trx) c) (\<lambda>c1.
        Some (res_bind (tbl_remove p (c_proposals c1)) (\<lambda>t. Inr (c1\<lparr>c_proposals := t\<rparr>)))))"

primrec apply_operation :: "externals \<Rightarrow> nat \<Rightarrow> eval_flags \<Rightarrow> nat \<Rightarrow> operation \<Rightarrow> chain \<Rightarrow> chain run" where
  "apply_operation E 0 fl tx op c = None"
| "apply_operation E (Suc n) fl tx op c =
     run_evaluator E fl op (evaluate_op E fl op) (do_apply_op E (push_proposal E (apply_operation E n)) tx op) c"

section \<open>Transactions\<close>

definition signature_keys :: "externals \<Rightarrow> signed_transaction \<Rightarrow> public_key list res" where
  "signature_keys E trx = get_signature_keys (trx_signer E) (transaction.truncate trx) (tr_signatures trx)"

definition verify_transaction_authority :: "externals \<Rightarrow> signed_transaction \<Rightarrow> chain \<Rightarrow> unit res" where
  \<comment> \<open>\<open>signed_transaction::verify_authority\<close>\<close>
  "verify_transaction_authority E trx c =
     res_bind (signature_keys E trx) (\<lambda>keys.
     verify_authority operation_auths (tr_operations trx) keys (owner_of c) (owner_of c)
       (unat (max_authority_depth (gp_parameters (c_global c)))) False [] [])"

definition check_tapos :: "32 word \<Rightarrow> signed_transaction \<Rightarrow> chain \<Rightarrow> unit res" where
  \<comment> \<open>the reference to a recent block and the expiration\<close>
  "check_tapos skip trx c =
     (if head_block_num c > 0
      then res_bind (if skip AND skip_tapos_check = 0
                     then res_bind (tbl_get (unat (tr_ref_block_num trx)) (c_block_summaries c)) (\<lambda>b.
                          case b of Hash160 h0 h1 h2 h3 h4 \<Rightarrow> fc_assert (tr_ref_block_prefix trx = h1))
                     else Inr ()) (\<lambda>_.
           let now = head_block_time c
           in res_bind (fc_assert (tr_expiration trx \<le> now + maximum_time_until_expiration (gp_parameters (c_global c)))) (\<lambda>_.
              fc_assert (now \<le> tr_expiration trx)))
      else Inr ())"

definition temp_account_empty :: "chain \<Rightarrow> unit res" where
  "temp_account_empty c =
     fc_assert (\<forall>(i, b) \<in> set (rows (c_balances c)). ab_owner b = GRAPHENE_TEMP_ACCOUNT \<longrightarrow> ab_balance b = 0)"

definition apply_transaction :: "externals \<Rightarrow> nat \<Rightarrow> 32 word \<Rightarrow> signed_transaction \<Rightarrow> chain \<Rightarrow> chain run" where
  \<comment> \<open>\<open>_apply_transaction\<close> under the flags \<open>skip\<close>, with fuel for the proposals it executes\<close>
  "apply_transaction E n skip trx c =
     (let tx = trx_id E (transaction.truncate trx);
          fl = \<lparr>skip_fee = False, skip_fee_schedule_check = False, is_proposed_trx = False\<rparr>
      in run_bind (Some (
           res_bind (transaction_validate E (tr_operations trx)) (\<lambda>_.
           res_bind (fc_assert (skip AND skip_transaction_dupe_check \<noteq> 0 \<or>
              (\<forall>(i, t) \<in> set (rows (c_transactions c)). to_trx_id t \<noteq> tx))) (\<lambda>_.
           res_bind (if skip AND (skip_transaction_signatures OR skip_authority_check) = 0
                     then verify_transaction_authority E trx c else Inr ()) (\<lambda>_.
           res_bind (check_tapos skip trx c) (\<lambda>_.
           if skip AND skip_transaction_dupe_check = 0
           then res_bind (tbl_create transaction_clash \<lparr>to_trx_id = tx, to_trx = trx\<rparr> (c_transactions c)) (\<lambda>(_, t).
                Inr (c\<lparr>c_transactions := t\<rparr>))
           else Inr c))))) ) (\<lambda>c1.
         run_bind (run_ops (apply_operation E n fl tx) None (tr_operations trx) c1) (\<lambda>c2.
         Some (res_bind (temp_account_empty c2) (\<lambda>_. Inr c2)))))"

end
