(* ===== verification/Books.thy ===== *)
theory Books
  imports Transactions
begin

text \<open>
  What the chain holds of each asset: liquid and vesting balances, the confidential supply and the
  accumulated fees.  \<open>moved c m c'\<close> says that a computation took the state \<open>c\<close> to \<open>c'\<close>,
  changing what is held of each asset \<open>a\<close> by \<open>m a\<close>, keeping the indexes well formed, no balance
  negative, and everything else that the monetary policy depends on; each step of the evaluators
  has a lemma of this form.
\<close>

section \<open>Accounting\<close>

definition liquid_of :: "asset_id \<Rightarrow> chain \<Rightarrow> int" where
  "liquid_of a c = tbl_sum (\<lambda>b. if ab_asset_type b = a then ab_balance b else 0) (c_balances c)"

definition vesting_of :: "asset_id \<Rightarrow> chain \<Rightarrow> int" where
  "vesting_of a c = tbl_sum (\<lambda>v. if asset_id (vb_balance v) = a then amount (vb_balance v) else 0) (c_vesting c)"

definition data_of :: "asset_id \<Rightarrow> chain \<Rightarrow> asset_dynamic_data option" where
  "data_of a c =
     Option.bind (tbl_find a (c_assets c)) (\<lambda>x. tbl_find (as_dynamic_data x) (c_asset_data c))"

definition public_data :: "asset_dynamic_data \<Rightarrow> int" where
  "public_data d = ad_confidential_supply d + ad_accumulated_fees d"

definition held :: "asset_id \<Rightarrow> chain \<Rightarrow> int" where
  "held a c = liquid_of a c + vesting_of a c + (case data_of a c of None \<Rightarrow> 0 | Some d \<Rightarrow> public_data d)"

definition supply_of :: "asset_id \<Rightarrow> chain \<Rightarrow> int option" where
  "supply_of a c = map_option ad_current_supply (data_of a c)"

definition own_data :: "asset_object table \<Rightarrow> bool" where
  \<comment> \<open>no two assets share their dynamic data\<close>
  "own_data t \<longleftrightarrow> (\<forall>(a, x) \<in> set (rows t). \<forall>(b, y) \<in> set (rows t).
     as_dynamic_data x = as_dynamic_data y \<longrightarrow> a = b)"

definition chain_ok :: "chain \<Rightarrow> bool" where
  "chain_ok c \<longleftrightarrow>
     index_ok account_clash (c_accounts c) \<and> index_ok no_clash (c_statistics c) \<and>
     index_ok balance_clash (c_balances c) \<and> index_ok no_clash (c_vesting c) \<and>
     index_ok miner_clash (c_miners c) \<and> index_ok asset_clash (c_assets c) \<and> index_ok no_clash (c_asset_data c) \<and>
     index_ok no_clash (c_details c) \<and> index_ok no_clash (c_proposals c) \<and>
     index_ok transaction_clash (c_transactions c) \<and> index_ok blinded_clash (c_blinded c) \<and>
     index_ok confidential_clash (c_confidential c) \<and> own_data (c_assets c)"

definition no_debts :: "chain \<Rightarrow> bool" where
  "no_debts c \<longleftrightarrow> (\<forall>(i, b) \<in> set (rows (c_balances c)). 0 \<le> ab_balance b)"

definition budget_of :: "chain \<Rightarrow> dynamic_properties" where
  "budget_of c = (c_dynamic c)\<lparr>dp_accounts_registered_this_interval := 0\<rparr>"

definition moved :: "chain \<Rightarrow> (asset_id \<Rightarrow> int) \<Rightarrow> chain \<Rightarrow> bool" where
  "moved c m c' \<longleftrightarrow> chain_ok c' \<and> (\<forall>a. held a c' = held a c + m a) \<and> (no_debts c \<longrightarrow> no_debts c') \<and>
     c_proposals c' = c_proposals c \<and> c_assets c' = c_assets c \<and> (\<forall>a. supply_of a c' = supply_of a c) \<and>
     budget_of c' = budget_of c"

definition only :: "asset_id \<Rightarrow> int \<Rightarrow> asset_id \<Rightarrow> int" where
  "only a n = (\<lambda>b. if b = a then n else 0)"

abbreviation nothing :: "asset_id \<Rightarrow> int" where "nothing \<equiv> (\<lambda>_. 0)"

lemma only_0 [simp]: "only a 0 = nothing"
  by (simp add: only_def)

lemma moved_refl: "chain_ok c \<Longrightarrow> moved c nothing c"
  by (simp add: moved_def)

lemma moved_trans: "moved c m c1 \<Longrightarrow> moved c1 m' c2 \<Longrightarrow> moved c (\<lambda>a. m a + m' a) c2"
  by (simp add: moved_def add.assoc)

lemma moved_nothing_left: "moved c nothing c1 \<Longrightarrow> moved c1 m c2 \<Longrightarrow> moved c m c2"
  and moved_nothing_right: "moved c m c1 \<Longrightarrow> moved c1 nothing c2 \<Longrightarrow> moved c m c2"
  by (auto simp: moved_def)

lemma moved_ok: "moved c m c' \<Longrightarrow> chain_ok c'"
  by (simp add: moved_def)

lemma moved_fold:
  assumes "res_fold f xs c = Inr c'" and "chain_ok c"
    and "\<And>x c c'. x \<in> set xs \<Longrightarrow> chain_ok c \<Longrightarrow> f x c = Inr c' \<Longrightarrow> moved c nothing c'"
  shows "moved c nothing c'"
proof (rule res_fold_invariant [OF assms(1), where P = "\<lambda>s. moved c nothing s"])
  show "moved c nothing c" using assms(2) by (rule moved_refl)
  show "moved c nothing s'" if "x \<in> set xs" "moved c nothing s" "f x s = Inr s'" for x s s'
    using that assms(3) moved_ok moved_nothing_right by blast
qed

section \<open>Steps that leave the books alone\<close>

lemma same_books:
  \<comment> \<open>changes of the other tables and of the count of registrations\<close>
  assumes "chain_ok c'" and "c_balances c' = c_balances c" and "c_vesting c' = c_vesting c"
    and "c_assets c' = c_assets c" and "c_asset_data c' = c_asset_data c" and "c_proposals c' = c_proposals c"
    and "budget_of c' = budget_of c"
  shows "moved c nothing c'"
proof -
  have "data_of a c' = data_of a c" for a using assms by (simp add: data_of_def)
  then show ?thesis using assms by (simp add: moved_def held_def liquid_of_def vesting_of_def supply_of_def no_debts_def)
qed

lemma chain_ok_parts:
  assumes "chain_ok c"
  shows "index_ok account_clash (c_accounts c)" "index_ok no_clash (c_statistics c)" "index_ok balance_clash (c_balances c)"
    "index_ok no_clash (c_vesting c)" "index_ok miner_clash (c_miners c)" "index_ok asset_clash (c_assets c)"
    "index_ok no_clash (c_asset_data c)" "index_ok no_clash (c_details c)" "index_ok no_clash (c_proposals c)"
    "index_ok transaction_clash (c_transactions c)" "index_ok blinded_clash (c_blinded c)"
    "index_ok confidential_clash (c_confidential c)" "own_data (c_assets c)"
  using assms by (simp_all add: chain_ok_def)

lemma add_detail_moved: "chain_ok c \<Longrightarrow> add_detail d c = Inr c' \<Longrightarrow> moved c nothing c'"
  using plain.create_keeps by (intro same_books) (auto simp: add_detail_def res_simps chain_ok_def budget_of_def)

lemma count_registration_moved: "chain_ok c \<Longrightarrow> moved c nothing (count_registration c)"
  by (intro same_books) (auto simp: count_registration_def chain_ok_def budget_of_def)

lemma new_account_moved: "chain_ok c \<Longrightarrow> new_account reg name owner opts c = Inr (i, c') \<Longrightarrow> moved c nothing c'"
  using plain.create_keeps accounts.create_keeps
  by (intro same_books) (auto simp: new_account_def res_simps chain_ok_def budget_of_def)

lemma create_blinded_moved: "chain_ok c \<Longrightarrow> create_blinded a x c = Inr c' \<Longrightarrow> moved c nothing c'"
  using blinded.create_keeps
  by (intro same_books) (auto simp: create_blinded_def res_simps chain_ok_def budget_of_def)

lemma remove_blinded_moved: "chain_ok c \<Longrightarrow> remove_blinded e x c = Inr c' \<Longrightarrow> moved c nothing c'"
  using blinded.remove_keeps
  by (intro same_books) (auto simp: remove_blinded_def res_simps chain_ok_def budget_of_def split: option.splits)

lemma create_confidential_moved: "chain_ok c \<Longrightarrow> create_confidential x c = Inr c' \<Longrightarrow> moved c nothing c'"
  using confidential.create_keeps
  by (intro same_books) (auto simp: create_confidential_def res_simps chain_ok_def budget_of_def split: prod.splits)

lemma spend_confidential_moved: "chain_ok c \<Longrightarrow> spend_confidential x c = Inr c' \<Longrightarrow> moved c nothing c'"
  using confidential.modify_keeps
  by (intro same_books) (auto simp: spend_confidential_def res_simps chain_ok_def budget_of_def split: option.splits)

lemma receiving_account_moved:
  assumes "chain_ok c" and "receiving_account E op c = Inr (i, c')"
  shows "moved c nothing c'"
proof (cases "find_account (key_name E (tf_to op)) c")
  case None
  then obtain j c1 where new: "new_account (tf_from op) (key_name E (tf_to op)) (key_authority (tf_to op)) default_options c = Inr (j, c1)"
    and c': "c' = count_registration c1"
    using assms(2) by (auto simp: receiving_account_def Let_def res_simps split: option.splits)
  show ?thesis
    unfolding c' by (rule moved_nothing_left [OF new_account_moved [OF assms(1) new]])
      (rule count_registration_moved [OF moved_ok [OF new_account_moved [OF assms(1) new]]])
next
  case (Some ia)
  then show ?thesis using assms moved_refl by (auto simp: receiving_account_def split: prod.splits)
qed

section \<open>Steps that move amounts\<close>

lemma find_balanceD:
  assumes "find_balance who a c = Some (i, b)" and "tbl_ok (c_balances c)"
  shows "tbl_find i (c_balances c) = Some b" and "ab_owner b = who" and "ab_asset_type b = a"
proof -
  have "(i, b) \<in> set (rows (c_balances c)) \<and> ab_owner b = who \<and> ab_asset_type b = a"
    using assms(1) by (auto simp: find_balance_def find_Some_iff) (metis nth_mem)
  then show "tbl_find i (c_balances c) = Some b" and "ab_owner b = who" and "ab_asset_type b = a"
    using assms(2) by (auto simp: tbl_find_iff)
qed

lemma asset_greater_eq_iff:
  "asset_id a = asset_id b \<Longrightarrow> asset_greater_eq a b = Inr (amount b \<le> amount a)"
  by (simp add: asset_greater_eq_def asset_less_def not_less)

lemma adjust_balance_cases:
  assumes "num_ops_ok ops" and "tbl_ok (c_balances c)" and "adjust_balance ops who d c = Inr c'"
  obtains (zero) "amount d = 0" and "c' = c"
  | (create) t i where "0 < amount d" and "find_balance who (asset_id d) c = None" and "c' = c\<lparr>c_balances := t\<rparr>"
      and "tbl_create balance_clash \<lparr>ab_owner = who, ab_asset_type = asset_id d, ab_balance = amount d, ab_vote_power = 0,
             ab_casted_vote = make_vote_id vt_miner (- 1)\<rparr> (c_balances c) = Inr (i, t)"
  | (change) t i b where "find_balance who (asset_id d) c = Some (i, b)" and "tbl_find i (c_balances c) = Some b"
      and "c' = c\<lparr>c_balances := t\<rparr>" and "tbl_modify balance_clash i (balance_adjust ops d) (c_balances c) = Inr t"
      and "balance_adjust ops d b = Inr (b\<lparr>ab_balance := ab_balance b + amount d\<rparr>)" and "ab_owner b = who"
      and "ab_asset_type b = asset_id d" and "amount d < 0 \<longrightarrow> 0 \<le> ab_balance b + amount d"
proof (cases "amount d = 0")
  case True
  then show thesis using zero assms(3) by (simp add: adjust_balance_def)
next
  case False
  note sf = safe_intD [OF num_ops_okD(1) [OF assms(1)]]
  show thesis
  proof (cases "find_balance who (asset_id d) c")
    case None
    then show thesis using False assms(3) by (auto simp: adjust_balance_def res_simps intro: create)
  next
    case (Some ib)
    obtain i b where ib: "ib = (i, b)" by (cases ib)
    note fb = find_balanceD [OF Some [unfolded ib] assms(2)]
    obtain t where mod: "tbl_modify balance_clash i (balance_adjust ops d) (c_balances c) = Inr t" and c': "c' = c\<lparr>c_balances := t\<rparr>"
      and enough: "amount d < 0 \<longrightarrow> - amount d \<le> ab_balance b"
      using assms(3) False Some ib fb(3)
      by (auto simp: adjust_balance_def asset_neg_def asset_greater_eq_iff sf res_simps split: if_splits)
    obtain v where "balance_adjust ops d b = Inr v" using mod fb(1) by (auto elim: tbl_modifyD)
    then have "balance_adjust ops d b = Inr (b\<lparr>ab_balance := ab_balance b + amount d\<rparr>)"
      by (auto simp: balance_adjust_def sf res_simps)
    moreover have "amount d < 0 \<longrightarrow> 0 \<le> ab_balance b + amount d" using enough by auto
    ultimately show thesis using change [OF Some [unfolded ib] fb(1) c' mod] fb(2,3) by blast
  qed
qed

lemma only_balances:
  assumes "chain_ok c" and "c' = c\<lparr>c_balances := t\<rparr>" and "index_ok balance_clash t"
    and "\<And>a. tbl_sum (\<lambda>b. if ab_asset_type b = a then ab_balance b else 0) t = liquid_of a c + m a"
    and "no_debts c \<Longrightarrow> no_debts c'"
  shows "moved c m c'"
proof -
  have "data_of a c' = data_of a c" for a by (simp add: data_of_def assms(2))
  then show ?thesis
    using assms by (simp add: moved_def chain_ok_def held_def liquid_of_def vesting_of_def supply_of_def budget_of_def)
qed

lemma adjust_balance_moved:
  assumes "num_ops_ok ops" and "chain_ok c" and "adjust_balance ops who d c = Inr c'"
  shows "moved c (only (asset_id d) (amount d)) c'"
proof -
  let ?g = "\<lambda>a b. if ab_asset_type b = a then ab_balance b else 0"
  note ix = chain_ok_parts(3) [OF assms(2)]
  from assms(1) index_okD(1) [OF ix] assms(3) show ?thesis
  proof (cases rule: adjust_balance_cases)
    case zero
    then show ?thesis using moved_refl [OF assms(2)] by simp
  next
    case (create t i)
    show ?thesis
    proof (rule only_balances [OF assms(2) create(3)])
      show "index_ok balance_clash t" by (rule balances.create_keeps [OF ix create(4)])
      show "tbl_sum (?g a) t = liquid_of a c + only (asset_id d) (amount d) a" for a
        using tbl_sum_create [OF create(4), of "?g a"] by (auto simp: liquid_of_def only_def)
      show "no_debts c'" if "no_debts c"
        using that tbl_createD(2) [OF create(4)] create(1,3) by (auto simp: no_debts_def)
    qed
  next
    case (change t i b)
    let ?b' = "b\<lparr>ab_balance := ab_balance b + amount d\<rparr>"
    have t: "rows t = map (\<lambda>(j, w). (j, if j = i then ?b' else w)) (rows (c_balances c))"
      using change(2,4,5) by (auto elim: tbl_modifyD)
    have b: "(i, b) \<in> set (rows (c_balances c))" using change(2) by (auto simp: tbl_find_def dest: map_of_SomeD)
    have nd: "no_debts c'" if "no_debts c"
    proof -
      have old: "0 \<le> ab_balance w" if "(j, w) \<in> set (rows (c_balances c))" for j w
        using that \<open>no_debts c\<close> by (auto simp: no_debts_def)
      have "0 \<le> ab_balance ?b'" using change(8) old [OF b] by (cases "amount d < 0") auto
      then show ?thesis using old by (auto simp: change(3) t no_debts_def split: if_splits)
    qed
    show ?thesis
    proof (rule only_balances [OF assms(2) change(3)])
      show "index_ok balance_clash t" by (rule balances.modify_keeps [OF ix change(4)])
      show "tbl_sum (?g a) t = liquid_of a c + only (asset_id d) (amount d) a" for a
        using tbl_sum_modify [OF change(4) index_okD(1) [OF ix] change(2,5), of "?g a"] change(7)
        by (auto simp: liquid_of_def only_def)
    qed (rule nd)
  qed
qed

lemma own_dataD:
  assumes "own_data t" and "tbl_ok t" and "tbl_find a t = Some x" and "tbl_find b t = Some y"
    and "as_dynamic_data x = as_dynamic_data y"
  shows "a = b"
proof -
  have "(a, x) \<in> set (rows t)" "(b, y) \<in> set (rows t)" using assms(2-4) by (simp_all add: tbl_find_iff)
  then show ?thesis using assms(1,5) unfolding own_data_def by blast
qed

lemma data_of_modify:
  assumes "chain_ok c" and "tbl_find a (c_assets c) = Some x"
    and "tbl_modify no_clash (as_dynamic_data x) f (c_asset_data c) = Inr t"
  obtains d d' where "data_of a c = Some d" and "f d = Inr d'"
    and "\<And>b. data_of b (c\<lparr>c_asset_data := t\<rparr>) = (if b = a then Some d' else data_of b c)"
proof -
  note ok = chain_ok_parts [OF assms(1)]
  obtain d d' where d: "tbl_find (as_dynamic_data x) (c_asset_data c) = Some d" "f d = Inr d'"
    using assms(3) by (rule tbl_modifyD)
  have "data_of b (c\<lparr>c_asset_data := t\<rparr>) = (if b = a then Some d' else data_of b c)" for b
  proof (cases "tbl_find b (c_assets c)")
    case (Some y)
    have "as_dynamic_data y = as_dynamic_data x \<longleftrightarrow> b = a"
      using own_dataD [OF ok(13) index_okD(1) [OF ok(6)] Some assms(2)] Some assms(2) by auto
    then show ?thesis using Some by (simp add: data_of_def tbl_find_modify [OF assms(3) d])
  qed (use assms(2) in \<open>auto simp: data_of_def\<close>)
  moreover have "data_of a c = Some d" using assms(2) d by (simp add: data_of_def)
  ultimately show thesis using that d(2) by blast
qed

lemma modify_dynamic_data_moved:
  assumes "chain_ok c" and "modify_dynamic_data a f c = Inr c'"
    and f: "\<And>d d'. f d = Inr d' \<Longrightarrow> public_data d' = public_data d + n \<and> ad_current_supply d' = ad_current_supply d"
  shows "moved c (only a n) c'"
proof -
  obtain x t where x: "tbl_find a (c_assets c) = Some x"
    and mod: "tbl_modify no_clash (as_dynamic_data x) f (c_asset_data c) = Inr t" and c': "c' = c\<lparr>c_asset_data := t\<rparr>"
    using assms(2) by (auto simp: modify_dynamic_data_def tbl_get_def res_simps)
  note ok = chain_ok_parts [OF assms(1)]
  obtain d d' where d: "data_of a c = Some d" "f d = Inr d'"
    and at: "\<And>b. data_of b (c\<lparr>c_asset_data := t\<rparr>) = (if b = a then Some d' else data_of b c)"
    using data_of_modify [OF assms(1) x mod] by blast
  then have "held b c' = held b c + only a n b" "supply_of b c' = supply_of b c" for b
    using f [OF d(2)] at [of b] by (auto simp: held_def liquid_of_def vesting_of_def only_def supply_of_def c')
  moreover have "chain_ok c'" using ok plain.modify_keeps [OF ok(7) mod] by (simp add: chain_ok_def c')
  ultimately show ?thesis by (simp add: moved_def no_debts_def budget_of_def) (simp add: c')
qed

lemma pay_fee_moved:
  assumes "num_ops_ok ops" and "chain_ok c" and "pay_fee ops fl n c = Inr c'" and "\<not> skip_fee fl"
  shows "moved c (only 0 n) c'"
  by (rule modify_dynamic_data_moved [OF assms(2)])
    (use assms in \<open>auto simp: pay_fee_def public_data_def res_simps safe_intD [OF num_ops_okD(1) [OF assms(1)]]\<close>)

lemma change_confidential_supply_moved:
  assumes "num_ops_ok ops" and "chain_ok c" and "change_confidential_supply ops a n c = Inr c'"
  shows "moved c (only a n) c'"
  by (rule modify_dynamic_data_moved [OF assms(2) assms(3) [unfolded change_confidential_supply_def]])
    (auto simp: public_data_def res_simps safe_intD [OF num_ops_okD(1) [OF assms(1)]])

lemma only_vesting:
  assumes "chain_ok c" and "c' = c\<lparr>c_vesting := t\<rparr>" and "index_ok no_clash t"
    and "\<And>a. tbl_sum (\<lambda>v. if asset_id (vb_balance v) = a then amount (vb_balance v) else 0) t = vesting_of a c + m a"
  shows "moved c m c'"
proof -
  have "data_of a c' = data_of a c" for a by (simp add: data_of_def assms(2))
  then show ?thesis
    using assms by (simp add: moved_def chain_ok_def held_def liquid_of_def vesting_of_def supply_of_def budget_of_def no_debts_def)
qed

lemma create_vesting_moved:
  assumes "chain_ok c" and "tbl_create no_clash v (c_vesting c) = Inr (i, t)"
  shows "moved c (only (asset_id (vb_balance v)) (amount (vb_balance v))) (c\<lparr>c_vesting := t\<rparr>)"
proof (rule only_vesting [OF assms(1) refl])
  show "index_ok no_clash t" by (rule plain.create_keeps [OF chain_ok_parts(4) [OF assms(1)] assms(2)])
qed (auto simp: tbl_sum_create [OF assms(2)] vesting_of_def only_def)

lemma modify_vesting_moved:
  assumes "chain_ok c" and "tbl_modify no_clash i f (c_vesting c) = Inr t"
    and "\<And>v v'. f v = Inr v' \<Longrightarrow> asset_id (vb_balance v) = b \<and> vb_balance v' = \<lparr>amount = amount (vb_balance v) + n, asset_id = b\<rparr>"
  shows "moved c (only b n) (c\<lparr>c_vesting := t\<rparr>)"
proof (rule only_vesting [OF assms(1) refl])
  show "index_ok no_clash t" by (rule plain.modify_keeps [OF chain_ok_parts(4) [OF assms(1)] assms(2)])
next
  fix a
  let ?g = "\<lambda>v. if asset_id (vb_balance v) = a then amount (vb_balance v) else 0"
  obtain v v' where v: "tbl_find i (c_vesting c) = Some v" "f v = Inr v'" using assms(2) by (rule tbl_modifyD)
  show "tbl_sum ?g t = vesting_of a c + only b n a"
    using tbl_sum_modify [OF assms(2) index_okD(1) [OF chain_ok_parts(4) [OF assms(1)]] v, of ?g] assms(3) [OF v(2)]
    by (auto simp: vesting_of_def only_def)
qed

lemma vb_balance_after:
  assumes "num_ops_ok ops"
  shows "vb_deposit ops now a v = Inr v' \<Longrightarrow> asset_id (vb_balance v) = asset_id a \<and>
      vb_balance v' = \<lparr>amount = amount (vb_balance v) + amount a, asset_id = asset_id a\<rparr>"
    and "vb_deposit_vested ops now a v = Inr v' \<Longrightarrow> asset_id (vb_balance v) = asset_id a \<and>
      vb_balance v' = \<lparr>amount = amount (vb_balance v) + amount a, asset_id = asset_id a\<rparr>"
    and "vb_withdraw ops now a v = Inr v' \<Longrightarrow> asset_id (vb_balance v) = asset_id a \<and>
      vb_balance v' = \<lparr>amount = amount (vb_balance v) + - amount a, asset_id = asset_id a\<rparr>"
  using safe_intD [OF num_ops_okD(1) [OF assms]]
  by (auto simp: vb_deposit_def vb_deposit_vested_def vb_withdraw_def asset_plus_def asset_minus_def Let_def res_simps)

lemma deposit_lazy_vesting_moved:
  assumes "num_ops_ok ops" and "chain_ok c" and "deposit_lazy_vesting ops ov n secs ow req c = Inr (r, c')"
  shows "moved c (only 0 n) c'"
proof (cases "n = 0")
  case True
  then show ?thesis using assms moved_refl by (simp add: deposit_lazy_vesting_def)
next
  case False
  let ?f = "\<lambda>vbo. if req then vb_deposit ops (head_block_time c) (core_asset n) vbo
                  else vb_deposit_vested ops (head_block_time c) (core_asset n) vbo"
  from False assms(3) consider
    (new) vbo i t where "new_lazy_vesting ops n secs ow req (head_block_time c) = Inr vbo"
      and "tbl_create no_clash vbo (c_vesting c) = Inr (i, t)" and "c' = c\<lparr>c_vesting := t\<rparr>"
  | (old) i t where "tbl_modify no_clash i ?f (c_vesting c) = Inr t" and "c' = c\<lparr>c_vesting := t\<rparr>"
    by (auto simp: deposit_lazy_vesting_def Let_def res_simps split: option.splits)
  then show ?thesis
  proof cases
    case new
    then show ?thesis
      using create_vesting_moved [OF assms(2) new(2)] by (auto simp: new_lazy_vesting_def core_asset_def res_simps)
  next
    case old
    show ?thesis unfolding old(2)
      by (rule modify_vesting_moved [OF assms(2) old(1)])
        (use vb_balance_after(1,2) [OF assms(1), of _ "core_asset n"] in \<open>auto simp: core_asset_def split: if_splits\<close>)
  qed
qed

end
