(* ===== verification/Conservation.thy ===== *)
theory Conservation
  imports Books
begin

text \<open>
  No operation creates or destroys value: applying a validated operation, with the proposals it
  executes, leaves what the chain holds of each asset as it was.
\<close>

section \<open>The evaluators\<close>

definition externals_ok :: "externals \<Rightarrow> bool" where
  \<comment> \<open>the numbers of the library behave as integers; narrowing keeps what fits\<close>
  "externals_ok E \<longleftrightarrow> num_ops_ok (nops E) \<and>
     (\<forall>w. unat w < 2 ^ 32 \<longrightarrow> id_instance E w = unat w) \<and> (\<forall>w. unat w < 2 ^ 63 \<longrightarrow> share_of E w = Inr (uint w))"

lemma externals_okD: "externals_ok E \<Longrightarrow> num_ops_ok (nops E)"
  and externals_ok_id: "externals_ok E \<Longrightarrow> id_instance E 0 = 0"
  by (auto simp: externals_ok_def)

lemma asset_neg_eq: "num_ops_ok ops \<Longrightarrow> asset_neg (safe ops) a = Inr b \<Longrightarrow> b = \<lparr>amount = - amount a, asset_id = asset_id a\<rparr>"
  by (auto simp: asset_neg_def res_simps safe_intD [OF num_ops_okD(1)])

lemma only_cancel: "moved c (\<lambda>b. only a n b + only a (- n) b) c' \<Longrightarrow> moved c nothing c'"
  and only_cancel': "moved c (\<lambda>b. only a (- n) b + only a n b) c' \<Longrightarrow> moved c nothing c'"
  by (auto simp: moved_def only_def)

lemma transfer_moved:
  assumes "num_ops_ok (nops E)" and "chain_ok c" and "transfer_do_apply E tx op c = Inr c'"
  shows "moved c nothing c'"
proof -
  obtain to c1 c2 c3 where r: "receiving_account E op c = Inr (to, c1)"
    and d: "adjust_balance (nops E) (tf_from op) \<lparr>amount = - amount (tf_amount op), asset_id = asset_id (tf_amount op)\<rparr> c1 = Inr c2"
    and e: "adjust_balance (nops E) to (tf_amount op) c2 = Inr c3" and f: "\<exists>x. add_detail x c3 = Inr c'"
    using assms(3) asset_neg_eq [OF assms(1)] by (fastforce simp: transfer_do_apply_def res_simps)
  note m1 = receiving_account_moved [OF assms(2) r]
  note m2 = adjust_balance_moved [OF assms(1) moved_ok [OF m1] d, simplified]
  note m3 = adjust_balance_moved [OF assms(1) moved_ok [OF m2] e]
  have "moved c nothing c3"
    by (rule moved_nothing_left [OF m1]) (rule only_cancel' [OF moved_trans [OF m2 m3]])
  then show ?thesis using f add_detail_moved moved_ok moved_nothing_right by blast
qed

lemma account_create_moved: "chain_ok c \<Longrightarrow> account_create_do_apply E tx op c = Inr c' \<Longrightarrow> moved c nothing c'"
proof -
  assume ok: "chain_ok c" and run: "account_create_do_apply E tx op c = Inr c'"
  obtain k i c1 d where new: "new_account (ac_registrar op) (key_name E k) (ac_owner op) (ac_options op) c = Inr (i, c1)"
    and det: "add_detail d (count_registration c1) = Inr c'"
    using run by (auto simp: account_create_do_apply_def res_simps)
  note m1 = new_account_moved [OF ok new]
  note m2 = count_registration_moved [OF moved_ok [OF m1]]
  show ?thesis by (rule moved_nothing_left [OF m1 moved_nothing_left [OF m2 add_detail_moved [OF moved_ok [OF m2] det]]])
qed

lemma account_update_moved: "chain_ok c \<Longrightarrow> account_update_do_apply op c = Inr c' \<Longrightarrow> moved c nothing c'"
  using accounts.modify_keeps by (intro same_books) (auto simp: account_update_do_apply_def res_simps chain_ok_def budget_of_def)

lemma miner_create_moved: "chain_ok c \<Longrightarrow> miner_create_do_apply op c = Inr c' \<Longrightarrow> moved c nothing c'"
  using miners.create_keeps
  by (intro same_books) (auto simp: miner_create_do_apply_def Let_def res_simps chain_ok_def budget_of_def split: prod.splits)

lemma miner_update_moved: "chain_ok c \<Longrightarrow> miner_update_do_apply op c = Inr c' \<Longrightarrow> moved c nothing c'"
  using miners.modify_keeps by (intro same_books) (auto simp: miner_update_do_apply_def res_simps chain_ok_def budget_of_def)

lemma global_parameters_moved: "chain_ok c \<Longrightarrow> update_global_parameters_do_apply op c = Inr c' \<Longrightarrow> moved c nothing c'"
  by (intro same_books) (auto simp: update_global_parameters_do_apply_def chain_ok_def budget_of_def)

lemma vesting_create_moved:
  assumes "num_ops_ok (nops E)" and "chain_ok c" and "vesting_balance_create_do_apply E op c = Inr c'"
  shows "moved c nothing c'"
proof -
  obtain c1 i t v where a: "adjust_balance (nops E) (vc_creator op) \<lparr>amount = - amount (vc_amount op), asset_id = asset_id (vc_amount op)\<rparr> c = Inr c1"
    and b: "tbl_create no_clash v (c_vesting c1) = Inr (i, t)" and c': "c' = c1\<lparr>c_vesting := t\<rparr>" and v: "vb_balance v = vc_amount op"
    using assms(3) asset_neg_eq [OF assms(1)] by (fastforce simp: vesting_balance_create_do_apply_def res_simps)
  note m1 = adjust_balance_moved [OF assms(1,2) a, simplified]
  note m2 = create_vesting_moved [OF moved_ok [OF m1] b, unfolded v, folded c']
  show ?thesis by (rule only_cancel' [OF moved_trans [OF m1 m2]])
qed

lemma vesting_withdraw_moved:
  assumes "num_ops_ok (nops E)" and "chain_ok c" and "vesting_balance_withdraw_do_apply E tx op c = Inr c'"
  shows "moved c nothing c'"
proof -
  let ?c1 = "\<lambda>t. c\<lparr>c_vesting := t\<rparr>"
  obtain t d c2 where a: "tbl_modify no_clash (vw_vesting_balance op) (vb_withdraw (nops E) (head_block_time c) (vw_amount op)) (c_vesting c) = Inr t"
    and b: "add_detail d (?c1 t) = Inr c2" and e: "adjust_balance (nops E) (vw_owner op) (vw_amount op) c2 = Inr c'"
    using assms(3) by (auto simp: vesting_balance_withdraw_do_apply_def res_simps)
  have m1: "moved c (only (asset_id (vw_amount op)) (- amount (vw_amount op))) (?c1 t)"
    by (rule modify_vesting_moved [OF assms(2) a]) (rule vb_balance_after(3) [OF assms(1)])
  note m2 = add_detail_moved [OF moved_ok [OF m1] b]
  note m3 = adjust_balance_moved [OF assms(1) moved_ok [OF m2] e]
  show ?thesis by (rule only_cancel' [OF moved_trans [OF moved_nothing_right [OF m1 m2] m3]])
qed

lemma transfer_to_blind_moved:
  assumes "num_ops_ok ops" and "chain_ok c" and "transfer_to_blind_do_apply ops op c = Inr c'"
  shows "moved c nothing c'"
proof -
  obtain c1 c2 where a: "adjust_balance ops (tb_from op) \<lparr>amount = - amount (tb_amount op), asset_id = asset_id (tb_amount op)\<rparr> c = Inr c1"
    and b: "change_confidential_supply ops (asset_id (tb_amount op)) (amount (tb_amount op)) c1 = Inr c2"
    and f: "res_fold (create_blinded (asset_id (tb_amount op))) (tb_outputs op) c2 = Inr c'"
    using assms(3) asset_neg_eq [OF assms(1)] by (fastforce simp: transfer_to_blind_do_apply_def res_simps)
  note m1 = adjust_balance_moved [OF assms(1,2) a, simplified]
  note m2 = change_confidential_supply_moved [OF assms(1) moved_ok [OF m1] b]
  have m: "moved c nothing c2" by (rule only_cancel' [OF moved_trans [OF m1 m2]])
  show ?thesis by (rule moved_nothing_left [OF m moved_fold [OF f moved_ok [OF m] create_blinded_moved]])
qed

lemma transfer_from_blind_moved:
  assumes "num_ops_ok ops" and "chain_ok c" and "transfer_from_blind_do_apply ops op c = Inr c'"
    and "asset_id (fb_amount op) = asset_id (fb_fee op)"
  shows "moved c nothing c'"
proof -
  obtain c1 c2 c3 where a: "adjust_balance ops GRAPHENE_TEMP_ACCOUNT (fb_fee op) c = Inr c1"
    and b: "adjust_balance ops (fb_to op) (fb_amount op) c1 = Inr c2"
    and f: "res_fold (remove_blinded Assert_Exception) (fb_inputs op) c2 = Inr c3"
    and d: "change_confidential_supply ops (asset_id (fb_amount op)) (- (amount (fb_amount op) + amount (fb_fee op))) c3 = Inr c'"
    using assms(3) by (auto simp: transfer_from_blind_do_apply_def res_simps safe_intD [OF num_ops_okD(1) [OF assms(1)]])
  note m1 = adjust_balance_moved [OF assms(1,2) a]
  note m2 = adjust_balance_moved [OF assms(1) moved_ok [OF m1] b]
  note m3 = moved_fold [OF f moved_ok [OF m2] remove_blinded_moved]
  note m4 = change_confidential_supply_moved [OF assms(1) moved_ok [OF m3] d]
  show ?thesis
    using moved_trans [OF moved_trans [OF m1 moved_nothing_right [OF m2 m3]] m4] assms(4) by (auto simp: moved_def only_def)
qed

lemma blind_transfer_moved:
  assumes "num_ops_ok ops" and "chain_ok c" and "blind_transfer_do_apply ops op c = Inr c'"
  shows "moved c nothing c'"
proof -
  obtain c1 c2 c3 where a: "adjust_balance ops GRAPHENE_TEMP_ACCOUNT (bt_fee op) c = Inr c1"
    and f: "res_fold (remove_blinded Unknown_Commitment) (bt_inputs op) c1 = Inr c2"
    and g: "res_fold (create_blinded (asset_id (bt_fee op))) (bt_outputs op) c2 = Inr c3"
    and d: "change_confidential_supply ops (asset_id (bt_fee op)) (- amount (bt_fee op)) c3 = Inr c'"
    using assms(3) by (auto simp: blind_transfer_do_apply_def res_simps)
  note m1 = adjust_balance_moved [OF assms(1,2) a]
  note m2 = moved_fold [OF f moved_ok [OF m1] remove_blinded_moved]
  note m3 = moved_fold [OF g moved_ok [OF m2] create_blinded_moved]
  note m4 = change_confidential_supply_moved [OF assms(1) moved_ok [OF m3] d]
  show ?thesis
    by (rule only_cancel [OF moved_trans [OF moved_nothing_right [OF moved_nothing_right [OF m1 m2] m3] m4]])
qed

lemma transfer_to_confidential_moved:
  assumes "num_ops_ok ops" and "chain_ok c" and "transfer_to_confidential_do_apply ops tx op c = Inr c'"
  shows "moved c nothing c'"
proof -
  let ?f = "\<lambda>x c. res_bind (fc_assert (ct_commitment x \<noteq> 0)) (\<lambda>_. create_confidential x c)"
  obtain c1 c2 c3 x where a: "adjust_balance ops (tc_from op) \<lparr>amount = - amount (tc_amount op), asset_id = asset_id (tc_amount op)\<rparr> c = Inr c1"
    and b: "change_confidential_supply ops (asset_id (tc_amount op)) (amount (tc_amount op)) c1 = Inr c2"
    and f: "res_fold ?f (tc_outputs op) c2 = Inr c3" and g: "add_detail x c3 = Inr c'"
    using assms(3) asset_neg_eq [OF assms(1)] by (fastforce simp: transfer_to_confidential_do_apply_def res_simps)
  note m1 = adjust_balance_moved [OF assms(1,2) a, simplified]
  note m2 = change_confidential_supply_moved [OF assms(1) moved_ok [OF m1] b]
  have m: "moved c nothing c2" by (rule only_cancel' [OF moved_trans [OF m1 m2]])
  have n: "moved c2 nothing c3"
    by (rule moved_fold [OF f moved_ok [OF m]]) (use create_confidential_moved in \<open>auto simp: res_simps\<close>)
  show ?thesis by (rule moved_nothing_left [OF m moved_nothing_left [OF n add_detail_moved [OF moved_ok [OF n] g]]])
qed

section \<open>Confidential transactions\<close>

lemma le_word_bit:
  "bit (le_word bs) n \<longleftrightarrow> n < 64 \<and> n div 8 < length bs \<and> bit (bs ! (n div 8)) (n mod 8)"
proof (induction bs arbitrary: n)
  case (Cons b bs)
  have step: "bit (le_word (b # bs)) n \<longleftrightarrow> n < 64 \<and> (8 \<le> n \<and> bit (le_word bs) (n - 8) \<or> bit b n)"
    by (auto simp: le_word_def bit_simps)
  show ?case
  proof (cases "n < 8")
    case True
    then show ?thesis using step by auto
  next
    case False
    then have "n div 8 = Suc ((n - 8) div 8)" "n mod 8 = (n - 8) mod 8" by (simp_all add: le_div_geq le_mod_geq)
    then show ?thesis using step False Cons.IH [of "n - 8"] bit_imp_le_length [of b n] by auto
  qed
qed (simp add: le_word_def)

lemma le_word_le_bytes: "le_word (le_bytes w) = w"
proof (rule bit_word_eqI)
  fix n assume "n < LENGTH(64)"
  then have n: "n < 64" by simp
  then have "n div 8 < 8" by (simp add: less_mult_imp_div_less)
  moreover have "n mod 8 < 8" by simp
  ultimately show "bit (le_word (le_bytes w)) n = bit w n"
    using n by (simp add: le_word_bit le_bytes_def bit_simps)
qed

lemma public_tx_output:
  assumes "externals_ok E" and "public_tx (k, a) = Inr x" and "public_output E (ct_data x) = Inr b" and "asset_id a = 0"
  shows "asset_id b = 0"
proof -
  have l: "length (le_bytes w) = 8" for w by (simp add: le_bytes_def)
  obtain i where i: "object_id_type 1 3 0 = Inr i" and d: "ct_data x = le_bytes (word_of_int (amount a)) @ le_bytes (number i)"
    using assms(2,4) by (auto simp: public_tx_def asset_unit_def res_simps)
  have "instance_of i = 0"
    using i by (auto simp: object_id_type_eq_Inr instance_of_packed)
  then have "instance_of (Object_Id (number i)) = 0" by (simp add: instance_of_def)
  then show ?thesis
    using assms(3) externals_ok_id [OF assms(1)] by (auto simp: public_output_def d l le_word_le_bytes res_simps)
qed

lemma pay_public_output_moved:
  assumes "num_ops_ok (nops E)" and "chain_ok c" and "pay_public_output E tx op x c = Inr c'"
    and "\<And>a. public_output E (ct_data x) = Inr a \<Longrightarrow> asset_id a = asset_id (fc_fee op)"
  shows "moved c nothing c'"
proof -
  obtain to a c1 c2 d where p: "public_output E (ct_data x) = Inr a" and b: "adjust_balance (nops E) to a c = Inr c1"
    and s: "change_confidential_supply (nops E) (asset_id (fc_fee op)) (- amount a) c1 = Inr c2" and e: "add_detail d c2 = Inr c'"
    using assms(3) by (auto simp: pay_public_output_def res_simps split: option.splits prod.splits)
  note m1 = adjust_balance_moved [OF assms(1,2) b]
  note m2 = change_confidential_supply_moved [OF assms(1) moved_ok [OF m1] s]
  have "moved c nothing c2" by (rule only_cancel [OF moved_trans [OF m1 m2 [folded assms(4) [OF p]]]])
  then show ?thesis using add_detail_moved [OF moved_ok [OF m2] e] moved_nothing_right by blast
qed

lemma map_res_set: "map_res f xs = Inr ys \<Longrightarrow> y \<in> set ys \<Longrightarrow> \<exists>x \<in> set xs. f x = Inr y"
  by (induction xs arbitrary: ys) (auto simp: res_simps)

lemma public_volume_assets:
  assumes "public_volume E op = Inr v"
  shows "\<forall>a \<in> set (fc_amount op). asset_id a = asset_id (fc_fee op)"
    and "x \<in> set (fc_outputs op) \<Longrightarrow> ct_commitment x = 0 \<Longrightarrow> \<exists>a. public_output E (ct_data x) = Inr a \<and> asset_id a = asset_id (fc_fee op)"
proof -
  have plus: "asset_id b = asset_id v \<and> asset_id r = asset_id v" if "asset_plus sf v b = Inr r" for sf v b r
    using that by (auto simp: asset_plus_def res_simps)
  have amounts: "asset_id r = asset_id w \<and> (\<forall>a \<in> set as. asset_id a = asset_id w)"
    if "res_fold (\<lambda>a v. asset_plus sf v a) as w = Inr r" for sf as w r
    using that by (induction as arbitrary: w) (auto simp: res_simps dest!: plus)
  let ?f = "\<lambda>x v. if ct_commitment x = 0 then res_bind (public_output E (ct_data x)) (\<lambda>a. asset_plus (safe (nops E)) v a) else Inr v"
  have outs: "\<forall>x \<in> set xs. ct_commitment x = 0 \<longrightarrow> (\<exists>a. public_output E (ct_data x) = Inr a \<and> asset_id a = asset_id w)"
    if "res_fold ?f xs w = Inr r" for xs w r
    using that
  proof (induction xs arbitrary: w)
    case (Cons x xs)
    then obtain u where u: "?f x w = Inr u" "res_fold ?f xs u = Inr r" by (auto simp: res_simps simp del: if_split)
    have "asset_id u = asset_id w \<and> (ct_commitment x = 0 \<longrightarrow> (\<exists>a. public_output E (ct_data x) = Inr a \<and> asset_id a = asset_id w))"
      using u(1) by (auto simp: res_simps dest!: plus split: if_splits)
    then show ?case using Cons.IH [OF u(2)] by auto
  qed simp
  obtain w where w: "res_fold (\<lambda>a v. asset_plus (safe (nops E)) v a) (fc_amount op) (fc_fee op) = Inr w" "res_fold ?f (fc_outputs op) w = Inr v"
    using assms by (auto simp: public_volume_def res_simps)
  show "\<forall>a \<in> set (fc_amount op). asset_id a = asset_id (fc_fee op)" using amounts [OF w(1)] by simp
  show "x \<in> set (fc_outputs op) \<Longrightarrow> ct_commitment x = 0 \<Longrightarrow> \<exists>a. public_output E (ct_data x) = Inr a \<and> asset_id a = asset_id (fc_fee op)"
    using amounts [OF w(1)] outs [OF w(2)] by simp
qed

lemma transfer_from_confidential_moved:
  assumes "externals_ok E" and "chain_ok c" and "transfer_from_confidential_do_apply E tx op c = Inr c'"
    and "validate_transfer_from_confidential E op = Inr ()" and "asset_id (fc_fee op) = 0"
  shows "moved c nothing c'"
proof -
  note ops = externals_okD [OF assms(1)]
  let ?f = "\<lambda>x c. if ct_commitment x \<noteq> 0 then create_confidential x c else pay_public_output E tx op x c"
  obtain v where v: "public_volume E op = Inr v"
    using assms(4) by (auto simp: validate_transfer_from_confidential_def res_simps Let_def)
  note assets = public_volume_assets [OF v]
  obtain publics c1 c2 c3 where p: "map_res public_tx (zip (fc_to op) (fc_amount op)) = Inr publics"
    and a: "adjust_balance (nops E) GRAPHENE_TEMP_ACCOUNT \<lparr>amount = amount (fc_fee op), asset_id = 0\<rparr> c = Inr c1"
    and b: "change_confidential_supply (nops E) 0 (- amount (fc_fee op)) c1 = Inr c2"
    and f: "res_fold spend_confidential (fc_inputs op) c2 = Inr c3"
    and g: "res_fold ?f (fc_outputs op @ publics) c3 = Inr c'"
    using assms(3,5) by (auto simp: transfer_from_confidential_do_apply_def res_simps)
  note m1 = adjust_balance_moved [OF ops assms(2) a, simplified]
  note m2 = change_confidential_supply_moved [OF ops moved_ok [OF m1] b]
  have m: "moved c nothing c2" by (rule only_cancel [OF moved_trans [OF m1 m2]])
  have m3: "moved c2 nothing c3" by (rule moved_fold [OF f moved_ok [OF m] spend_confidential_moved])
  have core: "asset_id y = 0"
    if x: "x \<in> set (fc_outputs op @ publics)" and "ct_commitment x = 0" and y: "public_output E (ct_data x) = Inr y" for x y
  proof (cases "x \<in> set (fc_outputs op)")
    case True
    then show ?thesis using assets(2) that assms(5) by fastforce
  next
    case False
    then obtain k z where "(k, z) \<in> set (zip (fc_to op) (fc_amount op))" "public_tx (k, z) = Inr x"
      using map_res_set [OF p, of x] x by auto
    then show ?thesis
      using public_tx_output [OF assms(1) _ y] assets(1) assms(5) by (auto dest: set_zip_rightD)
  qed
  have "moved c3 nothing c'"
  proof (rule moved_fold [OF g moved_ok [OF m3]])
    fix x c c' assume "x \<in> set (fc_outputs op @ publics)" "chain_ok c" "?f x c = Inr c'"
    then show "moved c nothing c'"
      using create_confidential_moved pay_public_output_moved [OF ops] core assms(5) by (cases "ct_commitment x = 0") auto
  qed
  then show ?thesis by (rule moved_nothing_left [OF m moved_nothing_left [OF m3]])
qed

section \<open>Operations\<close>

definition conserves :: "chain \<Rightarrow> chain \<Rightarrow> bool" where
  "conserves c c' \<longleftrightarrow> chain_ok c' \<and> (\<forall>a. held a c' = held a c) \<and> (no_debts c \<longrightarrow> no_debts c') \<and>
     c_assets c' = c_assets c \<and> (\<forall>a. supply_of a c' = supply_of a c) \<and> budget_of c' = budget_of c"

fun is_update :: "operation \<Rightarrow> bool" where
  "is_update (Proposal_Update _) = True"
| "is_update _ = False"

fun touches_proposals :: "operation \<Rightarrow> bool" where
  "touches_proposals (Proposal_Create _ _ _ _ _) = True"
| "touches_proposals (Proposal_Update _) = True"
| "touches_proposals (Proposal_Delete _) = True"
| "touches_proposals _ = False"

definition sound_ops :: "externals \<Rightarrow> operation list \<Rightarrow> bool" where
  "sound_ops E ops \<longleftrightarrow> (\<forall>op \<in> set ops. operation_validate E op = Inr () \<and> \<not> is_update op)"

definition proposals_ok :: "externals \<Rightarrow> chain \<Rightarrow> bool" where
  \<comment> \<open>the stored operations are valid, and none of them updates a proposal\<close>
  "proposals_ok E c \<longleftrightarrow> (\<forall>(i, p) \<in> set (rows (c_proposals c)). sound_ops E (tr_operations (po_proposed_transaction p)))"

lemma conserves_refl: "chain_ok c \<Longrightarrow> conserves c c"
  by (simp add: conserves_def)

lemma conserves_trans: "conserves c c1 \<Longrightarrow> conserves c1 c2 \<Longrightarrow> conserves c c2"
  by (simp add: conserves_def)

lemma moved_conserves: "moved c nothing c' \<Longrightarrow> conserves c c' \<and> c_proposals c' = c_proposals c"
  by (simp add: conserves_def moved_def)

lemma proposals_conserve:
  "chain_ok c \<Longrightarrow> index_ok no_clash t \<Longrightarrow> conserves c (c\<lparr>c_proposals := t\<rparr>)"
  by (simp add: conserves_def chain_ok_def held_def liquid_of_def vesting_of_def data_of_def supply_of_def no_debts_def budget_of_def)

lemma simple_operation_moved:
  assumes "externals_ok E" and "chain_ok c" and "\<not> touches_proposals op" and "do_apply_op E push tx op c = Some (Inr c')"
    and "operation_validate E op = Inr ()" and "asset_id (op_fee op) = 0"
  shows "moved c nothing c'"
  using assms(2-6) externals_okD [OF assms(1)]
proof (cases op)
  case (Transfer_From_Blind x)
  then show ?thesis
    using assms transfer_from_blind_moved [OF externals_okD [OF assms(1)] assms(2)]
    by (auto simp: validate_transfer_from_blind_def res_simps)
next
  case (Transfer_From_Confidential x)
  then show ?thesis using assms transfer_from_confidential_moved [OF assms(1,2)] by auto
next
  case (Set_Transfer_Freeze_Block x)
  then show ?thesis using assms by (simp add: set_transfer_freeze_block_do_apply_def)
qed (use transfer_moved account_create_moved account_update_moved miner_create_moved miner_update_moved
    global_parameters_moved vesting_create_moved vesting_withdraw_moved transfer_to_blind_moved blind_transfer_moved
    transfer_to_confidential_moved in auto)

lemma required_others:
  "snd (snd (get_required_authorities auths ops)) = concat (map (\<lambda>x. op_other (auths x)) ops)"
proof -
  have "snd (snd (fold (\<lambda>x. operation_get_required_authorities (auths x)) ops s)) = snd (snd s) @ concat (map (\<lambda>x. op_other (auths x)) ops)" for s
    by (induction ops arbitrary: s) (auto simp: operation_get_required_authorities_def split: prod.splits)
  then show ?thesis by (simp add: get_required_authorities_def)
qed

lemma res_fold_unit: "res_fold (\<lambda>x _. f x) xs () = Inr () \<longleftrightarrow> (\<forall>x \<in> set xs. f x = Inr ())"
  by (induction xs) (auto simp: res_simps)

lemma proposed_ops_sound:
  assumes "proposal_create_do_evaluate E ops t r c = Inr ()"
  shows "sound_ops E ops"
proof -
  have "transaction_validate E ops = Inr ()" and none: "snd (snd (get_required_authorities operation_auths ops)) = []"
    using assms by (auto simp: proposal_create_do_evaluate_def Let_def res_simps split: prod.splits)
  then have "\<forall>op \<in> set ops. operation_validate E op = Inr ()"
    by (auto simp: transaction_validate_def res_simps res_fold_unit)
  moreover have "\<not> is_update op" if "op \<in> set ops" for op
  proof
    assume "is_update op"
    then have "op_other (operation_auths op) \<noteq> []" by (cases op) (auto simp: proposal_update_auths_def Let_def)
    then show False using none that by (auto simp: required_others)
  qed
  ultimately show ?thesis by (simp add: sound_ops_def)
qed

lemma new_proposal_ops: "tr_operations (po_proposed_transaction (new_proposal ops t r)) = ops"
  by (simp add: new_proposal_def split: prod.splits)

lemma check_fee_core:
  assumes "check_fee E fl op c = Some (Inr ())"
  shows "asset_id (op_fee op) = 0" and "0 \<le> amount (op_fee op)"
  using assms by (auto simp: check_fee_def prepare_fee_def run_bind_eq_Inr res_simps)

lemma run_ops_ConsD:
  assumes "run_ops f src (x # xs) c = Some (Inr c')"
  obtains c1 where "f x c = Some (Inr c1)" and "run_ops f src xs c1 = Some (Inr c')"
  using assms by (cases src) (auto simp: run_bind_eq_Inr split: if_splits)

lemma run_ops_invariant:
  assumes "run_ops f src ops c = Some (Inr c')" and "P c"
    and "\<And>x c c'. x \<in> set ops \<Longrightarrow> P c \<Longrightarrow> f x c = Some (Inr c') \<Longrightarrow> P c'"
  shows "P c'"
  using assms
proof (induction ops arbitrary: c)
  case (Cons x xs)
  obtain c1 where c1: "f x c = Some (Inr c1)" "run_ops f src xs c1 = Some (Inr c')" using Cons.prems(1) by (rule run_ops_ConsD)
  have "P c1" by (rule Cons.prems(3) [OF _ Cons.prems(2) c1(1)]) simp
  then show ?case by (rule Cons.IH [OF c1(2)]) (use Cons.prems(3) in auto)
qed simp

lemma proposal_operation_conserves:
  assumes "chain_ok c" and "proposals_ok E c" and "touches_proposals op" and "do_apply_op E push tx op c = Some (Inr c')"
    and "evaluate_op E fl op c0 = Inr ()"
    and push: "\<And>p c c'. chain_ok c \<Longrightarrow> proposals_ok E c \<Longrightarrow> push p c = Some (Inr c') \<Longrightarrow> conserves c c' \<and> proposals_ok E c'"
  shows "conserves c c' \<and> proposals_ok E c'"
proof -
  note pok = chain_ok_parts(9) [OF assms(1)]
  from assms(3) consider (create) fee payer ops t r where "op = Proposal_Create fee payer ops t r"
    | (update) x where "op = Proposal_Update x" | (delete) x where "op = Proposal_Delete x"
    by (cases op) auto
  then show ?thesis
  proof cases
    case create
    then obtain i tb where tb: "tbl_create no_clash (new_proposal ops t r) (c_proposals c) = Inr (i, tb)" and c': "c' = c\<lparr>c_proposals := tb\<rparr>"
      using assms(4) by (auto simp: proposal_create_do_apply_def res_simps)
    have "sound_ops E ops" using assms(5) create proposed_ops_sound by auto
    then have "proposals_ok E c'"
      using assms(2) tbl_createD(2) [OF tb] by (auto simp: proposals_ok_def c' new_proposal_ops)
    then show ?thesis using proposals_conserve [OF assms(1) plain.create_keeps [OF pok tb]] c' by simp
  next
    case delete
    then obtain tb where tb: "tbl_remove (pd_proposal x) (c_proposals c) = Inr tb" and c': "c' = c\<lparr>c_proposals := tb\<rparr>"
      using assms(4) by (auto simp: proposal_delete_do_apply_def res_simps)
    have "proposals_ok E c'" using assms(2) tb by (auto simp: proposals_ok_def c' elim!: tbl_removeD)
    then show ?thesis using proposals_conserve [OF assms(1) plain.remove_keeps [OF pok tb]] c' by simp
  next
    case update
    let ?f = "\<lambda>p. Inr (updated_proposal x p)"
    obtain tb where tb: "tbl_modify no_clash (pu_proposal x) ?f (c_proposals c) = Inr tb"
      and rest: "c' = c\<lparr>c_proposals := tb\<rparr> \<or> push (pu_proposal x) (c\<lparr>c_proposals := tb\<rparr>) = Some (Inr c')"
      using assms(4) update
      by (auto simp: proposal_update_do_apply_def run_bind_eq_Inr Let_def split: if_splits option.splits sum.splits)
    have same: "tr_operations (po_proposed_transaction (updated_proposal x p)) = tr_operations (po_proposed_transaction p)" for p
      by (simp add: updated_proposal_def)
    have c1: "conserves c (c\<lparr>c_proposals := tb\<rparr>)" by (rule proposals_conserve [OF assms(1) plain.modify_keeps [OF pok tb]])
    obtain p where p: "tbl_find (pu_proposal x) (c_proposals c) = Some p"
      and r: "rows tb = map (\<lambda>(j, w). (j, if j = pu_proposal x then updated_proposal x p else w)) (rows (c_proposals c))"
      using tb by (auto elim: tbl_modifyD)
    have "(pu_proposal x, p) \<in> set (rows (c_proposals c))" using p by (auto simp: tbl_find_def dest: map_of_SomeD)
    then have p1: "proposals_ok E (c\<lparr>c_proposals := tb\<rparr>)" using assms(2) by (auto simp: proposals_ok_def r same split: if_splits)
    show ?thesis
    proof (cases "c' = c\<lparr>c_proposals := tb\<rparr>")
      case False
      then have "push (pu_proposal x) (c\<lparr>c_proposals := tb\<rparr>) = Some (Inr c')" using rest by blast
      then have "conserves (c\<lparr>c_proposals := tb\<rparr>) c' \<and> proposals_ok E c'"
        using c1 by (intro push [OF _ p1]) (simp_all add: conserves_def)
      then show ?thesis using conserves_trans [OF c1] by blast
    qed (use c1 p1 in simp)
  qed
qed

lemma run_evaluator_conserves:
  assumes "externals_ok E" and "chain_ok c" and "proposals_ok E c" and "\<not> skip_fee fl" and "operation_validate E op = Inr ()"
    and "run_evaluator E fl op (evaluate_op E fl op) (do_apply_op E push tx op) c = Some (Inr c')"
    and push: "\<And>p c c'. chain_ok c \<Longrightarrow> proposals_ok E c \<Longrightarrow> push p c = Some (Inr c') \<Longrightarrow> conserves c c' \<and> proposals_ok E c'"
  shows "conserves c c' \<and> proposals_ok E c'"
proof -
  note ops = externals_okD [OF assms(1)]
  let ?f = "amount (op_fee op)"
  obtain c1 c2 where fee: "check_fee E fl op c = Some (Inr ())" and ev: "evaluate_op E fl op c = Inr ()"
    and pay: "pay_fee (nops E) fl ?f c = Inr c1" and ap: "do_apply_op E push tx op c1 = Some (Inr c2)"
    and adj: "adjust_balance (nops E) (op_fee_payer op) \<lparr>amount = - ?f, asset_id = asset_id (op_fee op)\<rparr> c2 = Inr c'"
    using assms(6) asset_neg_eq [OF ops] by (fastforce simp: run_evaluator_def run_bind_eq_Inr res_simps)
  have core: "asset_id (op_fee op) = 0" by (rule check_fee_core(1) [OF fee])
  note m1 = pay_fee_moved [OF ops assms(2) pay assms(4)]
  have p1: "proposals_ok E c1" using m1 assms(3) by (simp add: moved_def proposals_ok_def)
  have d: "conserves c1 c2 \<and> proposals_ok E c2"
  proof (cases "touches_proposals op")
    case True
    then show ?thesis by (rule proposal_operation_conserves [OF moved_ok [OF m1] p1 _ ap ev push])
  next
    case False
    then have "moved c1 nothing c2" by (rule simple_operation_moved [OF assms(1) moved_ok [OF m1] _ ap assms(5) core])
    then show ?thesis using moved_conserves [of c1 c2] p1 by (auto simp: proposals_ok_def)
  qed
  then have "chain_ok c2" by (simp add: conserves_def)
  note m3 = adjust_balance_moved [OF ops this adj, simplified core]
  show ?thesis using m1 d m3 by (auto simp: moved_def conserves_def proposals_ok_def only_def core)
qed

lemma push_proposal_conserves:
  assumes "chain_ok c" and "proposals_ok E c" and "push_proposal E f p c = Some (Inr c')"
    and step: "\<And>fl tx op c c'. chain_ok c \<Longrightarrow> proposals_ok E c \<Longrightarrow> \<not> skip_fee fl \<Longrightarrow> operation_validate E op = Inr () \<Longrightarrow>
      f fl tx op c = Some (Inr c') \<Longrightarrow> conserves c c' \<and> proposals_ok E c'"
  shows "conserves c c' \<and> proposals_ok E c'"
proof -
  let ?fl = "\<lparr>skip_fee = False, skip_fee_schedule_check = False, is_proposed_trx = True\<rparr>"
  obtain pr c1 tb where pr: "tbl_find p (c_proposals c) = Some pr"
    and run: "run_ops (f ?fl (trx_id E (po_proposed_transaction pr))) (Some p) (tr_operations (po_proposed_transaction pr)) c = Some (Inr c1)"
    and tb: "tbl_remove p (c_proposals c1) = Inr tb" and c': "c' = c1\<lparr>c_proposals := tb\<rparr>"
    using assms(3) by (auto simp: push_proposal_def run_bind_eq_Inr Let_def tbl_get_def res_simps)
  have "(p, pr) \<in> set (rows (c_proposals c))" using pr by (auto simp: tbl_find_def dest: map_of_SomeD)
  then have sound: "sound_ops E (tr_operations (po_proposed_transaction pr))" using assms(2) by (auto simp: proposals_ok_def)
  have "conserves c c1 \<and> proposals_ok E c1"
  proof (rule run_ops_invariant [OF run])
    show "conserves c c \<and> proposals_ok E c" using assms(1,2) conserves_refl by blast
  next
    fix x d d' assume x: "x \<in> set (tr_operations (po_proposed_transaction pr))" and d: "conserves c d \<and> proposals_ok E d"
      and ap: "f ?fl (trx_id E (po_proposed_transaction pr)) x d = Some (Inr d')"
    have "operation_validate E x = Inr ()" using sound x by (simp add: sound_ops_def)
    then show "conserves c d' \<and> proposals_ok E d'"
      using step [OF _ _ _ _ ap] d conserves_trans [of c d d'] by (simp add: conserves_def)
  qed
  then have c1: "conserves c c1" "proposals_ok E c1" "chain_ok c1" by (auto simp: conserves_def)
  have "conserves c1 c'"
    unfolding c' by (rule proposals_conserve [OF c1(3) plain.remove_keeps [OF chain_ok_parts(9) [OF c1(3)] tb]])
  moreover have "proposals_ok E c'" using c1(2) tb by (auto simp: proposals_ok_def c' elim!: tbl_removeD)
  ultimately show ?thesis using conserves_trans [OF c1(1)] by blast
qed

lemma apply_operation_conserves:
  assumes "externals_ok E"
  shows "chain_ok c \<Longrightarrow> proposals_ok E c \<Longrightarrow> \<not> skip_fee fl \<Longrightarrow> operation_validate E op = Inr () \<Longrightarrow>
    apply_operation E n fl tx op c = Some (Inr c') \<Longrightarrow> conserves c c' \<and> proposals_ok E c'"
proof (induction n arbitrary: fl tx op c c')
  case (Suc n)
  show ?case
    by (rule run_evaluator_conserves [OF assms Suc.prems(1-4) Suc.prems(5) [unfolded apply_operation.simps]])
      (rule push_proposal_conserves [OF _ _ _ Suc.IH])
qed simp

end
