(* ===== verification/Sample_Chain.thy ===== *)
theory Sample_Chain
  imports Conservation
begin

text \<open>
  A small chain of two accounts and a transfer between them, for the examples of the properties.
\<close>

definition sample_externals :: externals where
  "sample_externals =
     \<lparr>nops = plain_ops, share_of = (\<lambda>w. if uint w < 2 ^ 63 then Inr (uint w) else Inl Overflow_Exception),
      id_instance = unat, key_name = dec_of_nat, pack_size = (\<lambda>_. 0), trx_id = (\<lambda>_. 7), trx_signer = (\<lambda>s _. s),
      ec_blind = (\<lambda>_ _. 0), ec_blind_unit = (\<lambda>_ _ _. 0), ec_verify_sum = (\<lambda>_ _ _. True), ec_range_max = (\<lambda>_. Inr 0)\<rparr>"

definition sample_parameters :: chain_parameters where
  "sample_parameters =
     \<lparr>current_fees = \<lparr>fs_parameters = [], fs_scale = 10000\<rparr>, block_interval = 5, maintenance_interval = 60,
      maintenance_skip_slots = 3, miner_proposal_review_period = 100, maximum_transaction_size = 2048,
      maximum_block_size = 10240, maximum_time_until_expiration = 3600, maximum_proposal_lifetime = 7200,
      maximum_asset_feed_publishers = 10, maximum_miner_count = 21, maximum_authority_membership = 10,
      cashback_vesting_period_seconds = 100, cashback_vesting_threshold = 0, miner_pay_vesting_seconds = 100,
      max_predicate_opcode = 1, max_authority_depth = 2, freeze_transfers_after_block = 1000\<rparr>"

definition sample_account :: "nat \<Rightarrow> nat \<Rightarrow> account_object" where
  "sample_account k s =
     \<lparr>ao_registrar = 0, ao_name = dec_of_nat k, ao_owner = key_authority k, ao_options = default_options,
      ao_statistics = s, ao_cashback_vb = None, ao_top_n_control_flags = 0\<rparr>"

definition sample_balance :: "nat \<Rightarrow> int \<Rightarrow> account_balance" where
  "sample_balance a n = \<lparr>ab_owner = a, ab_asset_type = 0, ab_balance = n, ab_vote_power = 0, ab_casted_vote = make_vote_id vt_miner (- 1)\<rparr>"

definition no_rows :: "'a table" where
  "no_rows = \<lparr>rows = [], next_instance = 0\<rparr>"

definition sample_dynamics :: dynamic_properties where
  "sample_dynamics =
     \<lparr>dp_head_block_number = 0, dp_head_block_id = zero_hash, dp_time = 1000, dp_current_miner = 0, dp_next_maintenance_time = 1060,
      dp_last_budget_time = 940, dp_miner_budget_from_fees = 0, dp_unspent_fee_budget = 0, dp_mined_rewards = 0,
      dp_miner_budget_from_rewards = 0, dp_accounts_registered_this_interval = 0, dp_recently_missed_count = 0,
      dp_current_aslot = 0, dp_recent_slots_filled = 0, dp_dynamic_flags = 0, dp_last_irreversible_block_num = 0\<rparr>"

definition sample_chain :: chain where
  "sample_chain =
     \<lparr>c_accounts = \<lparr>rows = [(10, sample_account 1 0), (11, sample_account 2 1)], next_instance = 12\<rparr>,
      c_statistics = \<lparr>rows = [(0, \<lparr>st_owner = 10, st_total_core_in_orders = 0\<rparr>), (1, \<lparr>st_owner = 11, st_total_core_in_orders = 0\<rparr>)],
        next_instance = 2\<rparr>,
      c_balances = \<lparr>rows = [(0, sample_balance 10 1000000)], next_instance = 1\<rparr>, c_vesting = no_rows, c_miners = no_rows,
      c_assets = \<lparr>rows = [(0, \<lparr>as_symbol = ''CYVA'', as_precision = 5, as_max_supply = 10000000, as_dynamic_data = 0\<rparr>)], next_instance = 1\<rparr>,
      c_asset_data = \<lparr>rows = [(0, \<lparr>ad_current_supply = 1000000, ad_confidential_supply = 0, ad_accumulated_fees = 0\<rparr>)], next_instance = 1\<rparr>,
      c_details = no_rows, c_budgets = no_rows, c_proposals = no_rows, c_transactions = no_rows, c_blinded = no_rows,
      c_confidential = no_rows, c_block_summaries = no_rows,
      c_global = \<lparr>gp_parameters = sample_parameters, gp_pending_parameters = None, gp_next_available_vote_id = 0, gp_active_miners = []\<rparr>,
      c_dynamic = sample_dynamics, c_shuffled_miners = []\<rparr>"

definition sample_transfer :: "asset \<Rightarrow> int \<Rightarrow> transfer_operation" where
  "sample_transfer f n = \<lparr>tf_fee = f, tf_from = 10, tf_to = 2, tf_amount = \<lparr>amount = n, asset_id = 0\<rparr>, tf_memo = None\<rparr>"

definition sample_transaction :: signed_transaction where
  "sample_transaction =
     \<lparr>tr_ref_block_num = 0, tr_ref_block_prefix = 0, tr_expiration = 1100,
      tr_operations = [Transfer (sample_transfer \<lparr>amount = 100000, asset_id = 0\<rparr> 500)], tr_signatures = [1]\<rparr>"

lemma sample_externals_ok: "externals_ok sample_externals"
proof -
  have "uint w < 9223372036854775808" if "unat w < 9223372036854775808" for w :: "64 word"
    using that uint_nat [of w] by linarith
  then show ?thesis by (simp add: externals_ok_def sample_externals_def plain_ops_ok)
qed

lemma sample_chain_ok: "chain_ok sample_chain" "proposals_ok E sample_chain" "no_debts sample_chain"
proof -
  have n: "dec_of_nat (Suc 0) = ''1''" "dec_of_nat 2 = ''2''" by code_simp+
  have e: "index_ok cl no_rows" for cl :: "'a \<Rightarrow> 'a \<Rightarrow> bool" by (simp add: index_ok_def tbl_ok_def no_rows_def)
  show "chain_ok sample_chain" "proposals_ok E sample_chain" "no_debts sample_chain"
    by (simp_all add: chain_ok_def sample_chain_def e proposals_ok_def no_debts_def own_data_def index_ok_def tbl_ok_def
        account_clash_def sample_account_def n balance_clash_def asset_clash_def sample_balance_def no_rows_def)
qed

definition ran :: "chain run \<Rightarrow> bool" where
  "ran r \<longleftrightarrow> (case r of Some (Inr c) \<Rightarrow> True | _ \<Rightarrow> False)"

lemma ran_iff: "ran r \<longleftrightarrow> (\<exists>c. r = Some (Inr c))"
  by (auto simp: ran_def split: option.splits sum.splits)

lemma sample_transaction_runs: "ran (apply_transaction sample_externals 2 0 sample_transaction sample_chain)"
  by code_simp

end
