(* ===== verification/Transaction_Properties.thy ===== *)
theory Transaction_Properties
  imports Sample_Chain Authority_Properties
begin

text \<open>
  Transactions as a whole: they conserve what is held of every asset, never leave a balance
  negative, and always return, because no stored proposal can update a proposal.
\<close>

section \<open>Conservation\<close>

lemma transaction_recorded:
  assumes "chain_ok c" and "tbl_create transaction_clash x (c_transactions c) = Inr (i, t)"
  shows "conserves c (c\<lparr>c_transactions := t\<rparr>)" and "c_proposals (c\<lparr>c_transactions := t\<rparr>) = c_proposals c"
proof -
  have "moved c nothing (c\<lparr>c_transactions := t\<rparr>)"
    using assms transactions.create_keeps by (intro same_books) (auto simp: chain_ok_def budget_of_def)
  then show "conserves c (c\<lparr>c_transactions := t\<rparr>)" and "c_proposals (c\<lparr>c_transactions := t\<rparr>) = c_proposals c"
    using moved_conserves by auto
qed

lemma apply_transaction_steps:
  assumes "apply_transaction E n skip trx c = Some (Inr c')"
  obtains c1 where "\<forall>op \<in> set (tr_operations trx). operation_validate E op = Inr ()"
    and "c1 = c \<or> (\<exists>x i t. tbl_create transaction_clash x (c_transactions c) = Inr (i, t) \<and> c1 = c\<lparr>c_transactions := t\<rparr>)"
    and "skip AND (skip_transaction_signatures OR skip_authority_check) = 0 \<Longrightarrow> verify_transaction_authority E trx c = Inr ()"
    and "run_ops (apply_operation E n \<lparr>skip_fee = False, skip_fee_schedule_check = False, is_proposed_trx = False\<rparr>
        (trx_id E (transaction.truncate trx))) None (tr_operations trx) c1 = Some (Inr c')"
    and "temp_account_empty c' = Inr ()"
  using assms
  by (auto simp: apply_transaction_def Let_def run_bind_eq_Inr res_simps transaction_validate_def res_fold_unit split: if_splits)

lemma apply_transaction_conserves:
  assumes "externals_ok E" and "chain_ok c" and "proposals_ok E c" and "apply_transaction E n skip trx c = Some (Inr c')"
  shows "conserves c c' \<and> proposals_ok E c'"
  using assms(4)
proof (rule apply_transaction_steps)
  fix c1
  let ?fl = "\<lparr>skip_fee = False, skip_fee_schedule_check = False, is_proposed_trx = False\<rparr>"
  assume valid: "\<forall>op \<in> set (tr_operations trx). operation_validate E op = Inr ()"
    and c1: "c1 = c \<or> (\<exists>x i t. tbl_create transaction_clash x (c_transactions c) = Inr (i, t) \<and> c1 = c\<lparr>c_transactions := t\<rparr>)"
    and run: "run_ops (apply_operation E n ?fl (trx_id E (transaction.truncate trx))) None (tr_operations trx) c1 = Some (Inr c')"
  have start: "conserves c c1 \<and> proposals_ok E c1"
    using c1 transaction_recorded [OF assms(2)] conserves_refl [OF assms(2)] assms(3) by (auto simp: proposals_ok_def)
  show "conserves c c' \<and> proposals_ok E c'"
  proof (rule run_ops_invariant [OF run, of "\<lambda>d. conserves c d \<and> proposals_ok E d"])
    show "conserves c c1 \<and> proposals_ok E c1" by (rule start)
  next
    fix x d d' assume x: "x \<in> set (tr_operations trx)" and d: "conserves c d \<and> proposals_ok E d"
      and ap: "apply_operation E n ?fl (trx_id E (transaction.truncate trx)) x d = Some (Inr d')"
    have "conserves d d' \<and> proposals_ok E d'"
      by (rule apply_operation_conserves [OF assms(1) _ _ _ _ ap]) (use d x valid in \<open>simp_all add: conserves_def\<close>)
    then show "conserves c d' \<and> proposals_ok E d'" using d conserves_trans [of c d d'] by blast
  qed
qed

text \<open>C2: a transaction that is applied, with every operation in it and every proposal it executes,
  leaves the total of what the chain holds of each asset (liquid and vesting balances, confidential supply and
  accumulated fees) exactly as it was, never touches the current supply or the budgets, and never makes a balance
  negative; the indexes keep their keys unique.
  The chain before has unique keys, no negative balance and well-formed proposals. The code the program calls
  keeps its contract (\<open>externals_ok\<close>).\<close>

theorem transactions_conserve_value:
  assumes "externals_ok E" and "chain_ok c" and "proposals_ok E c" and "no_debts c"
    and "apply_transaction E n skip trx c = Some (Inr c')"
  shows "held a c' = held a c \<and> supply_of a c' = supply_of a c \<and> budget_of c' = budget_of c \<and>
    no_debts c' \<and> chain_ok c' \<and> proposals_ok E c'"
  using apply_transaction_conserves [OF assms(1-3,5)] assms(4) by (simp add: conserves_def)

theorem transactions_conserve_value_witness:
  "\<exists>c'. apply_transaction sample_externals 2 0 sample_transaction sample_chain = Some (Inr c') \<and> held 0 c' = held 0 sample_chain"
proof -
  obtain c' where "apply_transaction sample_externals 2 0 sample_transaction sample_chain = Some (Inr c')"
    using sample_transaction_runs ran_iff by blast
  then show ?thesis using transactions_conserve_value [OF sample_externals_ok sample_chain_ok] by blast
qed

section \<open>Proposals do not nest\<close>

lemma run_bind_same:
  assumes "m \<noteq> None" and "\<And>x. m = Some (Inr x) \<Longrightarrow> f x = g x \<and> g x \<noteq> None"
  shows "run_bind m f = run_bind m g \<and> run_bind m g \<noteq> None"
  using assms by (auto simp: run_bind_def split: option.splits sum.splits)

lemma check_fee_returns:
  assumes "externals_ok E"
  shows "check_fee E fl op c \<noteq> None"
proof -
  note ops = externals_okD [OF assms]
  have "calculate_fee E op (unit_price 0) fs \<noteq> None" for fs
  proof (cases "res_bind (base_fee E op (find_fee (op_which op) fs)) (\<lambda>b.
      res_bind (share_of E b) (\<lambda>v. scaled_fee (nops E) (word_of_int v) (fs_scale fs)))")
    case (Inr s)
    then obtain b k where "scaled_fee (nops E) b k = Inr s" by (auto simp: res_simps)
    then have "0 \<le> s" "s \<le> GRAPHENE_MAX_SHARE_SUPPLY"
      by (auto simp: scaled_fee_eq [OF ops] Let_def pos_imp_zdiv_nonneg_iff split: if_splits)
    then show ?thesis using Inr fee_in_core [OF ops] by (simp add: calculate_fee_def)
  qed (simp add: calculate_fee_def)
  then show ?thesis by (simp add: check_fee_def run_bind_eq_None del: not_None_eq)
qed

lemma do_apply_without_push:
  "\<not> is_update op \<Longrightarrow> do_apply_op E push tx op c = do_apply_op E push' tx op c \<and> do_apply_op E push' tx op c \<noteq> None"
  by (cases op) auto

lemma flat_operation_returns:
  assumes "externals_ok E" and "\<not> is_update op"
  shows "apply_operation E (Suc n) fl tx op c = apply_operation E (Suc 0) fl tx op c \<and> apply_operation E (Suc 0) fl tx op c \<noteq> None"
proof -
  have "do_apply_op E push tx op = do_apply_op E push' tx op" for push push'
    using do_apply_without_push [OF assms(2)] by blast
  then have "apply_operation E (Suc n) fl tx op c = apply_operation E (Suc 0) fl tx op c"
    unfolding apply_operation.simps by metis
  moreover have "apply_operation E (Suc 0) fl tx op c \<noteq> None"
    using check_fee_returns [OF assms(1)] do_apply_without_push [OF assms(2)]
    by (auto simp: run_evaluator_def run_bind_eq_None)
  ultimately show ?thesis by blast
qed

lemma run_ops_cong:
  assumes "\<And>x c. x \<in> set xs \<Longrightarrow> f x c = g x c \<and> g x c \<noteq> None"
  shows "run_ops f src xs c = run_ops g src xs c \<and> run_ops g src xs c \<noteq> None"
  using assms
proof (induction xs arbitrary: c)
  case (Cons x xs)
  have "run_ops f src xs d = run_ops g src xs d \<and> run_ops g src xs d \<noteq> None" for d
    by (rule Cons.IH) (rule Cons.prems [OF list.set_intros(2)])
  then show ?case using Cons.prems [of x c] by (cases src; cases "g x c"; cases "the (g x c)") auto
qed simp

lemma push_proposal_returns:
  assumes "externals_ok E" and "proposals_ok E c"
  shows "push_proposal E (apply_operation E (Suc n)) p c = push_proposal E (apply_operation E (Suc 0)) p c \<and>
    push_proposal E (apply_operation E (Suc 0)) p c \<noteq> None"
proof (cases "tbl_find p (c_proposals c)")
  case None
  then show ?thesis by (simp add: push_proposal_def tbl_get_def)
next
  case (Some x)
  then have "(p, x) \<in> set (rows (c_proposals c))" by (auto simp: tbl_find_def dest: map_of_SomeD)
  then have "\<not> is_update op" if "op \<in> set (tr_operations (po_proposed_transaction x))" for op
    using assms(2) that by (auto simp: proposals_ok_def sound_ops_def)
  then have "run_ops (apply_operation E (Suc n) fl tx) src (tr_operations (po_proposed_transaction x)) c =
        run_ops (apply_operation E (Suc 0) fl tx) src (tr_operations (po_proposed_transaction x)) c \<and>
      run_ops (apply_operation E (Suc 0) fl tx) src (tr_operations (po_proposed_transaction x)) c \<noteq> None" for fl tx src
    by (intro run_ops_cong flat_operation_returns [OF assms(1)]) blast
  then show ?thesis using Some by (simp add: push_proposal_def tbl_get_def Let_def run_bind_eq_None del: not_None_eq)
qed

lemma operation_returns:
  assumes "externals_ok E" and "proposals_ok E c"
  shows "apply_operation E (Suc (Suc n)) fl tx op c = apply_operation E 2 fl tx op c \<and> apply_operation E 2 fl tx op c \<noteq> None"
proof (cases "is_update op")
  case False
  then show ?thesis
    using flat_operation_returns [OF assms(1), of op "Suc n" fl tx c] flat_operation_returns [OF assms(1), of op 1 fl tx c]
    by (simp add: numeral_2_eq_2 del: apply_operation.simps not_None_eq)
next
  case True
  then obtain x where op: "op = Proposal_Update x" by (cases op) auto
  let ?p = "\<lambda>n. push_proposal E (apply_operation E (Suc n))"
  have same: "proposal_update_do_apply (?p n) x c1 = proposal_update_do_apply (?p 0) x c1 \<and> proposal_update_do_apply (?p 0) x c1 \<noteq> None"
    if "proposals_ok E c1" for n c1
  proof -
    have "proposals_ok E (c1\<lparr>c_proposals := t\<rparr>)"
      if t: "tbl_modify no_clash (pu_proposal x) (\<lambda>p. Inr (updated_proposal x p)) (c_proposals c1) = Inr t" for t
    proof -
      obtain p where p: "tbl_find (pu_proposal x) (c_proposals c1) = Some p"
        and r: "rows t = map (\<lambda>(j, w). (j, if j = pu_proposal x then updated_proposal x p else w)) (rows (c_proposals c1))"
        using t by (auto elim: tbl_modifyD)
      have "(pu_proposal x, p) \<in> set (rows (c_proposals c1))" using p by (auto simp: tbl_find_def dest: map_of_SomeD)
      then show ?thesis using \<open>proposals_ok E c1\<close> by (auto simp: proposals_ok_def r updated_proposal_def split: if_splits)
    qed
    then have "?p n q (c1\<lparr>c_proposals := t\<rparr>) = ?p 0 q (c1\<lparr>c_proposals := t\<rparr>) \<and> ?p 0 q (c1\<lparr>c_proposals := t\<rparr>) \<noteq> None"
      if "tbl_modify no_clash (pu_proposal x) (\<lambda>p. Inr (updated_proposal x p)) (c_proposals c1) = Inr t" for t q
      using push_proposal_returns [OF assms(1)] that by blast
    then show ?thesis
      by (cases "tbl_modify no_clash (pu_proposal x) (\<lambda>p. Inr (updated_proposal x p)) (c_proposals c1)")
        (auto simp: proposal_update_do_apply_def Let_def run_bind_eq_None run_bind_def split: option.splits sum.splits)
  qed
  have "proposals_ok E c1" if "pay_fee (nops E) fl f c = Inr c1" for f c1
    using that assms(2) by (auto simp: pay_fee_def modify_dynamic_data_def res_simps proposals_ok_def split: if_splits)
  then have step: "run_bind (proposal_update_do_apply (?p n) x c1) (\<lambda>c2. Some (k c2)) =
        run_bind (proposal_update_do_apply (?p 0) x c1) (\<lambda>c2. Some (k c2)) \<and>
      run_bind (proposal_update_do_apply (?p 0) x c1) (\<lambda>c2. Some (k c2)) \<noteq> None"
    if "Some (pay_fee (nops E) fl f c) = Some (Inr c1)" for n c1 f and k :: "chain \<Rightarrow> chain res"
    using same [of c1 n] that by (simp add: run_bind_eq_None del: not_None_eq)
  have "run_evaluator E fl op ev (do_apply_op E (?p n) tx op) c = run_evaluator E fl op ev (do_apply_op E (?p 0) tx op) c \<and>
      run_evaluator E fl op ev (do_apply_op E (?p 0) tx op) c \<noteq> None" for n ev
    unfolding run_evaluator_def op do_apply_op.simps
    by (intro run_bind_same check_fee_returns [OF assms(1)] step option.distinct(2))
  then show ?thesis by (simp add: numeral_2_eq_2 del: One_nat_def)
qed

lemma run_ops_returns:
  assumes "P c" and "\<And>x c. x \<in> set xs \<Longrightarrow> P c \<Longrightarrow> f x c = g x c \<and> g x c \<noteq> None"
    and "\<And>x c c'. x \<in> set xs \<Longrightarrow> P c \<Longrightarrow> g x c = Some (Inr c') \<Longrightarrow> P c'"
  shows "run_ops f None xs c = run_ops g None xs c \<and> run_ops g None xs c \<noteq> None"
  using assms
proof (induction xs arbitrary: c)
  case Nil
  show ?case by simp
next
  case (Cons x xs)
  have tl: "run_ops f None xs d = run_ops g None xs d \<and> run_ops g None xs d \<noteq> None" if "g x c = Some (Inr d)" for d
    by (rule Cons.IH [OF Cons.prems(3) [OF list.set_intros(1) Cons.prems(1) that]
        Cons.prems(2) [OF list.set_intros(2)] Cons.prems(3) [OF list.set_intros(2)]])
  have "f x c = g x c" and g: "g x c \<noteq> None"
    using Cons.prems(2) [OF list.set_intros(1) Cons.prems(1)] by auto
  moreover note run_bind_same [OF g tl]
  ultimately show ?case by (simp del: not_None_eq)
qed

lemma transaction_ops_return:
  assumes "externals_ok E" and "chain_ok d" and "proposals_ok E d" and "transaction_validate E (tr_operations trx) = Inr ()" and "\<not> skip_fee fl"
  shows "run_ops (apply_operation E (n + 2) fl tx) None (tr_operations trx) d =
      run_ops (apply_operation E 2 fl tx) None (tr_operations trx) d \<and>
    run_ops (apply_operation E 2 fl tx) None (tr_operations trx) d \<noteq> None"
proof (rule run_ops_returns)
  show "chain_ok d \<and> proposals_ok E d" using assms by blast
next
  show "apply_operation E (n + 2) fl tx x e = apply_operation E 2 fl tx x e \<and> apply_operation E 2 fl tx x e \<noteq> None"
    if "chain_ok e \<and> proposals_ok E e" for x e
    using operation_returns [OF assms(1), of e n fl tx x] that by simp
next
  fix x e e' assume x: "x \<in> set (tr_operations trx)" and e: "chain_ok e \<and> proposals_ok E e" "apply_operation E 2 fl tx x e = Some (Inr e')"
  have "operation_validate E x = Inr ()"
    using assms(4) x by (auto simp: transaction_validate_def res_simps res_fold_unit)
  then show "chain_ok e' \<and> proposals_ok E e'"
    using apply_operation_conserves [OF assms(1) _ _ _ _ e(2)] e(1) assms(5) by (simp add: conserves_def)
qed

lemma transaction_returns:
  assumes "externals_ok E" and "chain_ok c" and "proposals_ok E c"
  shows "apply_transaction E (n + 2) skip trx c = apply_transaction E 2 skip trx c \<and>
    apply_transaction E 2 skip trx c \<noteq> None"
proof -
  let ?fl = "\<lparr>skip_fee = False, skip_fee_schedule_check = False, is_proposed_trx = False\<rparr>"
    and ?tx = "trx_id E (transaction.truncate trx)"
  let ?pre = "res_bind (transaction_validate E (tr_operations trx)) (\<lambda>_.
      res_bind (fc_assert (skip AND skip_transaction_dupe_check \<noteq> 0 \<or> (\<forall>(i, t) \<in> set (rows (c_transactions c)). to_trx_id t \<noteq> ?tx))) (\<lambda>_.
      res_bind (if skip AND (skip_transaction_signatures OR skip_authority_check) = 0
                then verify_transaction_authority E trx c else Inr ()) (\<lambda>_.
      res_bind (check_tapos skip trx c) (\<lambda>_.
      if skip AND skip_transaction_dupe_check = 0
      then res_bind (tbl_create transaction_clash \<lparr>to_trx_id = ?tx, to_trx = trx\<rparr> (c_transactions c)) (\<lambda>(_, t).
           Inr (c\<lparr>c_transactions := t\<rparr>))
      else Inr c))))"
  have pre: "chain_ok d \<and> proposals_ok E d \<and> transaction_validate E (tr_operations trx) = Inr ()" if "Some ?pre = Some (Inr d)" for d
    using that transaction_recorded [OF assms(2)] assms(2,3)
    by (auto simp: res_simps conserves_def proposals_ok_def split: if_splits)
  let ?fin = "\<lambda>c2. Some (res_bind (temp_account_empty c2) (\<lambda>_. Inr c2))"
  have eq: "apply_transaction E m skip trx c =
      run_bind (Some ?pre) (\<lambda>d. run_bind (run_ops (apply_operation E m ?fl ?tx) None (tr_operations trx) d) ?fin)" for m
    unfolding apply_transaction_def Let_def by (rule refl)
  have step: "run_bind (run_ops (apply_operation E (n + 2) ?fl ?tx) None (tr_operations trx) d) ?fin =
        run_bind (run_ops (apply_operation E 2 ?fl ?tx) None (tr_operations trx) d) ?fin \<and>
      run_bind (run_ops (apply_operation E 2 ?fl ?tx) None (tr_operations trx) d) ?fin \<noteq> None" if "Some ?pre = Some (Inr d)" for d
    using transaction_ops_return [OF assms(1), of d trx ?fl n ?tx] pre [OF that] by (simp add: run_bind_eq_None del: not_None_eq)
  show ?thesis unfolding eq by (rule run_bind_same [OF option.distinct(2) step])
qed

text \<open>C8: applying a transaction always returns: two levels of calls are enough for the transaction and the
  proposals it executes, and more change nothing, since no stored proposal contains the update of a proposal (which
  could execute another, or the same one again).
  The chain has unique keys and well-formed proposals. The code the program calls keeps its contract
  (\<open>externals_ok\<close>).\<close>

theorem transactions_always_return:
  assumes "externals_ok E" and "chain_ok c" and "proposals_ok E c"
  shows "apply_transaction E (n + 2) skip trx c = apply_transaction E 2 skip trx c \<and>
    apply_transaction E 2 skip trx c \<noteq> None"
  by (rule transaction_returns [OF assms])

theorem transactions_always_return_witness:
  "apply_transaction sample_externals 2 0 sample_transaction sample_chain \<noteq> None"
  using transactions_always_return [OF sample_externals_ok sample_chain_ok(1,2)] by blast

section \<open>Authorisation\<close>

lemma payers_required:
  assumes "get_required_authorities auths ops = (act, own, oth)" and "op \<in> set ops"
  shows "insert (fee_payer (auths op)) (set (op_active (auths op))) \<subseteq> set act" and "set (op_owner (auths op)) \<subseteq> set own"
proof -
  have ins: "set (fold insort_insert xs ys) = set xs \<union> set ys" for xs ys :: "nat list"
    by (induction xs arbitrary: ys) (auto simp: set_insort_insert)
  have acc: "(\<forall>op \<in> set ops. insert (fee_payer (auths op)) (set (op_active (auths op))) \<subseteq> set act \<and> set (op_owner (auths op)) \<subseteq> set own) \<and>
      set a0 \<subseteq> set act \<and> set o0 \<subseteq> set own"
    if "fold (\<lambda>x. operation_get_required_authorities (auths x)) ops (a0, o0, x0) = (act, own, oth)" for a0 o0 x0
    using that
  proof (induction ops arbitrary: a0 o0 x0)
    case (Cons op ops)
    let ?a = "fold insort_insert (op_active (auths op)) (insort_insert (fee_payer (auths op)) a0)"
      and ?o = "fold insort_insert (op_owner (auths op)) o0" and ?x = "x0 @ op_other (auths op)"
    have "operation_get_required_authorities (auths op) (a0, o0, x0) = (?a, ?o, ?x)"
      by (simp add: operation_get_required_authorities_def)
    then have "fold (\<lambda>x. operation_get_required_authorities (auths x)) ops (?a, ?o, ?x) = (act, own, oth)"
      using Cons.prems by simp
    from Cons.IH [OF this] show ?case by (auto simp: ins set_insort_insert)
  qed simp
  show "insert (fee_payer (auths op)) (set (op_active (auths op))) \<subseteq> set act" and "set (op_owner (auths op)) \<subseteq> set own"
    using acc [of "[]" "[]" "[]"] assms by (auto simp: get_required_authorities_def)
qed

text \<open>C6: a transaction applied with the authority checks on (no flag is set) carries signatures of keys that, through the owner
  authorities of the accounts, authorise for every operation the account that pays its fee and every account whose active
  authority it requires; the committee's account is not among them, and no earlier transaction on record has
  the same identifier.\<close>

theorem applied_transaction_is_authorized:
  assumes "apply_transaction E n 0 trx c = Some (Inr c')"
  shows "\<exists>keys. signature_keys E trx = Inr keys \<and>
    list_all (\<lambda>op. GRAPHENE_MINER_ACCOUNT \<notin> set (op_fee_payer op # op_active (operation_auths op)) \<and>
      list_all (account_authorized (owner_of c) (owner_of c) (set keys) (approved_base [] [])) (op_fee_payer op # op_active (operation_auths op)))
      (tr_operations trx) \<and>
    list_all (\<lambda>(i, t). to_trx_id t \<noteq> trx_id E (transaction.truncate trx)) (rows (c_transactions c))"
proof -
  have "verify_transaction_authority E trx c = Inr ()" and fresh: "list_all (\<lambda>(i, t). to_trx_id t \<noteq> trx_id E (transaction.truncate trx)) (rows (c_transactions c))"
    using assms by (auto simp: apply_transaction_def Let_def run_bind_eq_Inr res_simps list_all_iff)
  then obtain keys where keys: "signature_keys E trx = Inr keys"
    and ver: "verify_authority operation_auths (tr_operations trx) keys (owner_of c) (owner_of c)
       (unat (max_authority_depth (gp_parameters (c_global c)))) False [] [] = Inr ()"
    by (auto simp: verify_transaction_authority_def res_simps)
  obtain act own oth where req: "get_required_authorities operation_auths (tr_operations trx) = (act, own, oth)"
    by (metis prod_cases3)
  obtain s where "\<forall>a \<in> set act. account_authorized (owner_of c) (owner_of c) (set keys) (approved_base [] []) a"
    "GRAPHENE_MINER_ACCOUNT \<notin> set act"
    using verify_authority_steps [OF ver req] by metis
  then have "GRAPHENE_MINER_ACCOUNT \<notin> set (op_fee_payer op # op_active (operation_auths op)) \<and>
      list_all (account_authorized (owner_of c) (owner_of c) (set keys) (approved_base [] [])) (op_fee_payer op # op_active (operation_auths op))"
    if "op \<in> set (tr_operations trx)" for op
    using payers_required(1) [OF req that] by (auto simp: list_all_iff)
  then show ?thesis using keys fresh by (auto simp: list_all_iff)
qed

theorem applied_transaction_is_authorized_witness:
  "account_authorized (owner_of sample_chain) (owner_of sample_chain) {1} (approved_base [] []) 10"
proof -
  obtain c' where "apply_transaction sample_externals 2 0 sample_transaction sample_chain = Some (Inr c')"
    using sample_transaction_runs ran_iff by blast
  from applied_transaction_is_authorized [OF this] obtain keys where "signature_keys sample_externals sample_transaction = Inr keys"
    and "account_authorized (owner_of sample_chain) (owner_of sample_chain) (set keys) (approved_base [] []) 10"
    by (auto simp: sample_transaction_def sample_transfer_def pays_def)
  moreover have "signature_keys sample_externals sample_transaction = Inr [1]" by code_simp
  ultimately show ?thesis by auto
qed

end
