(* ===== verification/Rewards.thy ===== *)
theory Rewards
  imports Balances
begin

text \<open>
  The block rewards (\<open>db_cyva.cpp\<close>): the two tables, the reward of a block number and the estimate of
  the mining budget.  The tables hold built-in 64-bit numbers that fit \<open>share_type\<close>, so their
  conversion is exact; the conversion of other 64-bit words is a parameter.
\<close>

section \<open>The tables\<close>

definition CYVA_SPLIT :: "int list" where
  "CYVA_SPLIT = [
    1052000, 2104000, 3156000, 4208000, 5260000, 6312000, 7364000, 8416000, 9468000, 10520000, 11572000, 12624000,
    13676000, 14728000, 15780000, 16832000, 17884000, 18936000, 19988000, 21040000, 22092000, 23144000, 24196000,
    25248000, 26300000, 27352000, 28404000, 29456000, 30508000, 31560000, 32612000, 33664000, 34716000, 35768000,
    36820000, 37872000, 38924000, 39976000, 41028000, 42080000, 43132000, 44184000, 45236000, 46288000, 47340000,
    48392000, 49444000, 50496000, 51548000, 52600000, 53652000, 54704000, 55756000, 56808000, 57860000, 58912000,
    59964000, 61016000, 62068000, 63120000, 64172000, 65224000, 66276000, 67328000, 68380000, 69432000, 70484000,
    71536000, 72588000, 73640000, 74692000, 75744000, 76796000, 77848000, 78900000, 79952000, 81004000, 82056000,
    83108000, 84160000, 85212000, 86264000, 87316000, 88368000, 89420000, 90472000, 91524000, 92576000, 93628000,
    94680000, 95732000, 96784000, 97836000, 98888000, 4081173369, 4100000000]"

definition CYVA_BLOCK_REWARD :: "int list" where
  "CYVA_BLOCK_REWARD = [
    3802281369, 3041825095, 2433460076, 1946768061, 1557414449, 1245931559, 996745247, 797396198, 637916956,
    510333564, 408266851, 326613480, 261290784, 209032627, 167226101, 133780880, 107024704, 85619763, 68495810,
    54796648, 43837318, 35069854, 28055883, 22444706, 17955764, 14364611, 11491688, 9193350, 7354680, 5883744,
    4706995, 3765596, 3012476, 2409980, 1927984, 1542387, 1233909, 987127, 789701, 631760, 505408, 404326, 323460,
    258768, 207014, 165611, 132488, 105990, 84792, 67833, 54266, 43412, 34729, 27783, 22226, 17780, 14224, 11379,
    9103, 7282, 5825, 4660, 3728, 2982, 2385, 1908, 1526, 1220, 976, 780, 624, 499, 399, 319, 255, 204, 163, 130,
    104, 83, 66, 52, 41, 32, 25, 20, 16, 12, 9, 7, 5, 4, 3, 2, 1, 0]"

section \<open>Rewards\<close>

definition lower_bound :: "int list \<Rightarrow> int \<Rightarrow> nat" where
  \<comment> \<open>the position of the first element of a sorted list that is not below \<open>x\<close>\<close>
  "lower_bound xs x = length (takeWhile (\<lambda>y. y < x) xs)"

definition upper_bound :: "int list \<Rightarrow> int \<Rightarrow> nat" where
  \<comment> \<open>the position of the first element of a sorted list that is above \<open>x\<close>\<close>
  "upper_bound xs x = length (takeWhile (\<lambda>y. y \<le> x) xs)"

definition is_reward_switch_time :: "chain \<Rightarrow> bool" where
  "is_reward_switch_time c \<longleftrightarrow> uint (head_block_num c) \<in> set CYVA_SPLIT"

definition is_reward_switch_in_interval :: "64 word \<Rightarrow> 64 word \<Rightarrow> bool" where
  "is_reward_switch_in_interval a b \<longleftrightarrow>
     a < b \<and> lower_bound CYVA_SPLIT (uint a) < upper_bound CYVA_SPLIT (uint b)"

definition get_next_reward_switch_block :: "64 word \<Rightarrow> 64 word" where
  \<comment> \<open>zero after the last switch\<close>
  "get_next_reward_switch_block start =
     (let i = lower_bound CYVA_SPLIT (uint start)
      in if i < length CYVA_SPLIT then word_of_int (CYVA_SPLIT ! i) else 0)"

definition get_asset_per_block_by_block_num :: "32 word \<Rightarrow> int" where
  "get_asset_per_block_by_block_num num =
     (let i = upper_bound CYVA_SPLIT (uint num)
      in if i < length CYVA_SPLIT then CYVA_BLOCK_REWARD ! i else last CYVA_BLOCK_REWARD)"

definition get_new_asset_per_block :: "chain \<Rightarrow> int" where
  "get_new_asset_per_block c = get_asset_per_block_by_block_num (head_block_num c)"

definition times_word :: "externals \<Rightarrow> int \<Rightarrow> 64 word \<Rightarrow> int res" where
  \<comment> \<open>a \<open>share_type\<close> times an unsigned 64-bit number\<close>
  "times_word E a w = res_bind (share_of E w) (\<lambda>n. safe (nops E) (a * n))"

definition get_miner_budget :: "externals \<Rightarrow> 32 word \<Rightarrow> chain \<Rightarrow> int res" where
  "get_miner_budget E blocks_to_maint c =
     (let head = head_block_num c;
          reward = get_new_asset_per_block c;
          next_switch = get_next_reward_switch_block (ucast head)
      in if ucast (head + 1 + blocks_to_maint) \<ge> next_switch
         then let to_switch = next_switch - ucast head - 1;
                  i = length (takeWhile (\<lambda>s. s \<noteq> uint next_switch) CYVA_SPLIT)
              in if i < length CYVA_SPLIT
                 then res_bind (times_word E reward to_switch) (\<lambda>a.
                      res_bind (share_of E (word_of_int (CYVA_BLOCK_REWARD ! i) * (ucast blocks_to_maint - to_switch))) (\<lambda>b.
                      safe (nops E) (a + b)))
                 else res_bind (times_word E reward to_switch) (\<lambda>a.
                      res_bind (times_word E (trunc_div reward 2) (ucast blocks_to_maint - to_switch)) (\<lambda>b.
                      safe (nops E) (a + b)))
         else times_word E reward (ucast blocks_to_maint))"

section \<open>All the coins that are ever mined\<close>

definition mined :: "nat \<Rightarrow> int" where
  \<comment> \<open>the rewards of the blocks with numbers one to \<open>n\<close>\<close>
  "mined n = sum_list (map (\<lambda>k. get_asset_per_block_by_block_num (word_of_nat k)) [1..<Suc n])"

fun area :: "int list \<Rightarrow> int list \<Rightarrow> int \<Rightarrow> int \<Rightarrow> int" where
  \<comment> \<open>the sum of the step function with steps \<open>ss\<close> and heights \<open>rs\<close> from \<open>p\<close> to below \<open>n\<close>\<close>
  "area ss [] p n = 0"
| "area [] (r # rs) p n = r * (n - p)"
| "area (s # ss) (r # rs) p n = (if n \<le> s then r * (n - p) else r * (s - p) + area ss rs s n)"

lemma upper_bound_nth:
  assumes "sorted xs" and "i < length xs" and "xs ! i \<le> x"
  shows "i < upper_bound xs x"
proof -
  have "xs ! j \<le> x" if "j < Suc i" for j
    using sorted_nth_mono [OF assms(1), of j i] that assms(2,3) by simp
  then have "\<forall>y \<in> set (take (Suc i) xs). y \<le> x"
    using assms(2) by (auto simp: in_set_conv_nth)
  then have "takeWhile (\<lambda>y. y \<le> x) (take (Suc i) xs @ drop (Suc i) xs) = take (Suc i) xs @ takeWhile (\<lambda>y. y \<le> x) (drop (Suc i) xs)"
    by (intro takeWhile_append2) blast
  then have "takeWhile (\<lambda>y. y \<le> x) xs = take (Suc i) xs @ takeWhile (\<lambda>y. y \<le> x) (drop (Suc i) xs)"
    by simp
  then show ?thesis using assms(2) by (simp add: upper_bound_def)
qed

lemma step_sum_constant:
  assumes "\<And>k. p \<le> k \<Longrightarrow> k < n \<Longrightarrow> f k = r" and "p \<le> n"
  shows "(\<Sum>k \<in> {p..<n :: int}. f k) = r * (n - p)"
proof -
  have "(\<Sum>k \<in> {p..<n}. f k) = (\<Sum>k \<in> {p..<n}. r)" by (rule sum.cong) (auto simp: assms(1))
  then show ?thesis using assms(2) by simp
qed

lemma step_sum_area:
  assumes "sorted (p # ss)" and "p \<le> n" and "length rs = Suc (length ss)"
  shows "(\<Sum>k \<in> {p..<n}. rs ! upper_bound ss k) = area ss rs p n"
  using assms
proof (induction ss arbitrary: p rs)
  case Nil
  then show ?case by (cases rs) (simp_all add: upper_bound_def)
next
  case (Cons s ss)
  then obtain r rs' where rs: "rs = r # rs'" by (cases rs) auto
  have low: "rs ! upper_bound (s # ss) k = r" if "k < s" for k
    using that by (simp add: upper_bound_def rs)
  show ?case
  proof (cases "n \<le> s")
    case True
    then show ?thesis using step_sum_constant [of p n "\<lambda>k. rs ! upper_bound (s # ss) k" r] low Cons.prems(2) by (simp add: rs)
  next
    case False
    have "{p..<n} = {p..<s} \<union> {s..<n}" using False Cons.prems(1) by auto
    then have "(\<Sum>k \<in> {p..<n}. rs ! upper_bound (s # ss) k) =
        (\<Sum>k \<in> {p..<s}. rs ! upper_bound (s # ss) k) + (\<Sum>k \<in> {s..<n}. rs ! upper_bound (s # ss) k)"
      by (simp add: sum.union_disjoint)
    also have "(\<Sum>k \<in> {p..<s}. rs ! upper_bound (s # ss) k) = r * (s - p)"
      by (rule step_sum_constant) (use low Cons.prems(1) in auto)
    also have "(\<Sum>k \<in> {s..<n}. rs ! upper_bound (s # ss) k) = (\<Sum>k \<in> {s..<n}. rs' ! upper_bound ss k)"
      by (rule sum.cong) (auto simp: upper_bound_def rs)
    also have "(\<Sum>k \<in> {s..<n}. rs' ! upper_bound ss k) = area ss rs' s n"
      using Cons.IH [of s rs'] Cons.prems False by (auto simp: rs)
    finally show ?thesis using False by (simp add: rs)
  qed
qed

lemma tables:
  shows "sorted (0 # CYVA_SPLIT)" and "length CYVA_SPLIT = 96" and "length CYVA_BLOCK_REWARD = 96"
    and "CYVA_SPLIT ! 94 = 4081173369" and "CYVA_BLOCK_REWARD ! 95 = 0" and "last CYVA_BLOCK_REWARD = 0"
    and "\<forall>r \<in> set CYVA_BLOCK_REWARD. 0 \<le> r"
  by code_simp+

lemma all_rewards:
  "area CYVA_SPLIT (CYVA_BLOCK_REWARD @ [0]) 0 4081173369 = 20000003802281369"
  by (simp add: CYVA_SPLIT_def CYVA_BLOCK_REWARD_def)

lemma reward_by_position:
  assumes "k < 2 ^ 32"
  shows "get_asset_per_block_by_block_num (word_of_nat k) = (CYVA_BLOCK_REWARD @ [0]) ! upper_bound CYVA_SPLIT (int k)"
proof -
  have "upper_bound CYVA_SPLIT (int k) \<le> 96" using length_takeWhile_le [of _ CYVA_SPLIT] by (simp add: upper_bound_def tables)
  moreover have "uint (word_of_nat k :: 32 word) = int k" using assms by (simp add: uint_nat unat_of_nat)
  ultimately show ?thesis
    by (auto simp: get_asset_per_block_by_block_num_def Let_def tables nth_append)
qed

lemma mined_sum: "mined n = (\<Sum>k = 1..<Suc n. get_asset_per_block_by_block_num (word_of_nat k))"
  by (simp only: mined_def interv_sum_list_conv_sum_set_nat set_upt)

lemma mined_eq:
  assumes "n < 2 ^ 32"
  shows "mined n = area CYVA_SPLIT (CYVA_BLOCK_REWARD @ [0]) 0 (int n + 1) - 3802281369"
proof -
  let ?f = "\<lambda>k. (CYVA_BLOCK_REWARD @ [0]) ! upper_bound CYVA_SPLIT k"
  have "mined n = (\<Sum>k = 1..<Suc n. ?f (int k))"
    unfolding mined_sum using assms by (intro sum.cong refl reward_by_position) simp
  also have "\<dots> = (\<Sum>k = 0..<Suc n. ?f (int k)) - 3802281369"
    by (simp add: sum.atLeast_Suc_lessThan upper_bound_def CYVA_SPLIT_def CYVA_BLOCK_REWARD_def)
  also have "(\<Sum>k = 0..<Suc n. ?f (int k)) = (\<Sum>k \<in> int ` {0..<Suc n}. ?f k)"
    by (simp add: sum.reindex)
  also have "\<dots> = area CYVA_SPLIT (CYVA_BLOCK_REWARD @ [0]) 0 (int n + 1)"
    unfolding image_int_atLeastLessThan using step_sum_area [of 0 CYVA_SPLIT "int n + 1"] tables(1,2,3) by (simp add: add.commute)
  finally show ?thesis .
qed

lemma reward_nonneg: "0 \<le> get_asset_per_block_by_block_num k"
  using tables by (auto simp: get_asset_per_block_by_block_num_def Let_def)

lemma reward_over:
  assumes "4081173369 \<le> k" and "k < 2 ^ 32"
  shows "get_asset_per_block_by_block_num (word_of_nat k) = 0"
proof -
  have "94 < upper_bound CYVA_SPLIT (int k)"
    using upper_bound_nth [of CYVA_SPLIT 94 "int k"] tables assms(1) by auto
  moreover have k: "uint (word_of_nat k :: 32 word) = int k" using assms(2) by (simp add: uint_nat unat_of_nat)
  ultimately have "upper_bound CYVA_SPLIT (int k) = 95 \<or> \<not> upper_bound CYVA_SPLIT (int k) < 96" by linarith
  then show ?thesis
    using tables k by (auto simp: get_asset_per_block_by_block_num_def Let_def)
qed

lemma mined_bounds:
  assumes "n < 2 ^ 32"
  shows "0 \<le> mined n \<and> mined n \<le> 20000000000000000 \<and>
    (if 4081173368 \<le> n then mined n = 20000000000000000 else True)"
proof -
  have split: "mined m = mined k + (\<Sum>i = Suc k..<Suc m. get_asset_per_block_by_block_num (word_of_nat i))" if "k \<le> m" for k m
    unfolding mined_sum using that by (intro sum.atLeastLessThan_concat [symmetric]) simp_all
  have "mined 4081173368 = 20000000000000000"
    using mined_eq [of 4081173368] all_rewards by simp
  moreover have "mined n \<le> mined 4081173368" if "n \<le> 4081173368"
    using split [OF that] by (simp add: sum_nonneg reward_nonneg)
  moreover have "mined n = mined 4081173368" if "4081173368 \<le> n"
    using split [OF that] assms by (simp add: reward_over)
  moreover have "0 \<le> mined n"
    using split [of 0 n] by (simp add: mined_def sum_nonneg reward_nonneg)
  ultimately show ?thesis by (cases "n \<le> 4081173368") auto
qed

text \<open>C16: mining creates two hundred million coins and no more: the rewards of any number of blocks add up
  to at most 20000000000000000 units of the core asset, and to exactly that from block 4081173368 on.\<close>

theorem mined_total:
  assumes "n < 2 ^ 32"
  shows "0 \<le> mined n \<and> mined n \<le> 20000000000000000 \<and>
    (if 4081173368 \<le> n then mined n = 20000000000000000 else True)"
  by (rule mined_bounds [OF assms])

theorem mined_total_witness: "mined 4294967295 = 20000000000000000"
  using mined_total [of 4294967295] by simp

end
