(* ===== verification/Schedule.thy ===== *)
theory Schedule
  imports Rewards
begin

text \<open>
  The schedule of the miners (\<open>db_miner_schedule.cpp\<close>): which miner a slot belongs to, when a
  slot starts, which slot a time falls in, and the shuffling of the active miners.  A remainder by
  zero (no miners, a block interval of zero) is undefined behaviour.
\<close>

lemma uint_eq_of_int: "x = word_of_int k \<Longrightarrow> 0 \<le> k \<Longrightarrow> k < 2 ^ LENGTH('a) \<Longrightarrow> uint (x :: 'a::len word) = k"
  by (simp add: uint_word_of_int_eq take_bit_int_eq_self)

section \<open>Slots\<close>

definition maintenance_flag :: "32 word" where "maintenance_flag = 1"

abbreviation interval_of :: "chain \<Rightarrow> 8 word" where
  "interval_of c \<equiv> block_interval (gp_parameters (c_global c))"

definition get_scheduled_miner :: "32 word \<Rightarrow> chain \<Rightarrow> nat res" where
  "get_scheduled_miner slot_num c =
     (let miners = c_shuffled_miners c;
          current_aslot = dp_current_aslot (c_dynamic c) + ucast slot_num
      in if miners = [] then Inl Undefined_Behaviour
         else Inr (miners ! unat (current_aslot mod word_of_nat (length miners))))"

definition get_slot_time :: "32 word \<Rightarrow> chain \<Rightarrow> time res" where
  "get_slot_time slot_num c =
     (if slot_num = 0 then Inr 0
      else let interval = ucast (interval_of c);
               dpo = c_dynamic c
           in if head_block_num c = 0 then Inr (dp_time dpo + slot_num * interval)
              else if interval = 0 then Inl Undefined_Behaviour
              else let head_block_abs_slot = head_block_time c div interval;
                       head_slot_time = head_block_abs_slot * interval;
                       slot = (if dp_dynamic_flags dpo AND maintenance_flag \<noteq> 0
                               then slot_num + ucast (maintenance_skip_slots (gp_parameters (c_global c))) else slot_num)
                   in Inr (head_slot_time + slot * interval))"

definition get_slot_at_time :: "time \<Rightarrow> chain \<Rightarrow> 32 word res" where
  "get_slot_at_time when c =
     res_bind (get_slot_time 1 c) (\<lambda>first_slot_time.
     if when < first_slot_time then Inr 0
     else if interval_of c = 0 then Inl Undefined_Behaviour
     else Inr (word_of_int (elapsed when first_slot_time div uint (interval_of c) + 1)))"

definition popcount :: "128 word \<Rightarrow> nat" where
  "popcount w = length (filter (bit w) [0..<128])"

definition miner_participation_rate :: "chain \<Rightarrow> 32 word" where
  "miner_participation_rate c =
     word_of_int (GRAPHENE_100_PERCENT * int (popcount (dp_recent_slots_filled (c_dynamic c))) div 128)"

section \<open>The shuffling\<close>

definition shuffle_key :: "64 word \<Rightarrow> nat \<Rightarrow> 64 word" where
  \<comment> \<open>the pseudo-random number of position \<open>i\<close>\<close>
  "shuffle_key now_hi i =
     (let k = now_hi + word_of_nat i * 2685821657736338717;
          k1 = k XOR drop_bit 12 k;
          k2 = k1 XOR push_bit 25 k1;
          k3 = k2 XOR drop_bit 27 k2
      in k3 * 2685821657736338717)"

definition shuffle_step :: "64 word \<Rightarrow> nat \<Rightarrow> 'a list \<Rightarrow> 'a list" where
  "shuffle_step now_hi i ms =
     (let jmax = word_of_nat (length ms - i) :: 32 word;
          j = unat (ucast (word_of_nat i + shuffle_key now_hi i mod ucast jmax) :: 32 word)
      in ms[i := ms ! j, j := ms ! i])"

definition shuffle :: "64 word \<Rightarrow> 'a list \<Rightarrow> 'a list" where
  "shuffle now_hi ms = fold (shuffle_step now_hi) [0..<length ms] ms"

definition update_miner_schedule :: "chain \<Rightarrow> chain res" where
  "update_miner_schedule c =
     (let active = gp_active_miners (c_global c)
      in if active = [] then Inl Undefined_Behaviour
         else if ucast (head_block_num c) mod (word_of_nat (length active) :: 64 word) = 0
         then Inr (c\<lparr>c_shuffled_miners := shuffle (push_bit 32 (ucast (head_block_time c))) active\<rparr>)
         else Inr c)"

end
