(* ===== verification/Updates.thy ===== *)
theory Updates
  imports Schedule Transactions
begin

text \<open>
  What a block changes besides its transactions (\<open>db_update.cpp\<close>): the dynamic properties and the
  missed slots, the pay of the miner and its voters, the last irreversible block, the expired
  transactions and proposals, the maintenance flag.

  The record \<open>block_env\<close> holds what comes from outside the tables: the checkpoints and the
  immutable minimum of miners, the hash functions of the \<open>fc\<close> library, and the order in which an index
  of \<open>boost\<close> gives objects with equal keys, which depends on the history of the index.  The sizes
  of the undo and fork databases that the code sets are \<open>history_size\<close>.
\<close>

section \<open>Environment\<close>

type_synonym block = "signed_transaction signed_block"

record block_env =
  be_checkpoints :: "(32 word \<times> block_id) list"
  be_min_miner_count :: nat
  be_equal_keys :: "nat list \<Rightarrow> nat list"
  be_reverse :: "32 word \<Rightarrow> 32 word"
  be_sha224 :: "signed_block_header \<Rightarrow> 32 word list"
  be_recover :: "8 word list \<Rightarrow> nat \<Rightarrow> public_key res"
  be_digest :: "block_header \<Rightarrow> nat"
  be_merkle_digest :: "signed_transaction \<Rightarrow> nat"
  be_hash2 :: "nat \<times> nat \<Rightarrow> nat"
  be_checksum :: "nat \<Rightarrow> hash160"

definition GRAPHENE_MAX_UNDO_HISTORY :: int where "GRAPHENE_MAX_UNDO_HISTORY = 10000"
definition GRAPHENE_RECENTLY_MISSED_COUNT_INCREMENT :: "32 word" where "GRAPHENE_RECENTLY_MISSED_COUNT_INCREMENT = 4"
definition GRAPHENE_RECENTLY_MISSED_COUNT_DECREMENT :: "32 word" where "GRAPHENE_RECENTLY_MISSED_COUNT_DECREMENT = 3"
definition GRAPHENE_IRREVERSIBLE_THRESHOLD :: int where "GRAPHENE_IRREVERSIBLE_THRESHOLD = 7000"
definition VOTE_REWARD_FORK :: "32 word" where "VOTE_REWARD_FORK = 545000"
definition VOTE_REWARD_CHECK :: "32 word" where "VOTE_REWARD_CHECK = 563500"

definition skip_block_size_check :: "32 word" where "skip_block_size_check = push_bit 4 1"
definition skip_merkle_check :: "32 word" where "skip_merkle_check = push_bit 7 1"
definition skip_undo_history_check :: "32 word" where "skip_undo_history_check = push_bit 9 1"
definition skip_miner_schedule_check :: "32 word" where "skip_miner_schedule_check = push_bit 10 1"

abbreviation number_of_block :: "block_env \<Rightarrow> block \<Rightarrow> 32 word" where
  "number_of_block B b \<equiv> block_num (be_reverse B) b"

abbreviation id_of_block :: "block_env \<Rightarrow> block \<Rightarrow> block_id" where
  "id_of_block B b \<equiv> block_id_of (be_reverse B) (be_sha224 B) b"

definition miner_of :: "block \<Rightarrow> nat" where
  "miner_of b = unat (instance_of (miner b))"

section \<open>Dynamic properties\<close>

definition count_missed :: "nat \<Rightarrow> nat \<Rightarrow> chain \<Rightarrow> chain res" where
  \<comment> \<open>the slot after \<open>i\<close> more was missed by its miner, unless it is the miner of the block\<close>
  "count_missed producer i c =
     res_bind (get_scheduled_miner (word_of_nat i + 1) c) (\<lambda>w.
     res_bind (tbl_get w (c_miners c)) (\<lambda>_.
     if w \<noteq> producer
     then res_bind (tbl_modify miner_clash w (\<lambda>m. Inr (m\<lparr>mo_total_missed := mo_total_missed m + 1\<rparr>)) (c_miners c)) (\<lambda>t.
          Inr (c\<lparr>c_miners := t\<rparr>))
     else Inr c))"

definition missed_count :: "block_env \<Rightarrow> 32 word \<Rightarrow> 32 word \<Rightarrow> 32 word \<Rightarrow> 32 word" where
  \<comment> \<open>\<open>recently_missed_count\<close> after block number \<open>num\<close>\<close>
  "missed_count B num missed n =
     (if num = 1 then 0
      else if be_checkpoints B \<noteq> [] \<and> fst (last (be_checkpoints B)) \<ge> num then 0
      else if missed \<noteq> 0 then n + GRAPHENE_RECENTLY_MISSED_COUNT_INCREMENT * missed
      else if n > GRAPHENE_RECENTLY_MISSED_COUNT_INCREMENT then n - GRAPHENE_RECENTLY_MISSED_COUNT_DECREMENT
      else if n > 0 then n - 1 else n)"

definition advance :: "block_env \<Rightarrow> 32 word \<Rightarrow> block \<Rightarrow> dynamic_properties \<Rightarrow> dynamic_properties" where
  "advance B missed b d =
     d\<lparr>dp_recently_missed_count := missed_count B (number_of_block B b) missed (dp_recently_missed_count d),
       dp_head_block_number := number_of_block B b, dp_head_block_id := id_of_block B b, dp_time := timestamp b,
       dp_current_miner := miner_of b,
       dp_recent_slots_filled := push_bit (unat missed) (push_bit 1 (dp_recent_slots_filled d) + 1),
       dp_current_aslot := dp_current_aslot d + ucast (missed + 1)\<rparr>"

definition history_size :: "chain \<Rightarrow> 32 word" where
  "history_size c = head_block_num c - dp_last_irreversible_block_num (c_dynamic c) + 1"

definition update_global_dynamic_data :: "block_env \<Rightarrow> 32 word \<Rightarrow> block \<Rightarrow> chain \<Rightarrow> chain res" where
  "update_global_dynamic_data B skip b c =
     res_bind (get_slot_at_time (timestamp b) c) (\<lambda>slot.
     let missed_blocks = slot - 1
     in res_bind (res_fold (count_missed (miner_of b)) [0..<unat missed_blocks] c) (\<lambda>c1.
        let c2 = c1\<lparr>c_dynamic := advance B missed_blocks b (c_dynamic c1)\<rparr>
        in res_bind (if skip AND skip_undo_history_check = 0
                     then assert_that (uint (head_block_num c2 - dp_last_irreversible_block_num (c_dynamic c2)) < GRAPHENE_MAX_UNDO_HISTORY)
                            Undo_Database_Exception
                     else Inr ()) (\<lambda>_. Inr c2)))"

section \<open>The pay of a block\<close>

fun deposit_voters :: "externals \<Rightarrow> int \<Rightarrow> 64 word \<Rightarrow> (account \<times> 64 word) list \<Rightarrow> 64 word \<Rightarrow> chain \<Rightarrow> (64 word \<times> chain) res" where
  \<comment> \<open>each voter gets its share of \<open>voters_reward\<close>; the sum is a checked unsigned number\<close>
  "deposit_voters E voters_reward tot_votes [] tot_deposited c = Inr (tot_deposited, c)"
| "deposit_voters E voters_reward tot_votes ((who, vote_power) # voters) tot_deposited c =
     res_bind (low (nops E) (wide (nops E) (voters_reward * uint vote_power) div uint tot_votes)) (\<lambda>d.
     let deposit = word_of_int d
     in res_bind (share_of E deposit) (\<lambda>n.
        res_bind (deposit_account_pay (nops E) who n c) (\<lambda>c1.
        res_bind (assert_that (uint tot_deposited + uint deposit < 2 ^ 64) Overflow_Exception) (\<lambda>_.
        deposit_voters E voters_reward tot_votes voters (tot_deposited + deposit) c1))))"

definition voting_accounts :: "block_env \<Rightarrow> vote_id \<Rightarrow> chain \<Rightarrow> (account \<times> 64 word) list" where
  \<comment> \<open>the index \<open>by_voted_miner\<close> of the accounts, with the vote power of their balances\<close>
  "voting_accounts B v c =
     map (\<lambda>a. (a, case find (\<lambda>(i, b). ab_owner b = a) (rows (c_balances c)) of None \<Rightarrow> 0 | Some (i, b) \<Rightarrow> ab_vote_power b))
       (be_equal_keys B (map fst (filter (\<lambda>(i, a). vote_instance (get_voted_miner a) = vote_instance v) (rows (c_accounts c)))))"

definition voting_balances :: "block_env \<Rightarrow> vote_id \<Rightarrow> chain \<Rightarrow> (account \<times> 64 word) list" where
  \<comment> \<open>the index \<open>by_voted_miner\<close> of the balances\<close>
  "voting_balances B v c =
     map (\<lambda>i. case tbl_find i (c_balances c) of None \<Rightarrow> (0, 0) | Some b \<Rightarrow> (ab_owner b, ab_vote_power b))
       (be_equal_keys B (map fst (filter (\<lambda>(i, b). vote_instance (ab_casted_vote b) = vote_instance v) (rows (c_balances c)))))"

definition owners_exist :: "chain \<Rightarrow> (account \<times> 64 word) list \<Rightarrow> unit res" where
  \<comment> \<open>\<open>*aix.find(owner)\<close>\<close>
  "owners_exist c voters =
     assert_that (\<forall>(a, p) \<in> set voters. tbl_find a (c_accounts c) \<noteq> None) Undefined_Behaviour"

definition pay_from_fees :: "num_ops \<Rightarrow> chain \<Rightarrow> int res" where
  "pay_from_fees ops c =
     (let d = c_dynamic c;
          interval = ucast (interval_of c) :: 64 word;
          time_to_maint = word_of_int (elapsed (dp_next_maintenance_time d) (dp_last_budget_time d)) :: 64 word;
          blocks_in_interval = ucast ((time_to_maint + interval - 1) div interval) :: 32 word
      in if interval = 0 then Inl Undefined_Behaviour
         else Inr (max 0 (if blocks_in_interval > 0 then trunc_div (dp_miner_budget_from_fees d) (uint blocks_in_interval) else 0)))"

definition pay_block :: "externals \<Rightarrow> block_env \<Rightarrow> nat \<Rightarrow> miner_object \<Rightarrow> int \<Rightarrow> chain \<Rightarrow> chain res" where
  \<comment> \<open>the miner alone, or three fifths to its voters and the rest to the miner\<close>
  "pay_block E B w m tot_pay c =
     (let ops = nops E;
          voters_reward = wide ops (wide ops tot_pay * 3) div 5;
          rest = (\<lambda>(tot_deposited, c1).
            res_bind (share_of E tot_deposited) (\<lambda>n.
            res_bind (safe ops (tot_pay - n)) (\<lambda>r. deposit_miner_pay ops w r c1)))
      in if head_block_num c < VOTE_REWARD_FORK then deposit_miner_pay ops w tot_pay c
         else if head_block_num c < VOTE_REWARD_CHECK
         then res_bind (if mo_total_votes m > 0
                        then deposit_voters E voters_reward (mo_total_votes m) (voting_accounts B (mo_vote_id m) c) 0 c
                        else Inr (0, c)) rest
         else res_bind (if mo_total_votes m > 0
                        then res_bind (owners_exist c (voting_balances B (mo_vote_id m) c)) (\<lambda>_.
                             res_bind (deposit_voters E voters_reward (mo_total_votes m) (voting_balances B (mo_vote_id m) c) 0 c) (\<lambda>(t, c1).
                             res_bind (low ops voters_reward) (\<lambda>v.
                             res_bind (fc_assert (t \<le> word_of_int v)) (\<lambda>_. Inr (t, c1)))))
                        else Inr (0, c)) rest)"

definition update_signing_miner :: "externals \<Rightarrow> block_env \<Rightarrow> nat \<Rightarrow> block \<Rightarrow> chain \<Rightarrow> chain res" where
  "update_signing_miner E B w b c =
     (let ops = nops E
      in res_bind (get_slot_at_time (timestamp b) c) (\<lambda>slot.
         res_bind (pay_from_fees ops c) (\<lambda>miner_pay_from_fees.
         let new_block_aslot = dp_current_aslot (c_dynamic c) + ucast slot;
             miner_pay_from_reward = get_new_asset_per_block c
         in res_bind (safe ops (dp_mined_rewards (c_dynamic c) + miner_pay_from_reward)) (\<lambda>rewards.
            res_bind (safe ops (dp_unspent_fee_budget (c_dynamic c) - miner_pay_from_fees)) (\<lambda>unspent.
            let c1 = c\<lparr>c_dynamic := (c_dynamic c)\<lparr>dp_mined_rewards := rewards, dp_unspent_fee_budget := unspent\<rparr>\<rparr>
            in res_bind (tbl_get w (c_miners c1)) (\<lambda>m.
               res_bind (safe ops (miner_pay_from_fees + miner_pay_from_reward)) (\<lambda>tot_pay.
               res_bind (pay_block E B w m tot_pay c1) (\<lambda>c2.
               res_bind (tbl_modify miner_clash w
                 (\<lambda>m. Inr (m\<lparr>mo_last_aslot := new_block_aslot, mo_last_confirmed_block_num := number_of_block B b\<rparr>)) (c_miners c2)) (\<lambda>t.
               Inr (c2\<lparr>c_miners := t\<rparr>))))))))))"

section \<open>Irreversible blocks and expired objects\<close>

definition update_last_irreversible_block :: "chain \<Rightarrow> chain res" where
  \<comment> \<open>\<open>nth_element\<close> puts at the offset what sorting would put there\<close>
  "update_last_irreversible_block c =
     res_bind (map_res (\<lambda>w. tbl_get w (c_miners c)) (gp_active_miners (c_global c))) (\<lambda>wit_objs.
     let offset = nat ((GRAPHENE_100_PERCENT - GRAPHENE_IRREVERSIBLE_THRESHOLD) * int (length wit_objs) div GRAPHENE_100_PERCENT)
     in if wit_objs = [] then Inl Undefined_Behaviour
        else let new_last = sort (map mo_last_confirmed_block_num wit_objs) ! offset
             in Inr (if new_last > dp_last_irreversible_block_num (c_dynamic c)
                     then c\<lparr>c_dynamic := (c_dynamic c)\<lparr>dp_last_irreversible_block_num := new_last\<rparr>\<rparr> else c))"

fun latest_expiring :: "(nat \<times> transaction_object) list \<Rightarrow> (nat \<times> transaction_object) option" where
  \<comment> \<open>the last entry of the index \<open>by_expiration\<close>\<close>
  "latest_expiring [] = None"
| "latest_expiring (x # xs) =
     (case latest_expiring xs of
        None \<Rightarrow> Some x
      | Some y \<Rightarrow> if tr_expiration (to_trx (snd x)) > tr_expiration (to_trx (snd y)) then Some x else Some y)"

primrec clear_transactions :: "nat \<Rightarrow> chain \<Rightarrow> chain res" where
  \<comment> \<open>at most \<open>n\<close> rounds of the loop\<close>
  "clear_transactions 0 c = Inr c"
| "clear_transactions (Suc n) c =
     (case latest_expiring (rows (c_transactions c)) of
        None \<Rightarrow> Inr c
      | Some (i, x) \<Rightarrow>
          if head_block_time c > tr_expiration (to_trx x)
          then res_bind (tbl_remove i (c_transactions c)) (\<lambda>t. clear_transactions n (c\<lparr>c_transactions := t\<rparr>))
          else Inr c)"

definition clear_expired_transactions :: "chain \<Rightarrow> chain res" where
  \<comment> \<open>every round removes a transaction\<close>
  "clear_expired_transactions c = clear_transactions (length (rows (c_transactions c))) c"

definition first_expiring :: "block_env \<Rightarrow> chain \<Rightarrow> (nat \<times> proposal_object) option" where
  \<comment> \<open>the first entry of the index \<open>by_expiration\<close>\<close>
  "first_expiring B c =
     (let ps = rows (c_proposals c);
          first = filter (\<lambda>(i, p). \<forall>(j, q) \<in> set ps. po_expiration_time p \<le> po_expiration_time q) ps
      in case be_equal_keys B (map fst first) of
           [] \<Rightarrow> None
         | i # _ \<Rightarrow> map_option (Pair i) (tbl_find i (c_proposals c)))"

primrec clear_expired_proposals :: "externals \<Rightarrow> block_env \<Rightarrow> nat \<Rightarrow> nat \<Rightarrow> chain \<Rightarrow> chain run" where
  \<comment> \<open>fuel \<open>n\<close> for the operations, the last number for the rounds of the loop\<close>
  "clear_expired_proposals E B n 0 c = None"
| "clear_expired_proposals E B n (Suc m) c =
     (case first_expiring B c of
        None \<Rightarrow> Some (Inr c)
      | Some (p, x) \<Rightarrow>
          if po_expiration_time x \<le> head_block_time c
          then let drop_it = (\<lambda>c. run_bind (Some (tbl_remove p (c_proposals c))) (\<lambda>t.
                     clear_expired_proposals E B n m (c\<lparr>c_proposals := t\<rparr>)))
               in if is_authorized_to_execute c x
                  then (case push_proposal E (apply_operation E n) p c of
                          None \<Rightarrow> None
                        | Some (Inr c1) \<Rightarrow> clear_expired_proposals E B n m c1
                        | Some (Inl e) \<Rightarrow> if e = Undefined_Behaviour then Some (Inl e) else drop_it c)
                  else drop_it c
          else Some (Inr c))"

definition update_maintenance_flag :: "bool \<Rightarrow> chain \<Rightarrow> chain" where
  "update_maintenance_flag flag c =
     c\<lparr>c_dynamic := (c_dynamic c)\<lparr>dp_dynamic_flags :=
       (dp_dynamic_flags (c_dynamic c) AND NOT maintenance_flag) OR (if flag then maintenance_flag else 0)\<rparr>\<rparr>"

end
