(* ===== verification/Maintenance.thy ===== *)
theory Maintenance
  imports Updates
begin

text \<open>
  The maintenance of the chain (\<open>db_maint.cpp\<close>): tallying the votes, electing the active miners,
  adopting new parameters, fixing the time of the next maintenance, and the budget.

  The buffers of the votes are empty between maintenances and are arguments here.  Accounts
  are visited in the order of their table instead of by name, which changes no sum and no object:
  each of them changes only its own balance object.
\<close>

section \<open>Votes\<close>

record vote_buffers =
  vote_tally :: "64 word list"
  miner_histogram :: "64 word list"
  voting_stake_sum :: "64 word"

definition empty_buffers :: "global_properties \<Rightarrow> vote_buffers" where
  "empty_buffers gpo =
     \<lparr>vote_tally = replicate (unat (gp_next_available_vote_id gpo)) 0,
      miner_histogram = replicate (unat (maximum_miner_count (gp_parameters gpo)) div 2 + 1) 0,
      voting_stake_sum = 0\<rparr>"

definition add_at :: "nat \<Rightarrow> 64 word \<Rightarrow> 64 word list \<Rightarrow> 64 word list" where
  "add_at i v xs = (if i < length xs then xs[i := xs ! i + v] else xs)"

definition voting_stake_of :: "nat \<times> account_object \<Rightarrow> chain \<Rightarrow> 64 word res" where
  "voting_stake_of = (\<lambda>(i, a) c.
     res_bind (tbl_get (ao_statistics a) (c_statistics c)) (\<lambda>stats.
     res_bind (case ao_cashback_vb a of
                 None \<Rightarrow> Inr 0
               | Some vb \<Rightarrow> res_bind (tbl_get vb (c_vesting c)) (\<lambda>v. Inr (amount (vb_balance v)))) (\<lambda>vesting.
     res_bind (int64_add (st_total_core_in_orders stats) vesting) (\<lambda>n.
     res_bind (int64_add n (amount (get_balance i 0 c))) (\<lambda>stake. Inr (word_of_int stake))))))"

definition set_vote_power :: "account \<Rightarrow> 64 word \<Rightarrow> vote_id \<Rightarrow> chain \<Rightarrow> chain res" where
  \<comment> \<open>on the balance that the index \<open>by_owner\<close> finds\<close>
  "set_vote_power who stake v c =
     (case find (\<lambda>(i, b). ab_owner b = who) (rows (c_balances c)) of
        None \<Rightarrow> Inr c
      | Some (i, _) \<Rightarrow>
          res_bind (tbl_modify balance_clash i (\<lambda>b. Inr (b\<lparr>ab_vote_power := stake, ab_casted_vote := v\<rparr>)) (c_balances c)) (\<lambda>t.
          Inr (c\<lparr>c_balances := t\<rparr>)))"

definition count_opinion :: "chain_parameters \<Rightarrow> account_options \<Rightarrow> 64 word \<Rightarrow> vote_buffers \<Rightarrow> vote_buffers" where
  "count_opinion props opts stake t =
     t\<lparr>vote_tally := fold (\<lambda>v. add_at (unat (vote_instance v)) stake) (votes opts) (vote_tally t),
       miner_histogram :=
         (if num_miner opts \<le> maximum_miner_count props
          then add_at (min (unat (num_miner opts) div 2) (length (miner_histogram t) - 1)) stake (miner_histogram t)
          else miner_histogram t),
       voting_stake_sum := voting_stake_sum t + stake\<rparr>"

definition tally_account :: "chain_parameters \<Rightarrow> nat \<times> account_object \<Rightarrow> vote_buffers \<times> chain \<Rightarrow> (vote_buffers \<times> chain) res" where
  \<comment> \<open>\<open>vote_tally_helper\<close>\<close>
  "tally_account props = (\<lambda>(i, a) (t, c).
     res_bind (if voting_account (ao_options a) = GRAPHENE_PROXY_TO_SELF_ACCOUNT then Inr a
               else tbl_get (voting_account (ao_options a)) (c_accounts c)) (\<lambda>opinion.
     res_bind (voting_stake_of (i, a) c) (\<lambda>stake.
     res_bind (set_vote_power i stake (get_voted_miner opinion) c) (\<lambda>c1.
     Inr (count_opinion props (ao_options opinion) stake t, c1)))))"

section \<open>The election\<close>

fun wanted_miners :: "externals \<Rightarrow> int \<Rightarrow> int \<Rightarrow> nat \<Rightarrow> 64 word list \<Rightarrow> nat res" where
  \<comment> \<open>the loop over the histogram after its first entry\<close>
  "wanted_miners E target tally n [] = Inr n"
| "wanted_miners E target tally n (h # hs) =
     (if tally \<le> target
      then res_bind (share_of E h) (\<lambda>x. res_bind (safe (nops E) (tally + x)) (\<lambda>t. wanted_miners E target t (n + 1) hs))
      else Inr n)"

definition miner_count_of :: "externals \<Rightarrow> vote_buffers \<Rightarrow> nat res" where
  "miner_count_of E t =
     res_bind (share_of E ((voting_stake_sum t - hd (miner_histogram t)) div 2)) (\<lambda>stake_target.
     if stake_target > 0 then wanted_miners E stake_target 0 0 (tl (miner_histogram t)) else Inr 0)"

definition votes_of :: "vote_buffers \<Rightarrow> miner_object \<Rightarrow> 64 word res" where
  "votes_of t m =
     (let i = unat (vote_instance (mo_vote_id m))
      in if i < length (vote_tally t) then Inr (vote_tally t ! i) else Inl Undefined_Behaviour)"

definition sort_votable_objects :: "externals \<Rightarrow> vote_buffers \<Rightarrow> nat \<Rightarrow> chain \<Rightarrow> (nat \<times> miner_object \<times> 64 word) list res" where
  \<comment> \<open>the first miners by votes, then by vote identifier, with their votes\<close>
  "sort_votable_objects E t count c =
     res_bind (map_res (\<lambda>(i, m). res_bind (votes_of t m) (\<lambda>v. res_bind (share_of E v) (\<lambda>s. Inr (s, i, m, v)))) (rows (c_miners c))) (\<lambda>xs.
     if xs = [] then Inl Undefined_Behaviour
     else Inr (map snd (take count (sort_key (\<lambda>(s, _). - s) (sort_key (\<lambda>(s, i, m, v). vote_instance (mo_vote_id m)) xs)))))"

definition set_total_votes :: "vote_buffers \<Rightarrow> nat \<times> miner_object \<Rightarrow> chain \<Rightarrow> chain res" where
  "set_total_votes t = (\<lambda>(i, m) c.
     res_bind (votes_of t m) (\<lambda>v.
     res_bind (tbl_modify miner_clash i (\<lambda>m. Inr (m\<lparr>mo_total_votes := v\<rparr>)) (c_miners c)) (\<lambda>ms.
     Inr (c\<lparr>c_miners := ms\<rparr>))))"

definition update_active_miners :: "externals \<Rightarrow> block_env \<Rightarrow> vote_buffers \<Rightarrow> chain \<Rightarrow> chain res" where
  "update_active_miners E B t c =
     res_bind (miner_count_of E t) (\<lambda>n.
     res_bind (sort_votable_objects E t (max (n * 2 + 1) (be_min_miner_count B)) c) (\<lambda>wits.
     res_bind (res_fold (set_total_votes t) (rows (c_miners c)) c) (\<lambda>c1.
     res_bind (tbl_modify account_clash GRAPHENE_MINER_ACCOUNT
       (\<lambda>a. Inr (a\<lparr>ao_owner := vote_counter_finish (ao_owner a) (count_votes (map (\<lambda>(i, m, v). (mo_account m, v)) wits))\<rparr>))
       (c_accounts c1)) (\<lambda>as.
     Inr (c1\<lparr>c_accounts := as, c_global := (c_global c1)\<lparr>gp_active_miners := map fst wits\<rparr>\<rparr>)))))"

section \<open>The budget\<close>

definition blocks_to_maintenance :: "chain \<Rightarrow> 64 word res" where
  "blocks_to_maintenance c =
     (let interval = ucast (interval_of c) :: 64 word;
          time_to_maint = word_of_int (elapsed (dp_next_maintenance_time (c_dynamic c)) (head_block_time c)) :: 64 word
      in if interval = 0 then Inl Undefined_Behaviour
         else Inr ((time_to_maint + interval - 1) div interval - ucast (maintenance_skip_slots (gp_parameters (c_global c)))))"

definition since_last_budget :: "chain \<Rightarrow> int" where
  "since_last_budget c =
     (let now = head_block_time c; l = dp_last_budget_time (c_dynamic c)
      in if l = 0 \<or> now \<le> l then 0 else elapsed now l)"

definition process_budget :: "externals \<Rightarrow> chain \<Rightarrow> chain res" where
  "process_budget E c =
     (let ops = nops E; d = c_dynamic c; now = head_block_time c
      in res_bind (tbl_get 0 (c_assets c)) (\<lambda>core_asset.
         res_bind (tbl_get (as_dynamic_data core_asset) (c_asset_data c)) (\<lambda>core.
         res_bind (blocks_to_maintenance c) (\<lambda>blocks_to_maint.
         res_bind (safe ops (as_max_supply core_asset - ad_current_supply core)) (\<lambda>reserve.
         res_bind (safe ops (ad_accumulated_fees core + dp_unspent_fee_budget d)) (\<lambda>fees.
         res_bind (get_real_supply ops c) (\<lambda>(accounts, vestings).
         res_bind (get_miner_budget E (ucast blocks_to_maint) c) (\<lambda>planned_for_mining.
         res_bind (safe ops (planned_for_mining + fees)) (\<lambda>planned.
         res_bind (safe ops (dp_mined_rewards d + dp_miner_budget_from_fees d)) (\<lambda>g.
         res_bind (safe ops (g - dp_unspent_fee_budget d)) (\<lambda>generated.
         res_bind (safe ops (generated - ad_accumulated_fees core)) (\<lambda>delta.
         res_bind (tbl_modify no_clash (as_dynamic_data core_asset)
           (\<lambda>x. res_bind (safe ops (ad_current_supply x + delta)) (\<lambda>s. Inr (x\<lparr>ad_current_supply := s, ad_accumulated_fees := 0\<rparr>)))
           (c_asset_data c)) (\<lambda>data.
         res_bind (tbl_create budget_clash
           \<lparr>br_time = now, br_time_since_last_budget = since_last_budget c, br_from_initial_reserve = reserve,
            br_from_accumulated_fees = fees, br_planned_for_mining = planned, br_generated_in_last_interval = generated,
            br_supply_delta = delta, br_account_balances = accounts, br_vesting_balances = vestings,
            br_next_maintenance_time = dp_next_maintenance_time d, br_block_interval = interval_of c\<rparr> (c_budgets c)) (\<lambda>(_, budgets).
         Inr (c\<lparr>c_asset_data := data, c_budgets := budgets,
           c_dynamic := d\<lparr>dp_miner_budget_from_fees := fees, dp_miner_budget_from_rewards := planned_for_mining,
             dp_unspent_fee_budget := fees, dp_mined_rewards := 0, dp_last_budget_time := now\<rparr>\<rparr>)))))))))))))))"

section \<open>Maintenance\<close>

definition adopt_parameters :: "global_properties \<Rightarrow> global_properties" where
  "adopt_parameters g =
     (case gp_pending_parameters g of None \<Rightarrow> g | Some p \<Rightarrow> g\<lparr>gp_parameters := p, gp_pending_parameters := None\<rparr>)"

definition next_maintenance :: "block_env \<Rightarrow> block \<Rightarrow> chain \<Rightarrow> time res" where
  "next_maintenance B b c =
     (let next = dp_next_maintenance_time (c_dynamic c);
          interval = maintenance_interval (gp_parameters (c_global c))
      in if next \<le> timestamp b
         then if interval = 0 then Inl Undefined_Behaviour
              else if number_of_block B b = 1 then Inr ((timestamp b div interval + 1) * interval)
              else let y = trunc_div (elapsed (head_block_time c) next) (uint interval)
                   in Inr (next + word_of_int ((y + 1) * uint interval))
         else Inr next)"

definition perform_chain_maintenance :: "externals \<Rightarrow> block_env \<Rightarrow> block \<Rightarrow> chain \<Rightarrow> chain res" where
  "perform_chain_maintenance E B b c =
     res_bind (res_fold (tally_account (gp_parameters (c_global c))) (rows (c_accounts c)) (empty_buffers (c_global c), c)) (\<lambda>(t, c1).
     res_bind (update_active_miners E B t c1) (\<lambda>c2.
     let c3 = c2\<lparr>c_global := adopt_parameters (c_global c2)\<rparr>
     in res_bind (next_maintenance B b c3) (\<lambda>next.
        process_budget E (c3\<lparr>c_dynamic := (c_dynamic c3)\<lparr>dp_next_maintenance_time := next,
          dp_accounts_registered_this_interval := 0\<rparr>\<rparr>))))"

end
