(* ===== verification/Apply_Block.thy ===== *)
theory Apply_Block
  imports Maintenance
begin

text \<open>
  Applying a block (\<open>db_block.cpp\<close>): checkpoints, the checks of the header, the transactions in
  order, then the updates of theory \<open>Updates\<close> and, when it is due, the maintenance of theory
  \<open>Maintenance\<close>.

  Two numbers are fuel, for the operations of a transaction and for the expired proposals.  The
  history of applied operations, the debugging hooks and the notifications are left out.
\<close>

definition validate_block_header :: "block_env \<Rightarrow> 32 word \<Rightarrow> block \<Rightarrow> chain \<Rightarrow> unit res" where
  "validate_block_header B skip b c =
     res_bind (fc_assert (dp_head_block_id (c_dynamic c) = previous b)) (\<lambda>_.
     res_bind (fc_assert (head_block_time c < timestamp b)) (\<lambda>_.
     res_bind (tbl_get (miner_of b) (c_miners c)) (\<lambda>m.
     res_bind (if skip AND skip_miner_signature = 0
               then res_bind (validate_signee (be_recover B) (be_digest B) (mo_signing_key m) b) fc_assert else Inr ()) (\<lambda>_.
     if skip AND skip_miner_schedule_check = 0
     then res_bind (get_slot_at_time (timestamp b) c) (\<lambda>slot_num.
          res_bind (fc_assert (slot_num > 0)) (\<lambda>_.
          res_bind (get_scheduled_miner slot_num c) (\<lambda>scheduled_miner.
          fc_assert (miner_of b = scheduled_miner))))
     else Inr ()))))"

definition create_block_summary :: "block_env \<Rightarrow> block \<Rightarrow> chain \<Rightarrow> chain res" where
  "create_block_summary B b c =
     res_bind (tbl_modify no_clash (unat (number_of_block B b AND 0xFFFF)) (\<lambda>_. Inr (id_of_block B b)) (c_block_summaries c)) (\<lambda>t.
     Inr (c\<lparr>c_block_summaries := t\<rparr>))"

primrec apply_transactions :: "externals \<Rightarrow> nat \<Rightarrow> 32 word \<Rightarrow> signed_transaction list \<Rightarrow> chain \<Rightarrow> chain run" where
  "apply_transactions E n skip [] c = Some (Inr c)"
| "apply_transactions E n skip (trx # trxs) c =
     run_bind (apply_transaction E n skip trx c) (apply_transactions E n skip trxs)"

definition block_root :: "block_env \<Rightarrow> block \<Rightarrow> hash160" where
  "block_root B b = calculate_merkle_root (be_merkle_digest B) (be_hash2 B) (be_checksum B) b"

definition finish_block :: "externals \<Rightarrow> block_env \<Rightarrow> nat \<Rightarrow> nat \<Rightarrow> 32 word \<Rightarrow> bool \<Rightarrow> block \<Rightarrow> chain \<Rightarrow> chain run" where
  \<comment> \<open>what follows the transactions\<close>
  "finish_block E B n m skip maint_needed b c =
     run_bind (Some (
       res_bind (update_global_dynamic_data B skip b c) (\<lambda>c1.
       res_bind (update_signing_miner E B (miner_of b) b c1) (\<lambda>c2.
       res_bind (update_last_irreversible_block c2) (\<lambda>c3.
       res_bind (if maint_needed then perform_chain_maintenance E B b c3 else Inr c3) (\<lambda>c4.
       res_bind (create_block_summary B b c4) clear_expired_transactions)))))) (\<lambda>c5.
     run_bind (clear_expired_proposals E B n m c5) (\<lambda>c6.
     Some (update_miner_schedule (update_maintenance_flag maint_needed c6))))"

definition apply_block_with :: "externals \<Rightarrow> block_env \<Rightarrow> nat \<Rightarrow> nat \<Rightarrow> 32 word \<Rightarrow> block \<Rightarrow> chain \<Rightarrow> chain run" where
  \<comment> \<open>\<open>_apply_block\<close> under the flags \<open>skip\<close>\<close>
  "apply_block_with E B n m skip b c =
     run_bind (Some (
       res_bind (fc_assert (skip AND skip_merkle_check \<noteq> 0 \<or> transaction_merkle_root b = block_root B b)) (\<lambda>_.
       validate_block_header B skip b c))) (\<lambda>_.
     run_bind (apply_transactions E n (skip OR skip_transaction_signatures) (transactions b) c)
       (finish_block E B n m skip (dp_next_maintenance_time (c_dynamic c) \<le> timestamp b) b))"

definition checkpoint_flags :: "block_env \<Rightarrow> 32 word \<Rightarrow> block \<Rightarrow> 32 word res" where
  \<comment> \<open>a block at a checkpoint must be the one of the checkpoint; up to the last one every check is skipped\<close>
  "checkpoint_flags B skip b =
     (let cps = be_checkpoints B; num = number_of_block B b
      in if cps \<noteq> [] \<and> snd (last cps) \<noteq> zero_hash
         then res_bind (case map_of cps num of None \<Rightarrow> Inr () | Some i \<Rightarrow> fc_assert (id_of_block B b = i)) (\<lambda>_.
              Inr (if fst (last cps) \<ge> num then NOT 0 else skip))
         else Inr skip)"

definition apply_block :: "externals \<Rightarrow> block_env \<Rightarrow> nat \<Rightarrow> nat \<Rightarrow> 32 word \<Rightarrow> block \<Rightarrow> chain \<Rightarrow> chain run" where
  "apply_block E B n m skip b c =
     run_bind (Some (checkpoint_flags B skip b)) (\<lambda>flags. apply_block_with E B n m flags b c)"

end
