(* ===== verification/Block_Books.thy ===== *)
theory Block_Books
  imports Apply_Block Transaction_Properties
begin

text \<open>
  The books of the chain over blocks.  At any time what is held of the core asset is its current supply
  plus the rewards mined and the fees paid out since the last budget (\<open>budget_due\<close>); the
  budget adds them to the supply.  Every part of applying a block keeps this, and the debug
  assertion of \<open>process_budget\<close> follows.
\<close>

section \<open>Balanced books\<close>

definition budget_due :: "chain \<Rightarrow> int" where
  "budget_due c = dp_mined_rewards (c_dynamic c) + dp_miner_budget_from_fees (c_dynamic c) - dp_unspent_fee_budget (c_dynamic c)"

definition books_balanced :: "chain \<Rightarrow> bool" where
  "books_balanced c \<longleftrightarrow> (case supply_of 0 c of None \<Rightarrow> False | Some s \<Rightarrow> held 0 c = s + budget_due c)"

definition sound :: "externals \<Rightarrow> chain \<Rightarrow> bool" where
  "sound E c \<longleftrightarrow> chain_ok c \<and> proposals_ok E c \<and> books_balanced c"

lemma budget_of_fields:
  "dp_mined_rewards (budget_of c) = dp_mined_rewards (c_dynamic c)"
  "dp_miner_budget_from_fees (budget_of c) = dp_miner_budget_from_fees (c_dynamic c)"
  "dp_unspent_fee_budget (budget_of c) = dp_unspent_fee_budget (c_dynamic c)"
  by (simp_all add: budget_of_def)

lemma budget_due_cong: "budget_of c' = budget_of c \<Longrightarrow> budget_due c' = budget_due c"
  using budget_of_fields [of c] budget_of_fields [of c'] by (simp add: budget_due_def)

lemma books_cong:
  "held 0 c' = held 0 c \<Longrightarrow> supply_of 0 c' = supply_of 0 c \<Longrightarrow> budget_due c' = budget_due c \<Longrightarrow>
    books_balanced c' = books_balanced c"
  by (simp add: books_balanced_def cong: option.case_cong)

lemma conserves_sound: "sound E c \<Longrightarrow> conserves c c' \<Longrightarrow> proposals_ok E c' \<Longrightarrow> sound E c'"
  using books_cong [of c' c] budget_due_cong [of c' c] by (simp add: sound_def conserves_def)

lemma sound_cong:
  assumes "sound E c" and "chain_ok c'" and "liquid_of 0 c' = liquid_of 0 c" and "c_vesting c' = c_vesting c"
    and "c_assets c' = c_assets c" and "c_asset_data c' = c_asset_data c" and "c_proposals c' = c_proposals c"
    and "budget_due c' = budget_due c"
  shows "sound E c'"
proof -
  have "data_of 0 c' = data_of 0 c" using assms(5,6) by (simp add: data_of_def)
  then have "held 0 c' = held 0 c" "supply_of 0 c' = supply_of 0 c"
    using assms(3,4) by (simp_all add: held_def vesting_of_def supply_of_def)
  then have "books_balanced c' = books_balanced c" using assms(8) by (rule books_cong)
  then show ?thesis using assms(1,2,7) by (simp add: sound_def proposals_ok_def)
qed

lemma dynamic_sound:
  "sound E c \<Longrightarrow> budget_due (c\<lparr>c_dynamic := d\<rparr>) = budget_due c \<Longrightarrow> sound E (c\<lparr>c_dynamic := d\<rparr>)"
  by (rule sound_cong) (simp_all add: sound_def chain_ok_def liquid_of_def)

lemma miners_sound:
  assumes "sound E c" and "tbl_modify miner_clash i f (c_miners c) = Inr t"
  shows "sound E (c\<lparr>c_miners := t\<rparr>)"
proof -
  have c: "chain_ok c" using assms(1) by (simp add: sound_def)
  show ?thesis
    by (rule sound_cong [OF assms(1)])
      (use c miners.modify_keeps [OF chain_ok_parts(5) [OF c] assms(2)] in \<open>simp_all add: chain_ok_def liquid_of_def budget_due_def\<close>)
qed

section \<open>Updates\<close>

lemma count_missed_sound: "sound E c \<Longrightarrow> count_missed w i c = Inr c' \<Longrightarrow> sound E c'"
  using miners_sound by (auto simp: count_missed_def res_simps split: if_splits)

lemma update_global_dynamic_data_sound:
  assumes "sound E c" and "update_global_dynamic_data B skip b c = Inr c'"
  shows "sound E c'"
proof -
  obtain n c1 m where fold: "res_fold (count_missed (miner_of b)) [0..<n] c = Inr c1"
    and c': "c' = c1\<lparr>c_dynamic := advance B m b (c_dynamic c1)\<rparr>"
    using assms(2) by (auto simp: update_global_dynamic_data_def Let_def res_simps)
  have "sound E c1" by (rule res_fold_invariant [OF fold, of "sound E"]) (use assms(1) count_missed_sound in auto)
  then show ?thesis unfolding c' by (rule dynamic_sound) (simp add: budget_due_def advance_def)
qed

lemma deposit_account_pay_moved:
  assumes "num_ops_ok ops" and "chain_ok c" and "deposit_account_pay ops a n c = Inr c'"
  shows "moved c (only 0 n) c'"
proof (cases "n = 0")
  case True
  then show ?thesis using assms moved_refl by (simp add: deposit_account_pay_def)
next
  case False
  then obtain x :: account_object and r where r: "deposit_lazy_vesting ops (ao_cashback_vb x) n (miner_pay_vesting_seconds (gp_parameters (c_global c))) a True c = Inr r"
    and er: "(case r of (v, c1) \<Rightarrow> case v of None \<Rightarrow> Inr c1 | Some vb \<Rightarrow> set_cashback_vb a vb c1) = Inr c'"
    using assms(3) by (simp only: deposit_account_pay_def if_False res_bind_eq_Inr) blast
  obtain v c1 where rv: "r = (v, c1)" by (cases r)
  note dep = r [unfolded rv] and e = er [unfolded rv prod.case]
  have c': "c' = c1 \<or> (\<exists>vb. set_cashback_vb a vb c1 = Inr c')" using e by (cases v) auto
  note m = deposit_lazy_vesting_moved [OF assms(1,2) dep]
  have "moved c1 nothing c'" if "set_cashback_vb a vb c1 = Inr c'" for vb
    using that accounts.modify_keeps moved_ok [OF m]
    by (intro same_books) (auto simp: set_cashback_vb_def res_simps chain_ok_def budget_of_def)
  then show ?thesis using c' m moved_nothing_right [OF m] by blast
qed

lemma deposit_miner_pay_moved:
  assumes "num_ops_ok ops" and "chain_ok c" and "deposit_miner_pay ops w n c = Inr c'"
  shows "moved c (only 0 n) c'"
proof (cases "n = 0")
  case True
  then show ?thesis using assms moved_refl by (simp add: deposit_miner_pay_def)
next
  case False
  then obtain x :: miner_object and r where r: "deposit_lazy_vesting ops (mo_pay_vb x) n (miner_pay_vesting_seconds (gp_parameters (c_global c))) (mo_account x) True c = Inr r"
    and er: "(case r of (v, c1) \<Rightarrow> case v of None \<Rightarrow> Inr c1
      | Some vb \<Rightarrow> res_bind (tbl_modify miner_clash w (\<lambda>m. Inr (m\<lparr>mo_pay_vb := Some vb\<rparr>)) (c_miners c1))
          (\<lambda>t. Inr (c1\<lparr>c_miners := t\<rparr>))) = Inr c'"
    using assms(3) by (simp only: deposit_miner_pay_def if_False res_bind_eq_Inr) blast
  obtain v c1 where rv: "r = (v, c1)" by (cases r)
  note dep = r [unfolded rv] and e = er [unfolded rv prod.case]
  have c': "c' = c1 \<or> (\<exists>f t. tbl_modify miner_clash w f (c_miners c1) = Inr t \<and> c' = c1\<lparr>c_miners := t\<rparr>)"
    using e by (cases v) (auto simp: res_simps)
  note m = deposit_lazy_vesting_moved [OF assms(1,2) dep]
  have "moved c1 nothing (c1\<lparr>c_miners := t\<rparr>)" if "tbl_modify miner_clash w f (c_miners c1) = Inr t" for f t
    using that miners.modify_keeps moved_ok [OF m]
    by (intro same_books) (auto simp: chain_ok_def budget_of_def)
  then show ?thesis using c' m moved_nothing_right [OF m] by blast
qed

lemma deposit_voters_moved:
  assumes "externals_ok E" and "chain_ok c" and "deposit_voters E r tv vs t c = Inr (t', c')" and "uint t' < 2 ^ 63"
  shows "uint t \<le> uint t' \<and> moved c (only 0 (uint t' - uint t)) c'"
  using assms(2,3)
proof (induction vs arbitrary: t c)
  case Nil
  then show ?case using moved_refl by simp
next
  case (Cons v vs)
  obtain who p where v: "v = (who, p)" by (cases v)
  obtain d n c1 where n: "share_of E d = Inr n" and pay: "deposit_account_pay (nops E) who n c = Inr c1"
    and small: "uint t + uint d < 2 ^ 64" and rest: "deposit_voters E r tv vs (t + d) c1 = Inr (t', c')"
    using Cons.prems(2) by (auto simp: v res_simps Let_def)
  note m = deposit_account_pay_moved [OF externals_okD [OF assms(1)] Cons.prems(1) pay]
  have td: "uint (t + d) = uint t + uint d" using uint_add_lem [of t d] small by simp
  have ih: "uint (t + d) \<le> uint t' \<and> moved c1 (only 0 (uint t' - uint (t + d))) c'"
    by (rule Cons.IH [OF moved_ok [OF m] rest])
  then have "uint d < 2 ^ 63" using td assms(4) uint_ge_0 [of t] by linarith
  then have "int (unat d) < int (2 ^ 63)" by simp
  then have "unat d < 2 ^ 63" by (simp only: of_nat_less_iff)
  then have "share_of E d = Inr (uint d)" using assms(1) unfolding externals_ok_def by blast
  then have "n = uint d" using n by simp
  then have "moved c (\<lambda>a. only 0 (uint d) a + only 0 (uint t' - uint (t + d)) a) c'" using moved_trans [OF m] ih by blast
  moreover have "(\<lambda>a. only 0 (uint d) a + only 0 (uint t' - uint (t + d)) a) = only 0 (uint t' - uint t)"
    using td by (auto simp: only_def)
  moreover have "uint t \<le> uint t'" using ih td uint_ge_0 [of d] by linarith
  ultimately show ?case by simp
qed

lemma pay_block_moved:
  assumes "externals_ok E" and "chain_ok c" and "pay_block E B w m n c = Inr c'" and "0 \<le> n" and "n < 2 ^ 63"
    and new_rules: "head_block_num c < VOTE_REWARD_FORK \<or> \<not> head_block_num c < VOTE_REWARD_CHECK"
  shows "moved c (only 0 n) c'"
proof (cases "head_block_num c < VOTE_REWARD_FORK")
  case True
  then show ?thesis
    using assms(3) deposit_miner_pay_moved [OF externals_okD [OF assms(1)] assms(2)] by (simp add: pay_block_def Let_def)
next
  case False
  note ops = externals_okD [OF assms(1)]
  let ?vs = "voting_balances B (mo_vote_id m) c"
  have w: "wide (nops E) (wide (nops E) n * 3) div 5 = n * 3 div 5"
    using wide_product [OF num_ops_okD(2) [OF ops] assms(4,5), of 3] by simp
  obtain t c1 r where pay: "t = 0 \<and> c1 = c \<or> deposit_voters E (n * 3 div 5) (mo_total_votes m) ?vs 0 c = Inr (t, c1)
        \<and> (\<exists>v. low (nops E) (n * 3 div 5) = Inr v \<and> t \<le> word_of_int v)"
    and share: "share_of E t = Inr r" and rest: "\<exists>d. safe (nops E) (n - r) = Inr d \<and> deposit_miner_pay (nops E) w d c1 = Inr c'"
    using assms(3,6) False by (auto simp: pay_block_def Let_def w res_simps split: if_splits)
  have low: "low (nops E) (n * 3 div 5) = Inr (n * 3 div 5)"
    using assms(4,5) by (intro num_ops_okD(3) [OF ops]) auto
  have "uint (word_of_int (n * 3 div 5) :: 64 word) = n * 3 div 5"
    using assms(4,5) by (intro uint_eq_of_int [OF refl]) auto
  then have t: "uint t < 2 ^ 63"
    using pay low assms(4,5) by (auto simp: word_le_def)
  then have "int (unat t) < int (2 ^ 63)" by simp
  then have "unat t < 2 ^ 63" by (simp only: of_nat_less_iff)
  then have "share_of E t = Inr (uint t)" using assms(1) unfolding externals_ok_def by blast
  then have r: "r = uint t" using share by simp
  have m1: "moved c (only 0 (uint t)) c1"
    using pay deposit_voters_moved [OF assms(1,2), of "n * 3 div 5" "mo_total_votes m" ?vs 0 t c1] t moved_refl [OF assms(2)] by auto
  have "deposit_miner_pay (nops E) w (n - uint t) c1 = Inr c'"
    using rest safe_intD [OF num_ops_okD(1) [OF ops]] by (auto simp: r)
  note moved_trans [OF m1 deposit_miner_pay_moved [OF ops moved_ok [OF m1] this]]
  moreover have "(\<lambda>a. only 0 (uint t) a + only 0 (n - uint t) a) = only 0 n" by (auto simp: only_def)
  ultimately show ?thesis by simp
qed

lemma moved_sound:
  assumes "proposals_ok E c" and "moved c (only 0 n) c'" and "supply_of 0 c = Some s" and "held 0 c + n = s + budget_due c"
  shows "sound E c'"
  using assms budget_due_cong [of c' c] by (auto simp: sound_def moved_def proposals_ok_def books_balanced_def only_def)

lemma pay_from_fees_nonneg: "pay_from_fees ops c = Inr f \<Longrightarrow> 0 \<le> f"
  by (auto simp: pay_from_fees_def Let_def split: if_splits)

lemma update_signing_miner_sound:
  assumes "externals_ok E" and "sound E c" and "update_signing_miner E B w b c = Inr c'"
    and new_rules: "head_block_num c < VOTE_REWARD_FORK \<or> \<not> head_block_num c < VOTE_REWARD_CHECK"
  shows "sound E c'"
proof -
  note sf = safe_intD [OF num_ops_okD(1) [OF externals_okD [OF assms(1)]]]
  obtain f m c2 g t where f: "pay_from_fees (nops E) c = Inr f"
    and tot: "safe (nops E) (f + get_new_asset_per_block c) = Inr (f + get_new_asset_per_block c)"
    and pay: "pay_block E B w m (f + get_new_asset_per_block c) (c\<lparr>c_dynamic := (c_dynamic c)
        \<lparr>dp_mined_rewards := dp_mined_rewards (c_dynamic c) + get_new_asset_per_block c,
         dp_unspent_fee_budget := dp_unspent_fee_budget (c_dynamic c) - f\<rparr>\<rparr>) = Inr c2" (is "pay_block E B w m ?n ?c1 = _")
    and miner: "tbl_modify miner_clash w g (c_miners c2) = Inr t" and c': "c' = c2\<lparr>c_miners := t\<rparr>"
    using assms(3) by (auto simp: update_signing_miner_def Let_def res_simps sf)
  have "0 \<le> ?n" using pay_from_fees_nonneg [OF f] reward_nonneg by (simp add: get_new_asset_per_block_def)
  moreover have "?n < 2 ^ 63" using sf [of ?n ?n] tot by simp
  moreover have ok: "chain_ok ?c1" "proposals_ok E ?c1"
    using assms(2) by (simp_all add: sound_def chain_ok_def proposals_ok_def)
  ultimately have m: "moved ?c1 (only 0 ?n) c2"
    using pay_block_moved [OF assms(1) _ pay] new_rules by auto
  obtain s where s: "supply_of 0 c = Some s" "held 0 c = s + budget_due c"
    using assms(2) by (auto simp: sound_def books_balanced_def split: option.splits)
  have "held 0 ?c1 = held 0 c" "supply_of 0 ?c1 = supply_of 0 c"
    by (simp_all add: held_def liquid_of_def vesting_of_def data_of_def supply_of_def)
  then have "sound E c2"
    using s by (intro moved_sound [OF ok(2) m]) (simp_all add: budget_due_def)
  then show ?thesis unfolding c' by (rule miners_sound [OF _ miner])
qed

lemma update_last_irreversible_block_sound: "sound E c \<Longrightarrow> update_last_irreversible_block c = Inr c' \<Longrightarrow> sound E c'"
  by (auto simp: update_last_irreversible_block_def Let_def res_simps budget_due_def intro: dynamic_sound split: if_splits)

end
