(* ===== verification/Maintenance_Books.thy ===== *)
theory Maintenance_Books
  imports Block_Books
begin

text \<open>
  The books over the maintenance, the expired objects and whole blocks, and the sample block of the
  witnesses.
\<close>

section \<open>Votes and election\<close>

lemma accounts_sound:
  assumes "sound E c" and "tbl_modify account_clash i f (c_accounts c) = Inr t"
  shows "sound E (c\<lparr>c_accounts := t\<rparr>)"
proof -
  have c: "chain_ok c" using assms(1) by (simp add: sound_def)
  show ?thesis
    by (rule sound_cong [OF assms(1)])
      (use c accounts.modify_keeps [OF chain_ok_parts(1) [OF c] assms(2)] in \<open>simp_all add: chain_ok_def liquid_of_def budget_due_def\<close>)
qed

lemma global_sound: "sound E c \<Longrightarrow> sound E (c\<lparr>c_global := g\<rparr>)"
  by (rule sound_cong) (simp_all add: sound_def chain_ok_def liquid_of_def budget_due_def)

lemma set_vote_power_sound:
  assumes "sound E c" and "set_vote_power who stake v c = Inr c'"
  shows "sound E c'"
proof -
  note ok = assms(1) [unfolded sound_def, THEN conjunct1]
  let ?f = "\<lambda>b :: account_balance. Inr (b\<lparr>ab_vote_power := stake, ab_casted_vote := v\<rparr>) :: account_balance res"
  let ?g = "\<lambda>b :: account_balance. if ab_asset_type b = 0 then ab_balance b else 0"
  let ?found = "find (\<lambda>(i, b). ab_owner b = who) (rows (c_balances c))"
  consider "c' = c" | i t where "tbl_modify balance_clash i ?f (c_balances c) = Inr t" "c' = c\<lparr>c_balances := t\<rparr>"
  proof (cases ?found)
    case None
    then show thesis using that(1) assms(2) by (simp add: set_vote_power_def)
  next
    case (Some ib)
    obtain i b where "ib = (i, b)" by (cases ib)
    then have "res_bind (tbl_modify balance_clash i ?f (c_balances c)) (\<lambda>t. Inr (c\<lparr>c_balances := t\<rparr>)) = Inr c'"
      using assms(2) Some by (simp add: set_vote_power_def)
    then show thesis using that(2) unfolding res_bind_eq_Inr by blast
  qed
  then show ?thesis
  proof cases
    case (2 i t)
    obtain b b' where b: "tbl_find i (c_balances c) = Some b" "?f b = Inr b'" using 2(1) by (rule tbl_modifyD)
    then have "?g b' = ?g b" by auto
    then have "tbl_sum ?g t = tbl_sum ?g (c_balances c)"
      using tbl_sum_modify [OF 2(1) index_okD(1) [OF chain_ok_parts(3) [OF ok]] b, of ?g] by simp
    moreover note balances.modify_keeps [OF chain_ok_parts(3) [OF ok] 2(1)]
    ultimately show ?thesis
      unfolding 2(2) by (intro sound_cong [OF assms(1)]) (use ok in \<open>simp_all add: chain_ok_def liquid_of_def budget_due_def\<close>)
  qed (use assms(1) in simp)
qed

lemma tally_account_sound: "sound E c \<Longrightarrow> tally_account props x (t, c) = Inr (t', c') \<Longrightarrow> sound E c'"
  using set_vote_power_sound by (cases x) (auto simp: tally_account_def res_simps)

lemma update_active_miners_sound:
  assumes "sound E c" and "update_active_miners E B t c = Inr c'"
  shows "sound E c'"
proof -
  obtain c1 as i f g where fold: "res_fold (set_total_votes t) (rows (c_miners c)) c = Inr c1"
    and acc: "tbl_modify account_clash i f (c_accounts c1) = Inr as"
    and c': "c' = (c1\<lparr>c_accounts := as\<rparr>)\<lparr>c_global := g\<rparr>"
    using assms(2) by (auto simp: update_active_miners_def res_simps)
  have "sound E c1"
    by (rule res_fold_invariant [OF fold, of "sound E"]) (use assms(1) miners_sound in \<open>auto simp: set_total_votes_def res_simps\<close>)
  then show ?thesis unfolding c' by (rule global_sound [OF accounts_sound [OF _ acc]])
qed

section \<open>The budget\<close>

text \<open>What \<open>process_budget\<close> changes of the books: the current supply grows by what was generated since the last
  budget less the fees that were accumulated, and nothing is due after it.\<close>

lemma process_budget_supply:
  assumes "externals_ok E" and "process_budget E c = Inr c'"
  obtains x t and d :: asset_dynamic_data where "tbl_find 0 (c_assets c) = Some x"
    and "tbl_modify no_clash (as_dynamic_data x) (\<lambda>x. res_bind (safe (nops E) (ad_current_supply x + (budget_due c - ad_accumulated_fees d)))
        (\<lambda>s. Inr (x\<lparr>ad_current_supply := s, ad_accumulated_fees := 0\<rparr>))) (c_asset_data c) = Inr t"
    and "data_of 0 c = Some d" and "c_asset_data c' = t" and "budget_due c' = 0" and "c_assets c' = c_assets c"
    and "c_balances c' = c_balances c" and "c_vesting c' = c_vesting c" and "c_proposals c' = c_proposals c"
    and "chain_ok (c\<lparr>c_asset_data := t\<rparr>) \<longrightarrow> chain_ok c'"
proof -
  note sf = safe_intD [OF num_ops_okD(1) [OF externals_okD [OF assms(1)]]]
  show thesis
    using assms(2) that
    by (auto simp: process_budget_def Let_def res_simps sf tbl_get_def data_of_def budget_due_def chain_ok_def)
qed

lemma process_budget_sound:
  assumes "externals_ok E" and "sound E c" and "process_budget E c = Inr c'"
  shows "sound E c'"
  using assms(1,3)
proof (rule process_budget_supply)
  fix x t and d :: asset_dynamic_data
  note sf = safe_intD [OF num_ops_okD(1) [OF externals_okD [OF assms(1)]]]
  let ?f = "\<lambda>x. res_bind (safe (nops E) (ad_current_supply x + (budget_due c - ad_accumulated_fees d)))
        (\<lambda>s. Inr (x\<lparr>ad_current_supply := s, ad_accumulated_fees := 0\<rparr>))"
  assume x: "tbl_find 0 (c_assets c) = Some x" and mod: "tbl_modify no_clash (as_dynamic_data x) ?f (c_asset_data c) = Inr t"
    and d: "data_of 0 c = Some d" and c': "c_asset_data c' = t" "budget_due c' = 0" "c_assets c' = c_assets c"
      "c_balances c' = c_balances c" "c_vesting c' = c_vesting c" "c_proposals c' = c_proposals c"
    and ok': "chain_ok (c\<lparr>c_asset_data := t\<rparr>) \<longrightarrow> chain_ok c'"
  have ok: "chain_ok c" "proposals_ok E c" "books_balanced c" using assms(2) by (auto simp: sound_def)
  obtain e e' :: asset_dynamic_data where e: "data_of 0 c = Some e" "?f e = Inr e'"
    and at: "\<And>b. data_of b (c\<lparr>c_asset_data := t\<rparr>) = (if b = 0 then Some e' else data_of b c)"
    using data_of_modify [OF ok(1) x mod] by blast
  have e': "e' = e\<lparr>ad_current_supply := ad_current_supply e + (budget_due c - ad_accumulated_fees e), ad_accumulated_fees := 0\<rparr>"
    using e d by (auto simp: res_simps sf)
  have "data_of 0 c' = Some e'" using at [of 0] c' by (simp add: data_of_def)
  then have "books_balanced c'"
    using ok(3) e(1) c' by (simp add: books_balanced_def supply_of_def held_def liquid_of_def vesting_of_def public_data_def e')
  moreover have "chain_ok c'"
    using ok' ok(1) plain.modify_keeps [OF chain_ok_parts(7) [OF ok(1)] mod] by (simp add: chain_ok_def)
  ultimately show ?thesis using ok(2) c'(6) by (simp add: sound_def proposals_ok_def)
qed

definition money_frame :: "chain \<Rightarrow> asset_object table \<times> asset_dynamic_data table \<times> dynamic_properties" where
  "money_frame c = (c_assets c, c_asset_data c, c_dynamic c)"

lemma maintenance_steps:
  assumes "perform_chain_maintenance E B b c = Inr c'"
  obtains c1 where "process_budget E c1 = Inr c'" and "c_assets c1 = c_assets c" and "c_asset_data c1 = c_asset_data c"
    and "budget_of (c1\<lparr>c_dynamic := (c_dynamic c1)\<lparr>dp_next_maintenance_time := 0\<rparr>\<rparr>) =
      budget_of (c\<lparr>c_dynamic := (c_dynamic c)\<lparr>dp_next_maintenance_time := 0\<rparr>\<rparr>)"
    and "sound E c \<Longrightarrow> sound E c1"
proof -
  obtain t c1 c2 next_time where fold: "res_fold (tally_account (gp_parameters (c_global c))) (rows (c_accounts c)) (empty_buffers (c_global c), c) = Inr (t, c1)"
    and act: "update_active_miners E B t c1 = Inr c2"
    and bud: "process_budget E ((c2\<lparr>c_global := adopt_parameters (c_global c2)\<rparr>)\<lparr>c_dynamic := (c_dynamic c2)
        \<lparr>dp_next_maintenance_time := next_time, dp_accounts_registered_this_interval := 0\<rparr>\<rparr>) = Inr c'"
    using assms by (auto simp: perform_chain_maintenance_def Let_def res_simps)
  have tally: "money_frame d' = money_frame d" if "tally_account ps x (t, d) = Inr (t', d')" for ps x t d t' d'
    using that by (cases x) (auto simp: tally_account_def set_vote_power_def res_simps money_frame_def split: option.splits)
  have "money_frame (snd (t, c1)) = money_frame (snd (empty_buffers (c_global c), c))"
    by (rule res_fold_const [OF fold]) (use tally in fastforce)
  moreover have "money_frame c2 = money_frame c1"
  proof -
    obtain d where fold: "res_fold (set_total_votes t) (rows (c_miners c1)) c1 = Inr d" and c2: "money_frame c2 = money_frame d"
      using act by (auto simp: update_active_miners_def res_simps money_frame_def)
    have "money_frame d = money_frame c1" by (rule res_fold_const [OF fold]) (auto simp: set_total_votes_def res_simps money_frame_def)
    then show ?thesis using c2 by simp
  qed
  moreover have "sound E ((c2\<lparr>c_global := adopt_parameters (c_global c2)\<rparr>)\<lparr>c_dynamic := (c_dynamic c2)
        \<lparr>dp_next_maintenance_time := next_time, dp_accounts_registered_this_interval := 0\<rparr>\<rparr>)" if "sound E c"
  proof -
    have "sound E (snd (t, c1))"
      by (rule res_fold_invariant [OF fold, of "\<lambda>s. sound E (snd s)"]) (use that tally_account_sound in auto)
    then have "sound E c2" using update_active_miners_sound [OF _ act] by simp
    then show ?thesis by (intro dynamic_sound global_sound) (simp_all add: budget_due_def)
  qed
  ultimately show thesis by (intro that [OF bud]) (simp_all add: money_frame_def budget_of_def)
qed

lemma perform_chain_maintenance_sound:
  assumes "externals_ok E" and "sound E c" and "perform_chain_maintenance E B b c = Inr c'"
  shows "sound E c'"
  using assms(3) by (rule maintenance_steps) (use process_budget_sound [OF assms(1)] assms(2) in blast)

section \<open>The rest of a block\<close>

lemma tables_sound:
  assumes "sound E c" and "c' = c\<lparr>c_transactions := t\<rparr> \<and> index_ok transaction_clash t \<or> c' = c\<lparr>c_block_summaries := u\<rparr>
    \<or> c' = c\<lparr>c_shuffled_miners := ms\<rparr>"
  shows "sound E c'"
  by (rule sound_cong [OF assms(1)]) (use assms in \<open>auto simp: sound_def chain_ok_def liquid_of_def budget_due_def\<close>)

lemma clear_transactions_sound: "sound E c \<Longrightarrow> clear_transactions n c = Inr c' \<Longrightarrow> sound E c'"
proof (induction n arbitrary: c)
  case (Suc n)
  have "c' = c \<or> (\<exists>i t. tbl_remove i (c_transactions c) = Inr t \<and> clear_transactions n (c\<lparr>c_transactions := t\<rparr>) = Inr c')"
    using Suc.prems(2) by (auto simp: res_simps split: option.splits if_splits)
  moreover have "sound E (c\<lparr>c_transactions := t\<rparr>)" if "tbl_remove i (c_transactions c) = Inr t" for i t
    using transactions.remove_keeps [OF _ that] Suc.prems(1) tables_sound [OF Suc.prems(1)] by (auto simp: sound_def chain_ok_def)
  ultimately show ?case using Suc by blast
qed simp

lemma drop_proposal_sound:
  assumes "sound E c" and "tbl_remove i (c_proposals c) = Inr t"
  shows "sound E (c\<lparr>c_proposals := t\<rparr>)"
proof -
  have ok: "chain_ok c" "proposals_ok E c" using assms(1) by (auto simp: sound_def)
  have "conserves c (c\<lparr>c_proposals := t\<rparr>)"
    by (rule proposals_conserve [OF ok(1) plain.remove_keeps [OF chain_ok_parts(9) [OF ok(1)] assms(2)]])
  moreover have "proposals_ok E (c\<lparr>c_proposals := t\<rparr>)"
    using ok(2) assms(2) by (auto simp: proposals_ok_def elim!: tbl_removeD)
  ultimately show ?thesis by (rule conserves_sound [OF assms(1)])
qed

lemma executed_proposal_sound:
  assumes "externals_ok E" and "sound E c" and "push_proposal E (apply_operation E n) p c = Some (Inr c')"
  shows "sound E c' \<and> budget_of c' = budget_of c \<and> supply_of 0 c' = supply_of 0 c"
proof -
  have ok: "chain_ok c" "proposals_ok E c" using assms(2) by (auto simp: sound_def)
  have "conserves c c' \<and> proposals_ok E c'"
    by (rule push_proposal_conserves [OF ok assms(3)]) (rule apply_operation_conserves [OF assms(1)])
  then show ?thesis using conserves_sound [OF assms(2)] by (auto simp: conserves_def)
qed

lemma clear_expired_proposals_steps:
  assumes "externals_ok E" and "sound E c" and "clear_expired_proposals E B n m c = Some (Inr c')"
  shows "sound E c' \<and> budget_of c' = budget_of c \<and> supply_of 0 c' = supply_of 0 c"
  using assms(2,3)
proof (induction m arbitrary: c)
  case (Suc m)
  show ?case
  proof (cases "first_expiring B c")
    case (Some px)
    obtain p x where px: "px = (p, x)" by (cases px)
    let ?next = "clear_expired_proposals E B n m" and ?drop = "\<lambda>t. c\<lparr>c_proposals := t\<rparr>"
    have "c' = c \<or> (\<exists>t. tbl_remove p (c_proposals c) = Inr t \<and> ?next (?drop t) = Some (Inr c')) \<or>
        (\<exists>c1. push_proposal E (apply_operation E n) p c = Some (Inr c1) \<and> ?next c1 = Some (Inr c'))"
      using Suc.prems(2) Some px
      by (auto simp: Let_def run_bind_eq_Inr split: if_splits option.splits sum.splits)
    moreover have "budget_of (?drop t) = budget_of c \<and> supply_of 0 (?drop t) = supply_of 0 c" for t
      by (simp add: budget_of_def supply_of_def data_of_def)
    ultimately show ?thesis
      using Suc.prems(1) Suc.IH drop_proposal_sound executed_proposal_sound [OF assms(1) Suc.prems(1)] by metis
  qed (use Suc.prems in simp)
qed simp

lemmas clear_expired_proposals_sound = clear_expired_proposals_steps [THEN conjunct1]
  and clear_expired_proposals_budget = clear_expired_proposals_steps [THEN conjunct2, THEN conjunct1]
  and clear_expired_proposals_supply = clear_expired_proposals_steps [THEN conjunct2, THEN conjunct2]

lemma apply_transactions_sound:
  assumes "externals_ok E"
  shows "sound E c \<Longrightarrow> apply_transactions E n skip ts c = Some (Inr c') \<Longrightarrow> sound E c'"
proof (induction ts arbitrary: c)
  case (Cons trx ts)
  obtain c1 where c1: "apply_transaction E n skip trx c = Some (Inr c1)" and rest: "apply_transactions E n skip ts c1 = Some (Inr c')"
    using Cons.prems(2) by (auto simp: run_bind_eq_Inr)
  have "chain_ok c" "proposals_ok E c" using Cons.prems(1) by (auto simp: sound_def)
  note apply_transaction_conserves [OF assms this c1]
  then have "sound E c1" using conserves_sound [OF Cons.prems(1)] by blast
  then show ?case using rest by (rule Cons.IH)
qed simp

lemma maintenance_flag_sound:
  assumes "sound E c" and "update_miner_schedule (update_maintenance_flag f c) = Inr c'"
  shows "sound E c'"
proof -
  have d: "sound E (update_maintenance_flag f c)"
    unfolding update_maintenance_flag_def using assms(1) by (rule dynamic_sound) (simp add: budget_due_def)
  have "c' = update_maintenance_flag f c \<or> (\<exists>ms. c' = (update_maintenance_flag f c)\<lparr>c_shuffled_miners := ms\<rparr>)"
    using assms(2) unfolding update_miner_schedule_def Let_def by (metis (no_types) Inl_Inr_False Inr_inject)
  then show ?thesis using d tables_sound [OF d] by blast
qed

lemma finish_block_steps:
  assumes "finish_block E B n m skip maint b c = Some (Inr c')"
  obtains c1 c2 c3 c4 c5 c6 c7 where "update_global_dynamic_data B skip b c = Inr c1"
    and "update_signing_miner E B (miner_of b) b c1 = Inr c2" and "update_last_irreversible_block c2 = Inr c3"
    and "(if maint then perform_chain_maintenance E B b c3 else Inr c3) = Inr c4"
    and "create_block_summary B b c4 = Inr c5" and "clear_expired_transactions c5 = Inr c6"
    and "clear_expired_proposals E B n m c6 = Some (Inr c7)" and "update_miner_schedule (update_maintenance_flag maint c7) = Inr c'"
  using assms unfolding finish_block_def by (simp only: run_bind_eq_Inr res_bind_eq_Inr option.inject) blast

lemma update_head:
  "update_global_dynamic_data B skip b c = Inr c' \<Longrightarrow>
    head_block_num c' = number_of_block B b \<and> head_block_time c' = timestamp b \<and> dp_head_block_id (c_dynamic c') = id_of_block B b"
  by (auto simp: update_global_dynamic_data_def Let_def res_simps advance_def)

lemma finish_block_before_proposals:
  assumes "externals_ok E" and "sound E c" and "number_of_block B b < VOTE_REWARD_FORK \<or> VOTE_REWARD_CHECK \<le> number_of_block B b"
    and 1: "update_global_dynamic_data B skip b c = Inr c1" and 2: "update_signing_miner E B (miner_of b) b c1 = Inr c2"
    and 3: "update_last_irreversible_block c2 = Inr c3" and 4: "(if maint then perform_chain_maintenance E B b c3 else Inr c3) = Inr c4"
    and 5: "create_block_summary B b c4 = Inr c5" and 6: "clear_expired_transactions c5 = Inr c6"
  shows "sound E c6"
proof -
  have "sound E c2"
    using update_global_dynamic_data_sound [OF assms(2) 1] update_head [OF 1] assms(3)
    by (intro update_signing_miner_sound [OF assms(1) _ 2]) auto
  then have "sound E c3" using 3 by (rule update_last_irreversible_block_sound)
  then have "sound E c4" using perform_chain_maintenance_sound [OF assms(1) _, of c3] 4 by (cases maint) auto
  moreover have "\<exists>u. c5 = c4\<lparr>c_block_summaries := u\<rparr>" using 5 by (auto simp: create_block_summary_def res_simps)
  ultimately have "sound E c5" using tables_sound [of E c4 c5] by blast
  then show ?thesis using 6 clear_transactions_sound unfolding clear_expired_transactions_def by blast
qed

lemma finish_block_sound:
  assumes "externals_ok E" and "sound E c" and "finish_block E B n m skip maint b c = Some (Inr c')"
    and "number_of_block B b < VOTE_REWARD_FORK \<or> VOTE_REWARD_CHECK \<le> number_of_block B b"
  shows "sound E c'"
  using assms(3)
  by (rule finish_block_steps)
    (rule maintenance_flag_sound [OF clear_expired_proposals_sound [OF assms(1) finish_block_before_proposals [OF assms(1,2,4)]]])

lemma apply_block_with_steps:
  assumes "apply_block_with E B n m skip b c = Some (Inr c')"
  obtains c1 where "skip AND skip_merkle_check \<noteq> 0 \<or> transaction_merkle_root b = block_root B b"
    and "validate_block_header B skip b c = Inr ()"
    and "apply_transactions E n (skip OR skip_transaction_signatures) (transactions b) c = Some (Inr c1)"
    and "finish_block E B n m skip (dp_next_maintenance_time (c_dynamic c) \<le> timestamp b) b c1 = Some (Inr c')"
  using assms unfolding apply_block_with_def by (auto simp: run_bind_eq_Inr res_simps)

lemma apply_blockD:
  assumes "apply_block E B n m skip b c = Some (Inr c')"
  obtains flags where "checkpoint_flags B skip b = Inr flags" and "apply_block_with E B n m flags b c = Some (Inr c')"
  using assms unfolding apply_block_def by (auto simp: run_bind_eq_Inr)

lemma apply_block_sound:
  assumes "externals_ok E" and "sound E c" and "apply_block E B n m skip b c = Some (Inr c')"
    and "number_of_block B b < VOTE_REWARD_FORK \<or> VOTE_REWARD_CHECK \<le> number_of_block B b"
  shows "sound E c'"
  using assms(3)
  by (elim apply_blockD apply_block_with_steps)
    (rule finish_block_sound [OF assms(1) apply_transactions_sound [OF assms(1,2)] _ assms(4)])

end
