(* ===== verification/Sample_Block.thy ===== *)
theory Sample_Block
  imports Maintenance_Books
begin

text \<open>
  A chain with one miner, a block on it that carries the sample transaction and makes maintenance due,
  and what surrounds them, for the examples of the properties of blocks.
\<close>

definition sample_miner :: miner_object where
  "sample_miner =
     \<lparr>mo_account = 10, mo_last_aslot = 0, mo_signing_key = 5, mo_pay_vb = None, mo_vote_id = make_vote_id vt_miner 0,
      mo_total_votes = 0, mo_url = [], mo_total_missed = 0, mo_last_confirmed_block_num = 0\<rparr>"

definition sample_ledger :: chain where
  \<comment> \<open>the sample chain with its only miner, and maintenance due with the next block\<close>
  "sample_ledger = sample_chain
     \<lparr>c_accounts := \<lparr>rows = [(0, sample_account 0 0), (10, sample_account 1 0), (11, sample_account 2 1)], next_instance = 12\<rparr>,
      c_miners := \<lparr>rows = [(0, sample_miner)], next_instance = 1\<rparr>,
      c_block_summaries := \<lparr>rows = [(1, zero_hash)], next_instance = 2\<rparr>,
      c_global := (c_global sample_chain)\<lparr>gp_next_available_vote_id := 1, gp_active_miners := [0]\<rparr>,
      c_dynamic := sample_dynamics\<lparr>dp_next_maintenance_time := 1005\<rparr>, c_shuffled_miners := [0]\<rparr>"

definition sample_env :: block_env where
  "sample_env =
     \<lparr>be_checkpoints = [], be_min_miner_count = 1, be_equal_keys = (\<lambda>is. is), be_reverse = (\<lambda>w. w),
      be_sha224 = (\<lambda>_. replicate 7 9), be_recover = (\<lambda>_ _. Inr 5), be_digest = (\<lambda>_. 0), be_merkle_digest = (\<lambda>_. 3),
      be_hash2 = (\<lambda>(a, b). a + b), be_checksum = (\<lambda>_. Hash160 8 8 8 8 8)\<rparr>"

definition sample_block :: block where
  "sample_block =
     \<lparr>previous = zero_hash, timestamp = 1005, miner = Object_Id 0, transaction_merkle_root = Hash160 8 8 8 8 8,
      extensions = [], block_number = 0, miner_signature = [], transactions = [sample_transaction]\<rparr>"

lemma sample_ledger_sound: "sound sample_externals sample_ledger"
proof -
  have n: "dec_of_nat 0 = ''0''" "dec_of_nat (Suc 0) = ''1''" "dec_of_nat 2 = ''2''" by code_simp+
  have "chain_ok sample_ledger"
    using sample_chain_ok(1)
    by (simp add: chain_ok_def sample_ledger_def sample_chain_def index_ok_def tbl_ok_def account_clash_def sample_account_def n)
  moreover have "proposals_ok sample_externals sample_ledger"
    using sample_chain_ok(2) by (simp add: proposals_ok_def sample_ledger_def)
  moreover have "books_balanced sample_ledger" by code_simp
  ultimately show ?thesis by (simp add: sound_def)
qed

lemma sample_block_runs: "ran (apply_block sample_externals sample_env 2 1 0 sample_block sample_ledger)"
  by code_simp

end
