(* ===== verification/Schedule_Properties.thy ===== *)
theory Schedule_Properties
  imports Schedule Sample_Chain "HOL-Library.Multiset"
begin

text \<open>
  What the schedule promises: slots and times determine each other, and shuffling only reorders the
  miners, so every active miner is scheduled as often as any other.
\<close>

definition sample_schedule :: chain where
  \<comment> \<open>a chain with three active miners after its first blocks\<close>
  "sample_schedule = sample_chain\<lparr>c_global := (c_global sample_chain)\<lparr>gp_active_miners := [3, 7, 9]\<rparr>,
     c_dynamic := sample_dynamics\<lparr>dp_head_block_number := 9, dp_dynamic_flags := 1\<rparr>\<rparr>"

section \<open>Slots and times\<close>

definition slot_seconds :: "chain \<Rightarrow> int \<Rightarrow> int" where
  \<comment> \<open>the start of a slot in unbounded seconds\<close>
  "slot_seconds c n =
     (let interval = uint (interval_of c)
      in if head_block_num c = 0 then uint (head_block_time c) + n * interval
         else (uint (head_block_time c) div interval +
               (if dp_dynamic_flags (c_dynamic c) AND maintenance_flag \<noteq> 0
                then n + uint (maintenance_skip_slots (gp_parameters (c_global c))) else n)) * interval)"

lemma slot_seconds_diff: "slot_seconds c n = slot_seconds c 1 + (n - 1) * uint (interval_of c)"
  by (simp add: slot_seconds_def Let_def algebra_simps)

lemma slot_seconds_nonneg: "0 \<le> n \<Longrightarrow> 0 \<le> slot_seconds c n"
  by (simp add: slot_seconds_def Let_def div_int_pos_iff)

lemma uint_ucast_byte: "uint (ucast (i :: 8 word) :: 32 word) = uint i"
proof -
  have "uint i < 2 ^ 32" using uint_lt2p [of i] by simp
  then show ?thesis by (simp add: unsigned_ucast_eq take_bit_int_eq_self)
qed

lemma unat_ucast_of_nat: "k < 2 ^ 32 \<Longrightarrow> unat (ucast (word_of_nat k :: 32 word) :: 64 word) = k"
  by (simp add: unsigned_ucast_eq unat_of_nat take_bit_nat_eq_self)

lemma get_slot_time_word:
  assumes "interval_of c \<noteq> 0" and "n \<noteq> 0"
  shows "get_slot_time n c = Inr (word_of_int (slot_seconds c (uint n)))"
proof -
  have "(ucast (interval_of c) :: 32 word) \<noteq> 0"
    using assms(1) uint_ucast_byte [of "interval_of c"] by (metis uint_0_iff)
  moreover have "(word_of_int (uint (head_block_time c) div uint (interval_of c)) :: 32 word) =
      head_block_time c div ucast (interval_of c)"
    by (simp only: word_div_def uint_ucast_byte)
  moreover have "(word_of_int (uint b) :: 32 word) = ucast b" for b :: "8 word"
    by (simp only: ucast_eq)
  ultimately show ?thesis
    using assms(2)
    by (simp only: get_slot_time_def slot_seconds_def Let_def of_int_add of_int_mult word_of_int_uint if_False if_distrib [of word_of_int]
        if_distrib [of Inr] split: if_split) (simp add: distrib_right)
qed

text \<open>A time falls in the slot that starts last before it: the times of a slot, from its start until the
  next one starts, are mapped back to its number.\<close>

theorem slot_of_slot_time:
  assumes "interval_of c \<noteq> 0" and "n \<noteq> 0" and "0 \<le> d" and "d < uint (interval_of c)"
    and "slot_seconds c (uint n) + d < 2 ^ 32"
  shows "get_slot_time n c = Inr (word_of_int (slot_seconds c (uint n))) \<and>
    get_slot_at_time (word_of_int (slot_seconds c (uint n) + d)) c = Inr n"
proof -
  let ?i = "uint (interval_of c)"
  have i: "0 < ?i" using assms(3,4) by linarith
  have n: "1 \<le> uint n" using assms(2) by (metis linorder_not_less uint_0_iff uint_ge_0 zless_iff_Suc_zadd int_one_le_iff_zero_less order_le_less)
  have first: "slot_seconds c 1 \<le> slot_seconds c (uint n)"
    unfolding slot_seconds_diff [of c "uint n"] using n i by simp
  have t: "uint (word_of_int (slot_seconds c (uint n) + d) :: time) = slot_seconds c (uint n) + d"
    by (rule uint_eq_of_int [OF refl]) (use assms slot_seconds_nonneg [of "uint n" c] in auto)
  have f: "uint (word_of_int (slot_seconds c 1) :: time) = slot_seconds c 1"
    by (rule uint_eq_of_int [OF refl]) (use assms first slot_seconds_nonneg [of 1 c] in auto)
  have "(slot_seconds c (uint n) + d - slot_seconds c 1) div ?i + 1 = uint n"
    unfolding slot_seconds_diff [of c "uint n"] using i assms(3,4) by (simp add: div_pos_pos_trivial)
  moreover obtain w where w: "w = (word_of_int (slot_seconds c (uint n) + d) :: time)" by simp
  moreover obtain w1 where w1: "w1 = (word_of_int (slot_seconds c 1) :: time)" by simp
  moreover have "get_slot_time 1 c = Inr w1" using get_slot_time_word [OF assms(1), of 1] by (simp add: w1)
  ultimately have "get_slot_at_time w c = Inr (word_of_int (uint n))"
    using assms(1,3) first t f by (simp add: get_slot_at_time_def word_less_def elapsed_def not_less del: word_of_int_uint)
  then show ?thesis using get_slot_time_word [OF assms(1,2)] by (simp add: w)
qed

theorem slot_of_slot_time_witness:
  "get_slot_at_time 1028 sample_schedule = Inr 2"
proof -
  have i: "uint (interval_of sample_schedule) = 5" and s: "slot_seconds sample_schedule 2 = 1025"
    by (simp_all add: sample_schedule_def sample_chain_def sample_parameters_def sample_dynamics_def slot_seconds_def maintenance_flag_def)
  then have "interval_of sample_schedule \<noteq> 0" by (metis uint_0_eq zero_neq_numeral)
  with i s have "get_slot_at_time (word_of_int (slot_seconds sample_schedule (uint (2 :: 32 word)) + 3)) sample_schedule = Inr 2"
    using slot_of_slot_time [of sample_schedule 2 3] by simp
  then show ?thesis by (simp add: s)
qed

section \<open>Every miner gets a slot\<close>

lemma shuffle_step_mset:
  assumes "length ms < 2 ^ 32" and "i < length ms"
  shows "mset (shuffle_step now_hi i ms) = mset ms \<and> length (shuffle_step now_hi i ms) = length ms"
proof -
  let ?m = "length ms - i"
  let ?k = "shuffle_key now_hi i mod ucast (word_of_nat ?m :: 32 word)"
  have m: "unat (ucast (word_of_nat ?m :: 32 word) :: 64 word) = ?m"
    using assms by (intro unat_ucast_of_nat) simp
  have k: "unat ?k < ?m" using assms(2) by (simp add: unat_mod_distrib m del: of_nat_diff)
  have "unat (word_of_nat i + ?k) = i + unat ?k"
    using assms k by (subst unat_add_lem [THEN iffD1]) (auto simp: unat_of_nat)
  then have "unat (ucast (word_of_nat i + ?k) :: 32 word) = i + unat ?k"
    using assms k by (simp add: unsigned_ucast_eq take_bit_nat_eq_self)
  then show ?thesis
    using assms(2) k by (simp add: shuffle_step_def Let_def mset_swap)
qed

lemma shuffle_mset:
  assumes "length ms < 2 ^ 32"
  shows "mset (shuffle now_hi ms) = mset ms"
proof -
  have "mset (fold (shuffle_step now_hi) is xs) = mset xs \<and> length (fold (shuffle_step now_hi) is xs) = length xs"
    if "\<forall>i \<in> set is. i < length xs" "length xs < 2 ^ 32" for "is" and xs :: "'a list"
    using that by (induction "is" arbitrary: xs) (auto simp: shuffle_step_mset)
  from this [of "[0..<length ms]" ms] show ?thesis using assms by (simp add: shuffle_def)
qed

lemma rotation_mset: "0 < n \<Longrightarrow> n = length ms \<Longrightarrow> mset (map (\<lambda>i. ms ! ((k + i) mod n)) [0..<n]) = mset ms"
proof -
  assume n: "0 < n" "n = length ms"
  have "map (\<lambda>i. ms ! ((k + i) mod n)) [0..<n] = rotate k ms"
    by (rule nth_equalityI) (use n in \<open>auto simp: nth_rotate\<close>)
  then show ?thesis by (metis append_take_drop_id mset_append rotate_drop_take union_commute)
qed

lemma scheduled_miner_at:
  assumes "c_shuffled_miners c \<noteq> []" and "length (c_shuffled_miners c) < 2 ^ 32"
    and "unat (dp_current_aslot (c_dynamic c)) + s < 2 ^ 64" and "s < 2 ^ 32"
  shows "get_scheduled_miner (word_of_nat s) c =
    Inr (c_shuffled_miners c ! ((unat (dp_current_aslot (c_dynamic c)) + s) mod length (c_shuffled_miners c)))"
proof -
  have "unat (ucast (word_of_nat s :: 32 word) :: 64 word) = s"
    by (rule unat_ucast_of_nat [OF assms(4)])
  then have "unat (dp_current_aslot (c_dynamic c) + ucast (word_of_nat s :: 32 word)) = unat (dp_current_aslot (c_dynamic c)) + s"
    using assms(3) by (subst unat_add_lem [THEN iffD1]) auto
  then show ?thesis using assms(1,2) by (simp add: get_scheduled_miner_def Let_def unat_mod_distrib unat_of_nat)
qed

text \<open>C18: after the schedule is renewed, any run of as many consecutive slots as there are active miners has
  each active miner exactly once.
  The schedule is renewed at the block numbers that the number of active miners divides, and the numbers of the
  slots do not wrap.\<close>

theorem every_miner_gets_a_slot:
  assumes "update_miner_schedule c = Inr c'" and "ucast (head_block_num c) mod (word_of_nat n :: 64 word) = 0"
    and "n = length (gp_active_miners (c_global c))" and "n < 2 ^ 32"
    and "unat (dp_current_aslot (c_dynamic c)) + s + n \<le> 2 ^ 64" and "s + n \<le> 2 ^ 32"
  shows "image_mset (\<lambda>i. get_scheduled_miner (word_of_nat (s + i)) c') (mset [0..<n]) =
    image_mset Inr (mset (gp_active_miners (c_global c)))"
proof -
  let ?a = "unat (dp_current_aslot (c_dynamic c))"
  have c': "c' = c\<lparr>c_shuffled_miners := shuffle (push_bit 32 (ucast (head_block_time c))) (gp_active_miners (c_global c))\<rparr>"
    and ne: "gp_active_miners (c_global c) \<noteq> []"
    using assms(1,2,3) by (auto simp: update_miner_schedule_def Let_def split: if_splits)
  let ?ms = "c_shuffled_miners c'"
  have ms: "mset ?ms = mset (gp_active_miners (c_global c))" and dyn: "c_dynamic c' = c_dynamic c"
    using assms(3,4) by (simp_all add: c' shuffle_mset)
  have len: "length ?ms = n" using mset_eq_length [OF ms] assms(3) by simp
  have "0 < n" using ne assms(3) by simp
  then have ne': "?ms \<noteq> []" using len by auto
  have at: "get_scheduled_miner (word_of_nat (s + i)) c' = Inr (?ms ! ((?a + s + i) mod n))" if "i < n" for i
    using scheduled_miner_at [of c' "s + i"] that assms(4,5,6) ne' len dyn by (simp add: add.assoc del: of_nat_add)
  have "image_mset (\<lambda>i. get_scheduled_miner (word_of_nat (s + i)) c') (mset [0..<n]) =
      image_mset (\<lambda>i. Inr (?ms ! ((?a + s + i) mod n))) (mset [0..<n])"
    by (rule image_mset_cong) (use at in simp)
  also have "\<dots> = image_mset Inr (mset (map (\<lambda>i. ?ms ! ((?a + s + i) mod n)) [0..<n]))"
    by (simp add: image_mset.compositionality o_def)
  also have "\<dots> = image_mset Inr (mset (gp_active_miners (c_global c)))"
    using rotation_mset [OF \<open>0 < n\<close>, of ?ms "?a + s"] len ms by simp
  finally show ?thesis .
qed

theorem every_miner_gets_a_slot_witness:
  "\<exists>c'. image_mset (\<lambda>i. get_scheduled_miner (word_of_nat (5 + i)) c') (mset [0..<3]) = {#Inr 3, Inr 7, Inr 9#}"
proof -
  have a: "gp_active_miners (c_global sample_schedule) = [3, 7, 9]" "head_block_num sample_schedule = 9"
    "dp_current_aslot (c_dynamic sample_schedule) = 0"
    by (simp_all add: sample_schedule_def sample_dynamics_def)
  then obtain c' where "update_miner_schedule sample_schedule = Inr c'"
    by (auto simp: update_miner_schedule_def Let_def)
  moreover have "ucast (head_block_num sample_schedule) mod (word_of_nat 3 :: 64 word) = 0" by (simp add: a)
  moreover have "3 = length (gp_active_miners (c_global sample_schedule))" by (simp add: a)
  moreover have "(3 :: nat) < 2 ^ 32" by simp
  moreover have "unat (dp_current_aslot (c_dynamic sample_schedule)) + 5 + 3 \<le> 2 ^ 64" by (simp add: a)
  moreover have "(5 :: nat) + 3 \<le> 2 ^ 32" by simp
  ultimately have "image_mset (\<lambda>i. get_scheduled_miner (word_of_nat (5 + i)) c') (mset [0..<3]) =
      image_mset Inr (mset (gp_active_miners (c_global sample_schedule)))"
    by (rule every_miner_gets_a_slot)
  then show ?thesis unfolding a by (intro exI [of _ c']) simp
qed

end
