(* ===== verification/Block_Properties.thy ===== *)
theory Block_Properties
  imports Sample_Block Schedule_Properties
begin

text \<open>
  Blocks as a whole: they keep the books balanced, they come from the scheduled miner, in order
  and in time, and what is irreversible was confirmed by enough miners.
\<close>

section \<open>The books\<close>

text \<open>C3: applying a block keeps the books of the core asset balanced: what the chain holds of it (liquid and vesting
  balances, confidential supply, accumulated fees) is its current supply plus the rewards mined and the fees paid out
  since the last budget.  This holds through the transactions, the pay of the miner and its voters, maintenance with
  the budget, and the proposals that are executed, with the indexes and the stored proposals well formed; the blocks
  between the two changes of the vote rewards, whose payments to voters are not compared with the reward, are excluded.
  The chain before is sound in the same sense. The code the program calls keeps its contract
  (\<open>externals_ok\<close>).\<close>

theorem blocks_keep_the_books:
  assumes "externals_ok E" and "sound E c" and "apply_block E B n m skip b c = Some (Inr c')"
    and "number_of_block B b < VOTE_REWARD_FORK \<or> VOTE_REWARD_CHECK \<le> number_of_block B b"
  shows "sound E c' \<and> (\<exists>s. supply_of 0 c' = Some s \<and> held 0 c' = s + budget_due c')"
  using apply_block_sound [OF assms] by (auto simp: sound_def books_balanced_def split: option.splits)

theorem blocks_keep_the_books_witness:
  "\<exists>c'. apply_block sample_externals sample_env 2 1 0 sample_block sample_ledger = Some (Inr c') \<and>
    (\<exists>s. supply_of 0 c' = Some s \<and> held 0 c' = s + budget_due c')"
proof -
  obtain c' where c': "apply_block sample_externals sample_env 2 1 0 sample_block sample_ledger = Some (Inr c')"
    using sample_block_runs ran_iff by blast
  have "number_of_block sample_env sample_block < VOTE_REWARD_FORK" by code_simp
  then show ?thesis using blocks_keep_the_books [OF sample_externals_ok sample_ledger_sound c'] c' by blast
qed

section \<open>The chain of blocks\<close>

definition head_of :: "chain \<Rightarrow> 32 word \<times> time \<times> block_id" where
  "head_of c = (head_block_num c, head_block_time c, dp_head_block_id (c_dynamic c))"

lemma deposit_lazy_vesting_frame: "deposit_lazy_vesting ops v n s w r c = Inr (x, c') \<Longrightarrow> money_frame c' = money_frame c"
  by (auto simp: deposit_lazy_vesting_def Let_def res_simps money_frame_def split: if_splits option.splits)

lemma deposit_account_pay_frame: "deposit_account_pay ops a n c = Inr c' \<Longrightarrow> money_frame c' = money_frame c"
  using deposit_lazy_vesting_frame
  by (fastforce simp: deposit_account_pay_def set_cashback_vb_def res_simps money_frame_def split: if_splits option.splits)

lemma deposit_miner_pay_frame: "deposit_miner_pay ops w n c = Inr c' \<Longrightarrow> money_frame c' = money_frame c"
  using deposit_lazy_vesting_frame
  by (fastforce simp: deposit_miner_pay_def res_simps money_frame_def split: if_splits option.splits)

lemma deposit_voters_frame: "deposit_voters E r tv vs t c = Inr (t', c') \<Longrightarrow> money_frame c' = money_frame c"
proof (induction vs arbitrary: t c)
  case (Cons v vs)
  obtain who p where v: "v = (who, p)" by (cases v)
  obtain d n c1 where "deposit_account_pay (nops E) who n c = Inr c1" "deposit_voters E r tv vs (t + d) c1 = Inr (t', c')"
    using Cons.prems by (auto simp: v res_simps Let_def)
  then show ?case using Cons.IH deposit_account_pay_frame by metis
qed simp

lemma pay_block_frame: "pay_block E B w m n c = Inr c' \<Longrightarrow> money_frame c' = money_frame c"
  by (auto simp: pay_block_def Let_def res_simps dest!: deposit_voters_frame deposit_miner_pay_frame split: if_splits)

lemma update_signing_miner_head: "update_signing_miner E B w b c = Inr c' \<Longrightarrow> head_of c' = head_of c"
proof -
  assume "update_signing_miner E B w b c = Inr c'"
  then obtain m n r u c2 ms where pay: "pay_block E B w m n (c\<lparr>c_dynamic := (c_dynamic c)
        \<lparr>dp_mined_rewards := r, dp_unspent_fee_budget := u\<rparr>\<rparr>) = Inr c2" (is "pay_block E B w m n ?c1 = _") and c': "c' = c2\<lparr>c_miners := ms\<rparr>"
    by (auto simp: update_signing_miner_def Let_def res_simps)
  show ?thesis using pay_block_frame [OF pay] by (simp add: c' head_of_def money_frame_def)
qed

lemma budget_of_head: "budget_of c' = budget_of c \<Longrightarrow> head_of c' = head_of c"
proof -
  have "head_of c = (dp_head_block_number (budget_of c), dp_time (budget_of c), dp_head_block_id (budget_of c))" for c
    by (simp add: head_of_def budget_of_def)
  then show "budget_of c' = budget_of c \<Longrightarrow> head_of c' = head_of c" by simp
qed

lemma maintenance_head: "perform_chain_maintenance E B b c = Inr c' \<Longrightarrow> head_of c' = head_of c"
proof (erule maintenance_steps)
  fix c1 assume bud: "process_budget E c1 = Inr c'"
    and same: "budget_of (c1\<lparr>c_dynamic := (c_dynamic c1)\<lparr>dp_next_maintenance_time := 0\<rparr>\<rparr>) =
      budget_of (c\<lparr>c_dynamic := (c_dynamic c)\<lparr>dp_next_maintenance_time := 0\<rparr>\<rparr>)"
  have "head_of c' = head_of c1" using bud by (auto simp: process_budget_def Let_def res_simps head_of_def)
  then show "head_of c' = head_of c" using budget_of_head [OF same] by (simp add: head_of_def)
qed

lemma clear_transactions_head: "clear_transactions n c = Inr c' \<Longrightarrow> head_of c' = head_of c"
proof (induction n arbitrary: c)
  case (Suc n)
  have "c' = c \<or> (\<exists>t. clear_transactions n (c\<lparr>c_transactions := t\<rparr>) = Inr c')"
    using Suc.prems by (auto simp: res_simps split: option.splits if_splits)
  then show ?case using Suc.IH by (auto simp: head_of_def)
qed simp

lemma clear_expired_proposals_head:
  assumes "externals_ok E" and "sound E c" and "clear_expired_proposals E B n m c = Some (Inr c')"
  shows "head_of c' = head_of c"
  using clear_expired_proposals_budget [OF assms] by (rule budget_of_head)

lemma finish_block_head:
  assumes "externals_ok E" and "sound E c" and "finish_block E B n m skip maint b c = Some (Inr c')"
    and "number_of_block B b < VOTE_REWARD_FORK \<or> VOTE_REWARD_CHECK \<le> number_of_block B b"
  shows "head_of c' = (number_of_block B b, timestamp b, id_of_block B b)"
  using assms(3)
proof (rule finish_block_steps)
  fix c1 c2 c3 c4 c5 c6 c7
  assume 1: "update_global_dynamic_data B skip b c = Inr c1" and 2: "update_signing_miner E B (miner_of b) b c1 = Inr c2"
    and 3: "update_last_irreversible_block c2 = Inr c3" and 4: "(if maint then perform_chain_maintenance E B b c3 else Inr c3) = Inr c4"
    and 5: "create_block_summary B b c4 = Inr c5" and 6: "clear_expired_transactions c5 = Inr c6"
    and 7: "clear_expired_proposals E B n m c6 = Some (Inr c7)" and 8: "update_miner_schedule (update_maintenance_flag maint c7) = Inr c'"
  have "head_of c1 = (number_of_block B b, timestamp b, id_of_block B b)" using update_head [OF 1] by (simp add: head_of_def)
  moreover have "head_of c2 = head_of c1" by (rule update_signing_miner_head [OF 2])
  moreover have "head_of c3 = head_of c2" using 3 by (auto simp: update_last_irreversible_block_def Let_def res_simps head_of_def split: if_splits)
  moreover have "head_of c4 = head_of c3" using 4 maintenance_head by (cases maint) auto
  moreover have "head_of c5 = head_of c4" using 5 by (auto simp: create_block_summary_def res_simps head_of_def)
  moreover have "head_of c6 = head_of c5" using 6 unfolding clear_expired_transactions_def by (rule clear_transactions_head)
  moreover have "head_of c7 = head_of c6"
    using finish_block_before_proposals [OF assms(1,2,4) 1 2 3 4 5 6] 7 by (rule clear_expired_proposals_head [OF assms(1)])
  moreover have "head_of c' = head_of c7"
    using 8 unfolding update_miner_schedule_def Let_def update_maintenance_flag_def head_of_def
    by (auto simp del: word_of_nat_eq_0_iff split: if_splits)
  ultimately show ?thesis by simp
qed

lemma validate_block_headerD:
  assumes "validate_block_header B skip b c = Inr ()"
  obtains m where "previous b = dp_head_block_id (c_dynamic c)" and "head_block_time c < timestamp b"
    and "tbl_find (miner_of b) (c_miners c) = Some m"
    and "skip AND skip_miner_signature = 0 \<Longrightarrow> validate_signee (be_recover B) (be_digest B) (mo_signing_key m) b = Inr True"
    and "skip AND skip_miner_schedule_check = 0 \<Longrightarrow>
      \<exists>slot. get_slot_at_time (timestamp b) c = Inr slot \<and> 0 < slot \<and> get_scheduled_miner slot c = Inr (miner_of b)"
  using assms
  by (auto simp: validate_block_header_def res_simps tbl_get_def split: if_splits)

text \<open>C9: a block that is applied with its checks on (the miner's signature and the schedule are not skipped, and no checkpoint
  changes the flags) to a sound chain (balanced books, well-formed indexes and proposals) extends the chain: it names the
  head block as its predecessor, is later than it, is signed with the key of its miner, and that miner is the one scheduled
  for the slot of its time; after it the head of the chain has the number, the time and the identifier of the block,
  whatever the proposals it executed did.  The blocks 545000 to 563499, which pay the voters without comparing the payments
  with the reward, are left aside, and the code the program calls keeps its contract (\<open>externals_ok\<close>).\<close>

theorem applied_block_extends_head:
  assumes "externals_ok E" and "sound E c" and "apply_block E B n m skip b c = Some (Inr c')"
    and "number_of_block B b < VOTE_REWARD_FORK \<or> VOTE_REWARD_CHECK \<le> number_of_block B b"
    and "checkpoint_flags B skip b = Inr skip" and "skip AND (skip_miner_signature OR skip_miner_schedule_check) = 0"
  shows "previous b = dp_head_block_id (c_dynamic c) \<and> head_block_time c < timestamp b \<and>
    (\<exists>x slot. tbl_find (miner_of b) (c_miners c) = Some x \<and>
      validate_signee (be_recover B) (be_digest B) (mo_signing_key x) b = Inr True \<and>
      get_slot_at_time (timestamp b) c = Inr slot \<and> 0 < slot \<and> get_scheduled_miner slot c = Inr (miner_of b)) \<and>
    head_of c' = (number_of_block B b, timestamp b, id_of_block B b)"
proof -
  have off: "skip AND skip_miner_signature = 0" "skip AND skip_miner_schedule_check = 0"
    using assms(6) by (simp_all add: bit.conj_disj_distrib or_eq_0_iff)
  obtain c1 where valid: "validate_block_header B skip b c = Inr ()"
    and ts: "apply_transactions E n (skip OR skip_transaction_signatures) (transactions b) c = Some (Inr c1)"
    and fin: "finish_block E B n m skip (dp_next_maintenance_time (c_dynamic c) \<le> timestamp b) b c1 = Some (Inr c')"
    using assms(3,5) by (auto elim!: apply_blockD apply_block_with_steps)
  note head = finish_block_head [OF assms(1) apply_transactions_sound [OF assms(1,2) ts] fin assms(4)]
  from valid show ?thesis
  proof (rule validate_block_headerD)
    fix x assume "previous b = dp_head_block_id (c_dynamic c)" "head_block_time c < timestamp b" "tbl_find (miner_of b) (c_miners c) = Some x"
      and "skip AND skip_miner_signature = 0 \<Longrightarrow> validate_signee (be_recover B) (be_digest B) (mo_signing_key x) b = Inr True"
      and "skip AND skip_miner_schedule_check = 0 \<Longrightarrow>
        \<exists>slot. get_slot_at_time (timestamp b) c = Inr slot \<and> 0 < slot \<and> get_scheduled_miner slot c = Inr (miner_of b)"
    then show ?thesis using head off by blast
  qed
qed

theorem applied_block_extends_head_witness:
  "\<exists>c'. apply_block sample_externals sample_env 2 1 0 sample_block sample_ledger = Some (Inr c') \<and>
    head_of c' = (1, 1005, id_of_block sample_env sample_block)"
proof -
  obtain c' where c': "apply_block sample_externals sample_env 2 1 0 sample_block sample_ledger = Some (Inr c')"
    using sample_block_runs ran_iff by blast
  have n: "number_of_block sample_env sample_block = 1" "timestamp sample_block = 1005" by code_simp+
  then have "number_of_block sample_env sample_block < VOTE_REWARD_FORK" by (simp add: VOTE_REWARD_FORK_def)
  moreover have "checkpoint_flags sample_env 0 sample_block = Inr 0" by code_simp
  ultimately have "head_of c' = (1, 1005, id_of_block sample_env sample_block)"
    using applied_block_extends_head [OF sample_externals_ok sample_ledger_sound c'] n by simp
  then show ?thesis using c' by blast
qed

section \<open>Irreversible blocks\<close>

lemma confirmed_after_offset:
  fixes xs :: "'a::linorder list"
  assumes "k < length xs"
  shows "length xs - k \<le> length (filter (\<lambda>x. sort xs ! k \<le> x) xs)"
proof -
  have "length (filter (\<lambda>x. sort xs ! k \<le> x) (drop k (sort xs))) = length (drop k (sort xs))"
    by (subst filter_True) (use assms in \<open>auto simp: in_set_conv_nth intro!: sorted_nth_mono\<close>)
  also have "\<dots> = length xs - k" by simp
  finally have "length xs - k \<le> length (filter (\<lambda>x. sort xs ! k \<le> x) (take k (sort xs) @ drop k (sort xs)))"
    unfolding filter_append length_append by linarith
  then have "length xs - k \<le> length (filter (\<lambda>x. sort xs ! k \<le> x) (sort xs))" by simp
  also have "\<dots> = size (filter_mset (\<lambda>x. sort xs ! k \<le> x) (mset (sort xs)))" by (metis mset_filter size_mset)
  also have "\<dots> = length (filter (\<lambda>x. sort xs ! k \<le> x) xs)" by (metis mset_filter mset_sort size_mset)
  finally show ?thesis .
qed

text \<open>C22: the last irreversible block never goes back, and a block becomes irreversible only when at least 70 percent of
  the active miners have confirmed it or a later one.
  Every active miner is an object of the chain.\<close>

theorem irreversible_blocks_are_confirmed:
  assumes "update_last_irreversible_block c = Inr c'"
    and "map_res (\<lambda>w. tbl_get w (c_miners c)) (gp_active_miners (c_global c)) = Inr miners"
  shows "dp_last_irreversible_block_num (c_dynamic c) \<le> dp_last_irreversible_block_num (c_dynamic c') \<and>
    (c' = c \<or> 7000 * int (length miners) \<le>
      10000 * int (length (filter (\<lambda>x. dp_last_irreversible_block_num (c_dynamic c') \<le> mo_last_confirmed_block_num x) miners)))"
proof -
  let ?k = "nat ((GRAPHENE_100_PERCENT - GRAPHENE_IRREVERSIBLE_THRESHOLD) * int (length miners) div GRAPHENE_100_PERCENT)"
    and ?ns = "map mo_last_confirmed_block_num miners"
  have ne: "miners \<noteq> []" and c': "c' = (if sort ?ns ! ?k > dp_last_irreversible_block_num (c_dynamic c)
      then c\<lparr>c_dynamic := (c_dynamic c)\<lparr>dp_last_irreversible_block_num := sort ?ns ! ?k\<rparr>\<rparr> else c)"
    using assms by (auto simp: update_last_irreversible_block_def Let_def split: if_splits)
  have k: "int ?k = 3000 * int (length miners) div 10000"
    by (simp add: GRAPHENE_100_PERCENT_def GRAPHENE_IRREVERSIBLE_THRESHOLD_def)
  moreover have "3000 * int (length miners) div 10000 < int (length miners)" using ne by (cases miners) auto
  ultimately have "?k < length miners" by linarith
  then have "length miners - ?k \<le> length (filter (\<lambda>x. sort ?ns ! ?k \<le> x) ?ns)"
    using confirmed_after_offset [of ?k ?ns] by simp
  also have "\<dots> = length (filter (\<lambda>x. sort ?ns ! ?k \<le> mo_last_confirmed_block_num x) miners)" by (simp add: filter_map o_def)
  finally have "int (length miners) - int ?k \<le> int (length (filter (\<lambda>x. sort ?ns ! ?k \<le> mo_last_confirmed_block_num x) miners))"
    by linarith
  then show ?thesis using k by (auto simp: c' less_imp_le)
qed

theorem irreversible_blocks_are_confirmed_witness:
  "let c = sample_ledger\<lparr>c_miners := \<lparr>rows = [(0, sample_miner\<lparr>mo_last_confirmed_block_num := 4\<rparr>)], next_instance = 1\<rparr>\<rparr>;
       c' = c\<lparr>c_dynamic := (c_dynamic c)\<lparr>dp_last_irreversible_block_num := 4\<rparr>\<rparr>
   in update_last_irreversible_block c = Inr c' \<and> dp_last_irreversible_block_num (c_dynamic c) \<le> dp_last_irreversible_block_num (c_dynamic c')"
proof -
  let ?x = "sample_miner\<lparr>mo_last_confirmed_block_num := 4\<rparr>"
  let ?c = "sample_ledger\<lparr>c_miners := \<lparr>rows = [(0, ?x)], next_instance = 1\<rparr>\<rparr>"
  let ?c' = "?c\<lparr>c_dynamic := (c_dynamic ?c)\<lparr>dp_last_irreversible_block_num := 4\<rparr>\<rparr>"
  have ms: "map_res (\<lambda>w. tbl_get w (c_miners ?c)) (gp_active_miners (c_global ?c)) = Inr [?x]"
    by (simp add: sample_ledger_def tbl_get_def tbl_find_def)
  then have u: "update_last_irreversible_block ?c = Inr ?c'"
    by (simp add: update_last_irreversible_block_def Let_def GRAPHENE_100_PERCENT_def GRAPHENE_IRREVERSIBLE_THRESHOLD_def
        sample_miner_def sample_ledger_def sample_dynamics_def)
  then show ?thesis using irreversible_blocks_are_confirmed [OF u ms] by (simp add: Let_def)
qed

section \<open>Transactions in blocks\<close>

lemma latest_expiring_last:
  "latest_expiring xs = Some y \<Longrightarrow> y \<in> set xs \<and> (\<forall>x \<in> set xs. tr_expiration (to_trx (snd x)) \<le> tr_expiration (to_trx (snd y)))"
  "latest_expiring xs = None \<longleftrightarrow> xs = []"
proof (induction xs arbitrary: y)
  case (Cons x xs)
  {
    case 1
    then show ?case using Cons(1,2) by (fastforce split: option.splits if_splits)
  next
    case 2
    then show ?case by (simp split: option.splits)
  }
qed simp_all

lemma clear_transactions_result:
  assumes "tbl_ok (c_transactions c)" and "length (rows (c_transactions c)) \<le> n"
  shows "clear_transactions n c = Inr (if \<forall>(i, x) \<in> set (rows (c_transactions c)). tr_expiration (to_trx x) < head_block_time c
     then c\<lparr>c_transactions := (c_transactions c)\<lparr>rows := []\<rparr>\<rparr> else c)"
  using assms
proof (induction n arbitrary: c)
  case (Suc n)
  show ?case
  proof (cases "latest_expiring (rows (c_transactions c))")
    case None
    then show ?thesis by (simp add: latest_expiring_last(2))
  next
    case (Some ix)
    obtain i x where ix: "ix = (i, x)" by (cases ix)
    have x: "(i, x) \<in> set (rows (c_transactions c))"
      and last: "\<forall>(j, y) \<in> set (rows (c_transactions c)). tr_expiration (to_trx y) \<le> tr_expiration (to_trx x)"
      using latest_expiring_last(1) [OF Some] ix by auto
    show ?thesis
    proof (cases "tr_expiration (to_trx x) < head_block_time c")
      case True
      let ?rs = "filter (\<lambda>(j, w). j \<noteq> i) (rows (c_transactions c))"
      let ?c = "c\<lparr>c_transactions := (c_transactions c)\<lparr>rows := ?rs\<rparr>\<rparr>"
      have "tbl_find i (c_transactions c) = Some x" using x Suc.prems(1) by (simp add: tbl_find_iff)
      then have rem: "tbl_remove i (c_transactions c) = Inr ((c_transactions c)\<lparr>rows := ?rs\<rparr>)"
        by (simp add: tbl_remove_def tbl_get_def)
      have "length ?rs < length (rows (c_transactions c))" by (rule length_filter_less [OF x]) simp
      then have "clear_transactions n ?c = Inr (if \<forall>(j, y) \<in> set (rows (c_transactions ?c)). tr_expiration (to_trx y) < head_block_time ?c
          then ?c\<lparr>c_transactions := (c_transactions ?c)\<lparr>rows := []\<rparr>\<rparr> else ?c)"
        using Suc.prems(2) tbl_remove_ok [OF Suc.prems(1) rem] by (intro Suc.IH) auto
      moreover have "\<forall>(j, y) \<in> set (rows (c_transactions c)). tr_expiration (to_trx y) < head_block_time c"
        using last True by fastforce
      ultimately show ?thesis using Some ix True rem by auto
    qed (use Some ix x in auto)
  qed
qed simp

text \<open>The expired transactions are cleared all or not at all: the loop reads the index by expiration from its latest end,
  so it empties the list when every transaction in it has expired and leaves it alone as long as one has not.\<close>

theorem expired_transactions_all_or_nothing:
  assumes "index_ok transaction_clash (c_transactions c)"
  shows "clear_expired_transactions c = Inr (if \<forall>(i, x) \<in> set (rows (c_transactions c)). tr_expiration (to_trx x) < head_block_time c
     then c\<lparr>c_transactions := (c_transactions c)\<lparr>rows := []\<rparr>\<rparr> else c)"
  unfolding clear_expired_transactions_def by (rule clear_transactions_result [OF index_okD(1) [OF assms]]) simp

theorem expired_transactions_all_or_nothing_witness:
  "let c = sample_ledger\<lparr>c_transactions := \<lparr>rows = [(0, \<lparr>to_trx_id = 1, to_trx = sample_transaction\<lparr>tr_expiration := 900\<rparr>\<rparr>),
     (1, \<lparr>to_trx_id = 2, to_trx = sample_transaction\<rparr>)], next_instance = 2\<rparr>\<rparr> in clear_expired_transactions c = Inr c"
proof -
  let ?rs = "[(0, \<lparr>to_trx_id = 1, to_trx = sample_transaction\<lparr>tr_expiration := 900\<rparr>\<rparr>), (1, \<lparr>to_trx_id = 2, to_trx = sample_transaction\<rparr>)]"
  let ?c = "sample_ledger\<lparr>c_transactions := \<lparr>rows = ?rs, next_instance = 2\<rparr>\<rparr>"
  have "index_ok transaction_clash (c_transactions ?c)"
    by (simp add: index_ok_def tbl_ok_def transaction_clash_def)
  then show ?thesis
    using expired_transactions_all_or_nothing [of ?c]
    by (simp add: Let_def sample_transaction_def sample_ledger_def sample_dynamics_def)
qed

lemma flags_disjoint:
  "(skip OR skip_authority_check) AND skip_transaction_dupe_check = skip AND skip_transaction_dupe_check"
  "(skip OR skip_authority_check) AND skip_tapos_check = skip AND skip_tapos_check"
  "skip AND skip_transaction_signatures \<noteq> 0 \<Longrightarrow> skip AND (skip_transaction_signatures OR skip_authority_check) \<noteq> 0"
  by (simp_all add: bit.conj_disj_distrib bit.conj_disj_distrib2 or_eq_0_iff skip_authority_check_def skip_transaction_dupe_check_def
      skip_tapos_check_def)

definition unsigned_block :: block where
  "unsigned_block = sample_block\<lparr>transactions := [sample_transaction\<lparr>tr_signatures := []\<rparr>]\<rparr>"

text \<open>C27: the transactions of a block are applied without the check of their authority, whatever the flags of the
  block; the sample transfer without any signature is accepted in a block of the scheduled miner with every check on,
  and refused on its own.\<close>

theorem blocks_skip_authority:
  "apply_transactions E n (skip OR skip_transaction_signatures) ts c =
     apply_transactions E n (skip OR skip_transaction_signatures OR skip_authority_check) ts c \<and>
   ran (apply_block sample_externals sample_env 2 1 0 unsigned_block sample_ledger) \<and>
   \<not> ran (apply_transaction sample_externals 2 0 (sample_transaction\<lparr>tr_signatures := []\<rparr>) sample_ledger)"
proof -
  have "(skip OR skip_transaction_signatures) AND skip_transaction_signatures \<noteq> 0"
    by (simp add: bit.conj_disj_distrib2 or_eq_0_iff skip_transaction_signatures_def)
  moreover have "apply_transaction E n s trx c = apply_transaction E n (s OR skip_authority_check) trx c"
    if "s AND skip_transaction_signatures \<noteq> 0" for s trx c
  proof -
    have "(s OR skip_authority_check) AND skip_transaction_signatures \<noteq> 0"
      using that by (simp add: bit.conj_disj_distrib2 or_eq_0_iff)
    note on = flags_disjoint(3) [OF that] flags_disjoint(3) [OF this]
    show ?thesis unfolding apply_transaction_def check_tapos_def flags_disjoint(1,2) by (simp only: on if_False)
  qed
  ultimately have "apply_transactions E n (skip OR skip_transaction_signatures) ts c =
     apply_transactions E n (skip OR skip_transaction_signatures OR skip_authority_check) ts c"
    by (induction ts arbitrary: c) (simp, simp add: or.assoc, metis ext)
  moreover have "ran (apply_block sample_externals sample_env 2 1 0 unsigned_block sample_ledger)" by code_simp
  moreover have "\<not> ran (apply_transaction sample_externals 2 0 (sample_transaction\<lparr>tr_signatures := []\<rparr>) sample_ledger)" by code_simp
  ultimately show ?thesis by blast
qed

end
