(* ===== verification/Node.thy ===== *)
theory Node
  imports Apply_Block Block_Database Fork_Database
begin

text \<open>
  The node: the tables, their undo history, the fork database, the stored blocks and the pending
  transactions, and what \<open>db_block.cpp\<close> and \<open>db_with.hpp\<close> do with them: pushing and popping
  blocks, switching forks, pushing transactions and generating blocks.

  The undo history is the stack of snapshots that theory \<open>Undo_Database\<close> is proved to implement,
  newest first, with recording on.  The sessions that the execution of a proposal opens inside a
  block or a transaction are merged or undone before it ends, and \<open>apply_block\<close> and \<open>apply_transaction\<close>
  keep only what they do to the tables; the oldest snapshot that such a session drops when the
  history is longer than its maximum is kept here until the next session.  A step keeps the state reached at an exception, \<^const>\<open>None\<close> is
  fuel used up, and undefined behaviour is not caught.  Observers are left out.
\<close>

record node =
  nd_chain :: chain
  nd_undo :: "chain list"
  nd_undo_max :: nat
  nd_forks :: "block fork_database"
  nd_blocks :: block_database
  nd_session :: bool
  nd_pending :: "signed_transaction list"
  nd_popped :: "signed_transaction list"

record node_env =
  ne_ext :: externals
  ne_block :: block_env
  ne_codec :: "block block_codec"
  ne_ops_fuel :: nat
  ne_proposals_fuel :: nat
  ne_tx_size :: "signed_transaction \<Rightarrow> nat"
  ne_result_size :: "chain \<Rightarrow> signed_transaction \<Rightarrow> nat"
  ne_block_size :: "block \<Rightarrow> nat"
  ne_header_size :: nat
  ne_public_key :: "nat \<Rightarrow> public_key"
  ne_sign :: "nat \<Rightarrow> block \<Rightarrow> 8 word list"
  ne_no_signature :: "8 word list"

definition skip_fork_db :: "32 word" where "skip_fork_db = push_bit 3 1"

type_synonym 'a step = "node \<Rightarrow> ('a res \<times> node) option"

section \<open>Steps\<close>

definition nd_return :: "'a \<Rightarrow> 'a step" where "nd_return x nd = Some (Inr x, nd)"
definition nd_throw :: "error \<Rightarrow> 'a step" where "nd_throw e nd = Some (Inl e, nd)"
definition nd_lift :: "(node \<Rightarrow> 'a res) \<Rightarrow> 'a step" where "nd_lift f nd = Some (f nd, nd)"
definition nd_update :: "(node \<Rightarrow> node) \<Rightarrow> unit step" where "nd_update f nd = Some (Inr (), f nd)"

definition nd_bind :: "'a step \<Rightarrow> ('a \<Rightarrow> 'b step) \<Rightarrow> 'b step" where
  "nd_bind m f nd =
     (case m nd of None \<Rightarrow> None | Some (Inl e, nd1) \<Rightarrow> Some (Inl e, nd1) | Some (Inr x, nd1) \<Rightarrow> f x nd1)"

definition nd_catch :: "'a step \<Rightarrow> (error \<Rightarrow> 'a step) \<Rightarrow> 'a step" where
  \<comment> \<open>\<open>catch(const fc::exception &)\<close>\<close>
  "nd_catch m h nd =
     (case m nd of
        None \<Rightarrow> None
      | Some (Inr x, nd1) \<Rightarrow> Some (Inr x, nd1)
      | Some (Inl e, nd1) \<Rightarrow> if e = Undefined_Behaviour then Some (Inl e, nd1) else h e nd1)"

definition nd_finally :: "'a step \<Rightarrow> unit step \<Rightarrow> 'a step" where
  \<comment> \<open>a destructor that runs whether \<open>m\<close> returns or throws\<close>
  "nd_finally m d = nd_bind (nd_catch (nd_bind m (\<lambda>x. nd_return (Inr x))) (\<lambda>e. nd_return (Inl e))) (\<lambda>r.
     nd_bind d (\<lambda>_. nd_lift (\<lambda>_. r)))"

fun nd_for :: "('a \<Rightarrow> unit step) \<Rightarrow> 'a list \<Rightarrow> unit step" where
  "nd_for f [] = nd_return ()"
| "nd_for f (x # xs) = nd_bind (f x) (\<lambda>_. nd_for f xs)"

definition on_forks :: "(block fork_database, 'a) st \<Rightarrow> 'a step" where
  "on_forks m nd = (case m (nd_forks nd) of (r, fd) \<Rightarrow> Some (r, nd\<lparr>nd_forks := fd\<rparr>))"

definition on_blocks :: "(block_database, 'a) st \<Rightarrow> 'a step" where
  "on_blocks m nd = (case m (nd_blocks nd) of (r, bs) \<Rightarrow> Some (r, nd\<lparr>nd_blocks := bs\<rparr>))"

section \<open>Sessions\<close>

definition start_session :: "unit step" where
  "start_session = nd_update (\<lambda>nd. nd\<lparr>nd_undo := nd_chain nd # take (nd_undo_max nd) (nd_undo nd)\<rparr>)"

definition undo_session :: "unit step" where
  "undo_session nd =
     (case nd_undo nd of
        [] \<Rightarrow> Some (Inl Undefined_Behaviour, nd)
      | c # cs \<Rightarrow> Some (Inr (), nd\<lparr>nd_chain := c, nd_undo := (if cs = [] then [c] else cs)\<rparr>))"

definition merge_session :: "unit step" where
  "merge_session nd =
     (if 2 \<le> length (nd_undo nd) then Some (Inr (), nd\<lparr>nd_undo := tl (nd_undo nd)\<rparr>)
      else Some (Inl Assert_Exception, nd))"

definition end_session :: "unit step" where
  \<comment> \<open>\<open>merge( )\<close>, with the destructor behind it when it throws\<close>
  "end_session = nd_catch merge_session (\<lambda>e. nd_bind undo_session (\<lambda>_. nd_throw e))"

definition pop_undo :: "unit step" where
  "pop_undo nd =
     (case nd_undo nd of
        [] \<Rightarrow> Some (Inl Assert_Exception, nd)
      | c # cs \<Rightarrow> Some (Inr (), nd\<lparr>nd_chain := c, nd_undo := cs\<rparr>))"

definition reset_session :: "unit step" where
  \<comment> \<open>\<open>_pending_tx_session.reset( )\<close>\<close>
  "reset_session nd =
     (if nd_session nd then nd_bind undo_session (\<lambda>_. nd_update (\<lambda>nd. nd\<lparr>nd_session := False\<rparr>)) nd
      else Some (Inr (), nd))"

section \<open>Looking at blocks\<close>

definition view_of :: "node_env \<Rightarrow> block block_view" where
  "view_of N = \<lparr>bv_num = number_of_block (ne_block N), bv_id = id_of_block (ne_block N), bv_previous = previous\<rparr>"

abbreviation head_block_id :: "node \<Rightarrow> block_id" where
  "head_block_id nd \<equiv> dp_head_block_id (c_dynamic (nd_chain nd))"

definition db_is_known_block :: "node_env \<Rightarrow> block_id \<Rightarrow> node \<Rightarrow> bool" where
  "db_is_known_block N i nd \<longleftrightarrow> is_known_block i (nd_forks nd) \<or> bdb_contains (ne_codec N) i (nd_blocks nd)"

definition is_known_transaction :: "nat \<Rightarrow> chain \<Rightarrow> bool" where
  "is_known_transaction i c \<longleftrightarrow> (\<exists>(k, t) \<in> set (rows (c_transactions c)). to_trx_id t = i)"

definition get_block_id_for_num :: "32 word \<Rightarrow> node \<Rightarrow> block_id res" where
  "get_block_id_for_num n nd = bdb_fetch_block_id n (nd_blocks nd)"

definition fetch_block_by_id :: "node_env \<Rightarrow> block_id \<Rightarrow> node \<Rightarrow> block option" where
  "fetch_block_by_id N i nd =
     (case fork_fetch_block i (nd_forks nd) of
        None \<Rightarrow> bdb_fetch_optional (ne_codec N) i (nd_blocks nd)
      | Some a \<Rightarrow> Some (fi_data (item (nd_forks nd) a)))"

definition db_fetch_block_by_number :: "node_env \<Rightarrow> 32 word \<Rightarrow> node \<Rightarrow> block option" where
  "db_fetch_block_by_number N n nd =
     (case fetch_block_by_number n (nd_forks nd) of
        [a] \<Rightarrow> Some (fi_data (item (nd_forks nd) a))
      | _ \<Rightarrow> bdb_fetch_by_number (ne_codec N) n (nd_blocks nd))"

definition get_recent_transaction :: "nat \<Rightarrow> chain \<Rightarrow> signed_transaction res" where
  "get_recent_transaction i c =
     (case find (\<lambda>(k, t). to_trx_id t = i) (rows (c_transactions c)) of
        None \<Rightarrow> Inl Assert_Exception
      | Some (k, t) \<Rightarrow> Inr (to_trx t))"

definition get_block_ids_on_fork :: "node_env \<Rightarrow> block_id \<Rightarrow> node \<Rightarrow> block_id list res option" where
  "get_block_ids_on_fork N head_of_fork nd =
     (let fd = nd_forks nd
      in case fetch_branch_from (view_of N) (head_block_id nd) head_of_fork fd of
           None \<Rightarrow> None
         | Some (Inl e) \<Rightarrow> Some (Inl e)
         | Some (Inr (xs, ys)) \<Rightarrow>
             Some (Inr (map (\<lambda>a. fi_id (item fd a)) ys @ [previous_id (view_of N) (item fd (last xs))])))"

section \<open>Blocks\<close>

definition new_history_size :: "node_env \<Rightarrow> 32 word \<Rightarrow> block \<Rightarrow> chain \<Rightarrow> 32 word option" where
  \<comment> \<open>the size given to the two databases, if applying the block gets that far\<close>
  "new_history_size N skip b c =
     (let B = ne_block N
      in case run_bind (Some (checkpoint_flags B skip b)) (\<lambda>flags.
              run_bind (Some (res_bind (fc_assert (flags AND skip_merkle_check \<noteq> 0 \<or> transaction_merkle_root b = block_root B b))
                (\<lambda>_. validate_block_header B flags b c))) (\<lambda>_.
              run_bind (apply_transactions (ne_ext N) (ne_ops_fuel N) (flags OR skip_transaction_signatures) (transactions b) c) (\<lambda>c1.
              Some (update_global_dynamic_data B flags b c1)))) of
           Some (Inr c2) \<Rightarrow> Some (history_size c2)
         | _ \<Rightarrow> None)"

definition db_apply_block :: "node_env \<Rightarrow> 32 word \<Rightarrow> block \<Rightarrow> unit step" where
  \<comment> \<open>\<open>apply_block\<close> with the sizes it sets; a session around it restores the tables after an exception\<close>
  "db_apply_block N skip b nd =
     (let nd1 = (case new_history_size N skip b (nd_chain nd) of
                   None \<Rightarrow> nd
                 | Some s \<Rightarrow> nd\<lparr>nd_undo_max := unat s, nd_forks := fork_set_max_size s (nd_forks nd)\<rparr>)
      in case apply_block (ne_ext N) (ne_block N) (ne_ops_fuel N) (ne_proposals_fuel N) skip b (nd_chain nd) of
           None \<Rightarrow> None
         | Some (Inl e) \<Rightarrow> Some (Inl e, nd1)
         | Some (Inr c) \<Rightarrow> Some (Inr (), nd1\<lparr>nd_chain := c\<rparr>))"

definition push_in_session :: "node_env \<Rightarrow> 32 word \<Rightarrow> block_id \<Rightarrow> block \<Rightarrow> unit step" where
  \<comment> \<open>a session, \<open>apply_block\<close>, the block stored under \<open>i\<close>, and the commit\<close>
  "push_in_session N skip i b =
     nd_bind start_session (\<lambda>_.
     nd_bind (nd_catch (db_apply_block N skip b) (\<lambda>e. nd_bind undo_session (\<lambda>_. nd_throw e))) (\<lambda>_.
     nd_update (\<lambda>nd. nd\<lparr>nd_blocks := bdb_store (ne_codec N) i b (nd_blocks nd)\<rparr>)))"

definition pop_block :: "node_env \<Rightarrow> unit step" where
  "pop_block N =
     nd_bind reset_session (\<lambda>_.
     nd_bind (nd_lift (\<lambda>nd. Inr (head_block_id nd))) (\<lambda>head_id.
     nd_bind (nd_lift (\<lambda>nd. of_option Pop_Empty_Chain (fetch_block_by_id N head_id nd))) (\<lambda>head_block.
     nd_bind (on_forks fork_pop_block) (\<lambda>_.
     nd_bind (on_blocks (bdb_remove (ne_codec N) head_id)) (\<lambda>_.
     nd_bind pop_undo (\<lambda>_.
     nd_update (\<lambda>nd. nd\<lparr>nd_popped := transactions head_block @ nd_popped nd\<rparr>)))))))"

primrec pop_until :: "node_env \<Rightarrow> block_id \<Rightarrow> nat \<Rightarrow> unit step" where
  \<comment> \<open>\<open>while(head_block_id( ) != target) pop_block( )\<close>, at most as many rounds as there are states to go back to\<close>
  "pop_until N target 0 nd = None"
| "pop_until N target (Suc k) nd =
     (if head_block_id nd = target then Some (Inr (), nd) else nd_bind (pop_block N) (\<lambda>_. pop_until N target k) nd)"

definition pop_to :: "node_env \<Rightarrow> block_id \<Rightarrow> unit step" where
  "pop_to N target nd = pop_until N target (Suc (length (nd_undo nd))) nd"

section \<open>Switching forks\<close>

definition forget_blocks :: "node_env \<Rightarrow> nat list \<Rightarrow> unit step" where
  \<comment> \<open>remove the rest of the branch from the fork database\<close>
  "forget_blocks N as =
     nd_for (\<lambda>a. nd_update (\<lambda>nd. nd\<lparr>nd_forks := fork_remove (bv_id (view_of N) (fi_data (item (nd_forks nd) a))) (nd_forks nd)\<rparr>)) as"

definition restore_branch :: "node_env \<Rightarrow> 32 word \<Rightarrow> block_id \<Rightarrow> nat list \<Rightarrow> unit step" where
  \<comment> \<open>the blocks of the good fork again, each stored under the identifier of the new block\<close>
  "restore_branch N skip new_id second =
     nd_for (\<lambda>a. nd_bind (nd_lift (\<lambda>nd. Inr (fi_data (item (nd_forks nd) a)))) (\<lambda>b. push_in_session N skip new_id b)) (rev second)"

fun push_branch :: "node_env \<Rightarrow> 32 word \<Rightarrow> block_id \<Rightarrow> block_id \<Rightarrow> nat list \<Rightarrow> nat list \<Rightarrow> unit step" where
  \<comment> \<open>the blocks of the new fork from the common ancestor up\<close>
  "push_branch N skip new_id ancestor second [] = nd_return ()"
| "push_branch N skip new_id ancestor second (a # as) =
     nd_bind (nd_lift (\<lambda>nd. Inr (item (nd_forks nd) a))) (\<lambda>it.
     nd_bind (nd_catch (push_in_session N skip (fi_id it) (fi_data it)) (\<lambda>e.
       nd_bind (forget_blocks N (a # as)) (\<lambda>_.
       nd_bind (nd_update (\<lambda>nd. nd\<lparr>nd_forks := set_head (hd second) (nd_forks nd)\<rparr>)) (\<lambda>_.
       nd_bind (pop_to N ancestor) (\<lambda>_.
       nd_bind (restore_branch N skip new_id second) (\<lambda>_.
       nd_throw e)))))) (\<lambda>_.
     push_branch N skip new_id ancestor second as))"

definition switch_fork :: "node_env \<Rightarrow> 32 word \<Rightarrow> block \<Rightarrow> nat \<Rightarrow> bool step" where
  "switch_fork N skip new_block new_head nd =
     (let fd = nd_forks nd
      in case fetch_branch_from (view_of N) (bv_id (view_of N) (fi_data (item fd new_head))) (head_block_id nd) fd of
           None \<Rightarrow> None
         | Some (Inl e) \<Rightarrow> Some (Inl e, nd)
         | Some (Inr (first, second)) \<Rightarrow>
             let ancestor = previous (fi_data (item fd (last second)))
             in nd_bind (pop_to N ancestor) (\<lambda>_.
                nd_bind (push_branch N skip (bv_id (view_of N) new_block) ancestor second (rev first)) (\<lambda>_.
                nd_return True)) nd)"

definition append_block :: "node_env \<Rightarrow> 32 word \<Rightarrow> block \<Rightarrow> bool step" where
  \<comment> \<open>the block on the head, then the session around the observers\<close>
  "append_block N skip b =
     nd_bind (nd_catch (push_in_session N skip (bv_id (view_of N) b) b) (\<lambda>e.
       nd_bind (nd_update (\<lambda>nd. nd\<lparr>nd_forks := fork_remove (bv_id (view_of N) b) (nd_forks nd)\<rparr>)) (\<lambda>_. nd_throw e))) (\<lambda>_.
     nd_bind start_session (\<lambda>_.
     nd_bind end_session (\<lambda>_.
     nd_return False)))"

definition push_block_alone :: "node_env \<Rightarrow> 32 word \<Rightarrow> block \<Rightarrow> bool step" where
  \<comment> \<open>\<open>_push_block\<close>\<close>
  "push_block_alone N skip b =
     (if skip AND skip_fork_db \<noteq> 0 then append_block N skip b
      else nd_bind (on_forks (fork_push_block (view_of N) b)) (\<lambda>h nd.
        case h of
          None \<Rightarrow> Some (Inl Undefined_Behaviour, nd)
        | Some a \<Rightarrow>
            let new_head = fi_data (item (nd_forks nd) a)
            in if previous new_head = head_block_id nd then append_block N skip b nd
               else if bv_num (view_of N) new_head > head_block_num (nd_chain nd) then switch_fork N skip b a nd
               else Some (Inr False, nd)))"

section \<open>Pending transactions\<close>

definition push_pending :: "node_env \<Rightarrow> 32 word \<Rightarrow> signed_transaction \<Rightarrow> unit step" where
  \<comment> \<open>a transaction in a session of its own, merged into the one below when it applies\<close>
  "push_pending N skip trx =
     nd_bind start_session (\<lambda>_ nd.
     case apply_transaction (ne_ext N) (ne_ops_fuel N) skip trx (nd_chain nd) of
       None \<Rightarrow> None
     | Some (Inl e) \<Rightarrow> if e = Undefined_Behaviour then Some (Inl e, nd) else nd_bind undo_session (\<lambda>_. nd_throw e) nd
     | Some (Inr c) \<Rightarrow> Some (Inr (), nd\<lparr>nd_chain := c\<rparr>))"

definition push_transaction :: "node_env \<Rightarrow> 32 word \<Rightarrow> signed_transaction \<Rightarrow> unit step" where
  "push_transaction N skip trx =
     nd_bind (\<lambda>nd. if nd_session nd then Some (Inr (), nd)
                   else nd_bind start_session (\<lambda>_. nd_update (\<lambda>nd. nd\<lparr>nd_session := True\<rparr>)) nd) (\<lambda>_.
     nd_bind (push_pending N skip trx) (\<lambda>_.
     nd_bind (nd_update (\<lambda>nd. nd\<lparr>nd_pending := nd_pending nd @ [trx]\<rparr>)) (\<lambda>_.
     end_session)))"

definition validate_transaction :: "node_env \<Rightarrow> 32 word \<Rightarrow> signed_transaction \<Rightarrow> unit step" where
  \<comment> \<open>applied in a session that is always undone\<close>
  "validate_transaction N skip trx =
     nd_bind start_session (\<lambda>_ nd.
     case apply_transaction (ne_ext N) (ne_ops_fuel N) skip trx (nd_chain nd) of
       None \<Rightarrow> None
     | Some r \<Rightarrow>
         if r = Inl Undefined_Behaviour then Some (Inl Undefined_Behaviour, nd)
         else nd_bind undo_session (\<lambda>_. nd_lift (\<lambda>_. res_bind r (\<lambda>_. Inr ()))) nd)"

definition push_again :: "node_env \<Rightarrow> 32 word \<Rightarrow> signed_transaction \<Rightarrow> unit step" where
  \<comment> \<open>a pending transaction after the head has changed; one that fails is dropped\<close>
  "push_again N skip trx nd =
     (if is_known_transaction (trx_id (ne_ext N) (transaction.truncate trx)) (nd_chain nd) then Some (Inr (), nd)
      else nd_catch (push_transaction N skip trx) (\<lambda>_. nd_return ()) nd)"

definition clear_pending :: "unit step" where
  "clear_pending = nd_bind (nd_update (\<lambda>nd. nd\<lparr>nd_pending := []\<rparr>)) (\<lambda>_. reset_session)"

definition without_pending_transactions :: "node_env \<Rightarrow> 32 word \<Rightarrow> 'a step \<Rightarrow> 'a step" where
  "without_pending_transactions N skip m nd =
     nd_bind clear_pending (\<lambda>_.
     nd_finally m
       (nd_bind (\<lambda>nd1. nd_for (push_again N skip) (nd_popped nd1) nd1) (\<lambda>_.
        nd_bind (nd_update (\<lambda>nd1. nd1\<lparr>nd_popped := []\<rparr>)) (\<lambda>_.
        nd_for (push_again N skip) (nd_pending nd))))) nd"

definition push_block :: "node_env \<Rightarrow> 32 word \<Rightarrow> block \<Rightarrow> bool step" where
  "push_block N skip b = without_pending_transactions N skip (push_block_alone N skip b)"

section \<open>Generating blocks\<close>

fun choose_transactions :: "node_env \<Rightarrow> 32 word \<Rightarrow> nat \<Rightarrow> nat \<Rightarrow> signed_transaction list \<Rightarrow> signed_transaction list step" where
  \<comment> \<open>the pending transactions that fit and still apply, in order\<close>
  "choose_transactions N skip limit used [] = nd_return []"
| "choose_transactions N skip limit used (tx # txs) =
     (if used + ne_tx_size N tx \<ge> limit then choose_transactions N skip limit used txs
      else nd_bind (nd_catch (nd_bind (push_pending N skip tx) (\<lambda>_. nd_bind end_session (\<lambda>_. nd_return True))) (\<lambda>_. nd_return False)) (\<lambda>applied.
           if applied
           then nd_bind (nd_lift (\<lambda>nd. Inr (used + ne_result_size N (nd_chain nd) tx))) (\<lambda>used'.
                nd_bind (choose_transactions N skip limit used' txs) (\<lambda>chosen. nd_return (tx # chosen)))
           else choose_transactions N skip limit used txs))"

definition may_produce :: "node_env \<Rightarrow> 32 word \<Rightarrow> time \<Rightarrow> object_id \<Rightarrow> nat \<Rightarrow> chain \<Rightarrow> unit res" where
  \<comment> \<open>the miner is scheduled at that time, and the key is its own\<close>
  "may_produce N skip when miner_id key c =
     res_bind (get_slot_at_time when c) (\<lambda>slot_num.
     res_bind (fc_assert (slot_num > 0)) (\<lambda>_.
     res_bind (get_scheduled_miner slot_num c) (\<lambda>scheduled_miner.
     res_bind (fc_assert (scheduled_miner = unat (instance_of miner_id))) (\<lambda>_.
     res_bind (tbl_get (unat (instance_of miner_id)) (c_miners c)) (\<lambda>m.
     if skip AND skip_miner_signature = 0 then fc_assert (mo_signing_key m = ne_public_key N key) else Inr ())))))"

definition assemble_block :: "node_env \<Rightarrow> 32 word \<Rightarrow> time \<Rightarrow> object_id \<Rightarrow> nat \<Rightarrow> signed_transaction list \<Rightarrow> node \<Rightarrow> block" where
  "assemble_block N skip when miner_id key txs nd =
     (let b0 = \<lparr>previous = head_block_id nd, timestamp = when, miner = miner_id, transaction_merkle_root = zero_hash, extensions = [],
            block_number = 0, miner_signature = ne_no_signature N, transactions = txs\<rparr>;
          b1 = b0\<lparr>block_number := number_of_block (ne_block N) b0, transaction_merkle_root := block_root (ne_block N) b0\<rparr>
      in if skip AND skip_miner_signature = 0 then b1\<lparr>miner_signature := ne_sign N key b1\<rparr> else b1)"

definition generate_block :: "node_env \<Rightarrow> 32 word \<Rightarrow> time \<Rightarrow> object_id \<Rightarrow> nat \<Rightarrow> block step" where
  "generate_block N skip when miner_id key =
     nd_bind (nd_lift (\<lambda>nd. may_produce N skip when miner_id key (nd_chain nd))) (\<lambda>_.
     nd_bind (nd_lift (\<lambda>nd. Inr (unat (maximum_block_size (gp_parameters (c_global (nd_chain nd))))))) (\<lambda>maximum_size.
     nd_bind reset_session (\<lambda>_.
     nd_bind start_session (\<lambda>_.
     nd_bind (nd_update (\<lambda>nd. nd\<lparr>nd_session := True\<rparr>)) (\<lambda>_.
     nd_bind (\<lambda>nd. choose_transactions N skip maximum_size (ne_header_size N) (nd_pending nd) nd) (\<lambda>txs.
     nd_bind reset_session (\<lambda>_.
     nd_bind (nd_lift (\<lambda>nd. Inr (assemble_block N skip when miner_id key txs nd))) (\<lambda>b.
     nd_bind (nd_lift (\<lambda>nd. if skip AND skip_block_size_check = 0
         then fc_assert (ne_block_size N b \<le> unat (maximum_block_size (gp_parameters (c_global (nd_chain nd))))) else Inr ())) (\<lambda>_.
     nd_bind (push_block N skip b) (\<lambda>_.
     nd_return b))))))))))"

end
