(* ===== verification/Node_Steps.thy ===== *)
theory Node_Steps
  imports Node
begin

text \<open>
  What a step of the node has done when it returns: lemmas on sessions, on applying and popping
  blocks, and on the loops of a fork switch.
\<close>

section \<open>Steps\<close>

named_theorems nd_simps \<open>the results of steps\<close>

lemma nd_basic [simp, nd_simps]:
  "nd_return x nd = Some (r, nd') \<longleftrightarrow> r = Inr x \<and> nd' = nd"
  "nd_throw e nd = Some (r, nd') \<longleftrightarrow> r = Inl e \<and> nd' = nd"
  "nd_lift f nd = Some (r, nd') \<longleftrightarrow> r = f nd \<and> nd' = nd"
  "nd_update g nd = Some (q, nd') \<longleftrightarrow> q = Inr () \<and> nd' = g nd"
  by (auto simp: nd_return_def nd_throw_def nd_lift_def nd_update_def)

lemma nd_bind_Inr [nd_simps]:
  "nd_bind m f nd = Some (Inr y, nd') \<longleftrightarrow> (\<exists>x nd1. m nd = Some (Inr x, nd1) \<and> f x nd1 = Some (Inr y, nd'))"
  by (auto simp: nd_bind_def split: option.splits sum.splits)

lemma nd_bind_Inl [nd_simps]:
  "nd_bind m f nd = Some (Inl e, nd') \<longleftrightarrow>
    m nd = Some (Inl e, nd') \<or> (\<exists>x nd1. m nd = Some (Inr x, nd1) \<and> f x nd1 = Some (Inl e, nd'))"
  by (auto simp: nd_bind_def split: option.splits sum.splits)

lemma nd_catch_Inr [nd_simps]:
  "nd_catch m h nd = Some (Inr x, nd') \<longleftrightarrow>
    m nd = Some (Inr x, nd') \<or> (\<exists>e nd1. m nd = Some (Inl e, nd1) \<and> e \<noteq> Undefined_Behaviour \<and> h e nd1 = Some (Inr x, nd'))"
  by (auto simp: nd_catch_def split: option.splits sum.splits if_splits)

lemma nd_catch_Inl [nd_simps]:
  "nd_catch m h nd = Some (Inl e, nd') \<longleftrightarrow>
    e = Undefined_Behaviour \<and> m nd = Some (Inl e, nd') \<or>
    (\<exists>e1 nd1. m nd = Some (Inl e1, nd1) \<and> e1 \<noteq> Undefined_Behaviour \<and> h e1 nd1 = Some (Inl e, nd'))"
  by (auto simp: nd_catch_def split: option.splits sum.splits if_splits)

lemma start_session_eq [simp, nd_simps]:
  "start_session nd = Some (r, nd') \<longleftrightarrow> r = Inr () \<and> nd' = nd\<lparr>nd_undo := nd_chain nd # take (nd_undo_max nd) (nd_undo nd)\<rparr>"
  by (auto simp: start_session_def)

lemma undo_session_eq [nd_simps]:
  "undo_session nd = Some (r, nd') \<longleftrightarrow>
    (case nd_undo nd of [] \<Rightarrow> r = Inl Undefined_Behaviour \<and> nd' = nd
     | c # cs \<Rightarrow> r = Inr () \<and> nd' = nd\<lparr>nd_chain := c, nd_undo := (if cs = [] then [c] else cs)\<rparr>)"
  by (auto simp: undo_session_def split: list.splits)

lemma merge_session_eq [nd_simps]:
  "merge_session nd = Some (r, nd') \<longleftrightarrow>
    (if 2 \<le> length (nd_undo nd) then r = Inr () \<and> nd' = nd\<lparr>nd_undo := tl (nd_undo nd)\<rparr>
     else r = Inl Assert_Exception \<and> nd' = nd)"
  by (auto simp: merge_session_def)

lemma end_session_Inr: "end_session nd = Some (Inr (), nd') \<longleftrightarrow> 2 \<le> length (nd_undo nd) \<and> nd' = nd\<lparr>nd_undo := tl (nd_undo nd)\<rparr>"
  by (auto simp: end_session_def nd_simps split: if_splits)

lemma db_apply_block_Inr:
  assumes "db_apply_block N skip b nd = Some (Inr (), nd')"
  shows "apply_block (ne_ext N) (ne_block N) (ne_ops_fuel N) (ne_proposals_fuel N) skip b (nd_chain nd) = Some (Inr (nd_chain nd'))"
    and "nd_undo nd' = nd_undo nd" and "items (nd_forks nd') = items (nd_forks nd)" and "nd_session nd' = nd_session nd"
    and "nd_pending nd' = nd_pending nd"
  using assms by (auto simp: db_apply_block_def Let_def fork_set_max_size_def split: option.splits sum.splits)

lemma push_in_session_Inr:
  assumes "push_in_session N skip i b nd = Some (Inr (), nd')"
  shows "apply_block (ne_ext N) (ne_block N) (ne_ops_fuel N) (ne_proposals_fuel N) skip b (nd_chain nd) = Some (Inr (nd_chain nd'))"
    and "nd_undo nd' = nd_chain nd # take (nd_undo_max nd) (nd_undo nd)" and "items (nd_forks nd') = items (nd_forks nd)"
    and "nd_session nd' = nd_session nd"
  using assms db_apply_block_Inr by (fastforce simp: push_in_session_def nd_simps)+

section \<open>Popping\<close>

definition base :: "node \<Rightarrow> node" where
  \<comment> \<open>the node without its pending session\<close>
  "base nd =
     (if nd_session nd
      then nd\<lparr>nd_chain := hd (nd_undo nd), nd_undo := (if tl (nd_undo nd) = [] then [hd (nd_undo nd)] else tl (nd_undo nd)), nd_session := False\<rparr>
      else nd)"

lemma reset_session_Inr: "reset_session nd = Some (Inr (), nd') \<Longrightarrow> nd' = base nd \<and> (nd_session nd \<longrightarrow> nd_undo nd \<noteq> [])"
  by (cases "nd_undo nd") (auto simp: reset_session_def base_def nd_simps split: if_splits)

lemma base_simps [simp]:
  "nd_forks (base nd) = nd_forks nd" "\<not> nd_session (base nd)" "nd_pending (base nd) = nd_pending nd" "\<not> nd_session nd \<Longrightarrow> base nd = nd"
  "nd_undo_max (base nd) = nd_undo_max nd" "nd_popped (base nd) = nd_popped nd"
  by (simp_all add: base_def)

lemma on_forks_eq [nd_simps]: "on_forks m nd = Some (r, nd') \<longleftrightarrow> (\<exists>fd. m (nd_forks nd) = (r, fd) \<and> nd' = nd\<lparr>nd_forks := fd\<rparr>)"
  by (auto simp: on_forks_def split: prod.splits)

lemma on_blocks_eq [nd_simps]: "on_blocks m nd = Some (r, nd') \<longleftrightarrow> (\<exists>bs. m (nd_blocks nd) = (r, bs) \<and> nd' = nd\<lparr>nd_blocks := bs\<rparr>)"
  by (auto simp: on_blocks_def split: prod.splits)

lemma pop_undo_Inr:
  assumes "pop_undo nd = Some (Inr (), nd')"
  obtains c cs where "nd_undo nd = c # cs" and "nd' = nd\<lparr>nd_chain := c, nd_undo := cs\<rparr>"
  using assms by (auto simp: pop_undo_def split: list.splits)

lemma fork_pop_block_Inr: "fork_pop_block fd = (Inr (), fd') \<Longrightarrow> items fd' = items fd"
  by (auto simp: fork_pop_block_def split: option.splits)

lemma pop_block_Inr:
  assumes "pop_block N nd = Some (Inr (), nd')"
  obtains c cs where "nd_undo (base nd) = c # cs" and "nd_chain nd' = c" and "nd_undo nd' = cs"
    and "items (nd_forks nd') = items (nd_forks nd)" and "\<not> nd_session nd'" and "nd_session nd \<longrightarrow> nd_undo nd \<noteq> []"
proof -
  obtain nd1 fd bs nd2 ts where r: "reset_session nd = Some (Inr (), nd1)" and f: "fork_pop_block (nd_forks nd1) = (Inr (), fd)"
    and u: "pop_undo (nd1\<lparr>nd_forks := fd, nd_blocks := bs\<rparr>) = Some (Inr (), nd2)" and nd': "nd' = nd2\<lparr>nd_popped := ts\<rparr>"
    using assms by (auto simp: pop_block_def nd_bind_Inr on_forks_eq on_blocks_eq)
  note r = reset_session_Inr [OF r]
  from u show thesis
    by (rule pop_undo_Inr) (use r fork_pop_block_Inr [OF f] nd' in \<open>auto intro: that\<close>)
qed

section \<open>Switching forks\<close>

primrec apply_blocks :: "node_env \<Rightarrow> 32 word \<Rightarrow> block list \<Rightarrow> chain \<Rightarrow> chain run" where
  "apply_blocks N skip [] c = Some (Inr c)"
| "apply_blocks N skip (b # bs) c =
     run_bind (apply_block (ne_ext N) (ne_block N) (ne_ops_fuel N) (ne_proposals_fuel N) skip b c) (apply_blocks N skip bs)"

lemma push_branch_Inr:
  "push_branch N skip i anc second as nd = Some (Inr (), nd') \<Longrightarrow> items (nd_forks nd) = is \<Longrightarrow>
    apply_blocks N skip (map (\<lambda>a. fi_data (is ! a)) as) (nd_chain nd) = Some (Inr (nd_chain nd'))"
proof (induction as arbitrary: nd)
  case (Cons a as)
  obtain nd1 where p: "push_in_session N skip (fi_id (is ! a)) (fi_data (is ! a)) nd = Some (Inr (), nd1)"
    and rest: "push_branch N skip i anc second as nd1 = Some (Inr (), nd')"
    using Cons.prems by (auto simp: nd_bind_Inr nd_catch_Inr)
  note p = push_in_session_Inr [OF p]
  show ?case using Cons.IH [OF rest] p Cons.prems(2) by (simp add: run_bind_eq_Inr)
qed simp

lemma pop_until_Inr:
  "pop_until N target k nd = Some (Inr (), nd') \<Longrightarrow>
    head_block_id nd' = target \<and> nd_chain nd' \<in> set (nd_chain nd # nd_undo nd) \<and> items (nd_forks nd') = items (nd_forks nd)"
proof (induction k arbitrary: nd)
  case (Suc k)
  show ?case
  proof (cases "head_block_id nd = target")
    case False
    then obtain nd1 where p: "pop_block N nd = Some (Inr (), nd1)" and rest: "pop_until N target k nd1 = Some (Inr (), nd')"
      using Suc.prems by (auto simp: nd_bind_Inr)
    have "set (nd_chain nd1 # nd_undo nd1) \<subseteq> set (nd_chain nd # nd_undo nd) \<and> items (nd_forks nd1) = items (nd_forks nd)"
      using p
    proof (rule pop_block_Inr)
      fix c cs assume "nd_undo (base nd) = c # cs" and "nd_chain nd1 = c" "nd_undo nd1 = cs" "items (nd_forks nd1) = items (nd_forks nd)"
        and "nd_session nd \<longrightarrow> nd_undo nd \<noteq> []"
      then show ?thesis by (cases "nd_undo nd") (auto simp: base_def split: if_splits)
    qed
    then show ?thesis using Suc.IH [OF rest] by auto
  qed (use Suc.prems in auto)
qed simp

end
