(* ===== verification/Sample_Node.thy ===== *)
theory Sample_Node
  imports Node_Steps Sample_Block
begin

text \<open>
  Nodes around the sample chain and block, for the examples of the properties of the node: one with
  its head in the fork database, and one whose head is on another branch.
\<close>

definition sample_node_env :: node_env where
  "sample_node_env =
     \<lparr>ne_ext = sample_externals, ne_block = sample_env,
      ne_codec = \<lparr>id_of = id_of_block sample_env, num_of = hash_word0, pack = (\<lambda>_. [1]), unpack = (\<lambda>_. Inl Parse_Error)\<rparr>,
      ne_ops_fuel = 2, ne_proposals_fuel = 1, ne_tx_size = (\<lambda>_. 100), ne_result_size = (\<lambda>_ _. 100), ne_block_size = (\<lambda>_. 300),
      ne_header_size = 200, ne_public_key = (\<lambda>k. k), ne_sign = (\<lambda>_ _. []), ne_no_signature = []\<rparr>"

definition parent_id :: block_id where "parent_id = Hash160 0 1 0 0 0"

definition child_block :: block where "child_block = sample_block\<lparr>previous := parent_id\<rparr>"

definition parent_item :: "block fork_item" where
  "parent_item = \<lparr>fi_prev = None, fi_num = 0, fi_invalid = False, fi_id = parent_id, fi_data = sample_block\<rparr>"

definition sample_node :: node where
  \<comment> \<open>the head is in the fork database, and maintenance is not due\<close>
  "sample_node =
     \<lparr>nd_chain = sample_ledger\<lparr>c_dynamic := (c_dynamic sample_ledger)\<lparr>dp_head_block_id := parent_id, dp_next_maintenance_time := 5000\<rparr>\<rparr>, nd_undo = [], nd_undo_max = 256,
      nd_forks = \<lparr>items = [parent_item], fork_index = [0], unlinked_index = [], fork_head = Some 0, fork_max_size = 1024\<rparr>,
      nd_blocks = \<lparr>block_num_to_pos = [], blocks = []\<rparr>, nd_session = False, nd_pending = [], nd_popped = []\<rparr>"

definition forked_node :: node where
  \<comment> \<open>the fork database has the next block already\<close>
  "forked_node = sample_node\<lparr>nd_forks := snd (fork_push_block (view_of sample_node_env) child_block (nd_forks sample_node))\<rparr>"

definition returned :: "('a res \<times> node) option \<Rightarrow> bool" where
  "returned r = (case r of Some (Inr x, nd) \<Rightarrow> True | _ \<Rightarrow> False)"

lemma returned_iff: "returned r \<longleftrightarrow> (\<exists>x nd. r = Some (Inr x, nd))"
  by (auto simp: returned_def split: option.splits sum.splits)

lemma forked_node_pops: "returned (nd_bind (append_block sample_node_env 0 child_block) (\<lambda>_. pop_block sample_node_env) forked_node)"
  by code_simp

definition other_id :: block_id where "other_id = Hash160 1 7 7 7 7"

definition switching_node :: node where
  \<comment> \<open>its head is another child of the parent of \<open>child_block\<close>\<close>
  "switching_node = sample_node
     \<lparr>nd_chain := (nd_chain sample_node)\<lparr>c_dynamic := (c_dynamic (nd_chain sample_node))\<lparr>dp_head_block_id := other_id\<rparr>\<rparr>,
      nd_undo := [nd_chain sample_node],
      nd_forks := \<lparr>items = [parent_item, \<lparr>fi_prev = Some 0, fi_num = 1, fi_invalid = False, fi_id = other_id, fi_data = child_block\<rparr>,
          \<lparr>fi_prev = Some 0, fi_num = 1, fi_invalid = False, fi_id = id_of_block sample_env child_block, fi_data = child_block\<rparr>],
        fork_index = [0, 1, 2], unlinked_index = [], fork_head = Some 2, fork_max_size = 1024\<rparr>,
      nd_blocks := \<lparr>block_num_to_pos = [zero_entry, zero_entry], blocks = []\<rparr>\<rparr>"

definition popped_node :: node where
  "popped_node = (case pop_to sample_node_env parent_id switching_node of Some (Inr x, nd) \<Rightarrow> nd | _ \<Rightarrow> switching_node)"

lemma switching_node_switches: "returned (switch_fork sample_node_env 0 child_block 2 switching_node)"
proof -
  have br: "fetch_branch_from (view_of sample_node_env) (bv_id (view_of sample_node_env) (fi_data (item (nd_forks switching_node) 2)))
      (head_block_id switching_node) (nd_forks switching_node) = Some (Inr ([2], [1]))"
    and anc: "previous (fi_data (item (nd_forks switching_node) 1)) = parent_id"
    by (code_simp, code_simp)
  have "returned (pop_to sample_node_env parent_id switching_node)" by code_simp
  then have pop: "pop_to sample_node_env parent_id switching_node = Some (Inr (), popped_node)"
    by (auto simp: returned_iff popped_node_def)
  have "returned (push_in_session sample_node_env 0 (fi_id (item (nd_forks popped_node) 2)) (fi_data (item (nd_forks popped_node) 2)) popped_node)"
    by code_simp
  then have "returned (push_branch sample_node_env 0 i parent_id [1] [2] popped_node)" for i
    by (auto simp: returned_iff nd_bind_Inr nd_catch_Inr)
  then show ?thesis
    using br anc pop by (auto simp: switch_fork_def Let_def returned_iff nd_bind_Inr)
qed

definition pending_node :: node where
  \<comment> \<open>the sample transaction is pending\<close>
  "pending_node = (case push_transaction sample_node_env 0 sample_transaction sample_node of Some (r, nd) \<Rightarrow> nd | None \<Rightarrow> sample_node)"

lemma sample_node_pushes: "returned (push_transaction sample_node_env 0 sample_transaction sample_node)"
  by code_simp

lemma sample_node_accepts:
  "case push_block sample_node_env 0 child_block sample_node of Some (Inr r, nd) \<Rightarrow> 0 < nd_undo_max nd | _ \<Rightarrow> False"
  by code_simp

lemma pending_node_generates: "returned (generate_block sample_node_env 0 1005 (Object_Id 0) 5 pending_node)"
  by code_simp

end
