(* ===== verification/Node_Pending.thy ===== *)
theory Node_Pending
  imports Node_Steps "HOL-Library.Sublist"
begin

text \<open>
  The pending transactions: they take the tables after the head block to the current tables, and
  the block pushing, which runs without them, pushes them again at its end.
\<close>

section \<open>Pushing a transaction\<close>

primrec leads_to :: "node_env \<Rightarrow> signed_transaction list \<Rightarrow> chain \<Rightarrow> chain \<Rightarrow> bool" where
  \<comment> \<open>the transactions, each under some flags, take one state to another\<close>
  "leads_to N [] c c' \<longleftrightarrow> c' = c"
| "leads_to N (t # ts) c c' \<longleftrightarrow>
     (\<exists>skip c1. apply_transaction (ne_ext N) (ne_ops_fuel N) skip t c = Some (Inr c1) \<and> leads_to N ts c1 c')"

lemma leads_to_append: "leads_to N (xs @ ys) c c' \<longleftrightarrow> (\<exists>d. leads_to N xs c d \<and> leads_to N ys d c')"
  by (induction xs arbitrary: c) auto

definition head_state :: "node \<Rightarrow> chain" where
  \<comment> \<open>the tables after the head block\<close>
  "head_state nd = (if nd_session nd then hd (nd_undo nd) else nd_chain nd)"

definition pending_ok :: "node_env \<Rightarrow> node \<Rightarrow> bool" where
  "pending_ok N nd \<longleftrightarrow> 0 < nd_undo_max nd \<and> (nd_session nd \<longrightarrow> nd_undo nd \<noteq> []) \<and>
     (\<not> nd_session nd \<longrightarrow> nd_pending nd = []) \<and> leads_to N (nd_pending nd) (head_state nd) (nd_chain nd)"

lemma push_pending_Inr:
  assumes "push_pending N skip t nd = Some (Inr (), nd')"
  obtains c where "apply_transaction (ne_ext N) (ne_ops_fuel N) skip t (nd_chain nd) = Some (Inr c)"
    and "nd' = nd\<lparr>nd_undo := nd_chain nd # take (nd_undo_max nd) (nd_undo nd), nd_chain := c\<rparr>"
  using assms by (auto simp: push_pending_def nd_simps split: option.splits sum.splits if_splits)

lemma push_pending_Inl:
  "push_pending N skip t nd = Some (Inl e, nd') \<Longrightarrow> e \<noteq> Undefined_Behaviour \<Longrightarrow> 0 < nd_undo_max nd \<Longrightarrow> nd_undo nd \<noteq> [] \<Longrightarrow>
    nd' = nd\<lparr>nd_undo := take (nd_undo_max nd) (nd_undo nd)\<rparr>"
  by (auto simp: push_pending_def nd_simps split: option.splits sum.splits if_splits)

definition ensure_session :: "node \<Rightarrow> node" where
  "ensure_session nd =
     (if nd_session nd then nd else nd\<lparr>nd_undo := nd_chain nd # take (nd_undo_max nd) (nd_undo nd), nd_session := True\<rparr>)"

lemma push_transaction_eq:
  "push_transaction N skip trx nd =
     nd_bind (push_pending N skip trx) (\<lambda>_. nd_bind (nd_update (\<lambda>nd. nd\<lparr>nd_pending := nd_pending nd @ [trx]\<rparr>)) (\<lambda>_. end_session)) (ensure_session nd)"
  by (simp add: push_transaction_def ensure_session_def nd_bind_def start_session_def nd_update_def)

lemma ensure_session_ok:
  assumes "pending_ok N nd"
  shows "pending_ok N (ensure_session nd) \<and> head_state (ensure_session nd) = head_state nd \<and> nd_session (ensure_session nd) \<and>
    nd_chain (ensure_session nd) = nd_chain nd \<and> nd_pending (ensure_session nd) = nd_pending nd \<and>
    nd_undo_max (ensure_session nd) = nd_undo_max nd"
  using assms by (auto simp: pending_ok_def ensure_session_def head_state_def)

lemma push_transaction_steps:
  assumes "pending_ok N nd" and "push_transaction N skip trx nd = Some (r, nd')" and "r \<noteq> Inl Undefined_Behaviour"
  shows "pending_ok N nd' \<and> head_state nd' = head_state nd \<and> nd_undo_max nd' = nd_undo_max nd \<and>
    (if is_ok r then nd_pending nd' = nd_pending nd @ [trx] else nd_pending nd' = nd_pending nd \<and> nd_chain nd' = nd_chain nd)"
proof -
  let ?n = "ensure_session nd"
  note n = ensure_session_ok [OF assms(1)]
  then obtain h us where u: "nd_undo ?n = h # us" by (cases "nd_undo ?n") (auto simp: pending_ok_def)
  obtain k where k: "nd_undo_max ?n = Suc k" using n unfolding pending_ok_def gr0_conv_Suc by blast
  have ends: "end_session (nd1\<lparr>nd_pending := nd_pending nd @ [trx]\<rparr>) =
      Some (Inr (), ?n\<lparr>nd_undo := h # take k us, nd_chain := c, nd_pending := nd_pending nd @ [trx]\<rparr>)"
    if "nd1 = ?n\<lparr>nd_undo := nd_chain ?n # take (nd_undo_max ?n) (nd_undo ?n), nd_chain := c\<rparr>" for nd1 c
    using that u k by (simp add: end_session_Inr)
  have run: "push_transaction N skip trx nd =
      nd_bind (push_pending N skip trx) (\<lambda>_. nd_bind (nd_update (\<lambda>nd. nd\<lparr>nd_pending := nd_pending nd @ [trx]\<rparr>)) (\<lambda>_. end_session)) ?n"
    by (rule push_transaction_eq)
  show ?thesis
  proof (cases "\<exists>nd1. push_pending N skip trx ?n = Some (Inr (), nd1)")
    case True
    then obtain nd1 where "push_pending N skip trx ?n = Some (Inr (), nd1)" by blast
    then obtain c where c: "apply_transaction (ne_ext N) (ne_ops_fuel N) skip trx (nd_chain ?n) = Some (Inr c)"
      and nd1: "nd1 = ?n\<lparr>nd_undo := nd_chain ?n # take (nd_undo_max ?n) (nd_undo ?n), nd_chain := c\<rparr>"
      and p: "push_pending N skip trx ?n = Some (Inr (), nd1)" using push_pending_Inr by blast
    have "nd_pending nd1 = nd_pending nd" using n by (simp add: nd1)
    then have "push_transaction N skip trx nd = end_session (nd1\<lparr>nd_pending := nd_pending nd @ [trx]\<rparr>)"
      using p run by (simp add: nd_bind_def nd_update_def)
    then have "r = Inr ()" "nd' = ?n\<lparr>nd_undo := h # take k us, nd_chain := c, nd_pending := nd_pending nd @ [trx]\<rparr>"
      using assms(2) ends [OF nd1] by simp_all
    then show ?thesis using n u k c by (auto simp: pending_ok_def head_state_def is_ok_def leads_to_append)
  next
    case False
    then obtain e where e: "push_pending N skip trx ?n = Some (Inl e, nd')" and r: "r = Inl e"
      using assms(2) run by (cases r) (auto simp: nd_bind_Inr nd_bind_Inl)
    have "nd' = ?n\<lparr>nd_undo := h # take k us\<rparr>"
      using push_pending_Inl [OF e] assms(3) r u k by simp
    then show ?thesis using n u k r by (auto simp: pending_ok_def head_state_def is_ok_def)
  qed
qed

section \<open>Pushing a block\<close>

definition fresh :: "node \<Rightarrow> bool" where
  "fresh nd \<longleftrightarrow> \<not> nd_session nd \<and> nd_pending nd = []"

definition preserves :: "(node \<Rightarrow> bool) \<Rightarrow> 'a step \<Rightarrow> bool" where
  \<comment> \<open>whether the step returns or throws\<close>
  "preserves P m \<longleftrightarrow> (\<forall>nd r nd'. P nd \<longrightarrow> m nd = Some (r, nd') \<longrightarrow> P nd')"

named_theorems preserve_intros \<open>steps that preserve a predicate on nodes\<close>

lemma preservesI: "(\<And>nd r nd'. P nd \<Longrightarrow> m nd = Some (r, nd') \<Longrightarrow> P nd') \<Longrightarrow> preserves P m"
  by (auto simp: preserves_def)

lemma preservesD: "preserves P m \<Longrightarrow> P nd \<Longrightarrow> m nd = Some (r, nd') \<Longrightarrow> P nd'"
  by (auto simp: preserves_def)

lemma nd_bindE:
  assumes "nd_bind m f nd = Some (r, nd')"
  obtains (throws) e where "m nd = Some (Inl e, nd')" and "r = Inl e"
  | (returns) x nd1 where "m nd = Some (Inr x, nd1)" and "f x nd1 = Some (r, nd')"
  using assms by (auto simp: nd_bind_def split: option.splits sum.splits)

lemma nd_catchE:
  assumes "nd_catch m h nd = Some (r, nd')"
  obtains (same) "m nd = Some (r, nd')" and "\<And>e. r = Inl e \<Longrightarrow> e = Undefined_Behaviour"
  | (caught) e nd1 where "m nd = Some (Inl e, nd1)" and "e \<noteq> Undefined_Behaviour" and "h e nd1 = Some (r, nd')"
  using assms by (auto simp: nd_catch_def split: option.splits sum.splits if_splits)

lemma preserves_bind [preserve_intros]:
  assumes "preserves P m" and "\<And>x. preserves P (f x)"
  shows "preserves P (nd_bind m f)"
proof (rule preservesI)
  fix nd r nd' assume "P nd" and "nd_bind m f nd = Some (r, nd')"
  from this(2) show "P nd'"
  proof (cases rule: nd_bindE)
    case (throws e)
    show ?thesis by (rule preservesD [OF assms(1) \<open>P nd\<close> throws(1)])
  next
    case (returns x nd1)
    show ?thesis by (rule preservesD [OF assms(2) preservesD [OF assms(1) \<open>P nd\<close> returns(1)] returns(2)])
  qed
qed

lemma preserves_catch [preserve_intros]:
  assumes "preserves P m" and "\<And>x. preserves P (h x)"
  shows "preserves P (nd_catch m h)"
proof (rule preservesI)
  fix nd r nd' assume "P nd" and "nd_catch m h nd = Some (r, nd')"
  from this(2) show "P nd'"
  proof (cases rule: nd_catchE)
    case same
    show ?thesis by (rule preservesD [OF assms(1) \<open>P nd\<close> same(1)])
  next
    case (caught e nd1)
    show ?thesis by (rule preservesD [OF assms(2) preservesD [OF assms(1) \<open>P nd\<close> caught(1)] caught(3)])
  qed
qed

lemma preserves_for [preserve_intros]: "(\<And>x. preserves P (f x)) \<Longrightarrow> preserves P (nd_for f xs)"
proof (induction xs)
  case Nil
  show ?case by (simp add: preserves_def)
next
  case (Cons x xs)
  show ?case unfolding nd_for.simps by (intro preserves_bind Cons.IH Cons.prems)
qed

lemma preserves_basic [preserve_intros]:
  "preserves P (nd_return x)" "preserves P (nd_throw e)" "preserves P (nd_lift f)"
  by (auto simp: preserves_def)

lemma keeps_fresh_basic [preserve_intros]:
  "preserves fresh start_session"
  "preserves fresh undo_session" "preserves fresh merge_session" "preserves fresh pop_undo" "preserves fresh (on_forks g)" "preserves fresh (on_blocks h)"
  "preserves fresh reset_session"
  by (auto simp: preserves_def fresh_def nd_simps pop_undo_def reset_session_def split: list.splits if_splits)

lemma keeps_fresh_update [preserve_intros]:
  "(\<And>nd. nd_session (f nd) = nd_session nd \<and> nd_pending (f nd) = nd_pending nd) \<Longrightarrow> preserves fresh (nd_update f)"
  by (auto simp: preserves_def fresh_def)

lemma keeps_fresh_apply [preserve_intros]: "preserves fresh (db_apply_block N skip b)"
  by (auto simp: preserves_def fresh_def db_apply_block_def Let_def split: option.splits sum.splits)

lemma keeps_fresh_sessions [preserve_intros]:
  "preserves fresh end_session" "preserves fresh (push_in_session N skip i b)" "preserves fresh (pop_block N)" "preserves fresh (append_block N skip b)"
  unfolding end_session_def push_in_session_def pop_block_def append_block_def
  by (intro preserve_intros; simp)+

lemma keeps_fresh_pop [preserve_intros]: "preserves fresh (pop_until N target k)" "preserves fresh (pop_to N target)"
proof -
  show p: "preserves fresh (pop_until N target k)" for k
  proof (induction k)
    case (Suc k)
    have "preserves fresh (nd_bind (pop_block N) (\<lambda>_. pop_until N target k))" using Suc by (intro preserve_intros)
    then show ?case by (auto simp: preserves_def split: if_splits)
  qed (simp add: preserves_def)
  show "preserves fresh (pop_to N target)" using p by (auto simp: preserves_def pop_to_def simp del: pop_until.simps)
qed

lemma keeps_fresh_branch [preserve_intros]: "preserves fresh (push_branch N skip i anc second as)"
  by (induction as) (auto intro!: preserve_intros simp: forget_blocks_def restore_branch_def)

lemma keeps_fresh_push [preserve_intros]: "preserves fresh (push_block_alone N skip b)"
proof -
  have sw: "preserves fresh (switch_fork N skip b a)" for a
  proof (rule preservesI)
    fix nd r nd' assume f: "fresh nd" and s: "switch_fork N skip b a nd = Some (r, nd')"
    have k: "preserves fresh (nd_bind (pop_to N anc) (\<lambda>_. nd_bind (push_branch N skip i anc ys zs) (\<lambda>_. nd_return True)))" for anc i ys zs
      by (intro preserve_intros)
    show "fresh nd'" using s f preservesD [OF k f] by (auto simp: switch_fork_def Let_def split: option.splits sum.splits)
  qed
  have "preserves fresh (\<lambda>nd. case h of None \<Rightarrow> Some (Inl Undefined_Behaviour, nd)
        | Some a \<Rightarrow> let new_head = fi_data (item (nd_forks nd) a)
            in if previous new_head = head_block_id nd then append_block N skip b nd
               else if bv_num (view_of N) new_head > head_block_num (nd_chain nd) then switch_fork N skip b a nd
               else Some (Inr False, nd))" for h
  proof (rule preservesI)
    fix nd r nd'
    assume f: "fresh nd" and e: "(case h of None \<Rightarrow> Some (Inl Undefined_Behaviour, nd)
        | Some a \<Rightarrow> let new_head = fi_data (item (nd_forks nd) a)
            in if previous new_head = head_block_id nd then append_block N skip b nd
               else if bv_num (view_of N) new_head > head_block_num (nd_chain nd) then switch_fork N skip b a nd
               else Some (Inr False, nd)) = Some (r, nd')"
    have "nd' = nd \<or> append_block N skip b nd = Some (r, nd') \<or> (\<exists>a. switch_fork N skip b a nd = Some (r, nd'))"
      using e unfolding Let_def by (simp split: option.splits if_split_asm) blast
    then show "fresh nd'"
      by (elim disjE exE) (simp add: f, rule preservesD [OF keeps_fresh_sessions(4) f], assumption, rule preservesD [OF sw f])
  qed
  then show ?thesis unfolding push_block_alone_def by (auto intro!: preserve_intros)
qed

section \<open>The pending transactions after a block\<close>

definition follows :: "node_env \<Rightarrow> signed_transaction list \<Rightarrow> node \<Rightarrow> node \<Rightarrow> bool" where
  \<comment> \<open>some of the transactions have been pushed, in order\<close>
  "follows N ts nd nd' \<longleftrightarrow> pending_ok N nd' \<and> head_state nd' = head_state nd \<and> nd_undo_max nd' = nd_undo_max nd \<and>
     nd_popped nd' = nd_popped nd \<and> (\<exists>us. subseq us ts \<and> nd_pending nd' = nd_pending nd @ us)"

lemma follows_refl: "pending_ok N nd \<Longrightarrow> follows N [] nd nd"
  by (simp add: follows_def)

lemma follows_trans:
  assumes "follows N ts nd nd1" and "follows N us nd1 nd2"
  shows "follows N (ts @ us) nd nd2"
proof -
  obtain xs ys where "subseq xs ts" "nd_pending nd1 = nd_pending nd @ xs" "subseq ys us" "nd_pending nd2 = nd_pending nd1 @ ys"
    using assms unfolding follows_def by blast
  then have "subseq (xs @ ys) (ts @ us) \<and> nd_pending nd2 = nd_pending nd @ (xs @ ys)" by (simp add: list_emb_append_mono)
  then show ?thesis using assms unfolding follows_def by auto
qed

definition limits :: "nat \<Rightarrow> signed_transaction list \<Rightarrow> node \<Rightarrow> bool" where
  "limits n ts nd \<longleftrightarrow> nd_undo_max nd = n \<and> nd_popped nd = ts"

lemma limits_sessions [preserve_intros]:
  "preserves (limits n ts) start_session" "preserves (limits n ts) undo_session" "preserves (limits n ts) merge_session"
  by (auto simp: preserves_def limits_def nd_simps split: list.splits if_splits)

lemma limits_update [preserve_intros]:
  "(\<And>nd. nd_undo_max (f nd) = nd_undo_max nd \<and> nd_popped (f nd) = nd_popped nd) \<Longrightarrow> preserves (limits n ts) (nd_update f)"
  by (auto simp: preserves_def limits_def)

lemma limits_pending [preserve_intros]: "preserves (limits n ts) (push_pending N skip t)"
proof -
  have "preserves (limits n ts) (\<lambda>nd. case apply_transaction (ne_ext N) (ne_ops_fuel N) skip t (nd_chain nd) of
       None \<Rightarrow> None
     | Some (Inl e) \<Rightarrow> if e = Undefined_Behaviour then Some (Inl e, nd) else nd_bind undo_session (\<lambda>_. nd_throw e) nd
     | Some (Inr c) \<Rightarrow> Some (Inr (), nd\<lparr>nd_chain := c\<rparr>))"
    by (auto simp: preserves_def limits_def nd_bind_def undo_session_def nd_throw_def split: option.splits sum.splits list.splits if_splits)
  then show ?thesis unfolding push_pending_def by (intro preserve_intros)
qed

lemma limits_transaction [preserve_intros]: "preserves (limits n ts) (push_transaction N skip t)"
proof (rule preservesI)
  fix nd r nd' assume l: "limits n ts nd" and p: "push_transaction N skip t nd = Some (r, nd')"
  have "preserves (limits n ts) (nd_bind (push_pending N skip t) (\<lambda>_. nd_bind (nd_update (\<lambda>nd. nd\<lparr>nd_pending := nd_pending nd @ [t]\<rparr>)) (\<lambda>_. end_session)))"
    unfolding end_session_def by (intro preserve_intros) simp
  moreover have "limits n ts (ensure_session nd)" using l by (simp add: limits_def ensure_session_def)
  ultimately show "limits n ts nd'" using p unfolding push_transaction_eq by (rule preservesD)
qed

lemma limits_again [preserve_intros]: "preserves (limits n ts) (push_again N skip t)"
proof (rule preservesI)
  fix nd r nd' assume l: "limits n ts nd" and p: "push_again N skip t nd = Some (r, nd')"
  have "preserves (limits n ts) (nd_catch (push_transaction N skip t) (\<lambda>_. nd_return ()))" by (intro preserve_intros)
  then show "limits n ts nd'" using l p preservesD by (fastforce simp: push_again_def split: if_splits)
qed

lemma push_again_follows:
  assumes "pending_ok N nd" and "push_again N skip t nd = Some (r, nd')" and "r \<noteq> Inl Undefined_Behaviour"
  shows "r = Inr () \<and> follows N [t] nd nd'"
proof (cases "is_known_transaction (trx_id (ne_ext N) (transaction.truncate t)) (nd_chain nd)")
  case True
  then show ?thesis using assms by (auto simp: push_again_def follows_def)
next
  case False
  then have "nd_catch (push_transaction N skip t) (\<lambda>_. nd_return ()) nd = Some (r, nd')" using assms(2) by (simp add: push_again_def)
  then obtain q where q: "push_transaction N skip t nd = Some (q, nd')" and r: "r = Inr ()" and "q \<noteq> Inl Undefined_Behaviour"
    using assms(3) by (cases rule: nd_catchE; cases r) auto
  have "limits (nd_undo_max nd) (nd_popped nd) nd'"
    by (rule preservesD [OF limits_transaction _ q]) (simp add: limits_def)
  note p = push_transaction_steps [OF assms(1) q \<open>q \<noteq> Inl Undefined_Behaviour\<close>] this [unfolded limits_def]
  have "\<exists>us. subseq us [t] \<and> nd_pending nd' = nd_pending nd @ us"
    using p(1) by (cases "is_ok q") (auto intro: exI [of _ "[t]"] exI [of _ "[]"])
  then show ?thesis using p r by (simp add: follows_def)
qed

lemma push_all_again_follows:
  assumes "pending_ok N nd" and "nd_for (push_again N skip) ts nd = Some (r, nd')" and "r \<noteq> Inl Undefined_Behaviour"
  shows "r = Inr () \<and> follows N ts nd nd'"
  using assms
proof (induction ts arbitrary: nd)
  case (Cons t ts)
  from Cons.prems(2) have "nd_bind (push_again N skip t) (\<lambda>_. nd_for (push_again N skip) ts) nd = Some (r, nd')" by simp
  then show ?case
  proof (cases rule: nd_bindE)
    case (throws e)
    then show ?thesis using push_again_follows [OF Cons.prems(1) throws(1)] Cons.prems(3) by auto
  next
    case (returns x nd1)
    have f: "follows N [t] nd nd1" using push_again_follows [OF Cons.prems(1) returns(1)] by simp
    then have "r = Inr () \<and> follows N ts nd1 nd'"
      using Cons.IH [OF _ returns(2) Cons.prems(3)] by (simp add: follows_def)
    then show ?thesis using follows_trans [OF f] by auto
  qed
qed (simp add: follows_refl)

lemma nd_finallyE:
  assumes "nd_finally m d nd = Some (r, nd')" and "r \<noteq> Inl Undefined_Behaviour"
  obtains q nd1 p where "m nd = Some (q, nd1)" and "d nd1 = Some (p, nd')" and "p \<noteq> Inl Undefined_Behaviour"
  using assms
  by (simp add: nd_finally_def nd_bind_def nd_catch_def nd_return_def nd_lift_def split: option.splits sum.splits if_splits prod.splits)
    (metis sum.distinct(1))+

lemma cleared:
  assumes "clear_pending nd = Some (r, nd')" and "r \<noteq> Inl Undefined_Behaviour"
  shows "r = Inr () \<and> fresh nd'"
  using assms by (auto simp: clear_pending_def nd_bind_def nd_update_def reset_session_def undo_session_def fresh_def
      split: list.splits if_splits)

lemma push_block_pending:
  assumes "push_block N skip b nd = Some (r, nd')" and "r \<noteq> Inl Undefined_Behaviour" and "0 < nd_undo_max nd'"
  shows "pending_ok N nd' \<and> (\<exists>popped. subseq (nd_pending nd') (popped @ nd_pending nd)) \<and> nd_popped nd' = []"
proof -
  let ?again = "nd_bind (\<lambda>nd1. nd_for (push_again N skip) (nd_popped nd1) nd1) (\<lambda>_.
        nd_bind (nd_update (\<lambda>nd1. nd1\<lparr>nd_popped := []\<rparr>)) (\<lambda>_. nd_for (push_again N skip) (nd_pending nd)))"
  from assms(1) have run: "nd_bind clear_pending (\<lambda>_. nd_finally (push_block_alone N skip b) ?again) nd = Some (r, nd')"
    by (simp add: push_block_def without_pending_transactions_def)
  then obtain nd1 where f1: "fresh nd1" and "nd_finally (push_block_alone N skip b) ?again nd1 = Some (r, nd')"
    using cleared [of nd] assms(2) by (auto elim!: nd_bindE)
  from this(2) assms(2) obtain q nd2 p where m: "push_block_alone N skip b nd1 = Some (q, nd2)" and d: "?again nd2 = Some (p, nd')"
    and p: "p \<noteq> Inl Undefined_Behaviour" by (rule nd_finallyE)
  have f2: "fresh nd2" by (rule preservesD [OF keeps_fresh_push f1 m])
  have limit: "preserves (limits n ts) (nd_for (push_again N skip) us)" for n ts us by (intro preserve_intros)
  obtain x nd3 where again: "nd_for (push_again N skip) (nd_popped nd2) nd2 = Some (x, nd3)"
    and rest: "\<And>u. x = Inr u \<Longrightarrow> nd_for (push_again N skip) (nd_pending nd) (nd3\<lparr>nd_popped := []\<rparr>) = Some (p, nd')"
    and thrown: "\<And>e. x = Inl e \<Longrightarrow> p = Inl e \<and> nd' = nd3"
    using d by (cases rule: nd_bindE) (auto simp: nd_bind_def nd_update_def)
  have l3: "limits (nd_undo_max nd2) (nd_popped nd2) nd3"
    by (rule preservesD [OF limit _ again]) (simp add: limits_def)
  have "nd_undo_max nd' = nd_undo_max nd2"
  proof (cases x)
    case (Inr u)
    have "limits (nd_undo_max nd2) [] nd'"
      by (rule preservesD [OF limit _ rest [OF Inr]]) (use l3 in \<open>simp add: limits_def\<close>)
    then show ?thesis by (simp add: limits_def)
  qed (use thrown l3 in \<open>simp add: limits_def\<close>)
  then have "pending_ok N nd2" using f2 assms(3) by (simp add: fresh_def pending_ok_def head_state_def)
  then have x: "x = Inr () \<and> follows N (nd_popped nd2) nd2 nd3"
    using push_all_again_follows [OF _ again] thrown p by (cases x) auto
  have "pending_ok N (nd3\<lparr>nd_popped := []\<rparr>)" using x by (auto simp: follows_def pending_ok_def head_state_def)
  then have "follows N (nd_pending nd) (nd3\<lparr>nd_popped := []\<rparr>) nd'"
    using push_all_again_follows [OF _ rest p] x by blast
  then obtain xs ys where "subseq xs (nd_popped nd2)" "subseq ys (nd_pending nd)" "nd_pending nd' = xs @ ys"
    and "pending_ok N nd'" "nd_popped nd' = []"
    using x f2 by (auto simp: follows_def fresh_def)
  then show ?thesis using list_emb_append_mono by metis
qed

section \<open>Generating a block\<close>

lemma try_pending:
  assumes "nd_undo nd = h # us" and "0 < nd_undo_max nd"
    and "nd_catch (nd_bind (push_pending N skip tx) (\<lambda>_. nd_bind end_session (\<lambda>_. nd_return True))) (\<lambda>_. nd_return False) nd = Some (Inr applied, nd1)"
  shows "nd_session nd1 = nd_session nd \<and> nd_undo_max nd1 = nd_undo_max nd \<and> (\<exists>us'. nd_undo nd1 = h # us') \<and>
    (if applied then apply_transaction (ne_ext N) (ne_ops_fuel N) skip tx (nd_chain nd) = Some (Inr (nd_chain nd1)) else nd_chain nd1 = nd_chain nd)"
proof -
  obtain k where k: "nd_undo_max nd = Suc k" using assms(2) gr0_conv_Suc by blast
  have ends: "end_session nd2 = Some (Inr (), nd\<lparr>nd_undo := h # take k us, nd_chain := c\<rparr>)"
    if "nd2 = nd\<lparr>nd_undo := nd_chain nd # take (nd_undo_max nd) (nd_undo nd), nd_chain := c\<rparr>" for nd2 c
    using that assms(1) k by (simp add: end_session_Inr)
  from assms(3) show ?thesis
  proof (cases rule: nd_catchE)
    case same
    from same(1) obtain nd2 where p: "push_pending N skip tx nd = Some (Inr (), nd2)" and e: "end_session nd2 = Some (Inr (), nd1)" and applied
      by (auto simp: nd_bind_Inr)
    from p obtain c where c: "apply_transaction (ne_ext N) (ne_ops_fuel N) skip tx (nd_chain nd) = Some (Inr c)"
      and nd2: "nd2 = nd\<lparr>nd_undo := nd_chain nd # take (nd_undo_max nd) (nd_undo nd), nd_chain := c\<rparr>" by (rule push_pending_Inr)
    have "nd1 = nd\<lparr>nd_undo := h # take k us, nd_chain := c\<rparr>" using ends [OF nd2] e by simp
    then show ?thesis using c \<open>applied\<close> by simp
  next
    case (caught e nd2)
    from caught(1) have "push_pending N skip tx nd = Some (Inl e, nd2)"
    proof (cases rule: nd_bindE)
      case (returns x nd3)
      from returns(1) obtain c where "nd3 = nd\<lparr>nd_undo := nd_chain nd # take (nd_undo_max nd) (nd_undo nd), nd_chain := c\<rparr>"
        by (cases x) (auto elim: push_pending_Inr)
      then show ?thesis using ends returns(2) by (simp add: nd_bind_def nd_return_def)
    qed simp
    from push_pending_Inl [OF this caught(2) assms(2)] have "nd2 = nd\<lparr>nd_undo := take (nd_undo_max nd) (nd_undo nd)\<rparr>"
      using assms(1) by simp
    then show ?thesis using caught(3) assms(1) k by simp
  qed
qed

lemma choose_transactions_apply:
  assumes "choose_transactions N skip limit used txs nd = Some (Inr ts, nd')" and "nd_undo nd = h # us" and "0 < nd_undo_max nd"
  shows "subseq ts txs \<and> apply_transactions (ne_ext N) (ne_ops_fuel N) skip ts (nd_chain nd) = Some (Inr (nd_chain nd')) \<and>
    (\<exists>us'. nd_undo nd' = h # us') \<and> nd_session nd' = nd_session nd"
  using assms
proof (induction txs arbitrary: used nd us ts)
  case (Cons tx txs)
  show ?case
  proof (cases "used + ne_tx_size N tx \<ge> limit")
    case True
    then show ?thesis using Cons.IH [of used nd ts us] Cons.prems by auto
  next
    case False
    then obtain applied nd1 where tried: "nd_catch (nd_bind (push_pending N skip tx) (\<lambda>_. nd_bind end_session (\<lambda>_. nd_return True)))
        (\<lambda>_. nd_return False) nd = Some (Inr applied, nd1)"
      and rest: "(if applied then nd_bind (nd_lift (\<lambda>nd. Inr (used + ne_result_size N (nd_chain nd) tx)))
            (\<lambda>used'. nd_bind (choose_transactions N skip limit used' txs) (\<lambda>chosen. nd_return (tx # chosen)))
          else choose_transactions N skip limit used txs) nd1 = Some (Inr ts, nd')"
      using Cons.prems(1) by (auto simp: nd_bind_Inr)
    note t = try_pending [OF Cons.prems(2,3) tried]
    then obtain us1 where u1: "nd_undo nd1 = h # us1" by blast
    show ?thesis
    proof (cases applied)
      case True
      then obtain n us2 where "choose_transactions N skip limit n txs nd1 = Some (Inr us2, nd')" and ts: "ts = tx # us2"
        using rest by (auto simp: nd_bind_Inr)
      from Cons.IH [OF this(1) u1] show ?thesis using t Cons.prems(3) True ts by (simp add: run_bind_eq_Inr)
    next
      case False
      then have "choose_transactions N skip limit used txs nd1 = Some (Inr ts, nd')" using rest by simp
      from Cons.IH [OF this u1] show ?thesis using t Cons.prems(3) False by auto
    qed
  qed
qed simp

lemma more_flags_apply:
  "apply_transaction E n skip trx c = Some (Inr c') \<Longrightarrow> apply_transaction E n (skip OR skip_transaction_signatures) trx c = Some (Inr c')"
proof -
  have "(skip OR skip_transaction_signatures) AND skip_transaction_dupe_check = skip AND skip_transaction_dupe_check"
    "(skip OR skip_transaction_signatures) AND skip_tapos_check = skip AND skip_tapos_check"
    and "(skip OR skip_transaction_signatures) AND (skip_transaction_signatures OR skip_authority_check) \<noteq> 0"
    by (simp_all add: bit.conj_disj_distrib bit.conj_disj_distrib2 or_eq_0_iff skip_transaction_signatures_def skip_transaction_dupe_check_def
        skip_tapos_check_def)
  then show "apply_transaction E n skip trx c = Some (Inr c') \<Longrightarrow> ?thesis"
    unfolding apply_transaction_def check_tapos_def Let_def
    by (cases "skip AND (skip_transaction_signatures OR skip_authority_check) = 0") (auto simp: run_bind_eq_Inr res_simps)
qed

lemma more_flags_apply_all:
  "apply_transactions E n skip ts c = Some (Inr c') \<Longrightarrow> apply_transactions E n (skip OR skip_transaction_signatures) ts c = Some (Inr c')"
  by (induction ts arbitrary: c) (auto simp: run_bind_eq_Inr dest: more_flags_apply)

lemma assemble_block_fields:
  "transactions (assemble_block N skip when w key txs nd) = txs" "previous (assemble_block N skip when w key txs nd) = head_block_id nd"
  "timestamp (assemble_block N skip when w key txs nd) = when" "miner (assemble_block N skip when w key txs nd) = w"
  by (simp_all add: assemble_block_def Let_def)

lemma generate_block_apply:
  assumes "generate_block N skip when w key nd = Some (Inr b, nd')" and "pending_ok N nd"
  shows "subseq (transactions b) (nd_pending nd) \<and> previous b = dp_head_block_id (c_dynamic (head_state nd)) \<and>
    may_produce N skip when w key (nd_chain nd) = Inr () \<and> timestamp b = when \<and> miner b = w \<and>
    (\<exists>c. apply_transactions (ne_ext N) (ne_ops_fuel N) (skip OR skip_transaction_signatures) (transactions b) (head_state nd) = Some (Inr c))"
proof -
  obtain txs nd1 nd2 nd3 m where prod: "may_produce N skip when w key (nd_chain nd) = Inr ()"
    and r: "reset_session nd = Some (Inr (), nd1)"
    and ch: "choose_transactions N skip m (ne_header_size N) (nd_pending nd1)
        (nd1\<lparr>nd_undo := nd_chain nd1 # take (nd_undo_max nd1) (nd_undo nd1), nd_session := True\<rparr>) = Some (Inr txs, nd2)"
    and r2: "reset_session nd2 = Some (Inr (), nd3)" and b: "b = assemble_block N skip when w key txs nd3"
    using assms(1) by (auto simp: generate_block_def nd_bind_Inr)
  have nd1: "nd1 = base nd" and "nd_chain nd1 = head_state nd"
    using reset_session_Inr [OF r] by (simp_all add: base_def head_state_def)
  have "0 < nd_undo_max nd1" using assms(2) by (simp add: nd1 pending_ok_def)
  with choose_transactions_apply [OF ch, of "nd_chain nd1"]
  have c: "subseq txs (nd_pending nd)" "apply_transactions (ne_ext N) (ne_ops_fuel N) skip txs (head_state nd) = Some (Inr (nd_chain nd2))"
    "hd (nd_undo nd2) = head_state nd" "nd_session nd2"
    using nd1 \<open>nd_chain nd1 = head_state nd\<close> by auto
  have "nd_chain nd3 = head_state nd" using reset_session_Inr [OF r2] c(3,4) by (simp add: base_def)
  then show ?thesis using c(1) prod more_flags_apply_all [OF c(2)] by (simp add: b assemble_block_fields)
qed

end
