(* ===== verification/Node_Properties.thy ===== *)
theory Node_Properties
  imports Sample_Node Node_Pending Block_Properties
begin

text \<open>
  The properties of the node: popping a block takes back what appending it did, a fork switch
  replays the branch from the common ancestor, the pending transactions always lead from the head
  to the current tables, and a generated block carries transactions that apply in it.
\<close>

section \<open>Popping and switching\<close>

text \<open>C19: popping the head block takes back what appending it did: the tables are exactly those before the block, and the
  undo history is the one before, up to the states that its new size has cut off.
  No session of pending transactions is open before, and the pop returns.\<close>

theorem pop_takes_back_append:
  assumes "append_block N skip b nd = Some (Inr r, nd1)" and "\<not> nd_session nd" and "pop_block N nd1 = Some (Inr (), nd2)"
  shows "nd_chain nd2 = nd_chain nd \<and> (\<exists>k. nd_undo nd2 = take k (nd_undo nd))"
proof -
  obtain nd0 where p: "push_in_session N skip (bv_id (view_of N) b) b nd = Some (Inr (), nd0)"
    and nd1: "nd1 = nd0\<lparr>nd_undo := take (nd_undo_max nd0) (nd_undo nd0)\<rparr>"
    using assms(1) by (auto simp: append_block_def nd_simps end_session_Inr)
  note p = push_in_session_Inr [OF p]
  obtain c cs where "nd_undo nd1 = c # cs" "nd_chain nd2 = c" "nd_undo nd2 = cs"
    using assms(3) by (rule pop_block_Inr) (use nd1 p(4) assms(2) in simp)
  then show ?thesis by (cases "nd_undo_max nd0") (auto simp: nd1 p(2) take_take, metis)
qed

theorem pop_takes_back_append_witness:
  "\<exists>nd1 nd2 r. append_block sample_node_env 0 child_block forked_node = Some (Inr r, nd1) \<and>
    pop_block sample_node_env nd1 = Some (Inr (), nd2) \<and> nd_chain nd2 = nd_chain forked_node"
proof -
  obtain nd1 nd2 r where "append_block sample_node_env 0 child_block forked_node = Some (Inr r, nd1)"
    "pop_block sample_node_env nd1 = Some (Inr (), nd2)"
    using forked_node_pops unfolding returned_iff nd_bind_Inr by auto
  moreover have "\<not> nd_session forked_node" by (simp add: forked_node_def sample_node_def)
  ultimately show ?thesis using pop_takes_back_append by blast
qed

text \<open>C10: a fork switch that succeeds leaves the tables that result from applying, in order, the blocks of the new branch
  to a state the node has been in, one whose head is the predecessor of the first block after the common ancestor.\<close>

theorem fork_switch_replays_branch:
  assumes "switch_fork N skip b a nd = Some (Inr r, nd')"
  shows "\<exists>xs ys c. fetch_branch_from (view_of N) (bv_id (view_of N) (fi_data (item (nd_forks nd) a))) (head_block_id nd) (nd_forks nd) = Some (Inr (xs, ys)) \<and>
    c \<in> set (nd_chain nd # nd_undo nd) \<and> dp_head_block_id (c_dynamic c) = previous (fi_data (item (nd_forks nd) (last ys))) \<and>
    apply_blocks N skip (map (\<lambda>x. fi_data (item (nd_forks nd) x)) (rev xs)) c = Some (Inr (nd_chain nd')) \<and> r"
proof -
  obtain xs ys nd1 where br: "fetch_branch_from (view_of N) (bv_id (view_of N) (fi_data (item (nd_forks nd) a))) (head_block_id nd) (nd_forks nd) = Some (Inr (xs, ys))"
    and pop: "pop_to N (previous (fi_data (item (nd_forks nd) (last ys)))) nd = Some (Inr (), nd1)"
    and push: "push_branch N skip (bv_id (view_of N) b) (previous (fi_data (item (nd_forks nd) (last ys)))) ys (rev xs) nd1 = Some (Inr (), nd')" and r: r
    using assms by (auto simp: switch_fork_def Let_def nd_bind_Inr split: option.splits sum.splits)
  note pop = pop_until_Inr [OF pop [unfolded pop_to_def]]
  show ?thesis using br r pop push_branch_Inr [OF push] by blast
qed

theorem fork_switch_replays_branch_witness:
  "\<exists>nd' xs c. switch_fork sample_node_env 0 child_block 2 switching_node = Some (Inr True, nd') \<and>
    c \<in> set (nd_chain switching_node # nd_undo switching_node) \<and>
    apply_blocks sample_node_env 0 (map (\<lambda>x. fi_data (item (nd_forks switching_node) x)) (rev xs)) c = Some (Inr (nd_chain nd'))"
proof -
  obtain r nd' where nd': "switch_fork sample_node_env 0 child_block 2 switching_node = Some (Inr r, nd')"
    using switching_node_switches unfolding returned_iff by (elim exE)
  from fork_switch_replays_branch [OF nd'] obtain xs ys c where
    "c \<in> set (nd_chain switching_node # nd_undo switching_node)" and
    "apply_blocks sample_node_env 0 (map (\<lambda>x. fi_data (item (nd_forks switching_node) x)) (rev xs)) c = Some (Inr (nd_chain nd'))" and r
    by (elim exE conjE)
  with nd' show ?thesis by (intro exI conjI) simp_all
qed

section \<open>Pending transactions\<close>

text \<open>C23: the pending transactions take the tables after the head block to the current tables, one after the other: pushing a
  transaction keeps this, and puts it at the end of the list when it applies; when it fails, the tables and the list
  are as before.
  Undefined behaviour is left aside.\<close>

theorem pending_transactions_consistent:
  assumes "pending_ok N nd" and "push_transaction N skip trx nd = Some (r, nd')" and "r \<noteq> Inl Undefined_Behaviour"
  shows "pending_ok N nd' \<and> head_state nd' = head_state nd \<and> nd_undo_max nd' = nd_undo_max nd \<and>
    (if is_ok r then nd_pending nd' = nd_pending nd @ [trx] else nd_pending nd' = nd_pending nd \<and> nd_chain nd' = nd_chain nd)"
  using assms by (rule push_transaction_steps)

lemma sample_node_pending_ok: "pending_ok sample_node_env sample_node"
  by (simp add: pending_ok_def sample_node_def head_state_def)

lemma pending_node_run: "push_transaction sample_node_env 0 sample_transaction sample_node = Some (Inr (), pending_node)"
  using sample_node_pushes by (auto simp: returned_def pending_node_def split: option.splits sum.splits)

theorem pending_transactions_consistent_witness:
  "pending_ok sample_node_env pending_node \<and> nd_pending pending_node = [sample_transaction]"
proof -
  have "nd_pending sample_node = []" by (simp add: sample_node_def)
  then show ?thesis
    using pending_transactions_consistent [OF sample_node_pending_ok pending_node_run] by (simp add: is_ok_def)
qed



text \<open>C25: a block that the node generates carries some of its pending transactions, in order, that apply one after the
  other to the tables after the head block under the flags that applying the block gives them; it names the head block
  as its predecessor, and its miner is the one scheduled at its time.
  The pending transactions do so before.\<close>

theorem generated_block_applies:
  assumes "generate_block N skip when w key nd = Some (Inr b, nd')" and "pending_ok N nd"
  shows "subseq (transactions b) (nd_pending nd) \<and> previous b = dp_head_block_id (c_dynamic (head_state nd)) \<and>
    may_produce N skip when w key (nd_chain nd) = Inr () \<and> timestamp b = when \<and> miner b = w \<and>
    (\<exists>c. apply_transactions (ne_ext N) (ne_ops_fuel N) (skip OR skip_transaction_signatures) (transactions b) (head_state nd) = Some (Inr c))"
  using assms by (rule generate_block_apply)

theorem generated_block_applies_witness:
  "\<exists>b nd'. generate_block sample_node_env 0 1005 (Object_Id 0) 5 pending_node = Some (Inr b, nd') \<and>
    subseq (transactions b) (nd_pending pending_node) \<and> timestamp b = 1005"
proof -
  obtain b nd' where b: "generate_block sample_node_env 0 1005 (Object_Id 0) 5 pending_node = Some (Inr b, nd')"
    using pending_node_generates unfolding returned_iff by (elim exE)
  have "pending_ok sample_node_env pending_node"
    using push_transaction_steps [OF sample_node_pending_ok pending_node_run] by simp
  with b show ?thesis using generated_block_applies [OF b] by blast
qed

end
