(* ===== verification/Genesis.thy ===== *)
theory Genesis
  imports Updates
begin

text \<open>
  The state the chain starts from: \<open>database::init_genesis\<close> (\<open>db_init.cpp\<close>) on the indexes that
  \<open>initialize_indexes\<close> creates, and \<open>zero_all_fees\<close> (\<open>fee_schedule.cpp\<close>).

  The genesis state has the members of \<open>genesis_state_type\<close> that the function reads.  The two global
  objects exist from the start here, with the values their constructors give them.  The undo database
  is disabled meanwhile, so an exception leaves no chain.  The base-58 text of public keys (\<open>fc\<close>)
  is the record \<open>genesis_env\<close>.
\<close>

record genesis_env =
  ge_from_nums :: "string \<Rightarrow> string"
  ge_public_key :: "string \<Rightarrow> public_key res"

record initial_account =
  ia_owner_key :: public_key
  ia_owner_key2 :: "public_key option"
  ia_owner_key3 :: "public_key option"
  ia_owner_threshold :: "32 word option"

record initial_asset =
  is_symbol :: string
  is_issuer_name :: string
  is_precision :: "8 word"

record initial_balance =
  ib_owner :: string
  ib_asset_symbol :: string
  ib_amount :: int

record initial_miner =
  im_owner_name :: string
  im_block_signing_key :: public_key

record genesis_state =
  gs_initial_timestamp :: time
  gs_max_core_supply :: int
  gs_initial_parameters :: chain_parameters
  gs_min_miner_count :: "16 word"
  gs_num_special_accounts :: "32 word"
  gs_num_special_assets :: "32 word"
  gs_initial_accounts :: "initial_account list"
  gs_initial_assets :: "initial_asset list"
  gs_initial_balances :: "initial_balance list"
  gs_initial_active_miners :: "64 word"
  gs_initial_miner_candidates :: "initial_miner list"

definition GRAPHENE_INITIAL_SHARE_SUPPLY :: int where "GRAPHENE_INITIAL_SHARE_SUPPLY = 80000000000000000"
definition GRAPHENE_DEFAULT_BLOCK_INTERVAL :: "32 word" where "GRAPHENE_DEFAULT_BLOCK_INTERVAL = 30"
definition GRAPHENE_BLOCKCHAIN_PRECISION_DIGITS :: "8 word" where "GRAPHENE_BLOCKCHAIN_PRECISION_DIGITS = 8"
definition GRAPHENE_SYMBOL :: string where "GRAPHENE_SYMBOL = ''CVA''"

section \<open>The empty indexes\<close>

definition empty_index :: "'a table" where
  "empty_index = \<lparr>rows = [], next_instance = 0\<rparr>"

definition block_summaries :: "block_id table" where
  \<comment> \<open>resized to 65536 entries, then the first is created\<close>
  "block_summaries = \<lparr>rows = map (\<lambda>i. (i, zero_hash)) [0..<65536], next_instance = 1\<rparr>"

definition zero_all_fees :: fee_schedule where
  \<comment> \<open>the default schedule with every entry zeroed; the variant has one alternative for each of the 76 operations\<close>
  "zero_all_fees = \<lparr>fs_parameters = map (\<lambda>w. \<lparr>fp_which = w, fp_fee = 0, fp_price = 0\<rparr>) [0..<76], fs_scale = 0\<rparr>"

definition genesis_properties :: "genesis_state \<Rightarrow> global_properties" where
  "genesis_properties G =
     \<lparr>gp_parameters = (gs_initial_parameters G)\<lparr>current_fees := zero_all_fees\<rparr>,
      gp_pending_parameters = None, gp_next_available_vote_id = 0, gp_active_miners = []\<rparr>"

definition genesis_dynamics :: "genesis_state \<Rightarrow> dynamic_properties" where
  "genesis_dynamics G =
     \<lparr>dp_head_block_number = 0, dp_head_block_id = zero_hash, dp_time = gs_initial_timestamp G, dp_current_miner = 0,
      dp_next_maintenance_time = 0, dp_last_budget_time = 0, dp_miner_budget_from_fees = 0, dp_unspent_fee_budget = 0,
      dp_mined_rewards = 0, dp_miner_budget_from_rewards = 0, dp_accounts_registered_this_interval = 0,
      dp_recently_missed_count = 0, dp_current_aslot = 0, dp_recent_slots_filled = - 1, dp_dynamic_flags = 0,
      dp_last_irreversible_block_num = 0\<rparr>"

definition initial_chain :: "block_id table \<Rightarrow> genesis_state \<Rightarrow> chain" where
  \<comment> \<open>after \<open>initialize_indexes\<close>, with the given block summaries\<close>
  "initial_chain summaries G =
     \<lparr>c_accounts = empty_index, c_statistics = empty_index, c_balances = empty_index, c_vesting = empty_index,
      c_miners = empty_index, c_assets = empty_index, c_asset_data = empty_index, c_details = empty_index,
      c_budgets = empty_index, c_proposals = empty_index, c_transactions = empty_index, c_blinded = empty_index,
      c_confidential = empty_index, c_block_summaries = summaries, c_global = genesis_properties G,
      c_dynamic = genesis_dynamics G, c_shuffled_miners = []\<rparr>"

section \<open>Accounts and assets that the chain itself needs\<close>

definition initial_supply :: "chain \<Rightarrow> chain res" where
  \<comment> \<open>the balance object whose owner and asset are left at their defaults, both 0\<close>
  "initial_supply c =
     res_bind (tbl_create balance_clash
       \<lparr>ab_owner = 0, ab_asset_type = 0, ab_balance = GRAPHENE_INITIAL_SHARE_SUPPLY, ab_vote_power = 0,
        ab_casted_vote = make_vote_id vt_miner (- 1)\<rparr> (c_balances c)) (\<lambda>(_, t).
     Inr (c\<lparr>c_balances := t\<rparr>))"

definition genesis_account :: "genesis_env \<Rightarrow> string \<Rightarrow> 32 word \<Rightarrow> account \<Rightarrow> chain \<Rightarrow> chain res" where
  \<comment> \<open>creates an account and asserts its identifier\<close>
  "genesis_account N name threshold i c =
     res_bind (new_account GRAPHENE_MINER_ACCOUNT (ge_from_nums N name)
       \<lparr>weight_threshold = threshold, account_auths = [], key_auths = []\<rparr> default_options c) (\<lambda>(j, c1).
     res_bind (fc_assert (j = i)) (\<lambda>_. Inr c1))"

definition special_account :: "genesis_env \<Rightarrow> nat \<Rightarrow> chain \<Rightarrow> chain res" where
  "special_account N i c =
     res_bind (genesis_account N (''special-account-'' @ dec_of_nat i) 1 i c) (\<lambda>c1.
     res_bind (tbl_remove i (c_accounts c1)) (\<lambda>t.
     Inr (c1\<lparr>c_accounts := t\<rparr>)))"

definition genesis_accounts :: "genesis_env \<Rightarrow> genesis_state \<Rightarrow> chain \<Rightarrow> chain res" where
  "genesis_accounts N G c =
     res_bind (genesis_account N ''miner-account'' 1 GRAPHENE_MINER_ACCOUNT c) (\<lambda>c1.
     res_bind (genesis_account N ''null-account'' 1 GRAPHENE_NULL_ACCOUNT c1) (\<lambda>c2.
     res_bind (genesis_account N ''temp-account'' 0 GRAPHENE_TEMP_ACCOUNT c2) (\<lambda>c3.
     res_bind (genesis_account N ''proxy-to-self'' 1 GRAPHENE_PROXY_TO_SELF_ACCOUNT c3) (\<lambda>c4.
     res_fold (special_account N) [next_instance (c_accounts c4)..<unat (gs_num_special_accounts G)] c4))))"

definition new_asset :: "string \<Rightarrow> 8 word \<Rightarrow> int \<Rightarrow> int \<Rightarrow> chain \<Rightarrow> (nat \<times> chain) res" where
  \<comment> \<open>creates the dynamic data of an asset with the given supply, and the asset\<close>
  "new_asset symbol precision max_supply supply c =
     res_bind (tbl_create no_clash \<lparr>ad_current_supply = supply, ad_confidential_supply = 0, ad_accumulated_fees = 0\<rparr>
       (c_asset_data c)) (\<lambda>(d, td).
     res_bind (tbl_create asset_clash
       \<lparr>as_symbol = symbol, as_precision = precision, as_max_supply = max_supply, as_dynamic_data = d\<rparr> (c_assets c)) (\<lambda>(i, ta).
     Inr (i, c\<lparr>c_asset_data := td, c_assets := ta\<rparr>)))"

definition special_asset :: "nat \<Rightarrow> chain \<Rightarrow> chain res" where
  "special_asset i c =
     res_bind (new_asset (''SPECIAL'' @ dec_of_nat i) GRAPHENE_BLOCKCHAIN_PRECISION_DIGITS 0 0 c) (\<lambda>(j, c1).
     res_bind (fc_assert (j = i)) (\<lambda>_.
     res_bind (tbl_remove i (c_assets c1)) (\<lambda>t.
     Inr (c1\<lparr>c_assets := t\<rparr>))))"

definition genesis_assets :: "genesis_state \<Rightarrow> chain \<Rightarrow> chain res" where
  "genesis_assets G c =
     res_bind (new_asset GRAPHENE_SYMBOL GRAPHENE_BLOCKCHAIN_PRECISION_DIGITS (gs_max_core_supply G)
       GRAPHENE_INITIAL_SHARE_SUPPLY c) (\<lambda>(_, c1).
     res_fold special_asset [next_instance (c_assets c1)..<unat (gs_num_special_assets G)] c1)"

section \<open>What the genesis state lists\<close>

primrec run_fold :: "('a \<Rightarrow> 's \<Rightarrow> 's run) \<Rightarrow> 'a list \<Rightarrow> 's \<Rightarrow> 's run" where
  "run_fold f [] s = Some (Inr s)"
| "run_fold f (x # xs) s = run_bind (f x s) (run_fold f xs)"

definition genesis_operation :: "externals \<Rightarrow> operation \<Rightarrow> chain \<Rightarrow> chain run" where
  \<comment> \<open>\<open>apply_operation\<close> with the evaluation state of the genesis; it executes no proposals\<close>
  "genesis_operation E =
     apply_operation E 1 \<lparr>skip_fee = False, skip_fee_schedule_check = False, is_proposed_trx = False\<rparr> 0"

definition no_fee :: asset where "no_fee = \<lparr>amount = 0, asset_id = 0\<rparr>"

definition owner_authority :: "initial_account \<Rightarrow> authority res" where
  "owner_authority a =
     (let threshold = (case ia_owner_threshold a of None \<Rightarrow> 1 | Some t \<Rightarrow> t);
          empty = (\<lambda>t. \<lparr>weight_threshold = t, account_auths = [], key_auths = []\<rparr>);
          k1 = add_key_authority (ia_owner_key a) 1
      in case (ia_owner_key2 a, ia_owner_key3 a) of
           (Some k2, Some k3) \<Rightarrow> res_bind (fc_assert (threshold \<le> 3)) (\<lambda>_.
             Inr (add_key_authority k3 1 (add_key_authority k2 1 (k1 (empty threshold)))))
         | (Some k2, None) \<Rightarrow> res_bind (fc_assert (threshold \<le> 2)) (\<lambda>_. Inr (add_key_authority k2 1 (k1 (empty threshold))))
         | (None, _) \<Rightarrow> Inr (k1 (empty 1)))"

definition create_initial_account :: "externals \<Rightarrow> initial_account \<Rightarrow> chain \<Rightarrow> chain run" where
  "create_initial_account E a c =
     run_bind (Some (owner_authority a)) (\<lambda>owner.
     genesis_operation E (Account_Create \<lparr>ac_fee = no_fee, ac_registrar = GRAPHENE_TEMP_ACCOUNT, ac_owner = owner,
       ac_options = default_options\<rparr>) c)"

definition get_account_id :: "string \<Rightarrow> chain \<Rightarrow> account res" where
  "get_account_id name c = of_option Assert_Exception (map_option fst (find_account name c))"

definition get_asset_id :: "string \<Rightarrow> chain \<Rightarrow> asset_id res" where
  "get_asset_id symbol c =
     (let by_symbol = (\<lambda>s. map_option fst (find (\<lambda>(i, a). as_symbol a = s) (rows (c_assets c))))
      in of_option Assert_Exception (if symbol = ''CVA'' then by_symbol GRAPHENE_SYMBOL else by_symbol symbol))"

definition create_initial_balance :: "externals \<Rightarrow> genesis_env \<Rightarrow> initial_balance \<Rightarrow> chain \<Rightarrow> chain run" where
  "create_initial_balance E N b c =
     run_bind (Some (ge_public_key N (ib_owner b))) (\<lambda>to.
     run_bind (Some (get_asset_id (ib_asset_symbol b) c)) (\<lambda>a.
     genesis_operation E (Transfer \<lparr>tf_fee = no_fee, tf_from = GRAPHENE_MINER_ACCOUNT, tf_to = to,
       tf_amount = \<lparr>amount = ib_amount b, asset_id = a\<rparr>, tf_memo = None\<rparr>) c))"

definition create_initial_asset :: "initial_asset \<Rightarrow> (asset_id \<times> int) list \<times> chain \<Rightarrow> ((asset_id \<times> int) list \<times> chain) res" where
  \<comment> \<open>with the map \<open>total_supplies\<close>\<close>
  "create_initial_asset a = (\<lambda>(total_supplies, c).
     res_bind (get_account_id (is_issuer_name a) c) (\<lambda>_.
     res_bind (new_asset (is_symbol a) (is_precision a) 0 0 c) (\<lambda>(i, c1).
     Inr (AList.update i 0 total_supplies, c1))))"

definition save_supply :: "asset_id \<times> int \<Rightarrow> chain \<Rightarrow> chain res" where
  "save_supply = (\<lambda>(a, s). modify_dynamic_data a (\<lambda>d. Inr (d\<lparr>ad_current_supply := s\<rparr>)))"

definition initial_assets :: "externals \<Rightarrow> genesis_state \<Rightarrow> chain \<Rightarrow> chain res" where
  "initial_assets E G c =
     res_bind (res_fold create_initial_asset (gs_initial_assets G) ([], c)) (\<lambda>(total_supplies, c1).
     res_bind (if (case map_of total_supplies 0 of None \<Rightarrow> 0 | Some s \<Rightarrow> s) > 0
       then res_bind (asset_neg (safe (nops E)) (get_balance GRAPHENE_MINER_ACCOUNT 0 c1)) (\<lambda>d.
            res_bind (adjust_balance (nops E) GRAPHENE_MINER_ACCOUNT d c1) (\<lambda>c2. Inr (total_supplies, c2)))
       else Inr (AList.update 0 GRAPHENE_INITIAL_SHARE_SUPPLY total_supplies, c1)) (\<lambda>(supplies, c2).
     res_fold save_supply (sort_key fst supplies) c2))"

definition null_miner :: "chain \<Rightarrow> chain res" where
  "null_miner c =
     res_bind (tbl_create miner_clash
       \<lparr>mo_account = 0, mo_last_aslot = 0, mo_signing_key = 0, mo_pay_vb = None, mo_vote_id = make_vote_id vt_miner 0,
        mo_total_votes = 0, mo_url = [], mo_total_missed = 0, mo_last_confirmed_block_num = 0\<rparr> (c_miners c)) (\<lambda>(i, t).
     res_bind (fc_assert (i = 0)) (\<lambda>_.
     res_bind (tbl_remove i t) (\<lambda>t1. Inr (c\<lparr>c_miners := t1\<rparr>))))"

definition create_initial_miner :: "externals \<Rightarrow> initial_miner \<Rightarrow> chain \<Rightarrow> chain run" where
  "create_initial_miner E m c =
     run_bind (Some (get_account_id (im_owner_name m) c)) (\<lambda>a.
     genesis_operation E (Miner_Create \<lparr>mc_fee = no_fee, mc_miner_account = a, mc_url = [],
       mc_block_signing_key = im_block_signing_key m\<rparr>) c)"

definition start_schedule :: "genesis_state \<Rightarrow> chain \<Rightarrow> chain" where
  \<comment> \<open>the active miners, the real fees, and the schedule\<close>
  "start_schedule G c =
     (let g = c_global c; active = gp_active_miners g @ [1..<unat (gs_initial_active_miners G) + 1]
      in c\<lparr>c_global := g\<lparr>gp_active_miners := active,
             gp_parameters := (gp_parameters g)\<lparr>current_fees := current_fees (gs_initial_parameters G)\<rparr>\<rparr>,
           c_shuffled_miners := active\<rparr>)"

section \<open>The whole function\<close>

definition genesis_checks :: "genesis_state \<Rightarrow> unit res" where
  "genesis_checks G =
     res_bind (fc_assert (gs_initial_timestamp G \<noteq> 0)) (\<lambda>_.
     res_bind (fc_assert (gs_initial_timestamp G mod GRAPHENE_DEFAULT_BLOCK_INTERVAL = 0)) (\<lambda>_.
     res_bind (fc_assert (gs_initial_miner_candidates G \<noteq> [])) (\<lambda>_.
     fc_assert (unat (gs_initial_active_miners G) \<le> length (gs_initial_miner_candidates G)))))"

definition genesis_objects :: "genesis_env \<Rightarrow> genesis_state \<Rightarrow> chain \<Rightarrow> chain res" where
  "genesis_objects N G c =
     res_bind (initial_supply c) (\<lambda>c1.
     res_bind (genesis_accounts N G c1) (\<lambda>c2.
     res_bind (genesis_assets G c2) (\<lambda>c3.
     res_bind (fc_assert (gs_min_miner_count G AND 1 = 1)) (\<lambda>_. Inr c3))))"

definition init_genesis :: "externals \<Rightarrow> genesis_env \<Rightarrow> genesis_state \<Rightarrow> chain \<Rightarrow> chain run" where
  \<comment> \<open>on the chain after \<open>initialize_indexes\<close>\<close>
  "init_genesis E N G c =
     run_bind (Some (res_bind (genesis_checks G) (\<lambda>_. genesis_objects N G c))) (\<lambda>c1.
     run_bind (run_fold (create_initial_account E) (gs_initial_accounts G) c1) (\<lambda>c2.
     run_bind (run_fold (create_initial_balance E N) (gs_initial_balances G) c2) (\<lambda>c3.
     run_bind (Some (res_bind (initial_assets E G c3) null_miner)) (\<lambda>c4.
     run_bind (run_fold (create_initial_miner E) (gs_initial_miner_candidates G) c4) (\<lambda>c5.
     Some (Inr (start_schedule G c5)))))))"

definition genesis_chain :: "externals \<Rightarrow> genesis_env \<Rightarrow> genesis_state \<Rightarrow> chain run" where
  "genesis_chain E N G = init_genesis E N G (initial_chain block_summaries G)"

end
