(* ===== verification/Genesis_Books.thy ===== *)
theory Genesis_Books
  imports Genesis Maintenance_Books
begin

text \<open>
  The books of the genesis: every step of \<open>init_genesis\<close> keeps the tables well formed, and the
  chain starts with the initial supply of the core asset, all of it held, and nothing due.
\<close>

section \<open>The invariant of the genesis\<close>

definition assets_known :: "chain \<Rightarrow> bool" where
  \<comment> \<open>the dynamic data of every asset exist\<close>
  "assets_known c \<longleftrightarrow> (\<forall>a x. tbl_find a (c_assets c) = Some x \<longrightarrow> supply_of a c \<noteq> None)"

definition start_ok :: "genesis_state \<Rightarrow> chain \<Rightarrow> bool" where
  \<comment> \<open>before the core asset is created\<close>
  "start_ok G c \<longleftrightarrow> chain_ok c \<and> rows (c_proposals c) = [] \<and> rows (c_assets c) = [] \<and> next_instance (c_assets c) = 0 \<and>
     held 0 c = GRAPHENE_INITIAL_SHARE_SUPPLY \<and> no_debts c \<and> budget_of c = genesis_dynamics G"

definition genesis_ok :: "genesis_state \<Rightarrow> chain \<Rightarrow> bool" where
  "genesis_ok G c \<longleftrightarrow> chain_ok c \<and> rows (c_proposals c) = [] \<and> assets_known c \<and> held 0 c = GRAPHENE_INITIAL_SHARE_SUPPLY \<and>
     supply_of 0 c = Some GRAPHENE_INITIAL_SHARE_SUPPLY \<and> no_debts c \<and> budget_of c = genesis_dynamics G"

lemma moved_start_ok: "start_ok G c \<Longrightarrow> moved c nothing c' \<Longrightarrow> start_ok G c'"
  by (simp add: start_ok_def moved_def)

lemma moved_genesis_ok: "genesis_ok G c \<Longrightarrow> moved c nothing c' \<Longrightarrow> genesis_ok G c'"
  by (simp add: genesis_ok_def moved_def assets_known_def)

lemma start_chain_ok: "start_ok G c \<Longrightarrow> chain_ok c" and genesis_chain_ok: "genesis_ok G c \<Longrightarrow> chain_ok c"
  by (simp_all add: start_ok_def genesis_ok_def)

section \<open>Accounts\<close>

lemma initial_chain_start:
  assumes "initial_supply (initial_chain s G) = Inr c"
  shows "start_ok G c"
proof -
  have c: "c = (initial_chain s G)\<lparr>c_balances := \<lparr>rows = [(0, \<lparr>ab_owner = 0, ab_asset_type = 0,
      ab_balance = GRAPHENE_INITIAL_SHARE_SUPPLY, ab_vote_power = 0, ab_casted_vote = make_vote_id vt_miner (- 1)\<rparr>)], next_instance = 1\<rparr>\<rparr>"
    using assms by (simp add: initial_supply_def initial_chain_def empty_index_def tbl_create_def)
  show ?thesis
    by (simp add: c start_ok_def initial_chain_def empty_index_def chain_ok_def index_ok_def tbl_ok_def own_data_def held_def
        liquid_of_def vesting_of_def tbl_sum_def data_of_def tbl_find_def no_debts_def budget_of_def genesis_dynamics_def
        GRAPHENE_INITIAL_SHARE_SUPPLY_def)
qed

lemma genesis_account_moved: "chain_ok c \<Longrightarrow> genesis_account N name w i c = Inr c' \<Longrightarrow> moved c nothing c'"
  using new_account_moved by (auto simp: genesis_account_def res_simps)

lemma special_account_moved:
  assumes "chain_ok c" and "special_account N i c = Inr c'"
  shows "moved c nothing c'"
proof -
  obtain c1 t where c1: "genesis_account N (''special-account-'' @ dec_of_nat i) 1 i c = Inr c1"
    and t: "tbl_remove i (c_accounts c1) = Inr t" and c': "c' = c1\<lparr>c_accounts := t\<rparr>"
    using assms(2) by (auto simp: special_account_def res_simps)
  note m = genesis_account_moved [OF assms(1) c1]
  have "moved c1 nothing c'"
    using moved_ok [OF m] accounts.remove_keeps [OF chain_ok_parts(1) [OF moved_ok [OF m]] t]
    by (intro same_books) (simp_all add: c' chain_ok_def budget_of_def)
  then show ?thesis by (rule moved_nothing_right [OF m])
qed

lemma genesis_accounts_moved:
  assumes "chain_ok c" and "genesis_accounts N G c = Inr c'"
  shows "moved c nothing c'"
proof -
  obtain c1 c2 c3 c4 where c: "genesis_account N ''miner-account'' 1 GRAPHENE_MINER_ACCOUNT c = Inr c1"
      "genesis_account N ''null-account'' 1 GRAPHENE_NULL_ACCOUNT c1 = Inr c2"
      "genesis_account N ''temp-account'' 0 GRAPHENE_TEMP_ACCOUNT c2 = Inr c3"
      "genesis_account N ''proxy-to-self'' 1 GRAPHENE_PROXY_TO_SELF_ACCOUNT c3 = Inr c4"
    and fold: "res_fold (special_account N) [next_instance (c_accounts c4)..<unat (gs_num_special_accounts G)] c4 = Inr c'"
    using assms(2) by (auto simp: genesis_accounts_def res_simps)
  note m1 = genesis_account_moved [OF assms(1) c(1)]
  note m2 = moved_nothing_left [OF m1 genesis_account_moved [OF moved_ok [OF m1] c(2)]]
  note m3 = moved_nothing_left [OF m2 genesis_account_moved [OF moved_ok [OF m2] c(3)]]
  note m4 = moved_nothing_left [OF m3 genesis_account_moved [OF moved_ok [OF m3] c(4)]]
  show ?thesis by (rule moved_nothing_left [OF m4 moved_fold [OF fold moved_ok [OF m4] special_account_moved]])
qed

section \<open>Assets\<close>

lemma new_asset_effect:
  assumes "chain_ok c" and "assets_known c" and "new_asset symbol p m s c = Inr (i, c')"
  shows "chain_ok c'" and "i = next_instance (c_assets c)" and "tbl_find i (c_assets c) = None"
    and "data_of a c' = (if a = i then Some \<lparr>ad_current_supply = s, ad_confidential_supply = 0, ad_accumulated_fees = 0\<rparr> else data_of a c)"
    and "tbl_find a (c_assets c') = None \<longleftrightarrow> a \<noteq> i \<and> tbl_find a (c_assets c) = None" and "assets_known c'"
    and "\<exists>td ta. c' = c\<lparr>c_asset_data := td, c_assets := ta\<rparr>"
proof -
  let ?d = "\<lparr>ad_current_supply = s, ad_confidential_supply = 0, ad_accumulated_fees = 0\<rparr>"
  note ok = chain_ok_parts [OF assms(1)]
  obtain d td ta where d: "tbl_create no_clash ?d (c_asset_data c) = Inr (d, td)"
    and a: "tbl_create asset_clash \<lparr>as_symbol = symbol, as_precision = p, as_max_supply = m, as_dynamic_data = d\<rparr> (c_assets c) = Inr (i, ta)"
    and c': "c' = c\<lparr>c_asset_data := td, c_assets := ta\<rparr>"
    using assms(3) by (auto simp: new_asset_def res_simps)
  note fd = tbl_find_create [OF index_okD(1) [OF ok(7)] d] tbl_find_new [OF index_okD(1) [OF ok(7)] d]
  note fa = tbl_find_create [OF index_okD(1) [OF ok(6)] a] tbl_find_new [OF index_okD(1) [OF ok(6)] a]
  show "i = next_instance (c_assets c)" using tbl_createD [OF a] by simp
  show "tbl_find i (c_assets c) = None" by (rule fa(2))
  have old: "as_dynamic_data x \<noteq> d" if "tbl_find b (c_assets c) = Some x" for b x
    using assms(2) [unfolded assets_known_def supply_of_def data_of_def, rule_format, OF that] that fd(2) by auto
  show data: "data_of a c' = (if a = i then Some ?d else data_of a c)" for a
    using old [of a] fd(2) by (cases "tbl_find a (c_assets c)") (auto simp: data_of_def c' fa fd(1))
  show "tbl_find a (c_assets c') = None \<longleftrightarrow> a \<noteq> i \<and> tbl_find a (c_assets c) = None" for a by (simp add: c' fa)
  have "own_data ta"
    unfolding own_data_def
  proof (clarify)
    fix b x k y assume in1: "(b, x) \<in> set (rows ta)" and in2: "(k, y) \<in> set (rows ta)" and same: "as_dynamic_data x = as_dynamic_data y"
    have split: "b = i \<and> as_dynamic_data x = d \<or> (b, x) \<in> set (rows (c_assets c)) \<and> as_dynamic_data x \<noteq> d"
      if "(b, x) \<in> set (rows ta)" for b x
      using that tbl_createD(2) [OF a] old [of b x] index_okD(1) [OF ok(6)] by (auto simp: tbl_find_iff)
    show "b = k" using split [OF in1] split [OF in2] same ok(13) by (auto simp: own_data_def)
  qed
  then show "chain_ok c'"
    using assms(1) plain.create_keeps [OF ok(7) d] assets.create_keeps [OF ok(6) a] by (simp add: c' chain_ok_def)
  show "assets_known c'" using assms(2) data by (auto simp: assets_known_def supply_of_def c' fa)
  show "\<exists>td ta. c' = c\<lparr>c_asset_data := td, c_assets := ta\<rparr>" using c' by blast
qed

lemma own_data_mono: "set (rows t) \<subseteq> set (rows u) \<Longrightarrow> own_data u \<Longrightarrow> own_data t"
  unfolding own_data_def
proof (clarify)
  fix a x b y
  assume sub: "set (rows t) \<subseteq> set (rows u)" and in1: "(a, x) \<in> set (rows t)" and in2: "(b, y) \<in> set (rows t)"
    and own: "\<forall>(a, x) \<in> set (rows u). \<forall>(b, y) \<in> set (rows u). as_dynamic_data x = as_dynamic_data y \<longrightarrow> a = b"
    and same: "as_dynamic_data x = as_dynamic_data y"
  show "a = b" using bspec [OF bspec [OF own subsetD [OF sub in1], simplified] subsetD [OF sub in2]] same by simp
qed

lemma core_asset_ok:
  assumes "start_ok G c" and "new_asset symbol p m GRAPHENE_INITIAL_SHARE_SUPPLY c = Inr (i, c')"
  shows "genesis_ok G c'"
proof -
  have c: "chain_ok c" "assets_known c" using assms(1) by (auto simp: start_ok_def assets_known_def tbl_find_def)
  note new = new_asset_effect [OF c assms(2)]
  have "i = 0" using new(2) assms(1) by (simp add: start_ok_def)
  moreover have "data_of 0 c = None" using assms(1) by (simp add: start_ok_def data_of_def tbl_find_def)
  ultimately show ?thesis
    using assms(1) new(1,4,6,7)
    by (auto simp: genesis_ok_def start_ok_def held_def liquid_of_def vesting_of_def supply_of_def public_data_def no_debts_def budget_of_def)
qed

lemma new_asset_ok:
  assumes "genesis_ok G c" and "new_asset symbol p m 0 c = Inr (i, c')"
  shows "genesis_ok G c' \<and> i \<noteq> 0"
proof -
  have c: "chain_ok c" "assets_known c" using assms(1) by (auto simp: genesis_ok_def)
  note new = new_asset_effect [OF c assms(2)]
  have "tbl_find 0 (c_assets c) \<noteq> None" using assms(1) by (cases "tbl_find 0 (c_assets c)") (auto simp: genesis_ok_def supply_of_def data_of_def)
  then have "i \<noteq> 0" using new(3) by metis
  then show ?thesis
    using assms(1) new(1,4,6,7)
    by (auto simp: genesis_ok_def held_def liquid_of_def vesting_of_def supply_of_def no_debts_def budget_of_def)
qed

lemma special_asset_ok:
  assumes "genesis_ok G c" and "special_asset i c = Inr c'"
  shows "genesis_ok G c'"
proof -
  obtain c1 t where c1: "new_asset (''SPECIAL'' @ dec_of_nat i) GRAPHENE_BLOCKCHAIN_PRECISION_DIGITS 0 0 c = Inr (i, c1)"
    and t: "tbl_remove i (c_assets c1) = Inr t" and c': "c' = c1\<lparr>c_assets := t\<rparr>"
    using assms(2) by (auto simp: special_asset_def res_simps)
  have ok: "genesis_ok G c1" "i \<noteq> 0" using new_asset_ok [OF assms(1) c1] by auto
  note ix = chain_ok_parts [OF genesis_chain_ok [OF ok(1)]]
  have data: "data_of a c' = (if a = i then None else data_of a c1)" for a
    by (simp add: data_of_def c' tbl_find_remove [OF t])
  have "set (rows t) \<subseteq> set (rows (c_assets c1))" using t by (auto elim: tbl_removeD)
  then have "own_data t" by (rule own_data_mono [OF _ ix(13)])
  then have "chain_ok c'" using genesis_chain_ok [OF ok(1)] assets.remove_keeps [OF ix(6) t] by (simp add: c' chain_ok_def)
  moreover have "assets_known c'"
    using ok(1) by (auto simp: genesis_ok_def assets_known_def supply_of_def data [unfolded c'] c' tbl_find_remove [OF t] split: if_splits)
  moreover have "held 0 c' = held 0 c1" "supply_of 0 c' = supply_of 0 c1"
    using ok(2) by (simp_all add: held_def supply_of_def data) (simp_all add: c' liquid_of_def vesting_of_def)
  ultimately show ?thesis using ok(1) by (simp add: genesis_ok_def) (simp add: c' no_debts_def budget_of_def)
qed

lemma genesis_assets_ok:
  assumes "start_ok G c" and "genesis_assets G c = Inr c'"
  shows "genesis_ok G c'"
proof -
  obtain i c1 where c1: "new_asset GRAPHENE_SYMBOL GRAPHENE_BLOCKCHAIN_PRECISION_DIGITS (gs_max_core_supply G)
       GRAPHENE_INITIAL_SHARE_SUPPLY c = Inr (i, c1)"
    and fold: "res_fold special_asset [next_instance (c_assets c1)..<unat (gs_num_special_assets G)] c1 = Inr c'"
    using assms(2) by (auto simp: genesis_assets_def res_simps)
  show ?thesis
    by (rule res_fold_invariant [OF fold, of "genesis_ok G"]) (use core_asset_ok [OF assms(1) c1] special_asset_ok in auto)
qed

lemma save_supply_ok:
  assumes "genesis_ok G c" and "a = 0 \<longrightarrow> s = GRAPHENE_INITIAL_SHARE_SUPPLY" and "save_supply (a, s) c = Inr c'"
  shows "genesis_ok G c'"
proof -
  obtain x t where x: "tbl_find a (c_assets c) = Some x" and c': "c' = c\<lparr>c_asset_data := t\<rparr>"
    and mod: "tbl_modify no_clash (as_dynamic_data x) (\<lambda>d. Inr (d\<lparr>ad_current_supply := s\<rparr>)) (c_asset_data c) = Inr t"
    using assms(3) by (auto simp: save_supply_def modify_dynamic_data_def tbl_get_def res_simps)
  note ok = genesis_chain_ok [OF assms(1)]
  obtain d d' :: asset_dynamic_data where d: "data_of a c = Some d" "Inr (d\<lparr>ad_current_supply := s\<rparr>) = (Inr d' :: asset_dynamic_data res)"
    and at: "\<And>b. data_of b (c\<lparr>c_asset_data := t\<rparr>) = (if b = a then Some d' else data_of b c)"
    using data_of_modify [OF ok x mod] by blast
  have d': "d' = d\<lparr>ad_current_supply := s\<rparr>" using d(2) by simp
  have "held 0 c' = held 0 c" "supply_of 0 c' = (if a = 0 then Some s else supply_of 0 c)"
    using at [of 0] d(1) by (auto simp: held_def liquid_of_def vesting_of_def supply_of_def public_data_def d' c')
  moreover have "chain_ok c'"
    using ok plain.modify_keeps [OF chain_ok_parts(7) [OF ok] mod] by (simp add: chain_ok_def c')
  moreover have "assets_known c'" using assms(1) at by (auto simp: genesis_ok_def assets_known_def supply_of_def c')
  ultimately show ?thesis using assms(1,2) by (auto simp: genesis_ok_def no_debts_def budget_of_def c')
qed

lemma set_update: "x \<in> set (AList.update k v al) \<Longrightarrow> x = (k, v) \<or> x \<in> set al"
  by (induction al) (auto split: if_splits)

lemma create_initial_assets_ok:
  assumes "res_fold create_initial_asset xs ([], c) = Inr (ts, c')" and "genesis_ok G c"
  shows "genesis_ok G c' \<and> (\<forall>(a, s) \<in> set ts. a \<noteq> 0)"
proof -
  let ?P = "\<lambda>(ts, c). genesis_ok G c \<and> (\<forall>(a, s) \<in> set ts. a \<noteq> 0)"
  have "?P (ts, c')"
  proof (rule res_fold_invariant [OF assms(1), where P = ?P])
    show "?P ([], c)" using assms(2) by simp
    show "?P s'" if "x \<in> set xs" "?P s" "create_initial_asset x s = Inr s'" for x s s'
      using that new_asset_ok by (fastforce simp: create_initial_asset_def res_simps dest!: set_update split: prod.splits)
  qed
  then show ?thesis by simp
qed

section \<open>Operations\<close>

lemma genesis_operation_ok:
  assumes "externals_ok E" and "genesis_ok G c" and "genesis_operation E op c = Some (Inr c')"
    and step: "\<And>push d d'. chain_ok d \<Longrightarrow> do_apply_op E push 0 op d = Some (Inr d') \<Longrightarrow> moved d nothing d'"
  shows "genesis_ok G c'"
proof -
  let ?fl = "\<lparr>skip_fee = False, skip_fee_schedule_check = False, is_proposed_trx = False\<rparr>"
    and ?f = "amount (op_fee op)" and ?push = "push_proposal E (apply_operation E 0)"
  note ops = externals_okD [OF assms(1)] and ok = genesis_chain_ok [OF assms(2)]
  obtain c1 c2 where fee: "check_fee E ?fl op c = Some (Inr ())" and pay: "pay_fee (nops E) ?fl ?f c = Inr c1"
    and ap: "do_apply_op E ?push 0 op c1 = Some (Inr c2)"
    and adj: "adjust_balance (nops E) (op_fee_payer op) \<lparr>amount = - ?f, asset_id = asset_id (op_fee op)\<rparr> c2 = Inr c'"
    using assms(3) asset_neg_eq [OF ops]
    by (fastforce simp: genesis_operation_def run_evaluator_def run_bind_eq_Inr res_simps)
  have core: "asset_id (op_fee op) = 0" by (rule check_fee_core(1) [OF fee])
  have m1: "moved c (only 0 ?f) c1" by (rule pay_fee_moved [OF ops ok pay]) simp
  have m2: "moved c1 nothing c2" by (rule step [OF moved_ok [OF m1] ap])
  have m3: "moved c2 (only 0 (- ?f)) c'" using adjust_balance_moved [OF ops moved_ok [OF m2] adj] by (simp add: core)
  have "moved c (\<lambda>a. only 0 ?f a + only 0 (- ?f) a) c'" by (rule moved_trans [OF moved_nothing_right [OF m1 m2] m3])
  moreover have "(\<lambda>a. only 0 ?f a + only 0 (- ?f) a) = nothing" by (auto simp: only_def)
  ultimately show ?thesis using moved_genesis_ok [OF assms(2)] by simp
qed

lemma run_fold_invariant:
  assumes "run_fold f xs s = Some (Inr t)" and "P s" and "\<And>x s s'. P s \<Longrightarrow> f x s = Some (Inr s') \<Longrightarrow> P s'"
  shows "P t"
  using assms by (induction xs arbitrary: s) (auto simp: run_bind_eq_Inr)

lemma create_initial_account_ok:
  assumes "externals_ok E" and "genesis_ok G c" and "create_initial_account E a c = Some (Inr c')"
  shows "genesis_ok G c'"
  using assms(3) account_create_moved
  by (fastforce simp: create_initial_account_def run_bind_eq_Inr intro: genesis_operation_ok [OF assms(1,2)])

lemma create_initial_balance_ok:
  assumes "externals_ok E" and "genesis_ok G c" and "create_initial_balance E N b c = Some (Inr c')"
  shows "genesis_ok G c'"
  using assms(3) transfer_moved [OF externals_okD [OF assms(1)]]
  by (fastforce simp: create_initial_balance_def run_bind_eq_Inr intro: genesis_operation_ok [OF assms(1,2)])

lemma create_initial_miner_ok:
  assumes "externals_ok E" and "genesis_ok G c" and "create_initial_miner E m c = Some (Inr c')"
  shows "genesis_ok G c'"
  using assms(3) miner_create_moved
  by (fastforce simp: create_initial_miner_def run_bind_eq_Inr intro: genesis_operation_ok [OF assms(1,2)])

lemma initial_assets_ok:
  assumes "genesis_ok G c" and "initial_assets E G c = Inr c'"
  shows "genesis_ok G c'"
proof -
  obtain ts c1 where ts: "res_fold create_initial_asset (gs_initial_assets G) ([], c) = Inr (ts, c1)"
    and rest: "res_bind (if (case map_of ts 0 of None \<Rightarrow> 0 | Some s \<Rightarrow> s) > 0
       then res_bind (asset_neg (safe (nops E)) (get_balance GRAPHENE_MINER_ACCOUNT 0 c1)) (\<lambda>d.
            res_bind (adjust_balance (nops E) GRAPHENE_MINER_ACCOUNT d c1) (\<lambda>c2. Inr (ts, c2)))
       else Inr (AList.update 0 GRAPHENE_INITIAL_SHARE_SUPPLY ts, c1)) (\<lambda>(supplies, c2).
     res_fold save_supply (sort_key fst supplies) c2) = Inr c'"
    using assms(2) by (auto simp: initial_assets_def res_simps)
  have c1: "genesis_ok G c1" and no_core: "\<forall>(a, s) \<in> set ts. a \<noteq> 0" using create_initial_assets_ok [OF ts assms(1)] by auto
  have "map_of ts 0 = None" using no_core by (auto simp: map_of_eq_None_iff)
  then have fold: "res_fold save_supply (sort_key fst (AList.update 0 GRAPHENE_INITIAL_SHARE_SUPPLY ts)) c1 = Inr c'"
    using rest by simp
  show ?thesis
  proof (rule res_fold_invariant [OF fold, where P = "genesis_ok G"])
    show "genesis_ok G s'" if "x \<in> set (sort_key fst (AList.update 0 GRAPHENE_INITIAL_SHARE_SUPPLY ts))"
      "genesis_ok G s" "save_supply x s = Inr s'" for x s s'
      using save_supply_ok [OF that(2), of "fst x" "snd x"] that(1,3) no_core by (auto dest!: set_update)
  qed (rule c1)
qed

lemma null_miner_ok:
  assumes "genesis_ok G c" and "null_miner c = Inr c'"
  shows "genesis_ok G c'"
proof -
  obtain m i t u where t: "tbl_create miner_clash m (c_miners c) = Inr (i, t)" and u: "tbl_remove i t = Inr u" and c': "c' = c\<lparr>c_miners := u\<rparr>"
    using assms(2) by (auto simp: null_miner_def res_simps)
  note ok = genesis_chain_ok [OF assms(1)]
  have "index_ok miner_clash u" by (rule miners.remove_keeps [OF miners.create_keeps [OF chain_ok_parts(5) [OF ok] t] u])
  then have "moved c nothing c'" using ok by (intro same_books) (simp_all add: c' chain_ok_def budget_of_def)
  then show ?thesis by (rule moved_genesis_ok [OF assms(1)])
qed

lemma start_schedule_ok: "genesis_ok G c \<Longrightarrow> genesis_ok G (start_schedule G c)"
  by (rule moved_genesis_ok, assumption, rule same_books)
    (simp_all add: genesis_ok_def start_schedule_def Let_def chain_ok_def budget_of_def)

lemma init_genesis_ok:
  assumes "externals_ok E" and "init_genesis E N G (initial_chain s G) = Some (Inr c)"
  shows "genesis_ok G c"
proof -
  obtain a0 a1 a2 where sup: "initial_supply (initial_chain s G) = Inr a0" and acc: "genesis_accounts N G a0 = Inr a1"
    and ast: "genesis_assets G a1 = Inr a2"
    and rest: "run_bind (run_fold (create_initial_account E) (gs_initial_accounts G) a2) (\<lambda>c2.
     run_bind (run_fold (create_initial_balance E N) (gs_initial_balances G) c2) (\<lambda>c3.
     run_bind (Some (res_bind (initial_assets E G c3) null_miner)) (\<lambda>c4.
     run_bind (run_fold (create_initial_miner E) (gs_initial_miner_candidates G) c4) (\<lambda>c5.
     Some (Inr (start_schedule G c5)))))) = Some (Inr c)"
    using assms(2) by (auto simp: init_genesis_def genesis_objects_def run_bind_eq_Inr [of "Some _"] res_simps)
  note s0 = initial_chain_start [OF sup]
  have g2: "genesis_ok G a2"
    by (rule genesis_assets_ok [OF moved_start_ok [OF s0 genesis_accounts_moved [OF start_chain_ok [OF s0] acc]] ast])
  obtain b1 b2 b3 b4 b5 where b1: "run_fold (create_initial_account E) (gs_initial_accounts G) a2 = Some (Inr b1)"
    and b2: "run_fold (create_initial_balance E N) (gs_initial_balances G) b1 = Some (Inr b2)"
    and b3: "initial_assets E G b2 = Inr b3" and b4: "null_miner b3 = Inr b4"
    and b5: "run_fold (create_initial_miner E) (gs_initial_miner_candidates G) b4 = Some (Inr b5)" and c: "c = start_schedule G b5"
    using rest by (auto simp: run_bind_eq_Inr res_simps)
  have "genesis_ok G b2"
    by (rule run_fold_invariant [OF b2, of "genesis_ok G", OF run_fold_invariant [OF b1, of "genesis_ok G", OF g2]])
      (blast intro: create_initial_account_ok create_initial_balance_ok assms(1))+
  then have "genesis_ok G b4" using initial_assets_ok b3 null_miner_ok b4 by blast
  then have "genesis_ok G b5"
    by (rule run_fold_invariant [OF b5, of "genesis_ok G"]) (blast intro: create_initial_miner_ok assms(1))
  then show ?thesis unfolding c by (rule start_schedule_ok)
qed

lemma genesis_sound: "genesis_ok G c \<Longrightarrow> sound E c"
proof -
  assume g: "genesis_ok G c"
  have "budget_due c = budget_due (initial_chain block_summaries G)"
    using g by (intro budget_due_cong) (simp add: genesis_ok_def budget_of_def initial_chain_def genesis_dynamics_def)
  then have "budget_due c = 0" by (simp add: budget_due_def initial_chain_def genesis_dynamics_def)
  then show "sound E c" using g by (simp add: sound_def genesis_ok_def proposals_ok_def books_balanced_def)
qed

end
