(* ===== verification/Monetary_Policy.thy ===== *)
theory Monetary_Policy
  imports Block_Properties Genesis_Books
begin

text \<open>
  The coins of the core asset from the genesis on.  What the chain holds of it, with the fees
  that wait to be paid out, is the initial supply and the rewards of the blocks so far: \<open>coins\<close>
  changes with every block by its reward and by nothing else.
\<close>

section \<open>Coins\<close>

definition coins :: "chain \<Rightarrow> int" where
  "coins c = held 0 c + dp_unspent_fee_budget (c_dynamic c)"

definition minted :: "chain \<Rightarrow> int option" where
  "minted c = map_option (\<lambda>s. s + dp_mined_rewards (c_dynamic c) + dp_miner_budget_from_fees (c_dynamic c)) (supply_of 0 c)"

lemma coins_minted: "sound E c \<Longrightarrow> minted c = Some (coins c)"
  by (auto simp: sound_def books_balanced_def minted_def coins_def budget_due_def split: option.splits)

lemma minted_cong:
  "supply_of 0 c' = supply_of 0 c \<Longrightarrow> dp_mined_rewards (c_dynamic c') = dp_mined_rewards (c_dynamic c) \<Longrightarrow>
    dp_miner_budget_from_fees (c_dynamic c') = dp_miner_budget_from_fees (c_dynamic c) \<Longrightarrow> minted c' = minted c"
  by (simp add: minted_def)

lemma minted_budget: "supply_of 0 c' = supply_of 0 c \<Longrightarrow> budget_of c' = budget_of c \<Longrightarrow> minted c' = minted c"
  using budget_of_fields [of c] budget_of_fields [of c'] by (intro minted_cong) simp_all

lemma minted_frame: "money_frame c' = money_frame c \<Longrightarrow> minted c' = minted c"
  by (simp add: minted_def supply_of_def data_of_def money_frame_def)

lemma supply_frame: "c_assets c' = c_assets c \<Longrightarrow> c_asset_data c' = c_asset_data c \<Longrightarrow> supply_of 0 c' = supply_of 0 c"
  by (simp add: supply_of_def data_of_def)

section \<open>The parts of a block\<close>

lemma apply_transactions_minted:
  assumes "externals_ok E"
  shows "sound E c \<Longrightarrow> apply_transactions E n skip ts c = Some (Inr c') \<Longrightarrow> minted c' = minted c"
proof (induction ts arbitrary: c)
  case (Cons trx ts)
  obtain c1 where c1: "apply_transaction E n skip trx c = Some (Inr c1)" and rest: "apply_transactions E n skip ts c1 = Some (Inr c')"
    using Cons.prems(2) by (auto simp: run_bind_eq_Inr)
  have "chain_ok c" "proposals_ok E c" using Cons.prems(1) by (auto simp: sound_def)
  note con = apply_transaction_conserves [OF assms this c1]
  then have "minted c1 = minted c" by (intro minted_budget) (simp_all add: conserves_def)
  then show ?case using Cons.IH [OF conserves_sound [OF Cons.prems(1)] rest] con by simp
qed simp

lemma global_data_minted:
  assumes "update_global_dynamic_data B skip b c = Inr c'"
  shows "minted c' = minted c"
proof -
  obtain n c1 m where fold: "res_fold (count_missed (miner_of b)) [0..<n] c = Inr c1"
    and c': "c' = c1\<lparr>c_dynamic := advance B m b (c_dynamic c1)\<rparr>"
    using assms by (auto simp: update_global_dynamic_data_def Let_def res_simps)
  have "money_frame c1 = money_frame c"
    by (rule res_fold_const [OF fold]) (auto simp: count_missed_def res_simps money_frame_def split: if_splits)
  then have "minted c1 = minted c" by (rule minted_frame)
  moreover have "minted c' = minted c1" unfolding c' by (rule minted_cong) (simp_all add: supply_of_def data_of_def advance_def)
  ultimately show ?thesis by simp
qed

lemma signing_miner_minted:
  assumes "externals_ok E" and "update_signing_miner E B w b c = Inr c'" and "minted c = Some x"
  shows "minted c' = Some (x + get_new_asset_per_block c)"
proof -
  note sf = safe_intD [OF num_ops_okD(1) [OF externals_okD [OF assms(1)]]]
  obtain m n u c2 ms where pay: "pay_block E B w m n (c\<lparr>c_dynamic := (c_dynamic c)
        \<lparr>dp_mined_rewards := dp_mined_rewards (c_dynamic c) + get_new_asset_per_block c, dp_unspent_fee_budget := u\<rparr>\<rparr>) = Inr c2"
      (is "pay_block E B w m n ?c1 = _") and c': "c' = c2\<lparr>c_miners := ms\<rparr>"
    using assms(2) by (auto simp: update_signing_miner_def Let_def res_simps sf)
  have "minted c' = minted c2" unfolding c' by (rule minted_cong) (simp_all add: supply_of_def data_of_def)
  moreover have "minted c2 = minted ?c1" by (rule minted_frame [OF pay_block_frame [OF pay]])
  moreover have "supply_of 0 ?c1 = supply_of 0 c" by (simp add: supply_of_def data_of_def)
  ultimately show ?thesis using assms(3) by (auto simp: minted_def)
qed

lemma process_budget_dues:
  assumes "externals_ok E" and "process_budget E c = Inr c'"
  shows "dp_mined_rewards (c_dynamic c') = 0 \<and> (\<exists>d. data_of 0 c = Some d \<and>
    dp_miner_budget_from_fees (c_dynamic c') = ad_accumulated_fees d + dp_unspent_fee_budget (c_dynamic c))"
proof -
  note sf = safe_intD [OF num_ops_okD(1) [OF externals_okD [OF assms(1)]]]
  show ?thesis using assms(2) by (auto simp: process_budget_def Let_def res_simps sf tbl_get_def data_of_def)
qed

lemma process_budget_minted:
  assumes "externals_ok E" and "chain_ok c" and "process_budget E c = Inr c'"
  shows "minted c' = minted c"
  using assms(1,3)
proof (rule process_budget_supply)
  fix x t and d :: asset_dynamic_data
  note sf = safe_intD [OF num_ops_okD(1) [OF externals_okD [OF assms(1)]]]
  let ?f = "\<lambda>x. res_bind (safe (nops E) (ad_current_supply x + (budget_due c - ad_accumulated_fees d)))
        (\<lambda>s. Inr (x\<lparr>ad_current_supply := s, ad_accumulated_fees := 0\<rparr>))"
  assume x: "tbl_find 0 (c_assets c) = Some x" and mod: "tbl_modify no_clash (as_dynamic_data x) ?f (c_asset_data c) = Inr t"
    and d: "data_of 0 c = Some d" and c': "c_asset_data c' = t" "c_assets c' = c_assets c"
  obtain e e' :: asset_dynamic_data where e: "data_of 0 c = Some e" "?f e = Inr e'"
    and at: "\<And>b. data_of b (c\<lparr>c_asset_data := t\<rparr>) = (if b = 0 then Some e' else data_of b c)"
    using data_of_modify [OF assms(2) x mod] by blast
  have e': "ad_current_supply e' = ad_current_supply d + (budget_due c - ad_accumulated_fees d)"
    using e d by (auto simp: res_simps sf)
  have "data_of 0 c' = Some e'" using at [of 0] c' by (simp add: data_of_def)
  then show ?thesis using process_budget_dues [OF assms(1,3)] d e' by (auto simp: minted_def supply_of_def budget_due_def)
qed

lemma maintenance_minted:
  assumes "externals_ok E" and "sound E c" and "perform_chain_maintenance E B b c = Inr c'"
  shows "minted c' = minted c"
  using assms(3)
proof (rule maintenance_steps)
  fix c1 assume bud: "process_budget E c1 = Inr c'" and ok: "sound E c \<Longrightarrow> sound E c1"
    and same: "c_assets c1 = c_assets c" "c_asset_data c1 = c_asset_data c"
      "budget_of (c1\<lparr>c_dynamic := (c_dynamic c1)\<lparr>dp_next_maintenance_time := 0\<rparr>\<rparr>) =
        budget_of (c\<lparr>c_dynamic := (c_dynamic c)\<lparr>dp_next_maintenance_time := 0\<rparr>\<rparr>)"
  have "minted c1 = minted c"
    using same budget_of_fields [of "c1\<lparr>c_dynamic := (c_dynamic c1)\<lparr>dp_next_maintenance_time := 0\<rparr>\<rparr>"]
      budget_of_fields [of "c\<lparr>c_dynamic := (c_dynamic c)\<lparr>dp_next_maintenance_time := 0\<rparr>\<rparr>"]
    by (intro minted_cong supply_frame) simp_all
  moreover have "chain_ok c1" using ok assms(2) by (simp add: sound_def)
  ultimately show "minted c' = minted c" using process_budget_minted [OF assms(1) _ bud] by simp
qed

lemma clear_transactions_minted: "clear_transactions n c = Inr c' \<Longrightarrow> minted c' = minted c"
proof (induction n arbitrary: c)
  case (Suc n)
  have "c' = c \<or> (\<exists>t. clear_transactions n (c\<lparr>c_transactions := t\<rparr>) = Inr c')"
    using Suc.prems by (auto simp: res_simps split: option.splits if_splits)
  moreover have "minted (c\<lparr>c_transactions := t\<rparr>) = minted c" for t by (rule minted_frame) (simp add: money_frame_def)
  ultimately show ?case using Suc.IH by auto
qed simp

lemma maintenance_flag_minted:
  assumes "update_miner_schedule (update_maintenance_flag f c) = Inr c'"
  shows "minted c' = minted c"
proof -
  have "minted (update_maintenance_flag f c) = minted c"
    unfolding update_maintenance_flag_def by (rule minted_cong) (simp_all add: supply_of_def data_of_def)
  moreover have "c' = update_maintenance_flag f c \<or> (\<exists>ms. c' = (update_maintenance_flag f c)\<lparr>c_shuffled_miners := ms\<rparr>)"
    using assms unfolding update_miner_schedule_def Let_def by (metis (no_types) Inl_Inr_False Inr_inject)
  moreover have "minted (d\<lparr>c_shuffled_miners := ms\<rparr>) = minted d" for d ms by (rule minted_frame) (simp add: money_frame_def)
  ultimately show ?thesis by auto
qed

lemma finish_block_minted:
  assumes "externals_ok E" and "sound E c" and "finish_block E B n m skip maint b c = Some (Inr c')"
    and "number_of_block B b < VOTE_REWARD_FORK \<or> VOTE_REWARD_CHECK \<le> number_of_block B b" and x: "minted c = Some x"
  shows "minted c' = Some (x + get_asset_per_block_by_block_num (number_of_block B b))"
  using assms(3)
proof (rule finish_block_steps)
  fix c1 c2 c3 c4 c5 c6 c7
  assume 1: "update_global_dynamic_data B skip b c = Inr c1" and 2: "update_signing_miner E B (miner_of b) b c1 = Inr c2"
    and 3: "update_last_irreversible_block c2 = Inr c3" and 4: "(if maint then perform_chain_maintenance E B b c3 else Inr c3) = Inr c4"
    and 5: "create_block_summary B b c4 = Inr c5" and 6: "clear_expired_transactions c5 = Inr c6"
    and 7: "clear_expired_proposals E B n m c6 = Some (Inr c7)" and 8: "update_miner_schedule (update_maintenance_flag maint c7) = Inr c'"
  have m1: "minted c1 = Some x" using global_data_minted [OF 1] x by simp
  then have m2: "minted c2 = Some (x + get_asset_per_block_by_block_num (number_of_block B b))"
    using signing_miner_minted [OF assms(1) 2] update_head [OF 1] by (simp add: get_new_asset_per_block_def)
  have m3: "minted c3 = minted c2"
    using 3 by (auto simp: update_last_irreversible_block_def Let_def res_simps minted_def supply_of_def data_of_def split: if_splits)
  have "sound E c2"
    using update_global_dynamic_data_sound [OF assms(2) 1] update_head [OF 1] assms(4)
    by (intro update_signing_miner_sound [OF assms(1) _ 2]) auto
  then have s3: "sound E c3" using 3 by (rule update_last_irreversible_block_sound)
  have m4: "minted c4 = minted c3" using 4 maintenance_minted [OF assms(1) s3] by (cases maint) auto
  have m5: "minted c5 = minted c4" using 5 by (intro minted_frame) (auto simp: create_block_summary_def res_simps money_frame_def)
  have m6: "minted c6 = minted c5" using 6 unfolding clear_expired_transactions_def by (rule clear_transactions_minted)
  have s6: "sound E c6" by (rule finish_block_before_proposals [OF assms(1,2,4) 1 2 3 4 5 6])
  have m7: "minted c7 = minted c6"
    by (rule minted_budget [OF clear_expired_proposals_supply [OF assms(1) s6 7] clear_expired_proposals_budget [OF assms(1) s6 7]])
  show ?thesis using m2 m3 m4 m5 m6 m7 maintenance_flag_minted [OF 8] by simp
qed

lemma apply_block_coins:
  assumes "externals_ok E" and "sound E c" and "apply_block E B n m skip b c = Some (Inr c')"
    and "number_of_block B b < VOTE_REWARD_FORK \<or> VOTE_REWARD_CHECK \<le> number_of_block B b"
  shows "sound E c' \<and> coins c' = coins c + get_asset_per_block_by_block_num (number_of_block B b)"
  using assms(3)
proof (elim apply_blockD apply_block_with_steps)
  fix flags c1
  assume ts: "apply_transactions E n (flags OR skip_transaction_signatures) (transactions b) c = Some (Inr c1)"
    and fin: "finish_block E B n m flags (dp_next_maintenance_time (c_dynamic c) \<le> timestamp b) b c1 = Some (Inr c')"
  have "minted c1 = Some (coins c)"
    using apply_transactions_minted [OF assms(1,2) ts] coins_minted [OF assms(2)] by simp
  then have "minted c' = Some (coins c + get_asset_per_block_by_block_num (number_of_block B b))"
    by (rule finish_block_minted [OF assms(1) apply_transactions_sound [OF assms(1,2) ts] fin assms(4)])
  moreover have s: "sound E c'" by (rule apply_block_sound [OF assms])
  ultimately show ?thesis using coins_minted [OF s] by simp
qed

section \<open>Chains of blocks\<close>

inductive chain_from :: "externals \<Rightarrow> block_env \<Rightarrow> nat \<Rightarrow> chain \<Rightarrow> chain \<Rightarrow> bool" for E B where
  \<comment> \<open>so many blocks lead from the one chain to the other\<close>
  stay: "chain_from E B 0 c c"
| block: "chain_from E B k c c1 \<Longrightarrow> apply_block E B n m skip b c1 = Some (Inr c2) \<Longrightarrow> chain_from E B (Suc k) c c2"

inductive_cases chain_from_SucE: "chain_from E B (Suc k) c c'"

definition hashing_ok :: "block_env \<Rightarrow> bool" where
  \<comment> \<open>reversing the bytes twice changes nothing, zero is its own reverse, and a hash has its words\<close>
  "hashing_ok B \<longleftrightarrow> (\<forall>w. be_reverse B (be_reverse B w) = w) \<and> be_reverse B 0 = 0 \<and> (\<forall>h. 5 \<le> length (be_sha224 B h))"

definition numbered :: "block_env \<Rightarrow> chain \<Rightarrow> bool" where
  \<comment> \<open>the identifier of the head block carries its number\<close>
  "numbered B c \<longleftrightarrow> num_from_id (be_reverse B) (dp_head_block_id (c_dynamic c)) = head_block_num c"

lemma apply_block_number:
  assumes "numbered B c" and "apply_block E B n m skip b c = Some (Inr c')"
  shows "number_of_block B b = head_block_num c + 1"
  using assms(2)
proof (elim apply_blockD apply_block_with_steps)
  fix flags
  assume "validate_block_header B flags b c = Inr ()"
  then have "previous b = dp_head_block_id (c_dynamic c)" by (rule validate_block_headerD)
  then show ?thesis using assms(1) by (simp add: block_num_def numbered_def)
qed

lemma apply_block_numbered:
  assumes "externals_ok E" and "hashing_ok B" and "sound E c" and "numbered B c" and "apply_block E B n m skip b c = Some (Inr c')"
    and "number_of_block B b < VOTE_REWARD_FORK \<or> VOTE_REWARD_CHECK \<le> number_of_block B b"
  shows "number_of_block B b = head_block_num c + 1 \<and> head_block_num c' = head_block_num c + 1 \<and> numbered B c'"
  using assms(5)
proof (elim apply_blockD apply_block_with_steps)
  fix flags c1
  assume ts: "apply_transactions E n (flags OR skip_transaction_signatures) (transactions b) c = Some (Inr c1)"
    and fin: "finish_block E B n m flags (dp_next_maintenance_time (c_dynamic c) \<le> timestamp b) b c1 = Some (Inr c')"
  note n = apply_block_number [OF assms(4,5)]
  have "head_of c' = (number_of_block B b, timestamp b, id_of_block B b)"
    by (rule finish_block_head [OF assms(1) apply_transactions_sound [OF assms(1,3) ts] fin assms(6)])
  then show ?thesis
    using block_id_carries_number [of "be_reverse B" "be_sha224 B" b, THEN conjunct1] assms(2) n
    by (simp add: head_of_def numbered_def hashing_ok_def)
qed

text \<open>
  The blocks from \<open>VOTE_REWARD_FORK\<close> to before \<open>VOTE_REWARD_CHECK\<close> pay the voters of their miner without comparing the
  payments with the reward, so the coins are followed on either side of them: up to the fork, or from the check on.
\<close>

definition clear_of_fork :: "nat \<Rightarrow> nat \<Rightarrow> bool" where
  \<comment> \<open>no block after the first and up to the second number pays its voters unchecked\<close>
  "clear_of_fork h h' \<longleftrightarrow> h' < unat VOTE_REWARD_FORK \<or> unat VOTE_REWARD_CHECK \<le> Suc h \<and> h' < 2 ^ 32"

lemma clear_of_fork_block:
  assumes "clear_of_fork h (h + Suc k)" and "h + k = unat w"
  shows "w + 1 < VOTE_REWARD_FORK \<or> VOTE_REWARD_CHECK \<le> w + 1"
proof -
  have "Suc (unat w) < 2 ^ 32"
    using assms by (auto simp: clear_of_fork_def VOTE_REWARD_FORK_def)
  then have "unat (w + 1) = Suc (unat w)" by (simp add: unat_word_ariths)
  then show ?thesis using assms by (auto simp: clear_of_fork_def word_less_nat_alt word_le_nat_alt)
qed

lemma chain_from_coins:
  assumes "externals_ok E" and "hashing_ok B" and "chain_from E B k c c'" and "sound E c" and "numbered B c"
    and "clear_of_fork (unat (head_block_num c)) (unat (head_block_num c) + k)"
  shows "sound E c' \<and> numbered B c' \<and> head_block_num c' = head_block_num c + word_of_nat k \<and>
    coins c' = coins c + (\<Sum>i = 1..<Suc k. get_asset_per_block_by_block_num (head_block_num c + word_of_nat i))"
  using assms(3-6)
proof (induction rule: chain_from.induct)
  case (block k c c1 n m skip b c2)
  let ?h = "unat (head_block_num c)"
  have "clear_of_fork ?h (?h + k)" using block.prems(3) by (auto simp: clear_of_fork_def)
  then have c1: "sound E c1" "numbered B c1" "head_block_num c1 = head_block_num c + word_of_nat k"
    "coins c1 = coins c + (\<Sum>i = 1..<Suc k. get_asset_per_block_by_block_num (head_block_num c + word_of_nat i))"
    using block.IH block.prems(1,2) by auto
  have "?h + k < 2 ^ 32" using block.prems(3) by (auto simp: clear_of_fork_def VOTE_REWARD_FORK_def)
  then have "?h + k = unat (head_block_num c1)"
    by (simp add: c1(3) unat_word_ariths take_bit_eq_mod unat_of_nat mod_simps)
  note fork = clear_of_fork_block [OF block.prems(3) this, folded apply_block_number [OF c1(2) block.hyps(2)]]
  note num = apply_block_numbered [OF assms(1,2) c1(1,2) block.hyps(2) fork]
  note coins = apply_block_coins [OF assms(1) c1(1) block.hyps(2) fork]
  show ?case using num coins c1 by (simp add: ac_simps)
qed simp

lemma genesis_numbered: "hashing_ok B \<Longrightarrow> genesis_ok G c \<Longrightarrow> numbered B c \<and> head_block_num c = 0 \<and> coins c = GRAPHENE_INITIAL_SHARE_SUPPLY"
proof -
  assume h: "hashing_ok B" and g: "genesis_ok G c"
  have "dp_head_block_number (budget_of c) = 0" "dp_head_block_id (budget_of c) = zero_hash" "dp_unspent_fee_budget (budget_of c) = 0"
    using g by (simp_all add: genesis_ok_def genesis_dynamics_def)
  then show ?thesis
    using h g by (simp add: numbered_def num_from_id_def hashing_ok_def zero_hash_def coins_def genesis_ok_def budget_of_def)
qed

end
