(* ===== verification/Monetary_Properties.thy ===== *)
theory Monetary_Properties
  imports Monetary_Policy Sample_Block
begin

text \<open>
  The properties of the genesis and of the coins that exist from it on, with a genesis state and a
  first block as the example.
\<close>

section \<open>The example\<close>

definition sample_genesis_env :: genesis_env where
  "sample_genesis_env = \<lparr>ge_from_nums = (\<lambda>s. ''key '' @ s), ge_public_key = (\<lambda>s. if s = ''1'' then Inr 1 else Inl Assert_Exception)\<rparr>"

definition sample_genesis :: genesis_state where
  "sample_genesis =
     \<lparr>gs_initial_timestamp = 30000, gs_max_core_supply = GRAPHENE_MAX_SHARE_SUPPLY, gs_initial_parameters = sample_parameters,
      gs_min_miner_count = 1, gs_num_special_accounts = 5, gs_num_special_assets = 2,
      gs_initial_accounts = [\<lparr>ia_owner_key = 1, ia_owner_key2 = None, ia_owner_key3 = None, ia_owner_threshold = None\<rparr>],
      gs_initial_assets = [\<lparr>is_symbol = ''TOK'', is_issuer_name = ''1'', is_precision = 2\<rparr>],
      gs_initial_balances = [\<lparr>ib_owner = ''1'', ib_asset_symbol = ''CVA'', ib_amount = 500\<rparr>],
      gs_initial_active_miners = 1, gs_initial_miner_candidates = [\<lparr>im_owner_name = ''1'', im_block_signing_key = 5\<rparr>]\<rparr>"

lemma sample_genesis_runs: "ran (init_genesis sample_externals sample_genesis_env sample_genesis (initial_chain s sample_genesis))"
  by code_simp

definition first_block :: block where
  "first_block =
     \<lparr>previous = zero_hash, timestamp = 30005, miner = Object_Id 1, transaction_merkle_root = zero_hash,
      extensions = [], block_number = 0, miner_signature = [], transactions = []\<rparr>"
lemma create_block_summary_code [code]:
  "create_block_summary B b c =
     (let i = unat (number_of_block B b AND 0xFFFF); t = c_block_summaries c
      in res_bind (tbl_get i t) (\<lambda>_. Inr (c\<lparr>c_block_summaries := t\<lparr>rows := map (\<lambda>(j, w). (j, if j = i then id_of_block B b else w)) (rows t)\<rparr>\<rparr>)))"
  by (cases "tbl_get (unat (number_of_block B b AND 0xFFFF)) (c_block_summaries c)")
    (simp_all add: create_block_summary_def tbl_modify_def Let_def)

definition sample_start :: "block_id table \<Rightarrow> chain" where
  "sample_start s =
     (case init_genesis sample_externals sample_genesis_env sample_genesis (initial_chain s sample_genesis) of
        Some (Inr c) \<Rightarrow> c
      | _ \<Rightarrow> initial_chain s sample_genesis)"

lemma sample_genesis_chain: "genesis_chain sample_externals sample_genesis_env sample_genesis = Some (Inr (sample_start block_summaries))"
  using sample_genesis_runs [of block_summaries]
  by (auto simp: genesis_chain_def sample_start_def ran_def split: option.splits sum.splits)

lemma first_block_runs: "ran (apply_block sample_externals sample_env 2 1 (NOT 0) first_block (sample_start block_summaries))"
proof -
  have "[0..<65536] = 0 # [Suc 0..<65536]" "[Suc 0..<65536] = Suc 0 # [Suc (Suc 0)..<65536]"
    by (rule upt_conv_Cons, simp)+
  then have s: "block_summaries = \<lparr>rows = (0, zero_hash) # (1, zero_hash) # map (\<lambda>i. (i, zero_hash)) [Suc (Suc 0)..<65536], next_instance = 1\<rparr>"
    by (simp only: block_summaries_def list.map One_nat_def)
  have "ran (apply_block sample_externals sample_env 2 1 (NOT 0) first_block
      (sample_start \<lparr>rows = (0, zero_hash) # (1, zero_hash) # xs, next_instance = 1\<rparr>))" for xs
    by code_simp
  note runs = this
  show ?thesis unfolding s by (rule runs)
qed

lemma sample_hashing_ok: "hashing_ok sample_env"
  by (simp add: hashing_ok_def sample_env_def)

section \<open>The properties\<close>

text \<open>C13: whatever the genesis state lists, a genesis that returns leaves every table well formed with its keys unique,
  no proposals, no negative balance and the books balanced: the initial supply of eight hundred million coins is the
  current supply of the core asset and all of it is held, before the first block.
  The code the program calls keeps its contract (\<open>externals_ok\<close>).\<close>

theorem genesis_is_sound:
  assumes "externals_ok E" and "genesis_chain E N G = Some (Inr c)"
  shows "chain_ok c \<and> no_debts c \<and> sound E c \<and> supply_of 0 c = Some GRAPHENE_INITIAL_SHARE_SUPPLY \<and>
    held 0 c = GRAPHENE_INITIAL_SHARE_SUPPLY \<and> rows (c_proposals c) = [] \<and> head_block_num c = 0"
proof -
  have g: "genesis_ok G c" using init_genesis_ok [OF assms(1)] assms(2) by (simp add: genesis_chain_def)
  then have "dp_head_block_number (budget_of c) = 0" by (simp add: genesis_ok_def genesis_dynamics_def)
  then have "head_block_num c = 0" by (simp add: budget_of_def)
  with g show ?thesis using genesis_sound [OF g] by (simp add: genesis_ok_def)
qed

theorem genesis_is_sound_witness:
  "genesis_chain sample_externals sample_genesis_env sample_genesis = Some (Inr (sample_start block_summaries)) \<and>
    held 0 (sample_start block_summaries) = 80000000000000000"
  using genesis_is_sound [OF sample_externals_ok sample_genesis_chain] sample_genesis_chain
  by (simp add: GRAPHENE_INITIAL_SHARE_SUPPLY_def)

text \<open>C4: on a chain of fewer than 545000 blocks from the genesis (\<open>VOTE_REWARD_FORK\<close>: the blocks 545000 to 563499 pay
  the voters of their miner without comparing the payments with the reward, and nothing is claimed from the first of them
  on), the coins of the core asset (what balances, vesting balances, the confidential supply and the accumulated fees
  hold, and the fees that wait to be paid out) are exactly the initial supply and the rewards of the blocks so far: no
  operation, proposal, pay or budget in between creates or destroys any, and there are never more than the maximum share
  supply. The code the program calls keeps its contract (\<open>externals_ok\<close>, \<open>hashing_ok\<close>), and the genesis returns.\<close>

theorem coins_from_genesis:
  assumes "externals_ok E" and "hashing_ok B" and "genesis_chain E N G = Some (Inr g)" and "chain_from E B k g c" and "k < 545000"
  shows "head_block_num c = word_of_nat k \<and> coins c = GRAPHENE_INITIAL_SHARE_SUPPLY + mined k \<and>
    coins c \<le> GRAPHENE_MAX_SHARE_SUPPLY"
proof -
  have g: "genesis_ok G g" using init_genesis_ok [OF assms(1)] assms(3) by (simp add: genesis_chain_def)
  note start = genesis_numbered [OF assms(2) g]
  have "clear_of_fork (unat (head_block_num g)) (unat (head_block_num g) + k)"
    using start assms(5) by (simp add: clear_of_fork_def VOTE_REWARD_FORK_def)
  note end' = chain_from_coins [OF assms(1,2,4) genesis_sound [OF g] start [THEN conjunct1] this]
  have "coins c = GRAPHENE_INITIAL_SHARE_SUPPLY + mined k" using start end' by (simp add: mined_sum)
  then show ?thesis
    using start end' mined_bounds [of k] assms(5)
    by (simp add: GRAPHENE_INITIAL_SHARE_SUPPLY_def GRAPHENE_MAX_SHARE_SUPPLY_def)
qed

theorem coins_from_genesis_witness:
  "\<exists>c. apply_block sample_externals sample_env 2 1 (NOT 0) first_block (sample_start block_summaries) = Some (Inr c) \<and>
    coins c = 80000003802281369"
proof -
  obtain c where c: "apply_block sample_externals sample_env 2 1 (NOT 0) first_block (sample_start block_summaries) = Some (Inr c)"
    using first_block_runs ran_iff by blast
  have one: "chain_from sample_externals sample_env (Suc 0) (sample_start block_summaries) c"
    by (rule chain_from.block [OF chain_from.stay c])
  have "mined (Suc 0) = 3802281369" by code_simp
  then show ?thesis
    using coins_from_genesis [OF sample_externals_ok sample_hashing_ok sample_genesis_chain one] c
    by (simp add: GRAPHENE_INITIAL_SHARE_SUPPLY_def)
qed

end
