(* ===== verification/Block_Termination.thy ===== *)
theory Block_Termination
  imports Monetary_Policy Sample_Block
begin

text \<open>
  Applying a block returns: the loop over the expired proposals ends, since each round takes an expired
  proposal away and executing one creates only proposals that expire later.
\<close>

section \<open>Expired proposals\<close>

definition expired :: "chain \<Rightarrow> nat set" where
  "expired c = fst ` set (filter (\<lambda>(i, p). po_expiration_time p \<le> head_block_time c) (rows (c_proposals c)))"

lemma finite_expired [simp]: "finite (expired c)"
  by (simp add: expired_def)

lemma expired_cong: "c_proposals c' = c_proposals c \<Longrightarrow> head_block_time c' = head_block_time c \<Longrightarrow> expired c' = expired c"
  by (simp add: expired_def)

lemma budget_of_time: "budget_of c' = budget_of c \<Longrightarrow> head_block_time c' = head_block_time c"
  using budget_of_head [of c' c] by (simp add: head_of_def)

lemma moved_expired: "moved c m c' \<Longrightarrow> expired c' = expired c \<and> head_block_time c' = head_block_time c"
  using budget_of_time [of c' c] expired_cong [of c' c] by (simp add: moved_def)

lemma expired_remove:
  "tbl_remove p (c_proposals c) = Inr t \<Longrightarrow> expired (c\<lparr>c_proposals := t\<rparr>) = expired c - {p}"
  by (auto simp: expired_def elim!: tbl_removeD)

definition fewer_expired :: "externals \<Rightarrow> chain \<Rightarrow> chain \<Rightarrow> bool" where
  "fewer_expired E c c' \<longleftrightarrow> chain_ok c' \<and> proposals_ok E c' \<and> head_block_time c' = head_block_time c \<and> expired c' \<subseteq> expired c"

lemma flat_apply_fewer_expired:
  assumes "externals_ok E" and "chain_ok c" and "\<not> is_update op" and "do_apply_op E push tx op c = Some (Inr c')"
    and "operation_validate E op = Inr ()" and "asset_id (op_fee op) = 0" and "evaluate_op E fl op c0 = Inr ()"
    and "head_block_time c0 = head_block_time c"
  shows "head_block_time c' = head_block_time c \<and> expired c' \<subseteq> expired c"
proof (cases "touches_proposals op")
  case False
  then show ?thesis using moved_expired [OF simple_operation_moved [OF assms(1,2) _ assms(4-6)]] by simp
next
  case True
  then consider (create) fee payer ops t r where "op = Proposal_Create fee payer ops t r" | (delete) x where "op = Proposal_Delete x"
    using assms(3) by (cases op) auto
  then show ?thesis
  proof cases
    case create
    then obtain i tb where tb: "tbl_create no_clash (new_proposal ops t r) (c_proposals c) = Inr (i, tb)" and c': "c' = c\<lparr>c_proposals := tb\<rparr>"
      using assms(4) by (auto simp: proposal_create_do_apply_def res_simps)
    have "head_block_time c < po_expiration_time (new_proposal ops t r)"
      using assms(7,8) create by (auto simp: proposal_create_do_evaluate_def Let_def res_simps new_proposal_def split: prod.splits)
    then show ?thesis using tbl_createD(2) [OF tb] by (auto simp: expired_def c')
  next
    case delete
    then show ?thesis
      using assms(4) expired_remove by (auto simp: proposal_delete_do_apply_def res_simps)
  qed
qed

lemma flat_operation_fewer_expired:
  assumes "externals_ok E" and "chain_ok c" and "proposals_ok E c" and "\<not> skip_fee fl" and "operation_validate E op = Inr ()"
    and "\<not> is_update op" and "apply_operation E (Suc n) fl tx op c = Some (Inr c')"
  shows "fewer_expired E c c'"
proof -
  note ops = externals_okD [OF assms(1)]
  let ?f = "amount (op_fee op)"
  obtain c1 c2 where fee: "check_fee E fl op c = Some (Inr ())" and ev: "evaluate_op E fl op c = Inr ()"
    and pay: "pay_fee (nops E) fl ?f c = Inr c1" and ap: "do_apply_op E (push_proposal E (apply_operation E n)) tx op c1 = Some (Inr c2)"
    and adj: "adjust_balance (nops E) (op_fee_payer op) \<lparr>amount = - ?f, asset_id = asset_id (op_fee op)\<rparr> c2 = Inr c'"
    using assms(7) asset_neg_eq [OF ops] by (fastforce simp: run_evaluator_def run_bind_eq_Inr res_simps)
  have core: "asset_id (op_fee op) = 0" by (rule check_fee_core(1) [OF fee])
  note m1 = pay_fee_moved [OF ops assms(2) pay assms(4)]
  have e2: "head_block_time c2 = head_block_time c1 \<and> expired c2 \<subseteq> expired c1"
    by (rule flat_apply_fewer_expired [OF assms(1) moved_ok [OF m1] assms(6) ap assms(5) core ev]) (use moved_expired [OF m1] in simp)
  have "c_proposals c' = c_proposals c2 \<and> budget_of c' = budget_of c2"
    using adj by (auto simp: adjust_balance_def res_simps budget_of_def split: if_splits option.splits)
  then have "head_block_time c' = head_block_time c2" "expired c' = expired c2"
    using budget_of_time expired_cong by blast+
  moreover have "conserves c c' \<and> proposals_ok E c'" by (rule apply_operation_conserves [OF assms(1-5,7)])
  ultimately show ?thesis using e2 moved_expired [OF m1] by (simp add: fewer_expired_def conserves_def)
qed

lemma executed_proposal_expired:
  assumes "externals_ok E" and "chain_ok c" and "proposals_ok E c" and "push_proposal E (apply_operation E (Suc n)) p c = Some (Inr c')"
  shows "fewer_expired E c c' \<and> p \<notin> expired c'"
proof -
  let ?fl = "\<lparr>skip_fee = False, skip_fee_schedule_check = False, is_proposed_trx = True\<rparr>"
  obtain pr c1 tb where pr: "tbl_find p (c_proposals c) = Some pr"
    and run: "run_ops (apply_operation E (Suc n) ?fl (trx_id E (po_proposed_transaction pr))) (Some p) (tr_operations (po_proposed_transaction pr)) c = Some (Inr c1)"
    and tb: "tbl_remove p (c_proposals c1) = Inr tb" and c': "c' = c1\<lparr>c_proposals := tb\<rparr>"
    using assms(4) by (auto simp: push_proposal_def run_bind_eq_Inr Let_def tbl_get_def res_simps)
  have "(p, pr) \<in> set (rows (c_proposals c))" using pr by (auto simp: tbl_find_def dest: map_of_SomeD)
  then have sound: "sound_ops E (tr_operations (po_proposed_transaction pr))" using assms(3) by (auto simp: proposals_ok_def)
  have "fewer_expired E c c1"
  proof (rule run_ops_invariant [OF run])
    show "fewer_expired E c c" using assms(2,3) by (simp add: fewer_expired_def)
  next
    fix x d d' assume x: "x \<in> set (tr_operations (po_proposed_transaction pr))" and d: "fewer_expired E c d"
      and ap: "apply_operation E (Suc n) ?fl (trx_id E (po_proposed_transaction pr)) x d = Some (Inr d')"
    have ok: "chain_ok d" "proposals_ok E d" using d by (auto simp: fewer_expired_def)
    have "operation_validate E x = Inr ()" "\<not> is_update x" using sound x by (auto simp: sound_ops_def)
    then have "fewer_expired E d d'" by (intro flat_operation_fewer_expired [OF assms(1) ok _ _ _ ap]) simp_all
    then show "fewer_expired E c d'" using d by (auto simp: fewer_expired_def)
  qed
  moreover have "conserves c c' \<and> proposals_ok E c'"
    by (rule push_proposal_conserves [OF assms(2-4)]) (rule apply_operation_conserves [OF assms(1)])
  ultimately show ?thesis using expired_remove [OF tb] by (auto simp: c' fewer_expired_def conserves_def)
qed

section \<open>The loop\<close>

lemma first_expiring_expired:
  "first_expiring B c = Some (p, x) \<Longrightarrow> po_expiration_time x \<le> head_block_time c \<Longrightarrow> p \<in> expired c"
  by (force simp: first_expiring_def Let_def expired_def tbl_find_def dest: map_of_SomeD split: list.splits)

lemma clear_expired_proposals_returns:
  assumes "externals_ok E"
  shows "chain_ok c \<Longrightarrow> proposals_ok E c \<Longrightarrow> card (expired c) < m \<Longrightarrow> card (expired c) < k \<Longrightarrow>
    clear_expired_proposals E B (n + 2) m c = clear_expired_proposals E B 2 k c \<and> clear_expired_proposals E B 2 k c \<noteq> None"
proof (induction "card (expired c)" arbitrary: c m k rule: less_induct)
  case less
  obtain m' k' where mk: "m = Suc m'" "k = Suc k'" using less.prems(3,4) by (cases m; cases k) auto
  let ?more = "\<lambda>c'. clear_expired_proposals E B (n + 2) m' c' = clear_expired_proposals E B 2 k' c' \<and> clear_expired_proposals E B 2 k' c' \<noteq> None"
  have step: "?more c'" if "chain_ok c'" "proposals_ok E c'" "card (expired c') < card (expired c)" for c'
    by (rule less.hyps [OF that(3,1,2)]) (use that(3) less.prems(3,4) mk in linarith)+
  show ?case
  proof (cases "first_expiring B c")
    case None
    then show ?thesis by (simp add: mk)
  next
    case (Some px)
    obtain p x where px: "px = (p, x)" by (cases px)
    show ?thesis
    proof (cases "po_expiration_time x \<le> head_block_time c")
      case False
      then show ?thesis using Some px by (simp add: mk)
    next
      case True
      have p: "p \<in> expired c" by (rule first_expiring_expired [OF Some [unfolded px] True])
      let ?drop = "\<lambda>n m. run_bind (Some (tbl_remove p (c_proposals c))) (\<lambda>t. clear_expired_proposals E B n m (c\<lparr>c_proposals := t\<rparr>))"
        and ?push = "\<lambda>n. push_proposal E (apply_operation E n) p c"
      have drop: "?drop (n + 2) m' = ?drop 2 k' \<and> ?drop 2 k' \<noteq> None"
      proof (rule run_bind_same [OF option.distinct(2)])
        fix t assume "Some (tbl_remove p (c_proposals c)) = Some (Inr t)"
        then have t: "tbl_remove p (c_proposals c) = Inr t" by simp
        have "chain_ok (c\<lparr>c_proposals := t\<rparr>)" "proposals_ok E (c\<lparr>c_proposals := t\<rparr>)"
          using less.prems(1,2) plain.remove_keeps [OF chain_ok_parts(9) [OF less.prems(1)] t] t
          by (auto simp: chain_ok_def proposals_ok_def elim!: tbl_removeD)
        moreover have "card (expired (c\<lparr>c_proposals := t\<rparr>)) < card (expired c)"
          using expired_remove [OF t] p by (simp add: card_Diff1_less del: card_Diff_insert)
        ultimately show "?more (c\<lparr>c_proposals := t\<rparr>)" by (rule step)
      qed
      have push: "?push (n + 2) = ?push 2 \<and> ?push 2 \<noteq> None"
        using push_proposal_returns [OF assms less.prems(2), of "Suc n" p] push_proposal_returns [OF assms less.prems(2), of "Suc 0" p]
        by (simp add: numeral_2_eq_2 del: not_None_eq)
      have pushed: "?more c1" if "?push 2 = Some (Inr c1)" for c1
      proof -
        have f: "fewer_expired E c c1 \<and> p \<notin> expired c1"
          by (rule executed_proposal_expired [OF assms less.prems(1,2), of "Suc 0"]) (use that in \<open>simp add: numeral_2_eq_2\<close>)
        then have "card (expired c1) < card (expired c)" using p by (intro psubset_card_mono) (auto simp: fewer_expired_def)
        then show ?thesis using f step [of c1] by (simp add: fewer_expired_def)
      qed
      show ?thesis
        using Some px True drop push pushed
        by (cases "?push 2"; cases "the (?push 2)") (simp_all add: mk Let_def del: not_None_eq)
    qed
  qed
qed

section \<open>Whole blocks\<close>

lemma apply_transactions_returns:
  assumes "externals_ok E"
  shows "chain_ok c \<Longrightarrow> proposals_ok E c \<Longrightarrow>
    apply_transactions E (n + 2) skip ts c = apply_transactions E 2 skip ts c \<and> apply_transactions E 2 skip ts c \<noteq> None"
proof (induction ts arbitrary: c)
  case (Cons trx ts)
  note trans = transaction_returns [OF assms Cons.prems, of n skip trx]
  have "apply_transactions E (n + 2) skip ts d = apply_transactions E 2 skip ts d \<and> apply_transactions E 2 skip ts d \<noteq> None"
    if "apply_transaction E 2 skip trx c = Some (Inr d)" for d
    using apply_transaction_conserves [OF assms Cons.prems that] by (intro Cons.IH) (simp_all add: conserves_def)
  then have "run_bind (apply_transaction E 2 skip trx c) (apply_transactions E (n + 2) skip ts) =
      run_bind (apply_transaction E 2 skip trx c) (apply_transactions E 2 skip ts) \<and>
    run_bind (apply_transaction E 2 skip trx c) (apply_transactions E 2 skip ts) \<noteq> None"
    by (intro run_bind_same trans [THEN conjunct2])
  then show ?case using trans by (simp del: not_None_eq)
qed simp

lemma enough_fuel:
  \<comment> \<open>a sequence returns with enough fuel when its second part does\<close>
  assumes "\<And>n. f n = f 0 \<and> f 0 \<noteq> None"
    and "\<And>x. f 0 = Some (Inr x) \<Longrightarrow> \<exists>k. \<forall>n m. k \<le> m \<longrightarrow> g n m x = g 0 k x \<and> g 0 k x \<noteq> None"
  shows "\<exists>k. \<forall>n m. k \<le> m \<longrightarrow> run_bind (f n) (g n m) = run_bind (f 0) (g 0 k) \<and> run_bind (f 0) (g 0 k) \<noteq> None"
proof (cases "the (f 0)")
  case (Inl e)
  then have "f n = Some (Inl e)" for n using assms(1) [of n] by (metis option.collapse)
  then show ?thesis by simp
next
  case (Inr x)
  then have f: "f n = Some (Inr x)" for n using assms(1) [of n] by (metis option.collapse)
  then show ?thesis using assms(2) [OF f] by simp
qed

lemma finish_block_returns:
  assumes "externals_ok E" and "sound E c" and "number_of_block B b < VOTE_REWARD_FORK \<or> VOTE_REWARD_CHECK \<le> number_of_block B b"
  shows "\<exists>k. \<forall>n m. k \<le> m \<longrightarrow> finish_block E B (n + 2) m skip maint b c = finish_block E B (0 + 2) k skip maint b c \<and>
    finish_block E B (0 + 2) k skip maint b c \<noteq> None"
  unfolding finish_block_def
proof (rule enough_fuel [where f = "\<lambda>_. Some _"])
  fix c6 assume "Some (res_bind (update_global_dynamic_data B skip b c) (\<lambda>c1.
       res_bind (update_signing_miner E B (miner_of b) b c1) (\<lambda>c2.
       res_bind (update_last_irreversible_block c2) (\<lambda>c3.
       res_bind (if maint then perform_chain_maintenance E B b c3 else Inr c3) (\<lambda>c4.
       res_bind (create_block_summary B b c4) clear_expired_transactions))))) = Some (Inr c6)"
  then have "sound E c6"
    using finish_block_before_proposals [OF assms] by (simp only: res_bind_eq_Inr option.inject) blast
  then have ok: "chain_ok c6" "proposals_ok E c6" by (simp_all add: sound_def)
  let ?k = "Suc (card (expired c6))" and ?fin = "\<lambda>c. Some (update_miner_schedule (update_maintenance_flag maint c))"
  show "\<exists>k. \<forall>n m. k \<le> m \<longrightarrow>
      run_bind (clear_expired_proposals E B (n + 2) m c6) ?fin = run_bind (clear_expired_proposals E B (0 + 2) k c6) ?fin \<and>
      run_bind (clear_expired_proposals E B (0 + 2) k c6) ?fin \<noteq> None"
  proof (intro exI [of _ ?k] allI impI)
    fix n m :: nat assume m: "?k \<le> m"
    have fuel: "clear_expired_proposals E B (n + 2) m c6 = clear_expired_proposals E B 2 ?k c6 \<and> clear_expired_proposals E B 2 ?k c6 \<noteq> None"
      by (rule clear_expired_proposals_returns [OF assms(1) ok]) (use m in auto)
    show "run_bind (clear_expired_proposals E B (n + 2) m c6) ?fin = run_bind (clear_expired_proposals E B (0 + 2) ?k c6) ?fin \<and>
        run_bind (clear_expired_proposals E B (0 + 2) ?k c6) ?fin \<noteq> None"
      unfolding add_0 fuel [THEN conjunct1] using fuel [THEN conjunct2]
      by (simp add: run_bind_eq_None del: not_None_eq clear_expired_proposals.simps)
  qed
qed simp

text \<open>C12: applying a block to a sound chain (balanced books, well-formed indexes and proposals) always returns, with a result or
  an exception: two levels of calls for the operations and one round for each expired proposal and one more are enough
  fuel, and more changes nothing, although the proposals that are executed may create others.  The blocks 545000 to 563499,
  which pay the voters without comparing the payments with the reward, are left aside, and the code the program calls keeps
  its contract (\<open>externals_ok\<close>).\<close>

theorem blocks_always_return:
  assumes "externals_ok E" and "sound E c"
    and "number_of_block B b < VOTE_REWARD_FORK \<or> VOTE_REWARD_CHECK \<le> number_of_block B b"
  shows "\<exists>k. \<forall>n m. k \<le> m \<longrightarrow> apply_block E B (n + 2) m skip b c = apply_block E B 2 k skip b c \<and>
    apply_block E B 2 k skip b c \<noteq> None"
proof -
  have ok: "chain_ok c" "proposals_ok E c" using assms(2) by (auto simp: sound_def)
  have with_flags: "\<exists>k. \<forall>n m. k \<le> m \<longrightarrow> apply_block_with E B (n + 2) m flags b c = apply_block_with E B (0 + 2) k flags b c \<and>
      apply_block_with E B (0 + 2) k flags b c \<noteq> None" for flags
    unfolding apply_block_with_def
  proof (rule enough_fuel [where f = "\<lambda>_. Some _"])
    let ?flags = "flags OR skip_transaction_signatures" and ?due = "dp_next_maintenance_time (c_dynamic c) \<le> timestamp b"
    show "\<exists>k. \<forall>n m. k \<le> m \<longrightarrow>
        run_bind (apply_transactions E (n + 2) ?flags (transactions b) c) (finish_block E B (n + 2) m flags ?due b) =
        run_bind (apply_transactions E (0 + 2) ?flags (transactions b) c) (finish_block E B (0 + 2) k flags ?due b) \<and>
        run_bind (apply_transactions E (0 + 2) ?flags (transactions b) c) (finish_block E B (0 + 2) k flags ?due b) \<noteq> None"
    proof (rule enough_fuel)
      show "apply_transactions E (n + 2) ?flags (transactions b) c = apply_transactions E (0 + 2) ?flags (transactions b) c \<and>
          apply_transactions E (0 + 2) ?flags (transactions b) c \<noteq> None" for n
        using apply_transactions_returns [OF assms(1) ok] by (simp del: not_None_eq)
    next
      fix c1 assume "apply_transactions E (0 + 2) ?flags (transactions b) c = Some (Inr c1)"
      then show "\<exists>k. \<forall>n m. k \<le> m \<longrightarrow> finish_block E B (n + 2) m flags ?due b c1 = finish_block E B (0 + 2) k flags ?due b c1 \<and>
          finish_block E B (0 + 2) k flags ?due b c1 \<noteq> None"
        by (intro finish_block_returns [OF assms(1) apply_transactions_sound [OF assms(1,2)] assms(3)])
    qed
  qed simp
  have "\<exists>k. \<forall>n m. k \<le> m \<longrightarrow> apply_block E B (n + 2) m skip b c = apply_block E B (0 + 2) k skip b c \<and>
      apply_block E B (0 + 2) k skip b c \<noteq> None"
    unfolding apply_block_def by (rule enough_fuel [where f = "\<lambda>_. Some _"]) (simp, rule with_flags)
  then show ?thesis by (simp only: add_0)
qed

theorem blocks_always_return_witness:
  "\<exists>k. apply_block sample_externals sample_env 2 k 0 sample_block sample_ledger \<noteq> None"
proof -
  have "number_of_block sample_env sample_block < VOTE_REWARD_FORK" by code_simp
  then show ?thesis using blocks_always_return [OF sample_externals_ok sample_ledger_sound, of sample_env sample_block 0] by (metis order_refl)
qed

end
