(* ===== verification/Synchronisation.thy ===== *)
theory Synchronisation
  imports Node
begin

text \<open>
  What a node says to another one about its chain (\<open>libraries/app/application.cpp\<close>, the part of
  \<open>application_impl\<close> that is the delegate of the network): which blocks it has, a synopsis of them, and the answer
  to the synopsis of a peer.  Signals to the user interface are left out; log lines are taken to be enabled where
  building their text can throw.
\<close>

definition num_of_id :: "node_env \<Rightarrow> block_id \<Rightarrow> 32 word" where
  "num_of_id N = num_from_id (be_reverse (ne_block N))"

definition last_non_undoable_block_num :: "node \<Rightarrow> 32 word" where
  "last_non_undoable_block_num nd = head_block_num (nd_chain nd) - word_of_nat (length (nd_undo nd))"

section \<open>Items\<close>

record item_id =
  it_type :: "32 word"
  it_hash :: block_id

definition block_message_type :: "32 word" where "block_message_type = 1001"

text \<open>Every other type stands for a transaction.  A transaction is looked up by the number that its hash is in the model.\<close>

definition has_item :: "node_env \<Rightarrow> (block_id \<Rightarrow> nat) \<Rightarrow> item_id \<Rightarrow> node \<Rightarrow> bool" where
  "has_item N trx_hash i nd =
     (if it_type i = block_message_type then db_is_known_block N (it_hash i) nd
      else is_known_transaction (trx_hash (it_hash i)) (nd_chain nd))"

definition get_item :: "node_env \<Rightarrow> (block_id \<Rightarrow> nat) \<Rightarrow> item_id \<Rightarrow> node \<Rightarrow> (block + signed_transaction) res" where
  \<comment> \<open>a missing block is an assertion, but the message for it asks for the block of that number, which may throw first\<close>
  "get_item N trx_hash i nd =
     (if it_type i = block_message_type
      then case fetch_block_by_id N (it_hash i) nd of
             None \<Rightarrow> res_bind (get_block_id_for_num (num_of_id N (it_hash i)) nd) (\<lambda>_. Inl Assert_Exception)
           | Some b \<Rightarrow> Inr (Inl b)
      else res_bind (get_recent_transaction (trx_hash (it_hash i)) (nd_chain nd)) (\<lambda>t. Inr (Inr t)))"

definition get_block_time :: "node_env \<Rightarrow> block_id \<Rightarrow> node \<Rightarrow> time" where
  "get_block_time N i nd = (case fetch_block_by_id N i nd of None \<Rightarrow> 0 | Some b \<Rightarrow> timestamp b)"

definition handle_block :: "node_env \<Rightarrow> bool \<Rightarrow> (signed_transaction \<Rightarrow> nat) \<Rightarrow> bool \<Rightarrow> block \<Rightarrow> (bool \<times> nat list) step" where
  \<comment> \<open>\<open>validating\<close>: the node produces blocks or validates all of them; the second result are the messages
     it need not fetch any more.  The log line for a block looks its miner up.\<close>
  "handle_block N validating message_id sync_mode b =
     nd_bind (nd_lift (\<lambda>nd. if \<not> sync_mode \<or> number_of_block (ne_block N) b mod 10000 = 0
                then res_bind (tbl_get (miner_of b) (c_miners (nd_chain nd))) (\<lambda>w.
                     res_bind (tbl_get (mo_account w) (c_accounts (nd_chain nd))) (\<lambda>_. Inr ()))
                else Inr ())) (\<lambda>_.
     nd_bind (nd_catch (push_block N (if validating then 0 else skip_transaction_signatures) b)
                (\<lambda>e. nd_throw (if e = Unlinkable_Block then Net_Unlinkable_Block else e))) (\<lambda>result.
     nd_return (result, if sync_mode then [] else map message_id (transactions b))))"

definition handle_transaction :: "node_env \<Rightarrow> signed_transaction \<Rightarrow> unit step" where
  "handle_transaction N trx = push_transaction N 0 trx"

section \<open>The answer to a synopsis\<close>

definition is_included_block :: "node_env \<Rightarrow> block_id \<Rightarrow> node \<Rightarrow> bool res" where
  "is_included_block N i nd = res_bind (get_block_id_for_num (num_of_id N i) nd) (\<lambda>preferred. Inr (i = preferred))"

fun last_known_block :: "node_env \<Rightarrow> node \<Rightarrow> block_id list \<Rightarrow> block_id res" where
  \<comment> \<open>the loop over the reversed synopsis\<close>
  "last_known_block N nd [] = Inl Peer_Is_On_An_Unreachable_Fork"
| "last_known_block N nd (i # is) =
     (if i = zero_hash then Inr i
      else if \<not> db_is_known_block N i nd then last_known_block N nd is
      else res_bind (is_included_block N i nd) (\<lambda>included. if included then Inr i else last_known_block N nd is))"

function block_ids_from :: "(32 word \<Rightarrow> block_id res) \<Rightarrow> 32 word \<Rightarrow> 32 word \<Rightarrow> nat \<Rightarrow> block_id list res" where
  \<comment> \<open>\<open>for( num; num <= head && result.size() < limit; ++num ) if( num > 0 )\<close>, \<open>room\<close> being what is left of the limit\<close>
  "block_ids_from get head num room =
     (if num \<le> head \<and> room > 0 then
        if num > 0 then res_bind (get num) (\<lambda>i. res_bind (block_ids_from get head (num + 1) (room - 1)) (\<lambda>is. Inr (i # is)))
        else block_ids_from get head (num + 1) room
      else Inr [])"
  by auto
termination by (relation "measure (\<lambda>(get, head, num, room). 2 * room + (if num = 0 then 1 else 0))") (auto simp: word_gt_0)

declare block_ids_from.simps [simp del]

definition get_block_ids :: "node_env \<Rightarrow> block_id list \<Rightarrow> 32 word \<Rightarrow> node \<Rightarrow> (block_id list \<times> 32 word) res" where
  \<comment> \<open>with the number of remaining items\<close>
  "get_block_ids N blockchain_synopsis limit nd =
     (let head = head_block_num (nd_chain nd)
      in if head = 0 then Inr ([], 0)
         else res_bind (if blockchain_synopsis = [] \<or> blockchain_synopsis = [zero_hash] then Inr zero_hash
                        else last_known_block N nd (rev blockchain_synopsis)) (\<lambda>last_known.
              res_bind (block_ids_from (\<lambda>n. get_block_id_for_num n nd) head (num_of_id N last_known) (unat limit)) (\<lambda>result.
              Inr (result, if result \<noteq> [] \<and> num_of_id N (last result) < head then head - num_of_id N (last result) else 0))))"

section \<open>The synopsis\<close>

record synopsis_range =
  low_block_num :: "32 word"
  non_fork_high_block_num :: "32 word"
  high_block_num :: "32 word"
  fork_history :: "block_id list"

definition synopsis_range_of :: "node_env \<Rightarrow> block_id \<Rightarrow> node \<Rightarrow> synopsis_range res option" where
  "synopsis_range_of N reference_point nd =
     (let low = last_non_undoable_block_num nd
      in if reference_point \<noteq> zero_hash then
           case is_included_block N reference_point nd of
             Inl e \<Rightarrow> Some (Inl e)
           | Inr True \<Rightarrow>
               let n = num_of_id N reference_point
               in Some (Inr \<lparr>low_block_num = (if n < low then n else low), non_fork_high_block_num = n, high_block_num = n,
                    fork_history = []\<rparr>)
           | Inr False \<Rightarrow>
               (case get_block_ids_on_fork N reference_point nd of
                  None \<Rightarrow> None
                | Some (Inl e) \<Rightarrow> Some (Inl e)
                | Some (Inr ids) \<Rightarrow>
                    let history = rev (butlast ids);
                        n = (if last ids = zero_hash then 0 else num_of_id N (last ids))
                    in if n < low then Some (Inl Block_Older_Than_Undo_History)
                       else Some (Inr \<lparr>low_block_num = low, non_fork_high_block_num = n,
                              high_block_num = n + word_of_nat (length history), fork_history = history\<rparr>))
         else let n = head_block_num (nd_chain nd)
              in Some (Inr \<lparr>low_block_num = low, non_fork_high_block_num = n, high_block_num = n, fork_history = []\<rparr>))"

definition synopsis_block :: "synopsis_range \<Rightarrow> node \<Rightarrow> 32 word \<Rightarrow> block_id res" where
  \<comment> \<open>an element behind the end of the vector \<open>fork_history\<close> is undefined behaviour\<close>
  "synopsis_block r nd n =
     (if n \<le> non_fork_high_block_num r then get_block_id_for_num n nd
      else let k = unat (n - non_fork_high_block_num r - 1)
           in if k < length (fork_history r) then Inr (fork_history r ! k) else Inl Undefined_Behaviour)"

partial_function (option) synopsis_loop ::
  "(32 word \<Rightarrow> block_id res) \<Rightarrow> 32 word \<Rightarrow> 32 word \<Rightarrow> 32 word \<Rightarrow> block_id list res option" where
  [code]: "synopsis_loop block true_high high low0 =
     (let low = (if low0 = 0 then low0 + 1 else low0);
          low1 = low + (true_high - low + 2) div 2
      in case block low of
           Inl e \<Rightarrow> Some (Inl e)
         | Inr i \<Rightarrow> if low1 \<le> high then Option.bind (synopsis_loop block true_high high low1) (\<lambda>r. Some (res_bind r (\<lambda>is. Inr (i # is))))
                  else Some (Inr [i]))"

definition get_blockchain_synopsis :: "node_env \<Rightarrow> block_id \<Rightarrow> 32 word \<Rightarrow> node \<Rightarrow> block_id list res option" where
  "get_blockchain_synopsis N reference_point number_of_blocks_after_reference_point nd =
     (if reference_point = zero_hash \<and> head_block_num (nd_chain nd) = 0 then Some (Inr [])
      else case synopsis_range_of N reference_point nd of
             None \<Rightarrow> None
           | Some (Inl e) \<Rightarrow> Some (Inl e)
           | Some (Inr r) \<Rightarrow>
               synopsis_loop (synopsis_block r nd) (high_block_num r + number_of_blocks_after_reference_point)
                 (high_block_num r) (low_block_num r))"

end
