(* ===== verification/Synopsis_Numbers.thy ===== *)
theory Synopsis_Numbers
  imports Synchronisation
begin

text \<open>
  The block numbers that the loop of \<open>get_blockchain_synopsis\<close> visits, as a list of natural numbers: they increase, end
  with the last number, are few, and lie close to every number in between.
\<close>

section \<open>The numbers in a synopsis\<close>

definition halfway :: "nat \<Rightarrow> nat \<Rightarrow> nat" where "halfway t l = l + (t - l + 2) div 2"

lemma halfway_cases:
  obtains q where "halfway t l = l + q" and "0 < q" and "2 * q \<le> t - l + 2" and "t - l + 1 \<le> 2 * q"
proof
  show "halfway t l = l + (t - l + 2) div 2" by (simp add: halfway_def)
qed simp_all

lemma halfway_up: "l < halfway t l"
  by (cases rule: halfway_cases [of t l]) simp

lemma halfway_le: "l < t \<Longrightarrow> halfway t l \<le> t"
  by (cases rule: halfway_cases [of t l]) linarith

lemma halfway_rest:
  assumes "halfway t l \<le> t"
  shows "2 * (t - halfway t l + 1) \<le> t - l + 1"
proof (cases rule: halfway_cases [of t l])
  case (1 q)
  with assms obtain d where "t = l + q + d" using le_iff_add by auto
  then show ?thesis using 1 by simp
qed

lemma before_halfway: "m < halfway t l \<Longrightarrow> m \<le> t \<Longrightarrow> m - l \<le> t - m + 1"
  by (cases rule: halfway_cases [of t l]) linarith

function synopsis_nums :: "nat \<Rightarrow> nat \<Rightarrow> nat \<Rightarrow> nat list" where
  \<comment> \<open>halving the distance to the end\<close>
  "synopsis_nums t h l = l # (if halfway t l \<le> h then synopsis_nums t h (halfway t l) else [])"
  by auto
termination
proof (relation "measure (\<lambda>(t, h, l). h + 1 - l)")
  show "((t, h, halfway t l), t, h, l) \<in> measure (\<lambda>(t, h, l). h + 1 - l)" if "halfway t l \<le> h" for t h l
    using that halfway_up [of l t] by simp
qed simp

declare synopsis_nums.simps [simp del]

lemma synopsis_nums_stop: "h < halfway t l \<Longrightarrow> synopsis_nums t h l = [l]"
  by (subst synopsis_nums.simps) simp

lemma synopsis_nums_step: "halfway t l \<le> h \<Longrightarrow> synopsis_nums t h l = l # synopsis_nums t h (halfway t l)"
  by (subst synopsis_nums.simps) simp

lemma synopsis_nums_not_Nil [simp]: "synopsis_nums t h l \<noteq> []"
  by (subst synopsis_nums.simps) simp

lemma synopsis_nums_range: "l \<le> h \<Longrightarrow> n \<in> set (synopsis_nums t h l) \<Longrightarrow> l \<le> n \<and> n \<le> h"
proof (induction t h l rule: synopsis_nums.induct)
  case (1 t h l)
  show ?case
  proof (cases "halfway t l \<le> h")
    case True
    then have "n = l \<or> halfway t l \<le> n \<and> n \<le> h" using 1 by (auto simp: synopsis_nums_step [OF True])
    then show ?thesis using halfway_up [of l t] 1(2) by auto
  qed (use 1 in \<open>simp add: synopsis_nums_stop not_le\<close>)
qed

lemma synopsis_nums_sorted: "l \<le> h \<Longrightarrow> sorted_wrt (<) (synopsis_nums t h l)"
proof (induction t h l rule: synopsis_nums.induct)
  case (1 t h l)
  show ?case
  proof (cases "halfway t l \<le> h")
    case True
    have "l < n" if "n \<in> set (synopsis_nums t h (halfway t l))" for n
      using synopsis_nums_range [OF True that] halfway_up [of l t] by simp
    then show ?thesis using 1 True by (simp add: synopsis_nums_step [OF True])
  qed (simp add: synopsis_nums_stop not_le)
qed

lemma synopsis_nums_last: "l \<le> h \<Longrightarrow> t = h \<Longrightarrow> last (synopsis_nums t h l) = h"
proof (induction t h l rule: synopsis_nums.induct)
  case (1 t h l)
  show ?case
  proof (cases "halfway t l \<le> h")
    case True
    then show ?thesis using 1 by (simp add: synopsis_nums_step)
  next
    case False
    then have "l = h" using 1(2,3) halfway_le [of l t] by linarith
    then show ?thesis using False by (simp add: synopsis_nums_stop not_le)
  qed
qed

lemma synopsis_nums_length: "l \<le> h \<Longrightarrow> h \<le> t \<Longrightarrow> 2 ^ (length (synopsis_nums t h l) - 1) \<le> t - l + 1"
proof (induction t h l rule: synopsis_nums.induct)
  case (1 t h l)
  show ?case
  proof (cases "halfway t l \<le> h")
    case True
    let ?k = "length (synopsis_nums t h (halfway t l)) - 1"
    have "length (synopsis_nums t h l) - 1 = Suc ?k"
      by (simp add: synopsis_nums_step [OF True] Suc_le_eq)
    then have "(2::nat) ^ (length (synopsis_nums t h l) - 1) = 2 * 2 ^ ?k" by (simp only: power_Suc)
    also have "\<dots> \<le> 2 * (t - halfway t l + 1)" using 1(1) [OF True True 1(3)] by simp
    also have "\<dots> \<le> t - l + 1" using True 1(3) by (intro halfway_rest) simp
    finally show ?thesis .
  qed (simp add: synopsis_nums_stop not_le)
qed

lemma synopsis_nums_near:
  \<comment> \<open>the last number up to \<open>m\<close> is about as far below it as the end is above it\<close>
  "l \<le> m \<Longrightarrow> m \<le> h \<Longrightarrow> h \<le> t \<Longrightarrow>
    \<exists>k as bs. synopsis_nums t h l = as @ k # bs \<and> l \<le> k \<and> k \<le> m \<and> (\<forall>n \<in> set bs. m < n) \<and> m - k \<le> t - m + 1"
proof (induction t h l rule: synopsis_nums.induct)
  case (1 t h l)
  show ?case
  proof (cases "halfway t l \<le> m")
    case True
    then have h: "halfway t l \<le> h" using 1(3) by simp
    from 1(1) [OF this True 1(3,4)] obtain k as bs where k: "synopsis_nums t h (halfway t l) = as @ k # bs" "halfway t l \<le> k" "k \<le> m"
      "\<forall>n \<in> set bs. m < n" "m - k \<le> t - m + 1"
      by blast
    have "synopsis_nums t h l = (l # as) @ k # bs" using k(1) by (simp add: synopsis_nums_step [OF h])
    moreover have "l \<le> k" using halfway_up [of l t] k(2) by simp
    ultimately show ?thesis using k by blast
  next
    case False
    have near: "m - l \<le> t - m + 1" using False 1(3,4) by (intro before_halfway) auto
    obtain bs where "synopsis_nums t h l = [] @ l # bs" and "\<forall>n \<in> set bs. m < n"
    proof (cases "halfway t l \<le> h")
      case True
      have "m < n" if "n \<in> set (synopsis_nums t h (halfway t l))" for n
        using synopsis_nums_range [OF True that] False by simp
      with that [of "synopsis_nums t h (halfway t l)"] show ?thesis by (simp add: synopsis_nums_step [OF True])
    qed (use that [of "[]"] in \<open>simp add: synopsis_nums_stop not_le\<close>)
    then show ?thesis using near 1(2) by blast
  qed
qed

lemma unat_halfway:
  assumes "unat t + 2 < 2 ^ 32" and "l \<le> (t :: 32 word)"
  shows "unat (l + (t - l + 2) div 2) = halfway (unat t) (unat l)"
proof -
  have "unat (t - l) = unat t - unat l" using assms(2) by (rule unat_sub)
  then have "unat (t - l + 2) = unat t - unat l + 2" using assms(1) by (subst unat_add_lem [THEN iffD1]) simp_all
  then have half: "unat ((t - l + 2) div 2) = (unat t - unat l + 2) div 2" by (simp only: unat_div unat_numeral) simp
  have "unat l \<le> unat t" using assms(2) by (simp add: word_le_nat_alt)
  then have "unat l + (unat t - unat l + 2) div 2 < 2 ^ 32" using assms(1) by linarith
  then show ?thesis using half by (subst unat_add_lem [THEN iffD1]) (simp_all add: halfway_def)
qed

lemma synopsis_loop_nums:
  assumes "\<And>n. 0 < n \<Longrightarrow> n \<le> high \<Longrightarrow> block n = Inr (f n)" and "unat t + 2 < 2 ^ 32" and "high \<le> t"
  shows "0 < l \<Longrightarrow> l \<le> high \<Longrightarrow>
    synopsis_loop block t high l = Some (Inr (map (\<lambda>n. f (word_of_nat n)) (synopsis_nums (unat t) (unat high) (unat l))))"
proof (induction "unat t" "unat high" "unat l" arbitrary: l rule: synopsis_nums.induct)
  case 1
  define l1 where "l1 = l + (t - l + 2) div 2"
  have l1: "unat l1 = halfway (unat t) (unat l)"
    unfolding l1_def using assms 1(2,3) by (intro unat_halfway) auto
  have pos: "0 < l1" using l1 halfway_up [of "unat l" "unat t"] by (simp add: word_less_nat_alt)
  have up: "l1 \<le> high \<longleftrightarrow> halfway (unat t) (unat l) \<le> unat high" by (simp add: word_le_nat_alt l1)
  have "block l = Inr (f l)" "l \<noteq> 0" using assms(1) 1(2,3) by auto
  then have step: "synopsis_loop block t high l = (if l1 \<le> high
      then Option.bind (synopsis_loop block t high l1) (\<lambda>r. Some (res_bind r (\<lambda>is. Inr (f l # is)))) else Some (Inr [f l]))"
    by (subst synopsis_loop.simps) (simp add: Let_def l1_def)
  show ?case
  proof (cases "l1 \<le> high")
    case True
    then have "synopsis_loop block t high l1 =
        Some (Inr (map (\<lambda>n. f (word_of_nat n)) (synopsis_nums (unat t) (unat high) (unat l1))))"
      using up l1 pos by (intro 1(1)) simp_all
    then show ?thesis using True up l1 by (simp add: step synopsis_nums_step)
  next
    case False
    then have "unat high < halfway (unat t) (unat l)" using up by simp
    with False show ?thesis by (simp add: step synopsis_nums_stop)
  qed
qed

end
