(* ===== verification/Synchronisation_Properties.thy ===== *)
theory Synchronisation_Properties
  imports Synopsis_Numbers Sample_Node Monetary_Properties
begin

text \<open>
  Two nodes that share a part of their chains: the synopsis that one sends, and what the other answers.
\<close>

section \<open>The main chain\<close>

definition main_chain :: "node_env \<Rightarrow> block_id list \<Rightarrow> node \<Rightarrow> bool" where
  \<comment> \<open>\<open>ids\<close> are the blocks of the chain from number 1 to the head: each is stored, and found under its number\<close>
  "main_chain N ids nd \<longleftrightarrow> length ids = unat (head_block_num (nd_chain nd)) \<and>
     (\<forall>n < length ids. get_block_id_for_num (word_of_nat (Suc n)) nd = Inr (ids ! n) \<and>
        num_of_id N (ids ! n) = word_of_nat (Suc n) \<and> bdb_contains (ne_codec N) (ids ! n) (nd_blocks nd))"

lemma main_chain_id:
  assumes "main_chain N ids nd" and "0 < n" and "n \<le> head_block_num (nd_chain nd)"
  shows "get_block_id_for_num n nd = Inr (ids ! (unat n - 1))"
proof -
  have "0 < unat n" "unat n \<le> length ids"
    using assms by (simp_all add: main_chain_def word_le_nat_alt word_less_nat_alt)
  then have n: "unat n - 1 < length ids" "word_of_nat (Suc (unat n - 1)) = n" by simp_all
  then show ?thesis using assms(1) unfolding main_chain_def by metis
qed

lemma main_chain_not_zero: "main_chain N ids nd \<Longrightarrow> n < length ids \<Longrightarrow> ids ! n \<noteq> zero_hash"
  by (auto simp: main_chain_def get_block_id_for_num_def bdb_fetch_block_id_def Let_def res_bind_eq_Inr split: if_splits)

section \<open>The synopsis of the whole chain\<close>

lemma synopsis_numbers:
  assumes chain: "main_chain N ids nd" and long: "length ids + 2 < 2 ^ 32" and ne: "ids \<noteq> []" and undo: "length (nd_undo nd) \<le> length ids"
  shows "get_blockchain_synopsis N zero_hash 0 nd =
    Some (Inr (map (\<lambda>n. ids ! (n - 1)) (synopsis_nums (length ids) (length ids) (max 1 (length ids - length (nd_undo nd))))))"
proof -
  let ?h = "head_block_num (nd_chain nd)"
  define l where "l = last_non_undoable_block_num nd"
  have h: "unat ?h = length ids" using chain by (simp add: main_chain_def)
  have "unat (word_of_nat (length (nd_undo nd)) :: 32 word) = length (nd_undo nd)"
    using undo long by (intro unat_of_nat_lt) simp
  then have l: "unat l = length ids - length (nd_undo nd)"
    unfolding l_def last_non_undoable_block_num_def using undo h by (simp add: unat_sub word_le_nat_alt)
  define l1 where "l1 = (if l = 0 then 1 else l)"
  have l1: "unat l1 = max 1 (length ids - length (nd_undo nd))"
    using l by (auto simp: l1_def unat_eq_zero [symmetric])
  have b: "synopsis_block \<lparr>low_block_num = l, non_fork_high_block_num = ?h, high_block_num = ?h, fork_history = []\<rparr> nd n =
      Inr (ids ! (unat n - 1))" if "0 < n" "n \<le> ?h" for n
    using main_chain_id [OF chain that] that(2) by (simp add: synopsis_block_def)
  have "0 < l1" "l1 \<le> ?h" using l1 h ne undo by (auto simp: word_less_nat_alt word_le_nat_alt Suc_le_eq)
  then have "synopsis_loop (synopsis_block \<lparr>low_block_num = l, non_fork_high_block_num = ?h, high_block_num = ?h, fork_history = []\<rparr> nd) ?h ?h l1 =
      Some (Inr (map (\<lambda>n. ids ! (unat (word_of_nat n :: 32 word) - 1)) (synopsis_nums (length ids) (length ids) (unat l1))))"
    using synopsis_loop_nums [of ?h _ "\<lambda>n. ids ! (unat n - 1)" ?h l1, OF b] h long by simp
  moreover have "unat (word_of_nat n :: 32 word) = n" if "n \<in> set (synopsis_nums (length ids) (length ids) (unat l1))" for n
    using synopsis_nums_range [OF _ that] \<open>l1 \<le> ?h\<close> h long by (intro unat_of_nat_lt) (simp add: word_le_nat_alt)
  moreover have "synopsis_loop f t high l = synopsis_loop f t high l1" for f t high
    by (subst (1 2) synopsis_loop.simps) (simp add: l1_def)
  moreover have "?h \<noteq> 0" using h ne by auto
  ultimately show ?thesis
    using l1 by (simp add: get_blockchain_synopsis_def synopsis_range_of_def Let_def l_def [symmetric] cong: map_cong)
qed

section \<open>The answer\<close>

lemma block_ids_from_main:
  assumes "main_chain N ids nd"
  shows "0 < n \<Longrightarrow> unat n \<le> length ids + 1 \<Longrightarrow> length ids + 2 < 2 ^ 32 \<Longrightarrow>
    block_ids_from (\<lambda>n. get_block_id_for_num n nd) (head_block_num (nd_chain nd)) n room = Inr (take room (drop (unat n - 1) ids))"
proof (induction room arbitrary: n)
  case 0
  then show ?case by (simp add: block_ids_from.simps)
next
  case (Suc room)
  have h: "unat (head_block_num (nd_chain nd)) = length ids" using assms by (simp add: main_chain_def)
  show ?case
  proof (cases "n \<le> head_block_num (nd_chain nd)")
    case True
    then have le: "unat n \<le> length ids" using h by (simp add: word_le_nat_alt)
    then have n1: "unat (n + 1) = unat n + 1" using Suc.prems(3) by (subst unat_add_lem [THEN iffD1]) simp_all
    have pos: "0 < unat n" using Suc.prems(1) by (simp add: word_less_nat_alt)
    have "0 < n + 1" using n1 by (simp add: word_less_nat_alt)
    then have ih: "block_ids_from (\<lambda>n. get_block_id_for_num n nd) (head_block_num (nd_chain nd)) (n + 1) room = Inr (take room (drop (unat n) ids))"
      using Suc.IH [of "n + 1"] n1 le Suc.prems(3) by simp
    have "drop (unat n - 1) ids = ids ! (unat n - 1) # drop (unat n) ids"
      using Cons_nth_drop_Suc [of "unat n - 1" ids] le pos by simp
    then show ?thesis
      using main_chain_id [OF assms Suc.prems(1) True] True Suc.prems(1) ih
      by (subst block_ids_from.simps) simp
  next
    case False
    then have "length ids \<le> unat n - 1" using h by (simp add: word_le_nat_alt)
    then show ?thesis using False by (subst block_ids_from.simps) simp
  qed
qed

lemma last_known_block_main:
  assumes "main_chain N ids nd" and "n < length ids" and "length ids + 2 < 2 ^ 32"
    and "\<forall>i \<in> set after. i \<noteq> zero_hash \<and> (db_is_known_block N i nd \<longrightarrow> is_included_block N i nd = Inr False)"
  shows "last_known_block N nd (after @ (ids ! n) # before) = Inr (ids ! n)"
  using assms(4)
proof (induction after)
  case Nil
  have "get_block_id_for_num (num_of_id N (ids ! n)) nd = Inr (ids ! n)" "db_is_known_block N (ids ! n) nd"
    using assms(1,2) by (simp_all add: main_chain_def db_is_known_block_def)
  then show ?case by (simp add: is_included_block_def)
qed simp

lemma last_take_drop: "i < length xs \<Longrightarrow> 0 < k \<Longrightarrow> last (take k (drop i xs)) = xs ! (min (length xs) (i + k) - 1)"
  by (subst last_conv_nth) (auto simp: min_def not_le intro!: arg_cong [of _ _ "(!) xs"])

lemma main_chain_num:
  assumes "main_chain N ids nd" and "length ids + 2 < 2 ^ 32" and "n < length ids"
  shows "unat (num_of_id N (ids ! n)) = Suc n"
proof -
  have "num_of_id N (ids ! n) = word_of_nat (Suc n)" using assms(1,3) by (simp only: main_chain_def)
  moreover have "unat (word_of_nat (Suc n) :: 32 word) = Suc n" using assms(2,3) by (intro unat_of_nat_lt) simp
  ultimately show ?thesis by simp
qed

lemma get_block_ids_main:
  assumes chain: "main_chain N ids nd" "length ids + 2 < 2 ^ 32" and i: "i < length ids"
    and later: "\<forall>j \<in> set after. j \<noteq> zero_hash \<and> (db_is_known_block N j nd \<longrightarrow> is_included_block N j nd = Inr False)"
  shows "\<exists>rest. get_block_ids N (before @ (ids ! i) # after) limit nd = Inr (take (unat limit) (drop i ids), rest) \<and>
    unat rest = (if limit = 0 then 0 else length ids - min (length ids) (i + unat limit))"
proof -
  let ?h = "head_block_num (nd_chain nd)" and ?result = "take (unat limit) (drop i ids)"
  define e where "e = min (length ids) (i + unat limit)"
  have h: "unat ?h = length ids" using chain(1) by (simp add: main_chain_def)
  then have "?h \<noteq> 0" using i by auto
  have last: "last_known_block N nd (rev (before @ (ids ! i) # after)) = Inr (ids ! i)"
    using last_known_block_main [OF chain(1) i chain(2), of "rev after" "rev before"] later by simp
  have n: "unat (num_of_id N (ids ! i)) = Suc i" by (rule main_chain_num [OF chain i])
  then have "0 < num_of_id N (ids ! i)" by (simp add: word_less_nat_alt)
  then have ids: "block_ids_from (\<lambda>n. get_block_id_for_num n nd) ?h (num_of_id N (ids ! i)) (unat limit) = Inr ?result"
    using block_ids_from_main [OF chain(1) _ _ chain(2), of "num_of_id N (ids ! i)" "unat limit"] n i by simp
  have ne: "before @ (ids ! i) # after \<noteq> [] \<and> before @ (ids ! i) # after \<noteq> [zero_hash]"
    using main_chain_not_zero [OF chain(1) i] by (cases before) auto
  have run: "get_block_ids N (before @ (ids ! i) # after) limit nd =
      Inr (?result, if ?result \<noteq> [] \<and> num_of_id N (last ?result) < ?h then ?h - num_of_id N (last ?result) else 0)"
    using \<open>?h \<noteq> 0\<close> last ids ne by (simp add: get_block_ids_def Let_def)
  show ?thesis
  proof (cases "limit = 0")
    case False
    then have k: "0 < unat limit" by (simp add: unat_gt_0)
    have "last ?result = ids ! (e - 1)" unfolding e_def by (rule last_take_drop [OF i k])
    moreover have e: "0 < e" "e \<le> length ids" using i k by (auto simp: e_def)
    ultimately have num: "unat (num_of_id N (last ?result)) = e" using main_chain_num [OF chain, of "e - 1"] by simp
    have "?result \<noteq> []" using i k by simp
    then have "unat (if ?result \<noteq> [] \<and> num_of_id N (last ?result) < ?h then ?h - num_of_id N (last ?result) else 0) = length ids - e"
      using num h e(2) by (auto simp: word_less_nat_alt unat_sub word_le_nat_alt)
    then show ?thesis using run False by (auto simp: e_def)
  qed (use run in simp)
qed

lemma other_block_not_included:
  assumes "main_chain N as A" and "main_chain N bs B" and "n < length as"
    and "\<not> db_is_known_block N (as ! n) B \<or> n < length bs \<and> bs ! n \<noteq> as ! n"
  shows "as ! n \<noteq> zero_hash \<and> (db_is_known_block N (as ! n) B \<longrightarrow> is_included_block N (as ! n) B = Inr False)"
proof -
  have "is_included_block N (as ! n) B = Inr False" if "n < length bs" "bs ! n \<noteq> as ! n"
  proof -
    have "num_of_id N (as ! n) = word_of_nat (Suc n)" using assms(1,3) by (simp only: main_chain_def)
    moreover have "get_block_id_for_num (word_of_nat (Suc n)) B = Inr (bs ! n)"
      using assms(2) that(1) by (simp only: main_chain_def)
    ultimately show ?thesis using that(2) by (simp add: is_included_block_def)
  qed
  then show ?thesis using assms(4) main_chain_not_zero [OF assms(1,3)] by blast
qed

section \<open>Storing the blocks\<close>

lemma grow_other: "m < length xs \<Longrightarrow> m \<noteq> n \<Longrightarrow> (grow d n xs)[n := e] ! m = xs ! m"
  by (simp add: nth_grow)

lemma stored_block:
  fixes db :: block_database
  assumes "i \<noteq> zero_hash" and "pack cdc b \<noteq> []" and "length (pack cdc b) < 2 ^ 32"
  shows "bdb_fetch_block_id (num_of cdc i) (bdb_store cdc i b db) = Inr i" and "bdb_contains cdc i (bdb_store cdc i b db)"
proof -
  have "(word_of_nat (length (pack cdc b)) :: 32 word) \<noteq> 0"
    using assms(2,3) unat_of_nat_lt [of "length (pack cdc b)", where 'a = 32] by (auto simp: unat_eq_zero [symmetric])
  then show "bdb_fetch_block_id (num_of cdc i) (bdb_store cdc i b db) = Inr i" and "bdb_contains cdc i (bdb_store cdc i b db)"
    using assms(1) length_grow [of "unat (num_of cdc i)" zero_entry "block_num_to_pos db"]
    by (simp_all add: bdb_fetch_block_id_def bdb_contains_def bdb_store_def Let_def word_neq_0_conv)
qed

lemma unat_neq: "n \<noteq> m \<Longrightarrow> unat (n :: 32 word) \<noteq> unat m"
  by (auto dest: unsigned_word_eqI)

lemma stored_block_other:
  assumes "i \<noteq> zero_hash"
  shows "n \<noteq> num_of cdc i \<Longrightarrow> bdb_fetch_block_id n db = Inr j \<Longrightarrow> bdb_fetch_block_id n (bdb_store cdc i b db) = Inr j"
    and "num_of cdc j \<noteq> num_of cdc i \<Longrightarrow> bdb_contains cdc j db \<Longrightarrow> bdb_contains cdc j (bdb_store cdc i b db)"
proof -
  have len: "length (block_num_to_pos db) \<le> length (grow zero_entry k (block_num_to_pos db))" for k by (rule length_grow_mono)
  show "n \<noteq> num_of cdc i \<Longrightarrow> bdb_fetch_block_id n db = Inr j \<Longrightarrow> bdb_fetch_block_id n (bdb_store cdc i b db) = Inr j"
    using assms len [of "unat (num_of cdc i)"]
    by (auto simp: bdb_fetch_block_id_def bdb_store_def Let_def grow_other nth_grow not_le unat_neq split: if_splits)
  show "num_of cdc j \<noteq> num_of cdc i \<Longrightarrow> bdb_contains cdc j db \<Longrightarrow> bdb_contains cdc j (bdb_store cdc i b db)"
    using assms len [of "unat (num_of cdc i)"]
    by (auto simp: bdb_contains_def bdb_store_def Let_def grow_other nth_grow not_le unat_neq split: if_splits)
qed

lemma main_chain_store:
  assumes "main_chain N ids nd" and "length ids + 1 < 2 ^ 32" and "num_of (ne_codec N) = num_of_id N"
    and i: "num_of_id N i = word_of_nat (Suc (length ids))" "i \<noteq> zero_hash" and b: "pack (ne_codec N) b \<noteq> []" "length (pack (ne_codec N) b) < 2 ^ 32"
    and nd': "nd_blocks nd' = bdb_store (ne_codec N) i b (nd_blocks nd)" "head_block_num (nd_chain nd') = word_of_nat (Suc (length ids))"
  shows "main_chain N (ids @ [i]) nd'"
proof -
  have len: "unat (word_of_nat (Suc n) :: 32 word) = Suc n" if "n \<le> length ids" for n
    using that assms(2) by (intro unat_of_nat_lt) simp
  have old: "get_block_id_for_num (word_of_nat (Suc n)) nd' = Inr (ids ! n) \<and> num_of_id N (ids ! n) = word_of_nat (Suc n) \<and>
      bdb_contains (ne_codec N) (ids ! n) (nd_blocks nd')" if "n < length ids" for n
  proof -
    have at_n: "get_block_id_for_num (word_of_nat (Suc n)) nd = Inr (ids ! n)" "num_of_id N (ids ! n) = word_of_nat (Suc n)"
      "bdb_contains (ne_codec N) (ids ! n) (nd_blocks nd)" using assms(1) that by (simp_all only: main_chain_def)
    have ne: "(word_of_nat (Suc n) :: 32 word) \<noteq> num_of (ne_codec N) i"
      using len [of n] len [of "length ids"] that i(1) assms(3) by (metis Suc_inject less_imp_le less_not_refl order_refl)
    have "get_block_id_for_num (word_of_nat (Suc n)) nd' = Inr (ids ! n)"
      using stored_block_other(1) [OF i(2) ne] at_n(1) by (simp only: get_block_id_for_num_def nd'(1))
    moreover have "bdb_contains (ne_codec N) (ids ! n) (nd_blocks nd')"
      using stored_block_other(2) [OF i(2) _ at_n(3)] at_n(2) ne assms(3) by (simp only: nd'(1)) simp
    ultimately show ?thesis using at_n(2) by blast
  qed
  have "get_block_id_for_num (word_of_nat (Suc (length ids))) nd' = Inr i" "bdb_contains (ne_codec N) i (nd_blocks nd')"
    using stored_block [OF i(2) b] assms(3) i(1) by (simp_all add: get_block_id_for_num_def nd'(1))
  then show ?thesis
    unfolding main_chain_def using old i(1) nd'(2) len [of "length ids"] by (auto simp: nth_append less_Suc_eq)
qed

section \<open>Examples\<close>

definition chain_node :: "block_id list \<Rightarrow> nat \<Rightarrow> node" where
  \<comment> \<open>a node with these blocks, of which it can undo so many\<close>
  "chain_node ids undoable = sample_node
     \<lparr>nd_chain := (nd_chain sample_node)\<lparr>c_dynamic := (c_dynamic (nd_chain sample_node))\<lparr>dp_head_block_number := word_of_nat (length ids)\<rparr>\<rparr>,
      nd_undo := replicate undoable (nd_chain sample_node),
      nd_blocks := \<lparr>block_num_to_pos = zero_entry # map (\<lambda>i. \<lparr>block_pos = 0, block_size = 1, entry_id = i\<rparr>) ids, blocks = [0]\<rparr>\<rparr>"

definition short_chain :: "block_id list" where
  "short_chain = [Hash160 1 1 0 0 0, Hash160 2 1 0 0 0, Hash160 3 1 0 0 0, Hash160 4 1 0 0 0]"

definition long_chain :: "block_id list" where
  \<comment> \<open>it forks off after the third block\<close>
  "long_chain = [Hash160 1 1 0 0 0, Hash160 2 1 0 0 0, Hash160 3 1 0 0 0, Hash160 4 2 0 0 0, Hash160 5 2 0 0 0]"

lemma sample_chains:
  "main_chain sample_node_env short_chain (chain_node short_chain 3)" "main_chain sample_node_env long_chain (chain_node long_chain 3)"
  by (code_simp, code_simp)

lemma long_chain_fork: "\<not> db_is_known_block sample_node_env (short_chain ! 3) (chain_node long_chain 3)"
  by code_simp

text \<open>
  While every block can still be undone, a pending transaction adds one more session to the undo history: the number
  of the last block that cannot be undone wraps below zero, and the synopsis reads behind the end of an empty
  vector.
\<close>

lemma synopsis_of_young_chain_underflows:
  "get_blockchain_synopsis sample_node_env zero_hash 0 (chain_node short_chain 5) = Some (Inl Undefined_Behaviour)"
  "get_blockchain_synopsis sample_node_env zero_hash 0 (chain_node short_chain 4) =
    Some (Inr [Hash160 1 1 0 0 0, Hash160 3 1 0 0 0, Hash160 4 1 0 0 0])"
proof -
  have n: "last_non_undoable_block_num (chain_node short_chain 5) = - 1" "head_block_num (nd_chain (chain_node short_chain 5)) = 4"
    by (simp_all add: last_non_undoable_block_num_def chain_node_def short_chain_def)
  have "\<not> (- 1 :: 32 word) \<le> 4" by code_simp
  then have "synopsis_loop (synopsis_block \<lparr>low_block_num = - 1, non_fork_high_block_num = 4, high_block_num = 4, fork_history = []\<rparr> nd) 4 4 (- 1) =
      Some (Inl Undefined_Behaviour)" for nd
    by (subst synopsis_loop.simps) (simp add: synopsis_block_def Let_def)
  then show "get_blockchain_synopsis sample_node_env zero_hash 0 (chain_node short_chain 5) = Some (Inl Undefined_Behaviour)"
    by (simp add: get_blockchain_synopsis_def synopsis_range_of_def Let_def n)
  have "main_chain sample_node_env short_chain (chain_node short_chain 4)" by code_simp
  from synopsis_numbers [OF this] show "get_blockchain_synopsis sample_node_env zero_hash 0 (chain_node short_chain 4) =
      Some (Inr [Hash160 1 1 0 0 0, Hash160 3 1 0 0 0, Hash160 4 1 0 0 0])"
    by (simp add: short_chain_def chain_node_def synopsis_nums_step synopsis_nums_stop halfway_def)
qed

section \<open>Properties\<close>

text \<open>C20: appending a block to the head of a sound chain stores it: the blocks that the node can find by their number
  are those it had and the new one, so its numbered blocks are always its chain (the reward of votes, blocks from 545000 to
  563499, aside).
  The chain is stored and numbered before, of fewer than \<open>2 ^ 32 - 1\<close> blocks, the packed block is
  not empty and its size fits into 32 bits, and the code the program calls keeps its contract
  (\<open>externals_ok\<close>, \<open>hashing_ok\<close>).\<close>

theorem append_extends_stored_chain:
  assumes env: "externals_ok (ne_ext N)" "hashing_ok (ne_block N)" "num_of (ne_codec N) = num_of_id N"
    and nd: "main_chain N ids nd" "sound (ne_ext N) (nd_chain nd)" "numbered (ne_block N) (nd_chain nd)" "length ids + 1 < 2 ^ 32"
    and run: "append_block N skip b nd = Some (Inr r, nd')"
    and b: "pack (ne_codec N) b \<noteq> []" "length (pack (ne_codec N) b) < 2 ^ 32"
      "number_of_block (ne_block N) b < VOTE_REWARD_FORK \<or> VOTE_REWARD_CHECK \<le> number_of_block (ne_block N) b"
  shows "main_chain N (ids @ [id_of_block (ne_block N) b]) nd' \<and> numbered (ne_block N) (nd_chain nd')"
proof -
  let ?i = "id_of_block (ne_block N) b"
  obtain nd1 where p: "push_in_session N skip ?i b nd = Some (Inr (), nd1)"
    and nd1: "nd_chain nd' = nd_chain nd1" "nd_blocks nd' = nd_blocks nd1"
    using run by (auto simp: append_block_def nd_simps end_session_Inr view_of_def)
  have blocks: "nd_blocks nd1 = bdb_store (ne_codec N) ?i b (nd_blocks nd)"
    using p by (auto simp: push_in_session_def nd_simps db_apply_block_def Let_def split: option.splits sum.splits)
  note num = apply_block_numbered [OF env(1,2) nd(2,3) push_in_session_Inr(1) [OF p] b(3)]
  have h: "head_block_num (nd_chain nd) = word_of_nat (length ids)" using nd(1) by (simp add: main_chain_def)
  have "num_of_id N ?i = number_of_block (ne_block N) b"
    using block_id_carries_number [of "be_reverse (ne_block N)" "be_sha224 (ne_block N)" b, THEN conjunct1] env(2)
    by (simp add: num_of_id_def hashing_ok_def)
  then have i: "num_of_id N ?i = word_of_nat (Suc (length ids))" using num h by (simp add: add.commute)
  moreover have "num_of_id N zero_hash = 0" using env(2) by (simp add: num_of_id_def num_from_id_def zero_hash_def hashing_ok_def)
  moreover have "(word_of_nat (Suc (length ids)) :: 32 word) \<noteq> 0"
    using unat_of_nat_lt [of "Suc (length ids)", where 'a = 32] nd(4) by auto
  ultimately have "?i \<noteq> zero_hash" by auto
  then have "main_chain N (ids @ [?i]) nd'"
    using main_chain_store [OF nd(1,4) env(3) i _ b(1,2)] num h by (simp add: nd1 blocks add.commute)
  then show ?thesis using num nd1(1) by simp
qed

theorem append_extends_stored_chain_witness:
  "\<exists>nd r. append_block sample_node_env 0 child_block forked_node = Some (Inr r, nd) \<and>
    main_chain sample_node_env [id_of_block sample_env child_block] nd"
proof -
  obtain nd r where run: "append_block sample_node_env 0 child_block forked_node = Some (Inr r, nd)"
    using forked_node_pops unfolding returned_iff nd_bind_Inr by auto
  have "num_of (ne_codec sample_node_env) = num_of_id sample_node_env"
    by (rule ext) (simp add: sample_node_env_def num_of_id_def num_from_id_def sample_env_def)
  moreover have "main_chain sample_node_env [] forked_node" "numbered (ne_block sample_node_env) (nd_chain forked_node)"
    by (code_simp, code_simp)
  moreover have "sound (ne_ext sample_node_env) (nd_chain forked_node)"
    using sample_ledger_sound by (simp add: sample_node_env_def forked_node_def sample_node_def dynamic_sound budget_due_def)
  moreover have "number_of_block (ne_block sample_node_env) child_block < VOTE_REWARD_FORK" by code_simp
  ultimately have "main_chain sample_node_env ([] @ [id_of_block (ne_block sample_node_env) child_block]) nd"
    using append_extends_stored_chain [OF _ _ _ _ _ _ _ run, of "[]"] sample_externals_ok sample_hashing_ok
    by (simp add: sample_node_env_def)
  then show ?thesis using run by (auto simp: sample_node_env_def)
qed

text \<open>C21: a node whose chain is stored (\<open>main_chain\<close>: its blocks are in the block database and are found under their
  numbers), has at least one block, fewer than \<open>2 ^ 32 - 2\<close>, and no more undo states than blocks, returns a synopsis
  of it: a strictly increasing selection of its blocks that begins with the last one it cannot undo (or the first) and ends
  with its head, of at most one block more than the binary logarithm of one more than the number of undo states.  The
  bound on the undo states is needed: on a chain so young that all of its blocks can be undone, the session of the
  pending transactions is one undo state too many, and there is no synopsis (\<open>synopsis_of_young_chain_underflows\<close>).\<close>

theorem synopsis_summarizes_chain:
  assumes "main_chain N ids nd" and "length ids + 2 < 2 ^ 32" and "ids \<noteq> []" and "length (nd_undo nd) \<le> length ids"
  shows "\<exists>ns. get_blockchain_synopsis N zero_hash 0 nd = Some (Inr (map (\<lambda>n. ids ! (n - 1)) ns)) \<and>
    sorted_wrt (<) ns \<and> hd ns = max 1 (length ids - length (nd_undo nd)) \<and> last ns = length ids \<and>
    2 ^ (length ns - 1) \<le> length (nd_undo nd) + 1"
proof -
  let ?l = "max 1 (length ids - length (nd_undo nd))"
  let ?ns = "synopsis_nums (length ids) (length ids) ?l"
  have l: "?l \<le> length ids" using assms(3) by (cases ids) auto
  have "2 ^ (length ?ns - 1) \<le> length ids - ?l + 1" using synopsis_nums_length [OF l] by simp
  then have "2 ^ (length ?ns - 1) \<le> length (nd_undo nd) + 1" by linarith
  moreover have "hd ?ns = ?l" by (subst synopsis_nums.simps) simp
  ultimately show ?thesis
    using synopsis_numbers [OF assms] synopsis_nums_sorted [OF l] synopsis_nums_last [OF l] by blast
qed

theorem synopsis_summarizes_chain_witness:
  "\<exists>ns. get_blockchain_synopsis sample_node_env zero_hash 0 (chain_node short_chain 3) = Some (Inr (map (\<lambda>n. short_chain ! (n - 1)) ns)) \<and>
    hd ns = 1 \<and> last ns = 4 \<and> 2 ^ (length ns - 1) \<le> (4::nat)"
  using synopsis_summarizes_chain [OF sample_chains(1)] by (auto simp: short_chain_def chain_node_def)

text \<open>C11: a node \<open>A\<close> sends the synopsis of its chain to a node \<open>B\<close> whose chain agrees with it in the first \<open>m\<close>
  blocks, at least one, and \<open>A\<close> can undo down to them.  The answer is a stretch of consecutive blocks of \<open>B\<close> that
  begins with a block of both chains, so that \<open>A\<close> can link it; and it repeats at most as many shared blocks as \<open>A\<close>
  has on its own fork, and two more, so that it contains new blocks whenever \<open>B\<close> has some and the limit is larger than
  that; the count sent along is the number of blocks of \<open>B\<close> after it.  Both chains are stored under their numbers (\<open>main_chain\<close>) and have fewer than \<open>2 ^ 32 - 2\<close> blocks; \<open>A\<close>
  has no more undo states than blocks, which the session of the pending transactions violates on a young chain
  (\<open>synopsis_of_young_chain_underflows\<close>); and \<open>B\<close> does not know the blocks of \<open>A\<close>'s fork, or has
  a different block of its own chain at their number: for one it knows beyond its own head it throws.\<close>

theorem synchronisation_finds_fork:
  assumes A: "main_chain N as A" "length as + 2 < 2 ^ 32" "length (nd_undo A) \<le> length as"
    and B: "main_chain N bs B" "length bs + 2 < 2 ^ 32"
    and shared: "take m as = take m bs" "0 < m" "m \<le> length as" "m \<le> length bs" "length as - length (nd_undo A) \<le> m"
    and fork: "\<forall>n. m \<le> n \<and> n < length as \<longrightarrow> \<not> db_is_known_block N (as ! n) B \<or> n < length bs \<and> bs ! n \<noteq> as ! n"
  shows "\<exists>synopsis k rest. get_blockchain_synopsis N zero_hash 0 A = Some (Inr synopsis) \<and>
    get_block_ids N synopsis limit B = Inr (take (unat limit) (drop k bs), rest) \<and> k < m \<and> as ! k = bs ! k \<and>
    m - k \<le> length as - m + 2 \<and> unat rest = (if limit = 0 then 0 else length bs - min (length bs) (k + unat limit))"
proof -
  let ?l = "max 1 (length as - length (nd_undo A))"
  have ne: "as \<noteq> []" using shared by auto
  have "?l \<le> m" "m \<le> length as" using shared by auto
  from synopsis_nums_near [OF this, of "length as"] obtain k ks ns where
    nums: "synopsis_nums (length as) (length as) ?l = ks @ k # ns" and k: "?l \<le> k" "k \<le> m" "m - k \<le> length as - m + 1"
    and ns: "\<forall>n \<in> set ns. m < n" by auto
  let ?syn = "map (\<lambda>n. as ! (n - 1)) (ks @ k # ns)"
  have syn: "get_blockchain_synopsis N zero_hash 0 A = Some (Inr ?syn)"
    using synopsis_numbers [OF A(1,2) ne A(3)] nums by simp
  have eq: "as ! (k - 1) = bs ! (k - 1)" and kb: "k - 1 < length bs"
    using k shared(2,4) nth_take [of "k - 1" m as] nth_take [of "k - 1" m bs] shared(1) by auto
  have later: "as ! (n - 1) \<noteq> zero_hash \<and> (db_is_known_block N (as ! (n - 1)) B \<longrightarrow> is_included_block N (as ! (n - 1)) B = Inr False)"
    if "n \<in> set ns" for n
  proof -
    have "n \<in> set (synopsis_nums (length as) (length as) ?l)" using that nums by simp
    moreover have "?l \<le> length as" using \<open>?l \<le> m\<close> shared(3) by simp
    ultimately have "n \<le> length as" using synopsis_nums_range by blast
    with ns that have n: "m \<le> n - 1" "n - 1 < length as" by auto
    then show ?thesis using fork other_block_not_included [OF A(1) B(1) n(2)] by blast
  qed
  then have "\<forall>j \<in> set (map (\<lambda>n. as ! (n - 1)) ns). j \<noteq> zero_hash \<and> (db_is_known_block N j B \<longrightarrow> is_included_block N j B = Inr False)"
    by auto
  from get_block_ids_main [OF B kb this] obtain rest where
    "get_block_ids N (map (\<lambda>n. as ! (n - 1)) ks @ (bs ! (k - 1)) # map (\<lambda>n. as ! (n - 1)) ns) limit B = Inr (take (unat limit) (drop (k - 1) bs), rest)"
    and rest: "unat rest = (if limit = 0 then 0 else length bs - min (length bs) (k - 1 + unat limit))" by blast
  moreover have "?syn = map (\<lambda>n. as ! (n - 1)) ks @ (bs ! (k - 1)) # map (\<lambda>n. as ! (n - 1)) ns" using eq by simp
  ultimately have "get_block_ids N ?syn limit B = Inr (take (unat limit) (drop (k - 1) bs), rest)" by simp
  moreover have "k - 1 < m" "m - (k - 1) \<le> length as - m + 2" using k shared(2) by auto
  ultimately show ?thesis using syn eq rest by blast
qed

theorem synchronisation_finds_fork_witness:
  "\<exists>synopsis k rest. get_blockchain_synopsis sample_node_env zero_hash 0 (chain_node short_chain 3) = Some (Inr synopsis) \<and>
    get_block_ids sample_node_env synopsis 2000 (chain_node long_chain 3) = Inr (drop k long_chain, rest) \<and> k < 3 \<and> rest = 0"
proof -
  have "\<forall>n. 3 \<le> n \<and> n < length short_chain \<longrightarrow> \<not> db_is_known_block sample_node_env (short_chain ! n) (chain_node long_chain 3) \<or>
      n < length long_chain \<and> long_chain ! n \<noteq> short_chain ! n"
    using long_chain_fork by (auto simp: short_chain_def less_Suc_eq)
  then have "\<exists>synopsis k rest. get_blockchain_synopsis sample_node_env zero_hash 0 (chain_node short_chain 3) = Some (Inr synopsis) \<and>
      get_block_ids sample_node_env synopsis 2000 (chain_node long_chain 3) = Inr (take (unat (2000 :: 32 word)) (drop k long_chain), rest) \<and>
      k < 3 \<and> short_chain ! k = long_chain ! k \<and> 3 - k \<le> length short_chain - 3 + 2 \<and>
      unat rest = (if (2000 :: 32 word) = 0 then 0 else length long_chain - min (length long_chain) (k + unat (2000 :: 32 word)))"
    using sample_chains by (intro synchronisation_finds_fork) (simp_all add: short_chain_def long_chain_def chain_node_def)
  then show ?thesis
    by (auto simp: long_chain_def min_def unat_eq_zero split: if_splits)
qed

end
