(* ===== verification/Secondary_Indexes.thy ===== *)
theory Secondary_Indexes
  imports Undo_Correct Chain_State
begin

text \<open>
  The secondary indexes of the chain (\<open>account_member_index\<close> in \<open>account_object.cpp\<close>,
  \<open>required_approval_index\<close> in \<open>proposal_object.cpp\<close>): what they remember of the objects that their
  primary index tells them about.  A \<open>std::set\<close> that is iterated is its sorted list.
\<close>

type_synonym 'k memberships = "'k \<rightharpoonup> object_id set"

definition at_key :: "'k memberships \<Rightarrow> 'k \<Rightarrow> object_id set" where
  \<comment> \<open>\<open>operator[]\<close> of \<open>std::map\<close>, or what a lookup that may fail stands for\<close>
  "at_key m k = (case m k of None \<Rightarrow> {} | Some s \<Rightarrow> s)"

definition insert_at :: "object_id \<Rightarrow> 'k \<Rightarrow> 'k memberships \<Rightarrow> 'k memberships" where
  "insert_at i k m = m(k \<mapsto> insert i (at_key m k))"

definition erase_at :: "object_id \<Rightarrow> 'k \<Rightarrow> 'k memberships \<Rightarrow> 'k memberships" where
  "erase_at i k m = m(k \<mapsto> at_key m k - {i})"

section \<open>Which accounts an account or a key can sign for\<close>

record account_member_index =
  account_to_account_memberships :: "account memberships"
  account_to_key_memberships :: "public_key memberships"
  before_account_members :: "account list"
  before_key_members :: "public_key list"

definition new_account_member_index :: account_member_index where
  "new_account_member_index = \<lparr>account_to_account_memberships = Map.empty, account_to_key_memberships = Map.empty,
     before_account_members = [], before_key_members = []\<rparr>"

definition get_account_members :: "account_object \<Rightarrow> account list" where
  "get_account_members a = sort (remdups (map fst (account_auths (ao_owner a))))"

definition get_key_members :: "account_object \<Rightarrow> public_key list" where
  "get_key_members a = sort (remdups (map fst (key_auths (ao_owner a))))"

definition set_difference :: "'k list \<Rightarrow> 'k list \<Rightarrow> 'k list" where
  "set_difference ks js = filter (\<lambda>k. k \<notin> set js) ks"

definition membership_changes :: "object_id \<Rightarrow> 'k list \<Rightarrow> 'k list \<Rightarrow> 'k memberships \<Rightarrow> 'k memberships" where
  \<comment> \<open>one of the two blocks of \<open>object_modified\<close>\<close>
  "membership_changes i before after m =
     (let removed = set_difference before after; added = set_difference after before
      in fold (insert_at i) added (fold (erase_at i) removed m))"

definition member_inserted :: "object_id \<Rightarrow> account_object \<Rightarrow> account_member_index \<Rightarrow> account_member_index" where
  "member_inserted i a x = x\<lparr>
     account_to_account_memberships := fold (insert_at i) (get_account_members a) (account_to_account_memberships x),
     account_to_key_memberships := fold (insert_at i) (get_key_members a) (account_to_key_memberships x)\<rparr>"

definition member_removed :: "object_id \<Rightarrow> account_object \<Rightarrow> account_member_index \<Rightarrow> account_member_index" where
  "member_removed i a x = x\<lparr>
     account_to_key_memberships := fold (erase_at i) (get_key_members a) (account_to_key_memberships x),
     account_to_account_memberships := fold (erase_at i) (get_account_members a) (account_to_account_memberships x)\<rparr>"

definition member_about_to_modify :: "account_object \<Rightarrow> account_member_index \<Rightarrow> account_member_index" where
  "member_about_to_modify a x = x\<lparr>before_key_members := get_key_members a, before_account_members := get_account_members a\<rparr>"

definition member_modified :: "object_id \<Rightarrow> account_object \<Rightarrow> account_member_index \<Rightarrow> account_member_index" where
  "member_modified i a x = x\<lparr>
     account_to_account_memberships :=
       membership_changes i (before_account_members x) (get_account_members a) (account_to_account_memberships x),
     account_to_key_memberships := membership_changes i (before_key_members x) (get_key_members a) (account_to_key_memberships x)\<rparr>"

fun member_told :: "account_object index_event \<Rightarrow> account_member_index \<Rightarrow> account_member_index" where
  "member_told (Object_Inserted i a) = member_inserted i a"
| "member_told (Object_Removed i a) = member_removed i a"
| "member_told (About_To_Modify i a) = member_about_to_modify a"
| "member_told (Object_Modified i a) = member_modified i a"
| "member_told _ = (\<lambda>x. x)"

section \<open>Which proposals wait for an account\<close>

type_synonym required_approval_index = "account memberships"

definition proposal_accounts :: "proposal_object \<Rightarrow> account list" where
  \<comment> \<open>the four loops of \<open>object_inserted\<close> and of \<open>object_removed\<close>\<close>
  "proposal_accounts p = po_required_active_approvals p @ po_required_owner_approvals p @
     po_available_active_approvals p @ po_available_owner_approvals p"

definition approval_inserted :: "object_id \<Rightarrow> proposal_object \<Rightarrow> required_approval_index \<Rightarrow> required_approval_index" where
  "approval_inserted i p = fold (insert_at i) (proposal_accounts p)"

definition approval_remove :: "object_id \<Rightarrow> account \<Rightarrow> required_approval_index \<Rightarrow> required_approval_index" where
  "approval_remove i a m =
     (case m a of
        None \<Rightarrow> m
      | Some s \<Rightarrow> if s - {i} = {} then m(a := None) else m(a \<mapsto> s - {i}))"

definition approval_removed :: "object_id \<Rightarrow> proposal_object \<Rightarrow> required_approval_index \<Rightarrow> required_approval_index" where
  "approval_removed i p = fold (approval_remove i) (proposal_accounts p)"

fun approval_told :: "proposal_object index_event \<Rightarrow> required_approval_index \<Rightarrow> required_approval_index" where
  \<comment> \<open>\<open>about_to_modify\<close> and \<open>object_modified\<close> do nothing\<close>
  "approval_told (Object_Inserted i p) = approval_inserted i p"
| "approval_told (Object_Removed i p) = approval_removed i p"
| "approval_told _ = (\<lambda>m. m)"

section \<open>The state of a secondary index\<close>

definition member_index :: "('a \<Rightarrow> account_object) \<Rightarrow> 'a primary_index \<Rightarrow> account_member_index" where
  \<comment> \<open>\<open>acc\<close> is the static cast from \<open>object\<close>\<close>
  "member_index acc pi = fold (\<lambda>e. member_told (map_index_event acc e)) (events pi) new_account_member_index"

definition approval_index :: "('a \<Rightarrow> proposal_object) \<Rightarrow> 'a primary_index \<Rightarrow> required_approval_index" where
  "approval_index prop pi = fold (\<lambda>e. approval_told (map_index_event prop e)) (events pi) Map.empty"

section \<open>An index that inverts the keys of its objects\<close>

lemma at_key_fold_insert: "at_key (fold (insert_at i) ks m) k = (if k \<in> set ks then insert i (at_key m k) else at_key m k)"
proof (induction ks arbitrary: m)
  case (Cons j ks)
  show ?case unfolding fold_simps comp_def Cons.IH by (auto simp: insert_at_def at_key_def)
qed simp

lemma at_key_fold_erase: "at_key (fold (erase_at i) ks m) k = (if k \<in> set ks then at_key m k - {i} else at_key m k)"
proof (induction ks arbitrary: m)
  case (Cons j ks)
  show ?case unfolding fold_simps comp_def Cons.IH by (auto simp: erase_at_def at_key_def)
qed simp

locale reverse_index =
  fixes told :: "'a index_event \<Rightarrow> 's \<Rightarrow> 's" and empty :: 's
    and lookup :: "'s \<Rightarrow> 'k \<Rightarrow> object_id set" and keys :: "'a \<Rightarrow> 'k set"
  assumes lookup_empty: "lookup empty k = {}"
    and told_inserted: "lookup (told (Object_Inserted i v) x) k = (if k \<in> keys v then insert i (lookup x k) else lookup x k)"
    and told_removed: "lookup (told (Object_Removed i v) x) k = (if k \<in> keys v then lookup x k - {i} else lookup x k)"
    and told_modified: "lookup (told (Object_Modified i w) (told (About_To_Modify i v) x)) k =
      (if k \<in> keys v then if k \<in> keys w then lookup x k else lookup x k - {i}
       else if k \<in> keys w then insert i (lookup x k) else lookup x k)"
    and told_observer: "told (Observer_Add i v) x = x" "told (Observer_Remove i v) x = x" "told (Observer_Modify i v) x = x"
begin

definition inverts :: "'a primary_index \<Rightarrow> bool" where
  "inverts pi \<longleftrightarrow> (\<exists>g. derived pi = Generic g \<and>
     (\<forall>k. lookup (fold told (events pi) empty) k = {i. \<exists>v. gi_find g i = Some v \<and> k \<in> keys v}))"

lemma inverts_create:
  assumes "inverts pi" and "ix_create i d c (derived pi) = (Inr (), d')" and "ix_find d' i = Some v"
  shows "inverts (pi\<lparr>derived := d', next_id := n, events := events pi @ [Object_Inserted i v, Observer_Add i v]\<rparr>)"
proof -
  obtain g where g: "derived pi = Generic g"
    and inv: "\<And>k. lookup (fold told (events pi) empty) k = {i. \<exists>v. gi_find g i = Some v \<and> k \<in> keys v}"
    using assms(1) by (auto simp: inverts_def)
  obtain g' where g': "gi_insert i (c i d) g = (Inr (), g')" "d' = Generic g'"
    using assms(2) by (auto simp: g gi_create_def apsnd_def map_prod_def split: prod.splits)
  have "gi_find g i = None" using g'(1) by (auto simp: gi_insert_def split: if_splits)
  moreover have find: "gi_find g' j = (if j = i then Some v else gi_find g j)" for j
    using gi.insert_find [OF _ _ g'(1)] assms(3) g'(2) by auto
  ultimately show ?thesis
    by (auto simp: inverts_def g'(2) told_observer told_inserted inv split: if_splits)
qed

lemma inverts_modify:
  assumes "inverts pi" and "ix_modify i m (derived pi) = (Inr (), d')" and "ix_find (derived pi) i = Some v"
  shows "inverts (pi\<lparr>derived := d', events := events pi @ [About_To_Modify i v, Object_Modified i (m v), Observer_Modify i (m v)]\<rparr>)"
proof -
  obtain g where g: "derived pi = Generic g"
    and inv: "\<And>k. lookup (fold told (events pi) empty) k = {i. \<exists>v. gi_find g i = Some v \<and> k \<in> keys v}"
    using assms(1) by (auto simp: inverts_def)
  obtain g' where g': "gi_modify i m g = (Inr (), g')" "d' = Generic g'"
    using assms(2) by (auto simp: g apsnd_def map_prod_def split: prod.splits)
  have find: "gi_find g' j = (if j = i then Some (m v) else gi_find g j)" for j
    using gi.modify_find [OF _ _ g'(1)] assms(3) g by auto
  have "gi_find g i = Some v" using assms(3) g by simp
  with find show ?thesis
    by (auto simp: inverts_def g'(2) told_observer told_modified inv split: if_splits)
qed

lemma inverts_remove:
  assumes "inverts pi" and "ix_remove i (derived pi) = (Inr (), d')" and "ix_find (derived pi) i = Some v"
  shows "inverts (pi\<lparr>derived := d', events := events pi @ [Object_Removed i v, Observer_Remove i v]\<rparr>)"
proof -
  obtain g where g: "derived pi = Generic g"
    and inv: "\<And>k. lookup (fold told (events pi) empty) k = {i. \<exists>v. gi_find g i = Some v \<and> k \<in> keys v}"
    using assms(1) by (auto simp: inverts_def)
  obtain g' where g': "gi_remove i g = (Inr (), g')" "d' = Generic g'"
    using assms(2) by (auto simp: g apsnd_def map_prod_def split: prod.splits)
  have find: "gi_find g' j = (if j = i then None else gi_find g j)" for j
    using gi.remove_find [OF _ _ g'(1)] by auto
  have "gi_find g i = Some v" using assms(3) g by simp
  with find show ?thesis
    by (auto simp: inverts_def g'(2) told_observer told_removed inv split: if_splits)
qed

lemma op_inverts:
  assumes "run_op a db = (Inr (), db')" and "get_index s t db = Inr pi" and "inverts pi"
  shows "\<exists>pi'. get_index s t db' = Inr pi' \<and> inverts pi'"
proof (cases a)
  case (Create s' t' c)
  obtain pi0 d' v where c: "get_index s' t' db = Inr pi0" "ix_create (next_id pi0) (default_object pi0) c (derived pi0) = (Inr (), d')"
    "ix_find d' (next_id pi0) = Some v" and db': "get_index s t db' = get_index s t (put_index s' t' (pi0\<lparr>derived := d', next_id := id_incr (next_id pi0),
         events := events pi0 @ [Object_Inserted (next_id pi0) v, Observer_Add (next_id pi0) v]\<rparr>) db)"
    using assms(1) Create by (auto simp: st_bind_eq_Inr db_create_def Let_def split: sum.splits prod.splits option.splits)
  then show ?thesis using assms(2,3) inverts_create [OF _ c(2,3)] by (auto simp: get_put_index [OF c(1)])
next
  case (Modify x m)
  obtain pi0 d' v where c: "get_index (space_of x) (type_of x) db = Inr pi0" "ix_modify x m (derived pi0) = (Inr (), d')"
    "ix_find (derived pi0) x = Some v" and db': "db' = put_index (space_of x) (type_of x) (pi0\<lparr>derived := d',
         events := events pi0 @ [About_To_Modify x v, Object_Modified x (m v), Observer_Modify x (m v)]\<rparr>) (on_modify x v db)"
    using assms(1) Modify by (auto simp: db_modify_def Let_def split: sum.splits prod.splits option.splits)
  have "get_index (space_of x) (type_of x) (on_modify x v db) = Inr pi0" using c(1) by simp
  then show ?thesis using assms(2,3) inverts_modify [OF _ c(2,3)] c(1) by (auto simp: db' get_put_index)
next
  case (Remove x)
  obtain pi0 d' v where c: "get_index (space_of x) (type_of x) db = Inr pi0" "ix_remove x (derived pi0) = (Inr (), d')"
    "ix_find (derived pi0) x = Some v" and db': "db' = put_index (space_of x) (type_of x) (pi0\<lparr>derived := d',
         events := events pi0 @ [Object_Removed x v, Observer_Remove x v]\<rparr>) (on_remove x v db)"
    using assms(1) Remove by (auto simp: db_remove_def Let_def split: sum.splits prod.splits option.splits)
  have "get_index (space_of x) (type_of x) (on_remove x v db) = Inr pi0" using c(1) by simp
  then show ?thesis using assms(2,3) inverts_remove [OF _ c(2,3)] c(1) by (auto simp: db' get_put_index)
qed

lemma ops_invert:
  "run_ops as db = (Inr (), db') \<Longrightarrow> get_index s t db = Inr pi \<Longrightarrow> inverts pi \<Longrightarrow>
    \<exists>pi'. get_index s t db' = Inr pi' \<and> inverts pi'"
proof (induction as arbitrary: db pi)
  case (Cons a as)
  then obtain db1 where a: "run_op a db = (Inr (), db1)" and as: "run_ops as db1 = (Inr (), db')"
    by (auto simp: run_ops_def st_bind_eq_Inr)
  obtain pi1 where "get_index s t db1 = Inr pi1" "inverts pi1" using op_inverts [OF a Cons.prems(2,3)] by blast
  then show ?case using Cons.IH [OF as] by blast
qed (auto simp: run_ops_def)

lemma new_inverts: "derived pi = Generic g \<Longrightarrow> gi_rows g = [] \<Longrightarrow> events pi = [] \<Longrightarrow> inverts pi"
  by (simp add: inverts_def lookup_empty gi_find_def)

end

lemma member_laws:
  "at_key (account_to_account_memberships (member_inserted i a x)) k =
    (if k \<in> fst ` set (account_auths (ao_owner a)) then insert i (at_key (account_to_account_memberships x) k)
     else at_key (account_to_account_memberships x) k)"
  "at_key (account_to_key_memberships (member_inserted i a x)) q =
    (if q \<in> fst ` set (key_auths (ao_owner a)) then insert i (at_key (account_to_key_memberships x) q)
     else at_key (account_to_key_memberships x) q)"
  "at_key (account_to_account_memberships (member_removed i a x)) k =
    (if k \<in> fst ` set (account_auths (ao_owner a)) then at_key (account_to_account_memberships x) k - {i}
     else at_key (account_to_account_memberships x) k)"
  "at_key (account_to_key_memberships (member_removed i a x)) q =
    (if q \<in> fst ` set (key_auths (ao_owner a)) then at_key (account_to_key_memberships x) q - {i}
     else at_key (account_to_key_memberships x) q)"
  by (simp_all add: member_inserted_def member_removed_def at_key_fold_insert at_key_fold_erase get_account_members_def get_key_members_def)

interpretation account_members: reverse_index "\<lambda>e. member_told (map_index_event acc e)" new_account_member_index
  "\<lambda>x. at_key (account_to_account_memberships x)" "\<lambda>v. fst ` set (account_auths (ao_owner (acc v)))" for acc
  by unfold_locales
    (simp_all add: new_account_member_index_def at_key_def [of Map.empty] member_laws member_modified_def member_about_to_modify_def
      membership_changes_def set_difference_def get_account_members_def at_key_fold_insert at_key_fold_erase Let_def)

interpretation key_members: reverse_index "\<lambda>e. member_told (map_index_event acc e)" new_account_member_index
  "\<lambda>x. at_key (account_to_key_memberships x)" "\<lambda>v. fst ` set (key_auths (ao_owner (acc v)))" for acc
  by unfold_locales
    (simp_all add: new_account_member_index_def at_key_def [of Map.empty] member_laws member_modified_def member_about_to_modify_def
      membership_changes_def set_difference_def get_key_members_def at_key_fold_insert at_key_fold_erase Let_def)

end
