(* ===== verification/Index_Properties.thy ===== *)
theory Index_Properties
  imports Secondary_Indexes Undo_Properties Sample_Chain
begin

text \<open>
  The properties of the secondary indexes, and what the undo database does behind their back.
\<close>

section \<open>Accounts\<close>

text \<open>C30: after any successful sequence of creations, modifications and removals that starts with no accounts, the
  index of memberships is the inverse of the owner authorities of the stored accounts: a lookup of an account, or of a key,
  gives exactly the accounts that name it.
  The index is a generic one with no pending events.\<close>

theorem memberships_invert_authorities:
  assumes "get_index s t db = Inr pi" and "derived pi = Generic g" and "gi_rows g = []" and "events pi = []"
    and "Undo_Correct.run_ops as db = (Inr (), db')"
  shows "\<exists>pi' g'. get_index s t db' = Inr pi' \<and> derived pi' = Generic g' \<and>
    (\<forall>a. at_key (account_to_account_memberships (member_index acc pi')) a =
      {i. \<exists>v. gi_find g' i = Some v \<and> a \<in> fst ` set (account_auths (ao_owner (acc v)))}) \<and>
    (\<forall>k. at_key (account_to_key_memberships (member_index acc pi')) k =
      {i. \<exists>v. gi_find g' i = Some v \<and> k \<in> fst ` set (key_auths (ao_owner (acc v)))})"
proof -
  obtain pi1 where 1: "get_index s t db' = Inr pi1" "account_members.inverts acc pi1"
    using account_members.ops_invert [OF assms(5,1) account_members.new_inverts [OF assms(2-4)]] by blast
  obtain pi2 where 2: "get_index s t db' = Inr pi2" "key_members.inverts acc pi2"
    using key_members.ops_invert [OF assms(5,1) key_members.new_inverts [OF assms(2-4)]] by blast
  from 1 2 have "key_members.inverts acc pi1" by simp
  with 1 show ?thesis
    unfolding account_members.inverts_def key_members.inverts_def member_index_def by fastforce
qed

definition member_database :: "account_object object_database" where
  "member_database = opened_database 1 2 (Generic \<lparr>gi_rows = [], gi_clash = (\<lambda>a b. ao_name a = ao_name b)\<rparr>) (sample_account 0 0)"

definition member_ops :: "account_object db_op list" where
  \<comment> \<open>two accounts; the key of the first one is changed from 1 to 2\<close>
  "member_ops = [Create 1 2 (\<lambda>_ _. sample_account 1 0), Create 1 2 (\<lambda>_ _. sample_account 2 1),
     Modify (index_key 1 2) (\<lambda>a. a\<lparr>ao_owner := key_authority 2\<rparr>)]"

lemma member_ops_return: "fst (Undo_Correct.run_ops member_ops member_database) = Inr ()"
  by code_simp

theorem memberships_invert_authorities_witness:
  "\<exists>pi g. get_index 1 2 (snd (Undo_Correct.run_ops member_ops member_database)) = Inr pi \<and> derived pi = Generic g \<and>
    at_key (account_to_key_memberships (member_index id pi)) 2 = {i. \<exists>v. gi_find g i = Some v \<and> 2 \<in> fst ` set (key_auths (ao_owner v))}"
proof -
  have run: "Undo_Correct.run_ops member_ops member_database = (Inr (), snd (Undo_Correct.run_ops member_ops member_database))"
    using member_ops_return by (metis prod.collapse)
  have start: "get_index 1 2 member_database = Inr \<lparr>derived = Generic \<lparr>gi_rows = [], gi_clash = (\<lambda>a b. ao_name a = ao_name b)\<rparr>,
      next_id = index_key 1 2, default_object = sample_account 0 0, events = []\<rparr>"
    by (simp add: member_database_def opened_database_index)
  show ?thesis using memberships_invert_authorities [OF start _ _ _ run, of _ id] by auto
qed

section \<open>Proposals\<close>

definition waiting_proposal :: "account list \<Rightarrow> proposal_object" where
  \<comment> \<open>it needs account 7, and these have approved it\<close>
  "waiting_proposal approvals =
     \<lparr>po_expiration_time = 0, po_review_period_time = None, po_proposed_transaction = transaction.truncate sample_transaction,
      po_required_active_approvals = [7], po_available_active_approvals = approvals, po_required_owner_approvals = [],
      po_available_owner_approvals = [], po_available_key_approvals = []\<rparr>"

definition proposal_database :: "proposal_object object_database" where
  "proposal_database = opened_database 1 10 (Generic \<lparr>gi_rows = [], gi_clash = (\<lambda>_ _. False)\<rparr>) (waiting_proposal [])"

definition approvals_in :: "proposal_object object_database \<Rightarrow> account \<Rightarrow> object_id set" where
  "approvals_in db a = (case get_index 1 10 db of Inl _ \<Rightarrow> {} | Inr pi \<Rightarrow> at_key (approval_index id pi) a)"

text \<open>
  \<open>undo\<close> brings a removed proposal back with \<open>insert\<close>, which tells the secondary indexes nothing: the proposal is stored, and
  the index does not have it under the account that must approve it.
\<close>

definition restored_proposal :: "(unit res \<times> proposal_object object_database)" where
  "restored_proposal = st_bind (Undo_Correct.run_ops [Create 1 10 (\<lambda>_ _. waiting_proposal [])]) (\<lambda>_.
     st_bind (start_undo_session False) (\<lambda>_. st_bind (db_remove (index_key 1 10)) (\<lambda>_. undo))) proposal_database"

lemma undone_removal_is_not_indexed:
  "fst restored_proposal = Inr ()" "obj_view (snd restored_proposal) (index_key 1 10) \<noteq> None"
  "approvals_in (snd restored_proposal) 7 = {}"
  by (code_simp, code_simp, code_simp)

text \<open>
  Modifications do not reach the index of approvals.  After a restart it has the accounts that have approved; when one of them
  withdraws and the proposal is removed, the index keeps the removed proposal under that account.
\<close>

definition withdrawn_approval :: "(unit res \<times> proposal_object object_database)" where
  "withdrawn_approval = st_bind (db_load 1 10 (index_key 1 10) (waiting_proposal [8])) (\<lambda>_.
     Undo_Correct.run_ops [Modify (index_key 1 10) (\<lambda>_. waiting_proposal []), Remove (index_key 1 10)]) proposal_database"

lemma withdrawn_approval_stays_indexed:
  "fst withdrawn_approval = Inr ()" "obj_view (snd withdrawn_approval) (index_key 1 10) = None"
  "approvals_in (snd withdrawn_approval) 8 = {index_key 1 10}"
  by (code_simp, code_simp, code_simp)

end
