(* ===== verification/Account_History.thy ===== *)
theory Account_History
  imports Transactions
begin

text \<open>
  The history of the accounts: which accounts an operation concerns (\<open>libraries/app/impacted.cpp\<close>), the lists that the
  plugin \<open>account_history\<close> keeps of the operations applied in a block, and how \<open>history_api\<close> reads them
  (\<open>libraries/app/api.cpp\<close>).  An account and its statistics object are created together; the two fields of the
  statistics that only the plugin uses are kept here by account.
\<close>

section \<open>Data\<close>

datatype operation_result = Void_Result | Object_Result object_id | Asset_Result asset

record operation_history =
  oh_op :: operation
  oh_result :: operation_result
  oh_block_num :: "32 word"
  oh_trx_in_block :: "16 word"
  oh_op_in_trx :: "16 word"
  oh_virtual_op :: "16 word"

record history_node =
  hn_account :: account
  hn_operation :: nat
  hn_sequence :: "32 word"
  hn_next :: nat

record history_head =
  most_recent_op :: nat
  total_ops :: "32 word"

record histories =
  hs_operations :: "operation_history table"
  hs_nodes :: "history_node table"
  hs_heads :: "account \<Rightarrow> history_head"

definition no_histories :: histories where
  "no_histories = \<lparr>hs_operations = \<lparr>rows = [], next_instance = 0\<rparr>, hs_nodes = \<lparr>rows = [], next_instance = 0\<rparr>,
     hs_heads = (\<lambda>_. \<lparr>most_recent_op = 0, total_ops = 0\<rparr>)\<rparr>"

definition history_node_clash :: "history_node \<Rightarrow> history_node \<Rightarrow> bool" where
  \<comment> \<open>the unique keys \<open>by_seq\<close> and \<open>by_op\<close>\<close>
  "history_node_clash m n \<longleftrightarrow> hn_account m = hn_account n \<and> (hn_sequence m = hn_sequence n \<or> hn_operation m = hn_operation n)"

section \<open>Which accounts an operation concerns\<close>

definition add_authority_accounts :: "authority \<Rightarrow> account list \<Rightarrow> account list" where
  "add_authority_accounts au = fold (\<lambda>p. insort_insert (fst p)) (account_auths au)"

definition required_authorities_into :: "operation \<Rightarrow> account list \<times> authority list \<Rightarrow> account list \<times> authority list" where
  \<comment> \<open>\<open>operation_get_required_authorities( op, impacted, impacted, other )\<close>, with one set for active and owner\<close>
  "required_authorities_into op = (\<lambda>(impacted, other).
     case operation_get_required_authorities (operation_auths op) (impacted, impacted, other) of
       (active, owner, other1) \<Rightarrow> (fold insort_insert owner active, other1))"

fun operation_get_impacted_accounts :: "operation \<Rightarrow> account list \<Rightarrow> account list" where
  "operation_get_impacted_accounts (Transfer op) = add_authority_accounts (key_authority (tf_to op))"
| "operation_get_impacted_accounts (Account_Create op) =
     (\<lambda>as. add_authority_accounts (ac_owner op) (insort_insert (ac_registrar op) as))"
| "operation_get_impacted_accounts (Account_Update op) =
     (\<lambda>as. case au_owner op of None \<Rightarrow> insort_insert (au_account op) as
           | Some au \<Rightarrow> add_authority_accounts au (insort_insert (au_account op) as))"
| "operation_get_impacted_accounts (Miner_Create op) = insort_insert (mc_miner_account op)"
| "operation_get_impacted_accounts (Miner_Update op) = insort_insert (mu_miner_account op)"
| "operation_get_impacted_accounts (Proposal_Create fee payer proposed_ops expiration_time review) =
     (\<lambda>as. case fold required_authorities_into proposed_ops (as, []) of
             (as1, other) \<Rightarrow> fold add_authority_accounts other as1)"
| "operation_get_impacted_accounts (Vesting_Balance_Create op) = insort_insert (vc_owner op)"
| "operation_get_impacted_accounts (Transfer_To_Blind op) =
     (\<lambda>as. fold (\<lambda>x. add_authority_accounts (bo_owner x)) (tb_outputs op) (insort_insert (tb_from op) as))"
| "operation_get_impacted_accounts (Blind_Transfer op) =
     (\<lambda>as. fold (\<lambda>x. add_authority_accounts (bo_owner x)) (bt_outputs op)
            (fold (\<lambda>x. add_authority_accounts (bi_owner x)) (bt_inputs op) as))"
| "operation_get_impacted_accounts (Transfer_From_Blind op) =
     (\<lambda>as. fold (\<lambda>x. add_authority_accounts (bi_owner x)) (fb_inputs op) (insort_insert (fb_to op) as))"
| "operation_get_impacted_accounts (Transfer_To_Confidential op) = insort_insert (tc_from op)"
| "operation_get_impacted_accounts (Transfer_From_Confidential op) =
     fold (\<lambda>k. add_authority_accounts (key_authority k)) (fc_to op)"
| "operation_get_impacted_accounts _ = (\<lambda>as. as)"

definition transaction_get_impacted_accounts :: "operation list \<Rightarrow> account list \<Rightarrow> account list" where
  "transaction_get_impacted_accounts ops = fold operation_get_impacted_accounts ops"

definition impacted_accounts :: "operation_history \<Rightarrow> account list res" where
  \<comment> \<open>the set built in \<open>update_account_histories\<close>; the new account is the result of its creation\<close>
  "impacted_accounts oh =
     (case required_authorities_into (oh_op oh) ([], []) of (required, other) \<Rightarrow>
        res_bind (if op_which (oh_op oh) = 1
                  then case oh_result oh of
                         Object_Result i \<Rightarrow> Inr (insort_insert (unat (instance_of i)) required)
                       | _ \<Rightarrow> Inl Assert_Exception
                  else Inr (operation_get_impacted_accounts (oh_op oh) required))
          (\<lambda>impacted. Inr (fold add_authority_accounts other impacted)))"

section \<open>The plugin\<close>

definition statistics_exist :: "chain \<Rightarrow> account \<Rightarrow> unit res" where
  \<comment> \<open>\<open>account_id(db).statistics(db)\<close>\<close>
  "statistics_exist c a = res_bind (tbl_get a (c_accounts c)) (\<lambda>ao.
     res_bind (tbl_get (ao_statistics ao) (c_statistics c)) (\<lambda>_. Inr ()))"

definition add_history :: "chain \<Rightarrow> nat \<Rightarrow> account \<Rightarrow> histories \<Rightarrow> histories res" where
  "add_history c operation_id a h =
     res_bind (statistics_exist c a) (\<lambda>_.
     let head = hs_heads h a;
         node = \<lparr>hn_account = a, hn_operation = operation_id, hn_sequence = total_ops head + 1, hn_next = most_recent_op head\<rparr>
     in res_bind (tbl_create history_node_clash node (hs_nodes h)) (\<lambda>(i, nodes).
        Inr (h\<lparr>hs_nodes := nodes, hs_heads := (hs_heads h)(a := \<lparr>most_recent_op = i, total_ops = hn_sequence node\<rparr>)\<rparr>)))"

definition add_tracked_history :: "chain \<Rightarrow> nat \<Rightarrow> account \<Rightarrow> histories \<Rightarrow> histories res" where
  \<comment> \<open>for an account that the configuration tracks: the account and the sequence number keep their default\<close>
  "add_tracked_history c operation_id a h =
     res_bind (statistics_exist c a) (\<lambda>_.
     let head = hs_heads h a;
         node = \<lparr>hn_account = 0, hn_operation = operation_id, hn_sequence = 0, hn_next = most_recent_op head\<rparr>
     in res_bind (tbl_create history_node_clash node (hs_nodes h)) (\<lambda>(i, nodes).
        Inr (h\<lparr>hs_nodes := nodes, hs_heads := (hs_heads h)(a := head\<lparr>most_recent_op := i\<rparr>)\<rparr>)))"

definition record_operation :: "chain \<Rightarrow> account list \<Rightarrow> operation_history option \<Rightarrow> histories \<Rightarrow> histories res" where
  \<comment> \<open>one round of \<open>update_account_histories\<close>; an operation that failed is created and removed, which uses its number up\<close>
  "record_operation c tracked o_op h =
     (let oid = next_instance (hs_operations h)
      in case o_op of
           None \<Rightarrow> Inr (h\<lparr>hs_operations := (hs_operations h)\<lparr>next_instance := oid + 1\<rparr>\<rparr>)
         | Some oh \<Rightarrow>
             res_bind (tbl_create no_clash oh (hs_operations h)) (\<lambda>(i, ops).
             res_bind (impacted_accounts oh) (\<lambda>impacted.
             if tracked = [] then res_fold (add_history c i) impacted (h\<lparr>hs_operations := ops\<rparr>)
             else res_fold (add_tracked_history c i) (filter (\<lambda>a. a \<in> set impacted) tracked) (h\<lparr>hs_operations := ops\<rparr>))))"

definition update_account_histories :: "chain \<Rightarrow> account list \<Rightarrow> operation_history option list \<Rightarrow> histories \<Rightarrow> histories res" where
  "update_account_histories c tracked = res_fold (record_operation c tracked)"

section \<open>The interface\<close>

partial_function (option) history_loop :: "histories \<Rightarrow> nat \<Rightarrow> nat \<Rightarrow> history_node \<Rightarrow> nat \<Rightarrow> operation_history list res option" where
  \<comment> \<open>the loop of \<open>get_account_history\<close> at a node, \<open>room\<close> being what is left of the limit; a node whose
     next is number 0 is the last\<close>
  [code]: "history_loop h stop start node room =
     (if \<not> (hn_operation node > stop \<and> room > 0) then Some (Inr [])
      else let shown = hn_operation node \<le> start
           in case (if shown then res_bind (tbl_get (hn_operation node) (hs_operations h)) (\<lambda>oh. Inr [oh]) else Inr []) of
                Inl e \<Rightarrow> Some (Inl e)
              | Inr result \<Rightarrow>
                  if hn_next node = 0 then Some (Inr result)
                  else case tbl_get (hn_next node) (hs_nodes h) of
                         Inl e \<Rightarrow> Some (Inl e)
                       | Inr next_node \<Rightarrow>
                           Option.bind (history_loop h stop start next_node (if shown then room - 1 else room))
                             (\<lambda>r. Some (res_bind r (\<lambda>rest. Inr (result @ rest)))))"

definition get_account_history :: "chain \<Rightarrow> account \<Rightarrow> nat \<Rightarrow> nat \<Rightarrow> nat \<Rightarrow> histories \<Rightarrow> operation_history list res option" where
  "get_account_history c a stop limit start h =
     (if \<not> limit \<le> 100 then Some (Inl Assert_Exception)
      else case statistics_exist c a of
             Inl e \<Rightarrow> Some (Inl e)
           | Inr _ \<Rightarrow>
               if most_recent_op (hs_heads h a) = 0 then Some (Inr [])
               else case tbl_get (most_recent_op (hs_heads h a)) (hs_nodes h) of
                      Inl e \<Rightarrow> Some (Inl e)
                    | Inr node \<Rightarrow> history_loop h stop (if start = 0 then hn_operation node else start) node limit)"

end
