(* ===== verification/History_Properties.thy ===== *)
theory History_Properties
  imports Account_History Sample_Chain
begin

text \<open>
  The histories of accounts: the nodes of each account form a list from its most recent operation to its first one,
  recording operations extends the lists of the accounts concerned, and the interface reads them.
\<close>

section \<open>The lists\<close>

definition nodes_of :: "histories \<Rightarrow> account \<Rightarrow> (nat \<times> history_node) list" where
  \<comment> \<open>in the order of their creation\<close>
  "nodes_of h a = filter (\<lambda>(i, n). hn_account n = a) (rows (hs_nodes h))"

fun newest :: "(nat \<times> history_node) list \<Rightarrow> nat" where
  "newest [] = 0"
| "newest ((i, n) # ns) = i"

fun linked :: "(nat \<times> history_node) list \<Rightarrow> bool" where
  \<comment> \<open>newest first: each node points to the one before it\<close>
  "linked [] = True"
| "linked ((i, n) # ns) = (hn_next n = newest ns \<and> linked ns)"

definition operations_of :: "histories \<Rightarrow> account \<Rightarrow> operation_history option list" where
  "operations_of h a = map (\<lambda>(i, n). tbl_find (hn_operation n) (hs_operations h)) (nodes_of h a)"

definition histories_ok :: "histories \<Rightarrow> bool" where
  "histories_ok h \<longleftrightarrow> tbl_ok (hs_operations h) \<and> tbl_ok (hs_nodes h) \<and> sorted_wrt (<) (map fst (rows (hs_nodes h))) \<and>
     (\<forall>a. linked (rev (nodes_of h a)) \<and> most_recent_op (hs_heads h a) = newest (rev (nodes_of h a)) \<and>
        total_ops (hs_heads h a) = word_of_nat (length (nodes_of h a)) \<and>
        sorted_wrt (<) (map (hn_operation \<circ> snd) (nodes_of h a))) \<and>
     (\<forall>(i, n) \<in> set (rows (hs_nodes h)). tbl_find (hn_operation n) (hs_operations h) \<noteq> None)"

lemma no_histories_ok: "histories_ok no_histories"
  by (simp add: histories_ok_def no_histories_def tbl_ok_def nodes_of_def)

section \<open>Sets of accounts\<close>

lemma distinct_fold_insort: "distinct as \<Longrightarrow> distinct (fold (\<lambda>x. insort_insert (f x)) xs as)"
  by (induction xs arbitrary: as) (simp_all add: distinct_insort_insert)

lemma distinct_add_authority_accounts: "distinct as \<Longrightarrow> distinct (add_authority_accounts au as)"
  unfolding add_authority_accounts_def by (rule distinct_fold_insort)

lemma distinct_fold_accounts: "(\<And>x as. distinct as \<Longrightarrow> distinct (f x as)) \<Longrightarrow> distinct as \<Longrightarrow> distinct (fold f xs as)"
  by (induction xs arbitrary: as) simp_all

lemma distinct_fold_authorities: "distinct as \<Longrightarrow> distinct (fold (\<lambda>x. add_authority_accounts (f x)) xs as)"
  by (rule distinct_fold_accounts) (rule distinct_add_authority_accounts)

lemma distinct_required: "distinct (fst p) \<Longrightarrow> distinct (fst (required_authorities_into op p))"
  by (cases p) (simp add: required_authorities_into_def operation_get_required_authorities_def distinct_insort_insert
    distinct_fold_insort [where f = "\<lambda>x. x"])

lemma distinct_required_all: "distinct (fst p) \<Longrightarrow> distinct (fst (fold required_authorities_into ops p))"
  by (induction ops arbitrary: p) (simp_all add: distinct_required)

lemma distinct_impacted_operation: "distinct as \<Longrightarrow> distinct (operation_get_impacted_accounts op as)"
proof (cases op)
  case (Proposal_Create fee payer ops t r)
  assume as: "distinct as"
  obtain as1 other where f: "fold required_authorities_into ops (as, []) = (as1, other)" by (cases "fold required_authorities_into ops (as, [])") auto
  then have "distinct as1" using distinct_required_all [of "(as, [])" ops] as by simp
  then show ?thesis using distinct_fold_authorities [where f = id] by (simp add: Proposal_Create f)
qed (simp_all add: distinct_add_authority_accounts distinct_fold_authorities distinct_insort_insert split: option.splits)

lemma impacted_accounts_distinct: "impacted_accounts oh = Inr as \<Longrightarrow> distinct as"
proof -
  obtain as1 other where r: "required_authorities_into (oh_op oh) ([], []) = (as1, other)" by (cases "required_authorities_into (oh_op oh) ([], [])") auto
  have "distinct as1" using distinct_required [of "([], [])" "oh_op oh"] r by simp
  moreover assume "impacted_accounts oh = Inr as"
  ultimately show ?thesis
    using distinct_fold_authorities [where f = id]
    by (auto simp: impacted_accounts_def r res_simps distinct_insort_insert distinct_impacted_operation split: if_splits operation_result.splits)
qed

section \<open>Adding to the lists\<close>

lemma histories_okD:
  assumes "histories_ok h" and "(j, n) \<in> set (nodes_of h a)"
  shows "hn_operation n < next_instance (hs_operations h)" and "tbl_find (hn_operation n) (hs_operations h) \<noteq> None"
    and "tbl_find j (hs_nodes h) = Some n"
proof -
  have mem: "(j, n) \<in> set (rows (hs_nodes h))" using assms(2) by (auto simp: nodes_of_def)
  then show f: "tbl_find (hn_operation n) (hs_operations h) \<noteq> None" using assms(1) unfolding histories_ok_def by fast
  have ok: "tbl_ok (hs_operations h)" "tbl_ok (hs_nodes h)" using assms(1) by (simp_all add: histories_ok_def)
  show "hn_operation n < next_instance (hs_operations h)"
    using f ok(1) by (auto simp: tbl_find_iff tbl_ok_def)
  show "tbl_find j (hs_nodes h) = Some n" using mem ok(2) by (simp add: tbl_find_iff)
qed

lemma add_history_step:
  assumes ok: "histories_ok h" and run: "add_history c i a h = Inr h'" and op: "tbl_find i (hs_operations h) \<noteq> None"
    and below: "\<forall>(j, n) \<in> set (nodes_of h a). hn_operation n < i"
  shows "histories_ok h' \<and> hs_operations h' = hs_operations h \<and>
    (\<exists>k n. hn_operation n = i \<and> (\<forall>b. nodes_of h' b = nodes_of h b @ (if b = a then [(k, n)] else [])))"
proof -
  define n where "n = \<lparr>hn_account = a, hn_operation = i, hn_sequence = total_ops (hs_heads h a) + 1, hn_next = most_recent_op (hs_heads h a)\<rparr>"
  obtain k nodes where cr: "tbl_create history_node_clash n (hs_nodes h) = Inr (k, nodes)"
    and h': "h' = h\<lparr>hs_nodes := nodes, hs_heads := (hs_heads h)(a := \<lparr>most_recent_op = k, total_ops = total_ops (hs_heads h a) + 1\<rparr>)\<rparr>"
    using run by (auto simp: add_history_def Let_def res_simps n_def)
  note new = tbl_createD [OF cr]
  have nodes: "nodes_of h' b = nodes_of h b @ (if b = a then [(k, n)] else [])" for b
    by (simp add: nodes_of_def h' new(2) n_def)
  have "tbl_ok nodes" using ok cr by (auto simp: histories_ok_def intro: tbl_create_ok)
  moreover have "sorted_wrt (<) (map fst (rows nodes))"
    using ok new(1,2) by (auto simp: histories_ok_def sorted_wrt_append tbl_ok_def)
  moreover have "\<forall>(j, m) \<in> set (rows nodes). tbl_find (hn_operation m) (hs_operations h) \<noteq> None"
    using ok op new(2) by (auto simp: histories_ok_def n_def)
  moreover have "linked (rev (nodes_of h' b)) \<and> most_recent_op (hs_heads h' b) = newest (rev (nodes_of h' b)) \<and>
      total_ops (hs_heads h' b) = word_of_nat (length (nodes_of h' b)) \<and> sorted_wrt (<) (map (hn_operation \<circ> snd) (nodes_of h' b))" for b
    using ok below nodes [of b] by (cases "b = a") (auto simp: histories_ok_def h' n_def sorted_wrt_append add.commute)
  ultimately show ?thesis
    using ok nodes by (intro conjI exI [of _ k] exI [of _ n]) (simp_all add: histories_ok_def h' n_def)
qed

lemma add_histories:
  assumes "res_fold (add_history c i) as h = Inr h'" and "distinct as" and "histories_ok h" and "tbl_find i (hs_operations h) = Some oh"
    and "\<forall>a \<in> set as. \<forall>(j, n) \<in> set (nodes_of h a). hn_operation n < i"
  shows "histories_ok h' \<and> hs_operations h' = hs_operations h \<and>
    (\<forall>b. operations_of h' b = operations_of h b @ (if b \<in> set as then [Some oh] else []))"
  using assms
proof (induction as arbitrary: h)
  case (Cons a as)
  obtain h1 where 1: "add_history c i a h = Inr h1" and rest: "res_fold (add_history c i) as h1 = Inr h'"
    using Cons.prems(1) by (auto simp: res_simps)
  obtain k n where s: "histories_ok h1" "hs_operations h1 = hs_operations h" "hn_operation n = i"
    "\<And>b. nodes_of h1 b = nodes_of h b @ (if b = a then [(k, n)] else [])"
    using add_history_step [OF Cons.prems(3) 1] Cons.prems(4,5) by auto
  have "\<forall>b \<in> set as. \<forall>(j, m) \<in> set (nodes_of h1 b). hn_operation m < i"
    using Cons.prems(2,5) by (auto simp: s(4))
  then have "histories_ok h' \<and> hs_operations h' = hs_operations h1 \<and>
      (\<forall>b. operations_of h' b = operations_of h1 b @ (if b \<in> set as then [Some oh] else []))"
    using Cons.IH [OF rest] Cons.prems(2,4) s(1,2) by simp
  moreover have "operations_of h1 b = operations_of h b @ (if b = a then [Some oh] else [])" for b
    using Cons.prems(4) by (simp add: operations_of_def s(2,3,4))
  ultimately show ?case using Cons.prems(2) s(2) by auto
qed simp

lemma record_operation_step:
  assumes ok: "histories_ok h" and run: "record_operation c [] o_op h = Inr h'"
  shows "histories_ok h' \<and> (\<forall>a. operations_of h' a = operations_of h a @
    (case o_op of None \<Rightarrow> [] | Some oh \<Rightarrow> (case impacted_accounts oh of Inr as \<Rightarrow> if a \<in> set as then [Some oh] else [] | Inl e \<Rightarrow> [])))"
proof (cases o_op)
  case None
  then have h': "h' = h\<lparr>hs_operations := (hs_operations h)\<lparr>next_instance := next_instance (hs_operations h) + 1\<rparr>\<rparr>"
    using run by (simp add: record_operation_def Let_def)
  have "histories_ok h'" using ok by (auto simp: histories_ok_def h' tbl_ok_def nodes_of_def tbl_find_def less_SucI)
  moreover have "operations_of h' a = operations_of h a" for a by (simp add: operations_of_def nodes_of_def h' tbl_find_def)
  ultimately show ?thesis using None by simp
next
  case (Some oh)
  obtain i ops as where cr: "tbl_create no_clash oh (hs_operations h) = Inr (i, ops)" and as: "impacted_accounts oh = Inr as"
    and add: "res_fold (add_history c i) as (h\<lparr>hs_operations := ops\<rparr>) = Inr h'"
    using run by (auto simp: record_operation_def Let_def res_simps Some)
  let ?h = "h\<lparr>hs_operations := ops\<rparr>"
  have tok: "tbl_ok (hs_operations h)" using ok by (simp add: histories_ok_def)
  note find = tbl_find_create [OF tok cr]
  have nodes: "nodes_of ?h a = nodes_of h a" for a by (simp add: nodes_of_def)
  have i: "i = next_instance (hs_operations h)" by (rule tbl_createD(1) [OF cr])
  have old: "hn_operation n < i" if "(j, n) \<in> set (nodes_of h a)" for j n a
    using histories_okD(1) [OF ok that] i by simp
  have "\<forall>(j, n) \<in> set (rows (hs_nodes h)). tbl_find (hn_operation n) ops \<noteq> None"
    using ok find by (auto simp: histories_ok_def)
  then have "histories_ok ?h" using ok tbl_create_ok [OF tok cr] nodes by (simp add: histories_ok_def)
  from add_histories [OF add impacted_accounts_distinct [OF as] this, of oh] have
    "histories_ok h' \<and> (\<forall>b. operations_of h' b = operations_of ?h b @ (if b \<in> set as then [Some oh] else []))"
    using find old nodes by fastforce
  moreover have "operations_of ?h a = operations_of h a" for a
    using old find unfolding operations_of_def nodes by (fastforce intro!: map_cong)
  ultimately show ?thesis using Some as by simp
qed

lemma update_histories:
  assumes "histories_ok h" and "update_account_histories c [] ops h = Inr h'"
  shows "histories_ok h' \<and> (\<forall>a. operations_of h' a = operations_of h a @
    filter (\<lambda>o_op. case o_op of None \<Rightarrow> False | Some oh \<Rightarrow> (case impacted_accounts oh of Inr as \<Rightarrow> a \<in> set as | Inl e \<Rightarrow> False)) ops)"
  using assms
proof (induction ops arbitrary: h)
  case (Cons x ops)
  obtain h1 where 1: "record_operation c [] x h = Inr h1" and rest: "update_account_histories c [] ops h1 = Inr h'"
    using Cons.prems(2) by (auto simp: update_account_histories_def res_simps)
  note s = record_operation_step [OF Cons.prems(1) 1]
  show ?case
    using Cons.IH [OF _ rest] s by (auto split: option.splits sum.splits)
qed (simp add: update_account_histories_def)


section \<open>Reading the lists\<close>




section \<open>Examples\<close>

definition sample_operation :: "nat \<Rightarrow> operation_history" where
  \<comment> \<open>account 10 pays this amount\<close>
  "sample_operation k = \<lparr>oh_op = Transfer (sample_transfer \<lparr>amount = 100000, asset_id = 0\<rparr> (int k)), oh_result = Void_Result,
     oh_block_num = 1, oh_trx_in_block = 0, oh_op_in_trx = 0, oh_virtual_op = 0\<rparr>"

definition sample_history :: histories where
  \<comment> \<open>after two payments, with a failed operation in between\<close>
  "sample_history = (case update_account_histories sample_chain [] [Some (sample_operation 1), None, Some (sample_operation 2)] no_histories of
     Inr h \<Rightarrow> h | Inl e \<Rightarrow> no_histories)"

lemma sample_history_run:
  "update_account_histories sample_chain [] [Some (sample_operation 1), None, Some (sample_operation 2)] no_histories = Inr sample_history"
proof -
  have "is_ok (update_account_histories sample_chain [] [Some (sample_operation 1), None, Some (sample_operation 2)] no_histories)"
    by code_simp
  then show ?thesis by (auto simp: is_ok_iff sample_history_def)
qed

text \<open>
  The node of the very first operation has the number that stands for the end of a list: a history that has only this
  node is reported as empty.
\<close>

lemma first_operation_is_not_shown:
  "case update_account_histories sample_chain [] [Some (sample_operation 1)] no_histories of
     Inl e \<Rightarrow> False
   | Inr h \<Rightarrow> length (operations_of h 10) = 1 \<and> get_account_history sample_chain 10 0 100 0 h = Some (Inr [])"
  by code_simp

text \<open>With tracked accounts every node has the same default account and sequence number, and the second one is refused.\<close>

lemma tracked_history_collides:
  "case update_account_histories sample_chain [10] [Some (sample_operation 1), Some (sample_operation 2)] no_histories of
     Inl e \<Rightarrow> e = Assert_Exception | Inr h \<Rightarrow> False"
  "is_ok (update_account_histories sample_chain [10] [Some (sample_operation 1)] no_histories)"
  by (code_simp, code_simp)

section \<open>Properties\<close>

text \<open>C28: with no tracked accounts (the default of \<open>track-account\<close>) and when it returns without an exception, recording the
  operations of a block keeps the histories well linked, and extends the history of every account by exactly the operations
  that concern it, in their order; failed operations leave no trace.  With tracked accounts this fails: the second operation
  is refused, see \<open>tracked_history_collides\<close>.\<close>

theorem histories_record_operations:
  assumes "histories_ok h" and "update_account_histories c [] ops h = Inr h'"
  shows "histories_ok h' \<and> (\<forall>a. operations_of h' a = operations_of h a @
    filter (\<lambda>o_op. case o_op of None \<Rightarrow> False | Some oh \<Rightarrow> (case impacted_accounts oh of Inr as \<Rightarrow> a \<in> set as | Inl e \<Rightarrow> False)) ops)"
  using assms by (rule update_histories)

theorem histories_record_operations_witness:
  "histories_ok sample_history \<and> operations_of sample_history 10 = [Some (sample_operation 1), Some (sample_operation 2)]"
proof -
  have "impacted_accounts (sample_operation k) = Inr [10]" for k
    by (simp add: impacted_accounts_def sample_operation_def required_authorities_into_def operation_get_required_authorities_def
      pays_def sample_transfer_def add_authority_accounts_def key_authority_def insort_insert_key_def)
  then show ?thesis
    using histories_record_operations [OF no_histories_ok sample_history_run]
    by (simp add: operations_of_def no_histories_def nodes_of_def)
qed



end
