(* ===== verification/Spec2Isabelle.thy ===== *)
theory Spec2Isabelle
  imports Undo_Properties Block_Database Fork_Properties Vesting_Properties Authority_Properties Account_Names Votes
    Transaction_Properties Block_Properties Node_Properties Monetary_Properties Block_Termination
    Synchronisation_Properties Index_Properties History_Properties
begin

text \<open>
  A verification development of the core of the cyva blockchain node: the object database with its
  undo history (\<open>libraries/db\<close>) and the chain (\<open>libraries/chain\<close>), from single operations up to blocks,
  fork switches and pending transactions.

  \<^bold>\<open>How the program works, and where its parts are.\<close>  The state of the chain is a database of objects in
  indexes.  A block carries transactions, a transaction carries operations, and the evaluator of an
  operation changes objects.  Every change is recorded by the undo database, so that a failing transaction
  or block, and a fork that lost, can be taken back.  A node keeps recent blocks in a fork
  database, all blocks of its chain in a block database, and transactions that no block carries yet as pending.
  The theories follow this order; names of definitions are those of the code where Isabelle allows it.

  \<^item> \<^bold>\<open>Shared\<close> (\<open>Prelude\<close>): exceptions, results (an exception or a value), state-passing computations whose
    state survives an exception, as C++ side effects do, loops that end at the first exception, decimal text.
  \<^item> \<^bold>\<open>Object database\<close> (\<open>Object_Id\<close>, \<open>Object_Index\<close>, \<open>Object_Database\<close>; \<open>libraries/db\<close>, files \<open>object_id.hpp\<close>,
    \<open>generic_index.hpp\<close>, \<open>simple_index.hpp\<close>, \<open>flat_index.hpp\<close>, \<open>index.hpp\<close>, \<open>object_database.cpp\<close>): identifiers packed
    into 64 bits, the three kinds of container behind the class \<open>index\<close>, and the database with its recorders.  The
    locales of \<open>Object_Index\<close> are the laws of a container, interpreted on all three.
  \<^item> \<^bold>\<open>Undo database\<close> (\<open>Undo_Database\<close>, \<open>Undo_Effects\<close>, \<open>Undo_Correct\<close>, \<open>Undo_Merge\<close>, \<open>Undo_Restore\<close>,
    \<open>Undo_Properties\<close>; \<open>undo_database.cpp\<close>): the code keeps old values, new and removed objects per session; the
    specification is a stack of snapshots (\<open>saved\<close>), and every operation is proved to be the expected one on that stack.
  \<^item> \<^bold>\<open>Blocks\<close> (\<open>Blocks\<close>, \<open>Block_Database\<close>, \<open>Fork_Database\<close>, \<open>Fork_Correct\<close>, \<open>Fork_Properties\<close>; \<open>block.cpp\<close>,
    \<open>block_database.cpp\<close>, \<open>fork_database.cpp\<close>): headers and Merkle root, the two files of stored blocks as a map from
    identifiers and numbers to blocks, the tree of recent blocks with its head and window.
  \<^item> \<^bold>\<open>Values and rules\<close> (\<open>Assets\<close>, \<open>Vesting\<close>, \<open>Vesting_Properties\<close>, \<open>Authority\<close>, \<open>Authority_Correct\<close>,
    \<open>Authority_Properties\<close>, \<open>Account_Names\<close>, \<open>Votes\<close>, \<open>Fees\<close>, \<open>Operations\<close>; \<open>protocol/*.cpp\<close>, \<open>asset_object.cpp\<close>,
    \<open>vesting_balance_object.cpp\<close>, \<open>vote_count.hpp\<close>): amounts, prices and their text, vesting policies, the signature
    check, names, vote identifiers and the vote counter, the fee schedule, and all operations with their validation.
  \<^item> \<^bold>\<open>Chain state and evaluators\<close> (\<open>Tables\<close>, \<open>Chain_State\<close>, \<open>Balances\<close>, \<open>Evaluators\<close>, \<open>Confidential\<close>,
    \<open>Transactions\<close>; \<open>db_balance.cpp\<close>, \<open>evaluator.cpp\<close>, \<open>*_evaluator.cpp\<close>, \<open>proposal_object.cpp\<close>, \<open>db_block.cpp\<close>): the
    tables of the chain with the unique keys of their indexes, one definition per evaluator step, the execution
    of proposals, \<open>apply_operation\<close> and \<open>_apply_transaction\<close> (\<open>apply_transaction\<close> here).
  \<^item> \<^bold>\<open>Blocks applied\<close> (\<open>Rewards\<close>, \<open>Schedule\<close>, \<open>Schedule_Properties\<close>, \<open>Updates\<close>, \<open>Maintenance\<close>, \<open>Apply_Block\<close>;
    \<open>db_cyva.cpp\<close>, \<open>db_miner_schedule.cpp\<close>, \<open>db_update.cpp\<close>, \<open>db_maint.cpp\<close>, \<open>db_block.cpp\<close>): rewards, slots and shuffling,
    the updates after the transactions, the maintenance with the tally, the election and the budget, \<open>_apply_block\<close>.
  \<^item> \<^bold>\<open>Value\<close> (\<open>Books\<close>, \<open>Conservation\<close>, \<open>Transaction_Properties\<close>, \<open>Block_Books\<close>, \<open>Maintenance_Books\<close>,
    \<open>Block_Properties\<close>): what the chain holds of an asset, and that transactions conserve it and blocks keep the
    books of the core asset balanced.
  \<^item> \<^bold>\<open>The node\<close> (\<open>Node\<close>, \<open>Node_Steps\<close>, \<open>Node_Pending\<close>, \<open>Node_Properties\<close>; \<open>db_block.cpp\<close>, \<open>db_with.hpp\<close>):
    \<open>push_block\<close> with its fork switch, \<open>pop_block\<close>, \<open>push_transaction\<close>, \<open>generate_block\<close>, and the pending transactions
    around them.
  \<^item> \<^bold>\<open>Around the node\<close> (\<open>Synchronisation\<close>, \<open>Synopsis_Numbers\<close>, \<open>Synchronisation_Properties\<close>; \<open>application.cpp\<close>):
    what the network asks of the chain, with the synopsis of a chain and the answer to it; \<open>Account_History\<close>,
    \<open>History_Properties\<close> (\<open>impacted.cpp\<close>, \<open>account_history_plugin.cpp\<close>, \<open>api.cpp\<close>): the operations that concern an account, as the
    plugin links them and the interface reads them; \<open>Secondary_Indexes\<close>, \<open>Index_Properties\<close> (\<open>account_object.cpp\<close>,
    \<open>proposal_object.cpp\<close>): reverse lookups as functions of what their primary index tells them, over the locale
    \<open>reverse_index\<close>.
  \<^item> \<^bold>\<open>Genesis and the life of a chain\<close> (\<open>Genesis\<close>, \<open>Genesis_Books\<close>, \<open>Monetary_Policy\<close>, \<open>Monetary_Properties\<close>,
    \<open>Block_Termination\<close>; \<open>db_init.cpp\<close>, \<open>genesis_state.hpp\<close>): the initial state with its objects, and what holds of
    every chain of blocks applied to it.
  \<^item> \<^bold>\<open>Examples\<close> (\<open>Sample_Chain\<close>, \<open>Sample_Block\<close>, \<open>Sample_Node\<close>): concrete states on which the theorems with
    hypotheses are applied; each such theorem is followed by its \<open>_witness\<close>.

  \<^bold>\<open>What the theorems show.\<close>  The undo database restores snapshots exactly, merges and commits them, and loses an
  object when two objects swapped a unique key.  The block database is a map; the fork database keeps
  its window and head, and the two branches it returns meet in their most recent common ancestor.  Transactions
  conserve what is held of each asset, carry the authority of every account they need when they come alone, and
  always return, as blocks do.  Blocks extend the head, come from the scheduled miner, keep the books
  and mine two hundred million coins in all; what is irreversible was confirmed.  A genesis state that is accepted
  gives a chain with balanced books, and after any number of blocks before the block 545000 (from it to 563499 the
  payments to voters are not compared with the reward) the coins are the initial supply and the mined rewards.  A popped
  block takes back what appending it did, a fork switch replays the branch, and the pending transactions always
  lead from the tables after the head block to the current ones.  The numbered blocks on disk are the chain; the answer
  to a synopsis is a stretch of blocks that begins at a block of both chains and repeats few of them.  The index of
  memberships inverts the stored authorities, and the history of an account has the operations that concern it.  The rest are the properties of the parts:
  prices never gain by rounding, texts are read back, vesting balances cover what they release, an accepted signature
  set suffices.

  \<^bold>\<open>Numbers, errors, loops.\<close>  Machine integers are words of their width where they wrap, and integers with
  the check of \<open>fc::safe\<close> as a parameter (\<open>num_ops\<close>, contract \<open>num_ops_ok\<close>) where the code throws on overflow.  An
  exception is a value (\<open>Inl\<close>); undefined behaviour the code can reach is the exception
  \<open>Undefined_Behaviour\<close>, which no handler catches.  A computation that may not return is an option: \<open>apply_operation\<close> takes
  fuel for proposals that update proposals, and 2 is enough for every chain whose proposals were validated
  (\<open>transactions_always_return\<close>); the loop of \<open>clear_expired_proposals\<close> has one round per expired proposal and one
  more (\<open>blocks_always_return\<close>); the climb of
  \<open>fetch_branch_from\<close> has as many steps as items and is proved never to run out
  (\<open>fetch_branch_from_common_ancestor\<close>); the loops over a synopsis and over a history are partial functions, proved to
  return; \<open>pop_to\<close> has one step per undo state and one more, and popping without undo
  states throws.

  \<^bold>\<open>Parameters.\<close>  Code that is not in the repository is an argument: hashes, signatures, packing and byte
  reversal of \<open>fc\<close> (records \<open>externals\<close>, \<open>block_env\<close>, \<open>node_env\<close>, \<open>block_codec\<close>, \<open>block_view\<close>), the 128-bit integers and
  the order of equal keys in the multi-index containers of \<open>boost\<close>.  Hypotheses on them are named predicates (\<open>num_ops_ok\<close>,
  \<open>externals_ok\<close>, \<open>view_ok\<close>, \<open>codec_ok\<close>, \<open>hashing_ok\<close>) and each is met by the examples.

  \<^bold>\<open>Not modelled\<close>: the network (\<open>libraries/net\<close>, \<open>libraries/p2p\<close>: sockets, fibers and time), the start of the application, its
  other interfaces and the wallet (\<open>libraries/app\<close>, \<open>libraries/wallet\<close>, \<open>programs\<close>: queries and glue around the database), the
  other plugins,
  \<open>libraries/encrypt\<close> (big-integer and pairing arithmetic of libraries that are not in the repository), the word list of
  \<open>libraries/utilities\<close>, the opening and flushing of files, the debugging hooks, notifications and
  observers other than the account history, and the text and reflection layers.  The local pointers of a fork switch do not
  keep items alive (\<open>Fork_Database\<close>), and a proposal executed inside a block does not shorten the
  undo history of the node (\<open>Node\<close>; in the code by at most one snapshot, the oldest).  Assertions
  of C that are compiled out are not checks of the model.
\<close>

end
